(* ===== verification/Rust_Prelude.thy ===== *)
theory Rust_Prelude
  imports Main "HOL-Library.Word" "HOL-Library.Monad_Syntax"
begin

text \<open>
  What the linker's Rust sources use of the language, once for every component: machine integers
  as words, shifts and casts as the release profile compiles them, little-endian byte conversions,
  slice reads and writes whose out-of-range access is a panic (the value \<open>None\<close>), and the generic
  lemmas on bits and byte lists that the component proofs rest on.

  The profile the build scripts use (\<open>opt\<close>, which inherits \<open>release\<close>) compiles arithmetic to
  wrapping machine arithmetic, masks shift amounts to the width of the shifted value and drops
  \<open>debug_assert!\<close>; that is the semantics modelled here. A slice index out of range panics in every
  profile.
\<close>

unbundle bit_operations_syntax

section \<open>Machine integers\<close>

type_synonym u8 = "8 word"
type_synonym u16 = "16 word"
type_synonym u32 = "32 word"
type_synonym u64 = "64 word"

text \<open>An \<open>i64\<close> or \<open>i32\<close> is the word with the same bits, read by \<open>sint\<close> where the sign matters.\<close>

type_synonym i64 = "64 word"
type_synonym i32 = "32 word"

named_theorems rust_simps \<open>the language operations as word operations\<close>
named_theorems bit_facts \<open>what each operation does to a single bit\<close>

definition shl :: "'a::len word \<Rightarrow> nat \<Rightarrow> 'a word" where
  "shl x n = push_bit (n mod LENGTH('a)) x"

definition shr :: "'a::len word \<Rightarrow> nat \<Rightarrow> 'a word" where
  "shr x n = drop_bit (n mod LENGTH('a)) x"

text \<open>The arithmetic shift of the signed types.\<close>

definition sar :: "'a::len word \<Rightarrow> nat \<Rightarrow> 'a word" where
  "sar x n = signed_drop_bit (n mod LENGTH('a)) x"

lemma shl_small [rust_simps, simp]: "n < LENGTH('a) \<Longrightarrow> shl x n = push_bit n (x :: 'a::len word)"
  by (simp add: shl_def)

lemma shr_small [rust_simps, simp]: "n < LENGTH('a) \<Longrightarrow> shr x n = drop_bit n (x :: 'a::len word)"
  by (simp add: shr_def)

lemma sar_small [rust_simps, simp]:
  "n < LENGTH('a) \<Longrightarrow> sar x n = signed_drop_bit n (x :: 'a::len word)"
  by (simp add: sar_def)

text \<open>Wrapping subtraction on a \<open>u32\<close> that the model keeps as a natural number.\<close>

definition u32_sub :: "nat \<Rightarrow> nat \<Rightarrow> nat" where
  "u32_sub a b = (a + (2 ^ 32 - b)) mod 2 ^ 32"

lemma u32_sub_less [simp]:
  assumes "b \<le> a" "a < 2 ^ 32"
  shows "u32_sub a b = a - b"
proof -
  have "a + (2 ^ 32 - b) = (a - b) + 2 ^ 32"
    using assms by simp
  then have "u32_sub a b = ((a - b) + 2 ^ 32) mod 2 ^ 32"
    by (simp only: u32_sub_def)
  also have "\<dots> = a - b"
    using assms by (simp only: mod_add_self2) simp
  finally show ?thesis .
qed

section \<open>Low-bit masks and sign extension\<close>

lemma one_shl_minus_one:
  assumes "n < LENGTH('a)"
  shows "shl (1 :: 'a::len word) n - 1 = mask n"
  using assms by (simp add: mask_eq_exp_minus_1 push_bit_of_1)

lemma and_low_mask:
  assumes "n < LENGTH('a)"
  shows "x AND (shl 1 n - 1) = take_bit n (x :: 'a::len word)"
  by (simp only: one_shl_minus_one [OF assms] take_bit_eq_mask)

lemma bit_take_bit_word [bit_facts]:
  "bit (take_bit n (x :: 'a::len word)) i \<longleftrightarrow> i < n \<and> bit x i"
  by (simp add: bit_take_bit_iff)

lemma bit_word_less_length: "bit (x :: 'a::len word) i \<Longrightarrow> i < LENGTH('a)"
  by (rule bit_imp_le_length)

lemma take_bit_eqI:
  fixes x y :: "'a::len word"
  assumes "\<And>i. i < n \<Longrightarrow> bit x i = bit y i"
  shows "take_bit n x = take_bit n y"
  using assms by (intro bit_word_eqI) (auto simp: bit_facts)

text \<open>
  A word whose value lies in the signed range of \<open>n\<close> bits is the sign extension of its low \<open>n\<close>
  bits, and conversely; the unsigned range likewise with zero extension.
\<close>

lemma signed_take_bit_word_eq_iff:
  fixes x :: "'a::len word"
  assumes "n < LENGTH('a)"
  shows "signed_take_bit n x = x \<longleftrightarrow> - (2 ^ n) \<le> sint x \<and> sint x < 2 ^ n"
proof -
  have s: "sint (signed_take_bit n x) = signed_take_bit n (sint x)"
    using assms by (intro bit_eqI) (cases "n = LENGTH('a) - 1"; auto simp: bit_simps min_def)
  have "signed_take_bit n x = x \<longleftrightarrow> signed_take_bit n (sint x) = sint x"
    by (metis s signed_word_eqI)
  then show ?thesis
    by (simp add: signed_take_bit_int_eq_self_iff)
qed

lemma take_bit_word_eq_iff: "take_bit n (x :: 'a::len word) = x \<longleftrightarrow> uint x < 2 ^ n"
proof -
  have "take_bit n x = x \<longleftrightarrow> uint (take_bit n x) = uint x"
    by (rule word_uint_eq_iff)
  also have "uint (take_bit n x) = take_bit n (uint x)"
    by (intro bit_eqI) (auto simp: bit_simps)
  finally show ?thesis
    by (simp add: take_bit_int_eq_self_iff)
qed

lemma unat_u32_less: "unat (w :: u32) < 2 ^ 32"
  using unsigned_less [of w, where ?'a = nat] by simp

lemma unat_u64_less: "unat (w :: u64) < 2 ^ 64"
  using unsigned_less [of w, where ?'a = nat] by simp

lemma unat_ucast_u32 [simp]: "unat (ucast (w :: u32) :: u64) = unat w"
  using unat_u32_less [of w] by (simp add: unsigned_ucast_eq take_bit_nat_eq_self)

lemma sint_eq_uint_u64:
  "sint (v :: u64) = (if uint v < 2 ^ 63 then uint v else uint v - 2 ^ 64)"
proof -
  have "sint v = take_bit 64 (uint v + 2 ^ 63) - 2 ^ 63"
    by (simp add: sint_uint signed_take_bit_eq_take_bit_shift)
  also have "\<dots> = (uint v + 2 ^ 63) mod 2 ^ 64 - 2 ^ 63"
    by (simp only: take_bit_eq_mod)
  finally show ?thesis
    using uint_lt2p [of v] by (auto simp: mod_pos_geq split: if_splits)
qed

lemma bit_signed_take_bit_word [bit_facts]:
  "bit (signed_take_bit n (x :: 'a::len word)) i \<longleftrightarrow> i < LENGTH('a) \<and> bit x (min i n)"
  by (simp add: bit_signed_take_bit_iff min.commute)

lemma and_low_mask_numerals:
  "x AND 1 = take_bit 1 x" "x AND 3 = take_bit 2 x" "x AND 7 = take_bit 3 x"
  "x AND 15 = take_bit 4 x" "x AND 31 = take_bit 5 x" "x AND 63 = take_bit 6 x"
  "x AND 127 = take_bit 7 x" "x AND 255 = take_bit 8 x" "x AND 511 = take_bit 9 x"
  "x AND 1023 = take_bit 10 x" "x AND 4095 = take_bit 12 x" "x AND 65535 = take_bit 16 x"
  "x AND 524287 = take_bit 19 x" "x AND 1048575 = take_bit 20 x"
  for x :: "'a::len word"
  by (simp_all only: take_bit_eq_mask) (simp_all add: mask_eq_exp_minus_1)

lemma sint_negative_iff:
  "sint (x :: u32) < 0 \<longleftrightarrow> bit x 31" "sint (y :: u64) < 0 \<longleftrightarrow> bit y 63"
  using bit_last_iff [of x] bit_last_iff [of y] by simp_all

text \<open>
  \<open>word_bits\<close> reduces a bit of a word expression to bits of its variables and comparisons of positions;
  used with \<open>simp only\<close> on numeral positions, it evaluates scattered immediates bit by bit.
\<close>

lemma bit_push_bit_word: "bit (push_bit k (x :: 'a::len word)) i \<longleftrightarrow> k \<le> i \<and> i < LENGTH('a) \<and> bit x (i - k)"
  by (auto simp: bit_push_bit_iff)

lemma bit_drop_bit_word: "bit (drop_bit k (x :: 'a::len word)) i \<longleftrightarrow> bit x (k + i)"
  by (simp add: bit_drop_bit_eq)

lemma bit_ucast_word: "bit (ucast (x :: 'a::len word) :: 'b::len word) i \<longleftrightarrow> i < LENGTH('b) \<and> bit x i"
  by (auto simp: bit_unsigned_iff)

lemma bit_mask_word: "bit (mask n :: 'a::len word) i \<longleftrightarrow> i < n \<and> i < LENGTH('a)"
  by (auto simp: bit_mask_iff)

lemmas word_bits = bit_or_iff bit_and_iff bit_push_bit_word bit_drop_bit_word bit_ucast_word
  bit_mask_word bit_take_bit_iff

lemma nat_le_20_cases:
  assumes "i \<le> (20 :: nat)"
  shows "i \<in> {0, 1, 2, 3, 4, 5, 6, 7, 8, 9, 10, 11, 12, 13, 14, 15, 16, 17, 18, 19, 20}"
  unfolding insert_iff empty_iff using assms by presburger

text \<open>A 32-bit immediate that agrees with \<open>v\<close> up to its sign bit extends to \<open>v\<close>.\<close>

lemma scast_signed_take_bit_eqI:
  fixes imm :: u32 and v :: u64
  assumes "signed_take_bit n v = v" "n < 32" "\<And>i. i \<le> n \<Longrightarrow> bit imm i = bit v i"
  shows "scast (signed_take_bit n imm) = v" "sint (signed_take_bit n imm) < 0 \<longleftrightarrow> sint v < 0"
proof -
  have v: "bit v i = bit v (min i n)" if "i < 64" for i
    using bit_signed_take_bit_word [of n v i] assms(1) that by simp
  show "scast (signed_take_bit n imm) = v"
  proof (rule bit_word_eqI)
    fix i assume i: "i < LENGTH(64)"
    have "bit (scast (signed_take_bit n imm) :: u64) i \<longleftrightarrow> bit imm (min (min 31 i) n)"
      using i by (simp add: bit_signed_iff bit_facts min_less_iff_disj)
    also have "min (min 31 i) n = min i n"
      using assms(2) by auto
    finally show "bit (scast (signed_take_bit n imm) :: u64) i \<longleftrightarrow> bit v i"
      using assms(3) [of "min i n"] v [of i] i by simp
  qed
  have "min 31 n = n"
    using assms(2) by simp
  then show "sint (signed_take_bit n imm) < 0 \<longleftrightarrow> sint v < 0"
    using assms(2,3) v [of 63] by (simp add: sint_negative_iff bit_facts)
qed

lemma signed_take_bit_u64_shift:
  fixes x :: u64
  assumes "n < 63"
  shows "signed_take_bit n x = take_bit (Suc n) (x + 2 ^ n) - 2 ^ n"
proof -
  define k where "k = uint x"
  have x: "x = word_of_int k"
    by (simp add: k_def)
  have "signed_take_bit n (word_of_int k :: u64) = word_of_int (signed_take_bit n k)"
    using assms by (intro bit_word_eqI) (auto simp: bit_simps)
  moreover have tb: "word_of_int (take_bit (Suc n) j) = take_bit (Suc n) (word_of_int j :: u64)" for j
    using assms by (intro bit_word_eqI) (auto simp: bit_simps)
  ultimately have "signed_take_bit n (word_of_int k :: u64) = word_of_int (take_bit (Suc n) (k + 2 ^ n) - 2 ^ n)"
    by (simp only: signed_take_bit_eq_take_bit_shift)
  also have "\<dots> = word_of_int (take_bit (Suc n) (k + 2 ^ n)) - 2 ^ n"
    by (simp only: wi_hom_sub [symmetric] word_of_int_2p)
  also have "word_of_int (take_bit (Suc n) (k + 2 ^ n)) = take_bit (Suc n) (word_of_int (k + 2 ^ n) :: u64)"
    using tb by (simp only:)
  also have "word_of_int (k + 2 ^ n) = word_of_int k + (2 ^ n :: u64)"
    by (simp only: wi_hom_add [symmetric] word_of_int_2p)
  finally show ?thesis
    by (simp only: x)
qed

lemma and_not_mask_minus: "c AND NOT (mask n) = c - take_bit n (c :: 'a::len word)"
proof -
  have "(c AND NOT (mask n)) + (c AND mask n) = (c AND NOT (mask n)) OR (c AND mask n)"
    by (intro disjunctive_add) (auto simp: bit_simps)
  also have "\<dots> = c"
    by (intro bit_word_eqI) (auto simp: bit_simps)
  finally show ?thesis
    by (simp add: take_bit_eq_mask eq_diff_eq)
qed

lemma push_drop_signed:
  fixes v :: u64
  assumes "signed_take_bit (k + n) v = v" "take_bit k v = 0" "k + n < 64"
  shows "push_bit k (signed_take_bit n (drop_bit k v)) = v"
proof (rule bit_word_eqI)
  fix i assume i: "i < LENGTH(64)"
  have low: "i < k \<Longrightarrow> \<not> bit v i"
    using bit_take_bit_word [of k v i] assms(2) by simp
  have "bit v i = bit v (min i (k + n))"
    using bit_signed_take_bit_word [of "k + n" v i] assms(1) i by simp
  moreover have "k \<le> i \<Longrightarrow> k + min (i - k) n = min i (k + n)"
    by auto
  ultimately show "bit (push_bit k (signed_take_bit n (drop_bit k v))) i = bit v i"
    using low i
    by (cases "i < k") (auto simp: bit_push_bit_word bit_facts bit_drop_bit_word simp del: min_def)
qed

text \<open>A multiple of $2^k$ has its low \<open>k\<close> bits clear.\<close>

lemma take_bit_zero_of_dvd:
  fixes v :: u64
  assumes "2 ^ k dvd unat v"
  shows "take_bit k v = 0"
proof -
  have "unat (take_bit k v) = take_bit k (unat v)"
    by (rule unsigned_take_bit_eq)
  also have "\<dots> = 0"
    using assms by (simp add: take_bit_eq_mod)
  finally show ?thesis
    by (simp only: unsigned_eq_0_iff)
qed

section \<open>Little-endian bytes\<close>

text \<open>
  \<open>to_le_bytes\<close> gives the first \<open>k\<close> bytes of the little-endian form of a word (Rust's array is the
  case where \<open>k\<close> is the width in bytes); \<open>from_le_bytes\<close> is the inverse.
\<close>

definition to_le_bytes :: "nat \<Rightarrow> 'a::len word \<Rightarrow> u8 list" where
  "to_le_bytes k w = map (\<lambda>i. ucast (drop_bit (8 * i) w)) [0..<k]"

fun from_le_bytes :: "u8 list \<Rightarrow> 'a::len word" where
  "from_le_bytes [] = 0"
| "from_le_bytes (b # bs) = ucast b OR push_bit 8 (from_le_bytes bs)"

lemma length_to_le_bytes [simp]: "length (to_le_bytes k w) = k"
  by (simp add: to_le_bytes_def)

lemma bit_to_le_bytes [bit_facts]:
  fixes w :: "'a::len word"
  assumes "i < k"
  shows "bit (to_le_bytes k w ! i) j \<longleftrightarrow> j < 8 \<and> bit w (8 * i + j)"
  using assms by (auto simp: to_le_bytes_def bit_simps)

lemma take_to_le_bytes [simp]: "j \<le> k \<Longrightarrow> take j (to_le_bytes k w) = to_le_bytes j w"
  by (simp add: to_le_bytes_def take_map min_def)

lemma bit_from_le_bytes [bit_facts]:
  "bit (from_le_bytes bs :: 'a::len word) n \<longleftrightarrow>
     n < LENGTH('a) \<and> n div 8 < length bs \<and> bit (bs ! (n div 8)) (n mod 8)"
proof (induction bs arbitrary: n)
  case Nil
  then show ?case by simp
next
  case (Cons b bs)
  show ?case
  proof (cases "n < 8")
    case True
    then show ?thesis
      by (auto simp: bit_simps dest: bit_word_less_length)
  next
    case False
    then obtain m where m: "n = m + 8"
      using le_Suc_ex [of 8 n] by (auto simp: not_less add.commute)
    have "bit (from_le_bytes (b # bs) :: 'a word) n \<longleftrightarrow>
        n < LENGTH('a) \<and> bit (from_le_bytes bs :: 'a word) m"
      by (auto simp: m bit_simps dest: bit_word_less_length)
    moreover have "(m + 8) div 8 = Suc (m div 8)" "(m + 8) mod 8 = m mod 8"
      by simp_all
    ultimately show ?thesis
      by (auto simp: m Cons simp del: from_le_bytes.simps)
  qed
qed

lemma from_to_le_bytes:
  fixes w :: "'a::len word"
  shows "(from_le_bytes (to_le_bytes k w) :: 'b::len word) = ucast (take_bit (8 * k) w)"
  by (rule bit_word_eqI) (auto simp: bit_facts bit_simps less_mult_imp_div_less)

lemma from_to_le_bytes_id [simp]:
  "(from_le_bytes (to_le_bytes 2 (w2 :: u16)) :: u16) = w2"
  "(from_le_bytes (to_le_bytes 4 (w4 :: u32)) :: u32) = w4"
  "(from_le_bytes (to_le_bytes 8 (w8 :: u64)) :: u64) = w8"
  by (simp_all add: from_to_le_bytes) (rule bit_word_eqI, simp add: bit_facts)+

lemma take_to_le_append [simp]: "take k (to_le_bytes k w @ xs) = to_le_bytes k w"
  by simp

lemma drop_to_le_append [simp]: "drop k (to_le_bytes k w @ xs) = xs"
  by simp

lemma to_from_le_bytes:
  assumes "8 * length bs \<le> LENGTH('a)"
  shows "to_le_bytes (length bs) (from_le_bytes bs :: 'a::len word) = bs"
proof (rule nth_equalityI)
  fix i
  assume "i < length (to_le_bytes (length bs) (from_le_bytes bs :: 'a word))"
  then have i: "i < length bs" by simp
  show "to_le_bytes (length bs) (from_le_bytes bs :: 'a word) ! i = bs ! i"
  proof (rule bit_word_eqI)
    fix j assume "j < LENGTH(8)"
    then have "j < 8" by simp
    with i assms have "8 * i + j < LENGTH('a)" "(8 * i + j) div 8 = i" "(8 * i + j) mod 8 = j"
      by auto
    with i \<open>j < 8\<close> show "bit (to_le_bytes (length bs) (from_le_bytes bs :: 'a word) ! i) j
        \<longleftrightarrow> bit (bs ! i) j"
      by (simp add: bit_facts)
  qed
qed simp

lemma to_le_bytes_cong:
  fixes x :: "'a::len word" and y :: "'b::len word"
  assumes "\<And>i. i < 8 * k \<Longrightarrow> bit x i = bit y i"
  shows "to_le_bytes k x = to_le_bytes k y"
proof (rule nth_equalityI)
  fix i assume "i < length (to_le_bytes k x)"
  then have i: "i < k" by simp
  then show "to_le_bytes k x ! i = to_le_bytes k y ! i"
    using assms by (intro bit_word_eqI) (auto simp: bit_to_le_bytes)
qed simp

lemma to_le_bytes_ucast:
  fixes w :: "'a::len word"
  assumes "8 * k \<le> LENGTH('b::len)"
  shows "to_le_bytes k (ucast w :: 'b word) = to_le_bytes k w"
  using assms by (intro to_le_bytes_cong) (auto simp: bit_simps)

lemma from_le_bytes_ucast:
  assumes "8 * length bs \<le> LENGTH('a)" "8 * length bs \<le> LENGTH('b)"
  shows "(from_le_bytes bs :: 'a::len word) = ucast (from_le_bytes bs :: 'b::len word)"
proof (rule bit_word_eqI)
  fix n assume n: "n < LENGTH('a)"
  have "n div 8 < length bs \<Longrightarrow> n < LENGTH('b)"
    using assms(2) by auto
  with n show "bit (from_le_bytes bs :: 'a word) n \<longleftrightarrow>
      bit (ucast (from_le_bytes bs :: 'b word) :: 'a word) n"
    by (auto simp: bit_from_le_bytes bit_simps)
qed

section \<open>Slices: an access out of range is a panic\<close>

definition get_byte :: "u8 list \<Rightarrow> u64 \<Rightarrow> u8 option" where
  "get_byte xs i = (if unat i < length xs then Some (xs ! unat i) else None)"

definition set_byte :: "u8 list \<Rightarrow> u64 \<Rightarrow> u8 \<Rightarrow> u8 list option" where
  "set_byte xs i b = (if unat i < length xs then Some (xs[unat i := b]) else None)"

text \<open>\<open>xs[lo..hi]\<close>, \<open>xs[lo..]\<close> and \<open>xs[lo..hi].copy_from_slice(bs)\<close>.\<close>

definition slice :: "u8 list \<Rightarrow> u64 \<Rightarrow> u64 \<Rightarrow> u8 list option" where
  "slice xs lo hi =
     (if unat lo \<le> unat hi \<and> unat hi \<le> length xs
      then Some (take (unat hi - unat lo) (drop (unat lo) xs)) else None)"

definition slice_from :: "u8 list \<Rightarrow> u64 \<Rightarrow> u8 list option" where
  "slice_from xs lo = (if unat lo \<le> length xs then Some (drop (unat lo) xs) else None)"

definition splice :: "nat \<Rightarrow> u8 list \<Rightarrow> u8 list \<Rightarrow> u8 list" where
  "splice off bs xs = take off xs @ bs @ drop (off + length bs) xs"

definition copy_from_slice :: "u8 list \<Rightarrow> u64 \<Rightarrow> u64 \<Rightarrow> u8 list \<Rightarrow> u8 list option" where
  "copy_from_slice xs lo hi bs =
     (if unat lo \<le> unat hi \<and> unat hi \<le> length xs \<and> length bs = unat hi - unat lo
      then Some (splice (unat lo) bs xs) else None)"

lemma length_splice [simp]: "off + length bs \<le> length xs \<Longrightarrow> length (splice off bs xs) = length xs"
  by (simp add: splice_def)

lemma nth_splice:
  assumes "off + length bs \<le> length xs" "i < length xs"
  shows "splice off bs xs ! i =
     (if off \<le> i \<and> i < off + length bs then bs ! (i - off) else xs ! i)"
  using assms by (auto simp: splice_def nth_append)

lemma copy_from_slice_SomeD:
  "copy_from_slice xs lo hi bs = Some ys \<Longrightarrow>
     ys = splice (unat lo) bs xs \<and> unat lo + length bs \<le> length xs \<and> length ys = length xs"
  by (auto simp: copy_from_slice_def split: if_splits)

lemma set_byte_SomeD: "set_byte xs i b = Some ys \<Longrightarrow> ys = xs[unat i := b] \<and> unat i < length xs"
  by (auto simp: set_byte_def split: if_splits)

section \<open>Vectors and loops that can panic\<close>

text \<open>\<open>v[i]\<close> and \<open>v[i] = x\<close> on a vector, and a loop whose body may panic.\<close>

definition nth_opt :: "'a list \<Rightarrow> nat \<Rightarrow> 'a option" where
  "nth_opt xs i = (if i < length xs then Some (xs ! i) else None)"

definition update_opt :: "'a list \<Rightarrow> nat \<Rightarrow> 'a \<Rightarrow> 'a list option" where
  "update_opt xs i x = (if i < length xs then Some (xs[i := x]) else None)"

primrec try_fold :: "('a \<Rightarrow> 's \<Rightarrow> 's option) \<Rightarrow> 'a list \<Rightarrow> 's \<Rightarrow> 's option" where
  "try_fold f [] st = Some st"
| "try_fold f (x # xs) st = Option.bind (f x st) (try_fold f xs)"

lemma nth_opt_eq_Some [simp]: "nth_opt xs i = Some x \<longleftrightarrow> i < length xs \<and> xs ! i = x"
  by (simp add: nth_opt_def)

lemma update_opt_eq_Some [simp]: "update_opt xs i x = Some ys \<longleftrightarrow> i < length xs \<and> ys = xs[i := x]"
  by (auto simp: update_opt_def)

lemma try_fold_append [simp]: "try_fold f (xs @ ys) st = Option.bind (try_fold f xs st) (try_fold f ys)"
  by (induction xs arbitrary: st) (auto split: bind_splits)

text \<open>
  Total and partial correctness of such a loop: \<open>I\<close> holds of what is done so far and the state, the
  body keeps it.
\<close>

lemma try_fold_total:
  assumes "I [] st"
    and "\<And>ys x zs st. xs = ys @ x # zs \<Longrightarrow> I ys st \<Longrightarrow> \<exists>st'. f x st = Some st' \<and> I (ys @ [x]) st'"
  shows "\<exists>st'. try_fold f xs st = Some st' \<and> I xs st'"
  using assms
proof (induction xs arbitrary: st rule: rev_induct)
  case (snoc x xs)
  have "\<exists>st'. try_fold f xs st = Some st' \<and> I xs st'"
  proof (rule snoc.IH [OF snoc.prems(1)])
    fix ys y zs st
    assume "xs = ys @ y # zs" "I ys st"
    then show "\<exists>st'. f y st = Some st' \<and> I (ys @ [y]) st'"
      using snoc.prems(2) [of ys y "zs @ [x]"] by simp
  qed
  then obtain st1 where st1: "try_fold f xs st = Some st1" "I xs st1"
    by blast
  with snoc.prems(2) [of xs x "[]" st1] obtain st2 where "f x st1 = Some st2" "I (xs @ [x]) st2"
    by auto
  then show ?case
    using st1(1) by simp
qed simp

lemma try_fold_partial:
  assumes "try_fold f xs st = Some st'" "I [] st"
    and "\<And>ys x zs st st'. xs = ys @ x # zs \<Longrightarrow> I ys st \<Longrightarrow> f x st = Some st' \<Longrightarrow> I (ys @ [x]) st'"
  shows "I xs st'"
  using assms
proof (induction xs arbitrary: st st' rule: rev_induct)
  case (snoc x xs)
  then obtain st1 where st1: "try_fold f xs st = Some st1" "f x st1 = Some st'"
    by (auto split: bind_splits)
  have "I xs st1"
  proof (rule snoc.IH [OF st1(1) snoc.prems(2)])
    fix ys y zs st st'
    assume "xs = ys @ y # zs" "I ys st" "f y st = Some st'"
    then show "I (ys @ [y]) st'"
      using snoc.prems(3) [of ys y "zs @ [x]"] by simp
  qed
  then show ?case
    using snoc.prems(3) [of xs x "[]"] st1(2) by auto
qed simp

end
