(* ===== verification/Bit_Utils.thy ===== *)
theory Bit_Utils
  imports Rust_Prelude
begin

text \<open>
  The bit extraction trait of \<open>linker-utils/src/bit_misc.rs\<close> and the byte-slice helpers of
  \<open>linker-utils/src/utils.rs\<close>, on which every instruction encoder is built, with the locale that
  states what \<open>or_from_slice\<close> and \<open>and_from_slice\<close> promise the encoders: a bytewise operation on a
  prefix of the destination, a panic when the mask is longer than the destination, and nothing else
  touched.
\<close>

section \<open>Bit extraction (bit\_misc.rs)\<close>

text \<open>\<open>BitRange\<close>: the half-open range \<open>[start, end)\<close> of bit positions, both \<open>u32\<close>.\<close>

record bit_range =
  range_start :: nat
  range_end :: nat

definition extract_bit_range :: "u64 \<Rightarrow> nat \<Rightarrow> nat \<Rightarrow> u64" where
  "extract_bit_range x start end' =
     (if start = 0 \<and> end' = 64 then x
      else (shr x start) AND (shl 1 (end' - start) - 1))"

definition extract_bit :: "u64 \<Rightarrow> nat \<Rightarrow> u64" where
  "extract_bit x position = extract_bit_range x position (position + 1)"

definition low_bits :: "u64 \<Rightarrow> nat \<Rightarrow> u64" where
  "low_bits x num_bits = x AND (shl 1 num_bits - 1)"

definition sign_extend :: "u64 \<Rightarrow> nat \<Rightarrow> u64" where
  "sign_extend x sign_bit =
     (if x AND shl 1 sign_bit \<noteq> 0 then x OR NOT (shl 2 sign_bit - 1) else x)"

definition low_bits_signed :: "u64 \<Rightarrow> nat \<Rightarrow> u64" where
  "low_bits_signed x num_bits = sign_extend (low_bits x num_bits) (u32_sub num_bits 1)"

subsection \<open>What the trait computes\<close>

lemma extract_bit_range_eq [rust_simps]:
  assumes "start < end'" "end' \<le> 64"
  shows "extract_bit_range x start end' = take_bit (end' - start) (drop_bit start x)"
proof (cases "start = 0 \<and> end' = 64")
  case True
  then show ?thesis
    by (auto simp: extract_bit_range_def intro!: bit_word_eqI simp: bit_simps)
next
  case False
  with assms have "end' - start < LENGTH(64)" by auto
  from and_low_mask [OF this, of "shr x start"] False assms show ?thesis
    by (auto simp: extract_bit_range_def simp del: shl_small)
qed

lemma extract_bit_eq [rust_simps]:
  "p < 64 \<Longrightarrow> extract_bit x p = take_bit 1 (drop_bit p x)"
  by (simp add: extract_bit_def extract_bit_range_eq)

lemma low_bits_eq [rust_simps]: "n < 64 \<Longrightarrow> low_bits x n = take_bit n x"
  by (simp only: low_bits_def) (rule and_low_mask, simp)

lemma bit_shl_two_minus_one:
  assumes "b < 64"
  shows "bit (shl (2 :: u64) b - 1) i \<longleftrightarrow> i \<le> b \<and> i < 64"
proof -
  have "shl (2 :: u64) b = push_bit (Suc b) 1"
    using assms by (simp add: push_bit_eq_mult)
  then have "shl (2 :: u64) b - 1 = mask (Suc b)"
    by (simp only: mask_eq_exp_minus_1 push_bit_eq_mult mult_1_left)
  then show ?thesis
    by (auto simp: bit_mask_iff)
qed

lemma and_shl_one_iff:
  assumes "b < 64"
  shows "(x AND shl 1 b \<noteq> 0) \<longleftrightarrow> bit (x :: u64) b"
  using assms by (simp add: bit_iff_and_push_bit_not_eq_0)

lemma bit_sign_extend [bit_facts]:
  assumes "b < 64"
  shows "bit (sign_extend x b) i \<longleftrightarrow> i < 64 \<and> (bit x i \<or> b < i \<and> bit x b)"
  using assms
  by (simp only: sign_extend_def and_shl_one_iff)
    (auto simp: bit_or_iff bit_not_iff bit_shl_two_minus_one simp del: shl_small
      dest: bit_word_less_length)

lemma low_bits_signed_eq [rust_simps]:
  assumes "0 < n" "n < 64"
  shows "low_bits_signed x n = signed_take_bit (n - 1) x"
proof -
  have "low_bits_signed x n = sign_extend (take_bit n x) (n - 1)"
    using assms by (simp add: low_bits_signed_def low_bits_eq)
  also have "\<dots> = signed_take_bit (n - 1) x"
    using assms by (intro bit_word_eqI) (auto simp: bit_facts min_def)
  finally show ?thesis .
qed

text \<open>Extracting the bits \<open>[start, end)\<close> of a \<open>u64\<close> yields exactly those bits, moved down to
  bit 0, and nothing above them; the result is below \<open>2 ^ (end - start)\<close>.\<close>

theorem extract_bit_range_spec:
  assumes "start < end'" "end' \<le> 64"
  shows "(\<forall>i. bit (extract_bit_range x start end') i \<longleftrightarrow> i < end' - start \<and> bit x (start + i))
    \<and> uint (extract_bit_range x start end') = (uint x div 2 ^ start) mod 2 ^ (end' - start)"
proof -
  have "take_bit 64 (uint x) = uint x"
    using uint_lt2p [of x] by (simp add: take_bit_int_eq_self_iff)
  with assms show ?thesis
    by (simp add: extract_bit_range_eq bit_facts bit_drop_bit_eq unsigned_take_bit_eq
        unsigned_drop_bit_eq flip: take_bit_eq_mod drop_bit_eq_div)
qed

theorem extract_bit_range_spec_witness:
  "bit (extract_bit_range 192 3 8) 4 \<and> uint (extract_bit_range 192 3 8) = 24"
  using extract_bit_range_spec [of 3 8 192] by simp

text \<open>\<open>low_bits_signed\<close> is two's complement sign extension: its signed value is the signed value of
  the low bits, so it returns the input exactly when the input lies in the signed range of that many
  bits.\<close>

theorem low_bits_signed_spec:
  assumes "0 < n" "n < 64"
  shows "sint (low_bits_signed x n) = signed_take_bit (n - 1) (uint x)
    \<and> (low_bits_signed x n = x \<longleftrightarrow> - (2 ^ (n - 1)) \<le> sint x \<and> sint x < 2 ^ (n - 1))"
proof -
  have "sint (signed_take_bit (n - 1) x) = signed_take_bit (n - 1) (uint x)"
    using assms by (intro bit_eqI) (auto simp: bit_simps min_def)
  with assms show ?thesis
    by (simp add: low_bits_signed_eq signed_take_bit_word_eq_iff)
qed

theorem low_bits_signed_spec_witness: "sint (low_bits_signed 33 6) = -31"
  using low_bits_signed_spec [of 6 33] by (simp add: signed_take_bit_Suc)

section \<open>Byte-slice helpers (utils.rs)\<close>

definition u32_from_slice :: "u8 list \<Rightarrow> u32 option" where
  "u32_from_slice data = (if 4 \<le> length data then Some (from_le_bytes (take 4 data)) else None)"

definition u64_from_slice :: "u8 list \<Rightarrow> u64 option" where
  "u64_from_slice data = (if 8 \<le> length data then Some (from_le_bytes (take 8 data)) else None)"

fun or_from_slice :: "u8 list \<Rightarrow> u8 list \<Rightarrow> u8 list option" where
  "or_from_slice dest [] = Some dest"
| "or_from_slice [] (v # mask_bytes) = None"
| "or_from_slice (d # dest) (v # mask_bytes) =
     map_option ((#) (d OR v)) (or_from_slice dest mask_bytes)"

fun and_from_slice :: "u8 list \<Rightarrow> u8 list \<Rightarrow> u8 list option" where
  "and_from_slice dest [] = Some dest"
| "and_from_slice [] (v # mask_bytes) = None"
| "and_from_slice (d # dest) (v # mask_bytes) =
     map_option ((#) (d AND v)) (and_from_slice dest mask_bytes)"

text \<open>
  The readers advance the slice they are given; the model returns what is left of it. The message is
  the one the source passes to \<open>ensure!\<close> or \<open>anyhow!\<close>.
\<close>

definition read_u32 :: "u8 list \<Rightarrow> string + u32 \<times> u8 list" where
  "read_u32 content =
     (if \<not> 4 \<le> length content then Inl ''Not enough bytes to read u32''
      else Inr (from_le_bytes (take 4 content), drop 4 content))"

text \<open>The bytes before the first NUL are handed to the (lossy) string conversion \<open>to_string\<close>.\<close>

definition read_string :: "(u8 list \<Rightarrow> 's) \<Rightarrow> u8 list \<Rightarrow> string + 's \<times> u8 list" where
  "read_string to_string content =
     (if 0 \<notin> set content then Inl ''No null terminator found in string''
      else let cstr = takeWhile (\<lambda>b. b \<noteq> 0) content; len = length cstr + 1
           in Inr (to_string cstr, drop len content))"

subsection \<open>The contract of the masking helpers\<close>

locale bytewise_slice_op =
  fixes op_slice :: "u8 list \<Rightarrow> u8 list \<Rightarrow> u8 list option"
    and byte_op :: "u8 \<Rightarrow> u8 \<Rightarrow> u8"
    and bit_op :: "bool \<Rightarrow> bool \<Rightarrow> bool"
  assumes op_nil: "op_slice dest [] = Some dest"
    and op_short: "op_slice [] (v # vs) = None"
    and op_cons: "op_slice (d # dest) (v # vs) = map_option ((#) (byte_op d v)) (op_slice dest vs)"
    and bit_byte_op: "i < 8 \<Longrightarrow> bit (byte_op x y) i = bit_op (bit x i) (bit y i)"
begin

lemma op_slice_eq:
  "op_slice dest vs =
     (if length vs \<le> length dest
      then Some (map2 byte_op (take (length vs) dest) vs @ drop (length vs) dest) else None)"
proof (induction vs arbitrary: dest)
  case Nil
  then show ?case by (simp add: op_nil)
next
  case (Cons v vs)
  then show ?case by (cases dest) (auto simp: op_short op_cons)
qed

lemma op_slice_word:
  fixes m w :: "'a::len word"
  assumes len: "k \<le> length dest" "8 * k \<le> LENGTH('a)"
    and bits: "\<And>i. i < 8 * k \<Longrightarrow>
      bit w i = bit_op (bit (from_le_bytes (take k dest) :: 'a word) i) (bit m i)"
  shows "op_slice dest (to_le_bytes k m) = Some (to_le_bytes k w @ drop k dest)"
proof -
  have "map2 byte_op (take k dest) (to_le_bytes k m) = to_le_bytes k w"
  proof (rule nth_equalityI)
    fix i assume "i < length (map2 byte_op (take k dest) (to_le_bytes k m))"
    with len have i: "i < k" "i < length dest" by auto
    show "map2 byte_op (take k dest) (to_le_bytes k m) ! i = to_le_bytes k w ! i"
    proof (rule bit_word_eqI)
      fix j assume "j < LENGTH(8)"
      then have j: "j < 8" by simp
      with i len have n: "8 * i + j < 8 * k" "8 * i + j < LENGTH('a)"
        "(8 * i + j) div 8 = i" "(8 * i + j) mod 8 = j"
        by auto
      with i j len show "bit (map2 byte_op (take k dest) (to_le_bytes k m) ! i) j \<longleftrightarrow>
          bit (to_le_bytes k w ! i) j"
        using bits [OF n(1)] by (simp add: bit_byte_op bit_to_le_bytes bit_from_le_bytes)
    qed
  qed (use len in simp)
  with len show ?thesis
    by (simp add: op_slice_eq)
qed

end

interpretation or_slice: bytewise_slice_op or_from_slice "(OR)" "(\<or>)"
  by unfold_locales (simp_all add: bit_or_iff)

interpretation and_slice: bytewise_slice_op and_from_slice "(AND)" "(\<and>)"
  by unfold_locales (simp_all add: bit_and_iff)

lemma or_from_slice_word:
  fixes m :: "'a::len word"
  assumes "k \<le> length dest" "8 * k \<le> LENGTH('a)"
  shows "or_from_slice dest (to_le_bytes k m) =
    Some (to_le_bytes k ((from_le_bytes (take k dest) :: 'a word) OR m) @ drop k dest)"
  by (rule or_slice.op_slice_word [OF assms]) (simp add: bit_or_iff)

lemma and_from_slice_word:
  fixes m :: "'a::len word"
  assumes "k \<le> length dest" "8 * k \<le> LENGTH('a)"
  shows "and_from_slice dest (to_le_bytes k m) =
    Some (to_le_bytes k ((from_le_bytes (take k dest) :: 'a word) AND m) @ drop k dest)"
  by (rule and_slice.op_slice_word [OF assms]) (simp add: bit_and_iff)

text \<open>\<open>or_from_slice\<close> and \<open>and_from_slice\<close> with the little-endian bytes of a mask are the word
  operations on the little-endian word at the start of the destination; the bytes after it are
  untouched, and a destination shorter than the mask panics.\<close>

theorem mask_slices_are_word_ops:
  fixes m :: "'a::len word"
  assumes "8 * k \<le> LENGTH('a)"
  shows "or_from_slice dest (to_le_bytes k m) =
      (if k \<le> length dest
       then Some (to_le_bytes k ((from_le_bytes (take k dest) :: 'a word) OR m) @ drop k dest)
       else None)
    \<and> and_from_slice dest (to_le_bytes k m) =
      (if k \<le> length dest
       then Some (to_le_bytes k ((from_le_bytes (take k dest) :: 'a word) AND m) @ drop k dest)
       else None)"
proof (cases "k \<le> length dest")
  case True
  with assms show ?thesis
    by (simp add: or_from_slice_word and_from_slice_word)
next
  case False
  then show ?thesis
    by (simp add: or_slice.op_slice_eq and_slice.op_slice_eq)
qed

theorem mask_slices_are_word_ops_witness:
  "or_from_slice [1, 2, 3] (to_le_bytes 2 (0x1010 :: u16)) = Some [0x11, 0x12, 3]"
proof -
  have "8 * 2 \<le> LENGTH(16)" by simp
  from mask_slices_are_word_ops [OF this, of "[1, 2, 3]" "0x1010"]
  show ?thesis by (simp add: to_le_bytes_def upt_rec)
qed

end
