(* ===== verification/Elf_Types.thy ===== *)
theory Elf_Types
  imports Bit_Utils
begin

text \<open>
  The relocation vocabulary of \<open>linker-utils/src/elf.rs\<close>: relocation kinds, instruction encodings,
  sizes, page masks, allowed value ranges, the record that describes a relocation type, and the
  mapping between dynamic relocation kinds and the raw type numbers of each architecture.

  The raw numbers \<open>object::elf::R_...\<close> come from the third-party \<open>object\<close> crate: they are a
  parameter of the model, a function from the constant's name to its \<open>u32\<close> value.
\<close>

type_synonym elf_constants = "string \<Rightarrow> u32"

datatype sign = Signed | Unsigned

section \<open>Relocation kinds\<close>

datatype (plugins only: code) relocation_kind =
    RK_Absolute
  | RK_AbsoluteSet
  | RK_AbsoluteSetWord6
  | RK_AbsoluteAddition
  | RK_AbsoluteAdditionWord6
  | RK_AbsoluteSubtraction
  | RK_AbsoluteSubtractionWord6
  | RK_AbsoluteLowPart
  | RK_PairSubtractionULEB128 u32
  | RK_Relative
  | RK_RelativeLoongArchHigh
  | RK_RelativeRiscVLow12
  | RK_SymRelGotBase
  | RK_GotRelGotBase
  | RK_Got
  | RK_PltRelGotBase
  | RK_PltRelative
  | RK_GotRelative
  | RK_GotRelativeLoongArch64
  | RK_TlsGd
  | RK_TlsGdGot
  | RK_TlsGdGotBase
  | RK_TlsLd
  | RK_TlsLdGot
  | RK_TlsLdGotBase
  | RK_DtpOff
  | RK_GotTpOff
  | RK_GotTpOffLoongArch64
  | RK_GotTpOffGot
  | RK_GotTpOffGotBase
  | RK_TpOff
  | RK_TlsDesc
  | RK_TlsDescLoongArch64
  | RK_TlsDescGot
  | RK_TlsDescGotBase
  | RK_TlsDescCall
  | RK_None
  | RK_Alignment

definition is_tls :: "relocation_kind \<Rightarrow> bool" where
  "is_tls k \<longleftrightarrow> k \<in> {RK_DtpOff, RK_GotTpOff, RK_GotTpOffGotBase, RK_TlsDesc, RK_TlsDescCall,
     RK_TlsDescGot, RK_TlsDescGotBase, RK_TlsGd, RK_TlsGdGot, RK_TlsGdGotBase, RK_TlsLd,
     RK_TlsLdGot, RK_TlsLdGotBase, RK_TpOff}"

section \<open>Instruction encodings and sizes\<close>

datatype aarch64_instruction =
    A64_Adr | A64_Movkz | A64_Movnz | A64_Ldr | A64_LdrRegister | A64_Add | A64_LdSt | A64_TstBr
  | A64_Bcond | A64_JumpCall | A64_MachOLow12

datatype riscv_instruction =
    RV_UiType | RV_UType | RV_IType | RV_SType | RV_BType | RV_JType | RV_CbType | RV_CjType
  | RV_CluiType

datatype loongarch64_instruction =
    LA_Shift5 | LA_Shift10 | LA_Branch21 | LA_Branch26 | LA_Call30 | LA_Call36

datatype relocation_instruction =
    AArch64 aarch64_instruction
  | RiscV riscv_instruction
  | LoongArch64 loongarch64_instruction

record bit_mask =
  bm_instruction :: relocation_instruction
  bm_range :: bit_range

datatype relocation_size = ByteSize nat | BitMasking bit_mask

definition bit_mask_new :: "relocation_instruction \<Rightarrow> nat \<Rightarrow> nat \<Rightarrow> bit_mask" where
  "bit_mask_new instruction bit_start bit_end =
     \<lparr>bm_instruction = instruction, bm_range = \<lparr>range_start = bit_start, range_end = bit_end\<rparr>\<rparr>"

definition bit_mask_aarch64 :: "nat \<Rightarrow> nat \<Rightarrow> aarch64_instruction \<Rightarrow> relocation_size" where
  "bit_mask_aarch64 bit_start bit_end instruction =
     BitMasking (bit_mask_new (AArch64 instruction) bit_start bit_end)"

definition bit_mask_riscv :: "nat \<Rightarrow> nat \<Rightarrow> riscv_instruction \<Rightarrow> relocation_size" where
  "bit_mask_riscv bit_start bit_end instruction =
     BitMasking (bit_mask_new (RiscV instruction) bit_start bit_end)"

definition bit_mask_loongarch64 :: "nat \<Rightarrow> nat \<Rightarrow> loongarch64_instruction \<Rightarrow> relocation_size" where
  "bit_mask_loongarch64 bit_start bit_end instruction =
     BitMasking (bit_mask_new (LoongArch64 instruction) bit_start bit_end)"

lemmas size_defs = bit_mask_new_def bit_mask_aarch64_def bit_mask_riscv_def bit_mask_loongarch64_def

definition SIZE_2KB :: u64 where "SIZE_2KB = shl 1 11"
definition SIZE_4KB :: u64 where "SIZE_4KB = shl 1 12"
definition SIZE_2GB :: u64 where "SIZE_2GB = shl 1 31"
definition SIZE_4GB :: u64 where "SIZE_4GB = shl 1 32"
definition PAGE_MASK_4KB :: u64 where "PAGE_MASK_4KB = SIZE_4KB - 1"
definition PAGE_MASK_4GB :: u64 where "PAGE_MASK_4GB = SIZE_4GB - 1"

lemmas size_constants =
  SIZE_2KB_def SIZE_4KB_def SIZE_2GB_def SIZE_4GB_def PAGE_MASK_4KB_def PAGE_MASK_4GB_def

datatype page_mask =
    SymbolPlusAddendAndPosition u64
  | GotEntryAndPosition u64
  | GotBase u64
  | Position u64

section \<open>Allowed ranges\<close>

text \<open>The bounds are \<open>i64\<close> values, kept as integers.\<close>

record allowed_range =
  ar_min :: int
  ar_max :: int

definition range_new :: "int \<Rightarrow> int \<Rightarrow> allowed_range" where
  "range_new min' max' = \<lparr>ar_min = min', ar_max = max'\<rparr>"

definition no_check :: allowed_range where
  "no_check = range_new (- (2 ^ 63)) (2 ^ 63 - 1)"

text \<open>\<open>None\<close> is the panic; the tables call this in constants, where a panic stops compilation.\<close>

definition from_bit_size :: "nat \<Rightarrow> sign \<Rightarrow> allowed_range option" where
  "from_bit_size n_bits sign =
     (if n_bits = 0 \<or> n_bits = 64 then Some no_check
      else if n_bits = 63 \<and> sign = Unsigned then None
      else if 1 \<le> n_bits \<and> n_bits < 64 then
        (case sign of
           Unsigned \<Rightarrow> Some (range_new 0 (2 ^ n_bits))
         | Signed \<Rightarrow> Some (range_new (- (2 ^ (n_bits - 1))) (2 ^ (n_bits - 1))))
      else None)"

definition from_byte_size :: "nat \<Rightarrow> sign \<Rightarrow> allowed_range option" where
  "from_byte_size n_bytes sign = from_bit_size (8 * n_bytes) sign"

definition range_contains :: "allowed_range \<Rightarrow> int \<Rightarrow> bool" where
  "range_contains r value \<longleftrightarrow> ar_min r \<le> value \<and> value < ar_max r"

text \<open>The subtraction is on \<open>i64\<close> and wraps.\<close>

definition overrun :: "allowed_range \<Rightarrow> int \<Rightarrow> int" where
  "overrun r value =
     (if value < ar_min r then signed_take_bit 63 (value - ar_min r)
      else if ar_max r < value then signed_take_bit 63 (value - ar_max r)
      else 0)"

lemmas range_defs = range_new_def no_check_def range_contains_def

section \<open>The description of a relocation type\<close>

record relocation_kind_info =
  rki_kind :: relocation_kind
  rki_size :: relocation_size
  rki_mask :: "page_mask option"
  rki_range :: allowed_range
  rki_alignment :: nat
  rki_bias :: u64
  rki_thunkable :: bool

datatype reloc_error =
    NotAligned int nat
  | OutsideOfBounds int int int
  | Uleb128DoesNotFit nat
  | OutsideOfSection

text \<open>\<open>value\<close> is an \<open>i64\<close>; \<open>is_multiple_of\<close> tests its unsigned reading, and by 0 only 0 is a multiple.\<close>

definition verify :: "relocation_kind_info \<Rightarrow> i64 \<Rightarrow> reloc_error + unit" where
  "verify info value =
     (if \<not> rki_alignment info dvd unat value then Inl (NotAligned (sint value) (rki_alignment info))
      else if \<not> range_contains (rki_range info) (sint value)
      then Inl (OutsideOfBounds (sint value) (ar_min (rki_range info)) (ar_max (rki_range info)))
      else Inr ())"

lemma verify_Inr_iff:
  "verify info value = Inr () \<longleftrightarrow>
     rki_alignment info dvd unat value \<and> range_contains (rki_range info) (sint value)"
  by (simp add: verify_def)

section \<open>Dynamic relocation kinds\<close>

datatype dynamic_relocation_kind =
    DRK_Copy | DRK_Irelative | DRK_DtpMod | DRK_DtpOff | DRK_TlsDesc | DRK_TpOff | DRK_Relative
  | DRK_Absolute | DRK_GotEntry | DRK_JumpSlot

text \<open>A Rust \<open>match\<close> on a raw type number: the first arm whose constant equals it.\<close>

definition match_const :: "elf_constants \<Rightarrow> u32 \<Rightarrow> (string \<times> 'a) list \<Rightarrow> 'a option" where
  "match_const elf r arms = map_option snd (find (\<lambda>arm. elf (fst arm) = r) arms)"

lemma match_const_Nil [simp]: "match_const elf r [] = None"
  by (simp add: match_const_def)

lemma match_const_Cons:
  "match_const elf r (arm # arms) =
     (if elf (fst arm) = r then Some (snd arm) else match_const elf r arms)"
  by (simp add: match_const_def)

lemma match_const_SomeD:
  "match_const elf r arms = Some a \<Longrightarrow> \<exists>c. (c, a) \<in> set arms \<and> elf c = r"
  by (induction arms) (auto simp: match_const_Cons split: if_splits)

lemma match_const_hit:
  assumes "distinct (map (elf \<circ> fst) arms)" "(c, a) \<in> set arms"
  shows "match_const elf (elf c) arms = Some a"
  using assms by (induction arms) (auto simp: match_const_Cons rev_image_eqI)

lemma match_const_append:
  "match_const elf r (xs @ ys) =
     (case match_const elf r xs of Some a \<Rightarrow> Some a | None \<Rightarrow> match_const elf r ys)"
  by (induction xs) (auto simp: match_const_Cons)

definition from_x86_64_r_type :: "elf_constants \<Rightarrow> u32 \<Rightarrow> dynamic_relocation_kind option" where
  "from_x86_64_r_type elf r_type = match_const elf r_type
     [(''R_X86_64_COPY'', DRK_Copy),
      (''R_X86_64_IRELATIVE'', DRK_Irelative),
      (''R_X86_64_DTPMOD64'', DRK_DtpMod),
      (''R_X86_64_DTPOFF64'', DRK_DtpOff),
      (''R_X86_64_TPOFF64'', DRK_TpOff),
      (''R_X86_64_RELATIVE'', DRK_Relative),
      (''R_X86_64_GLOB_DAT'', DRK_GotEntry),
      (''R_X86_64_64'', DRK_Absolute),
      (''R_X86_64_TLSDESC'', DRK_TlsDesc),
      (''R_X86_64_JUMP_SLOT'', DRK_JumpSlot)]"

primrec x86_64_r_type :: "elf_constants \<Rightarrow> dynamic_relocation_kind \<Rightarrow> u32" where
  "x86_64_r_type elf DRK_Copy = elf ''R_X86_64_COPY''"
| "x86_64_r_type elf DRK_Irelative = elf ''R_X86_64_IRELATIVE''"
| "x86_64_r_type elf DRK_DtpMod = elf ''R_X86_64_DTPMOD64''"
| "x86_64_r_type elf DRK_DtpOff = elf ''R_X86_64_DTPOFF64''"
| "x86_64_r_type elf DRK_TpOff = elf ''R_X86_64_TPOFF64''"
| "x86_64_r_type elf DRK_Relative = elf ''R_X86_64_RELATIVE''"
| "x86_64_r_type elf DRK_Absolute = elf ''R_X86_64_64''"
| "x86_64_r_type elf DRK_GotEntry = elf ''R_X86_64_GLOB_DAT''"
| "x86_64_r_type elf DRK_TlsDesc = elf ''R_X86_64_TLSDESC''"
| "x86_64_r_type elf DRK_JumpSlot = elf ''R_X86_64_JUMP_SLOT''"

definition from_aarch64_r_type :: "elf_constants \<Rightarrow> u32 \<Rightarrow> dynamic_relocation_kind option" where
  "from_aarch64_r_type elf r_type = match_const elf r_type
     [(''R_AARCH64_COPY'', DRK_Copy),
      (''R_AARCH64_IRELATIVE'', DRK_Irelative),
      (''R_AARCH64_TLS_DTPMOD'', DRK_DtpMod),
      (''R_AARCH64_TLS_DTPREL'', DRK_DtpOff),
      (''R_AARCH64_TLS_TPREL'', DRK_TpOff),
      (''R_AARCH64_RELATIVE'', DRK_Relative),
      (''R_AARCH64_ABS64'', DRK_Absolute),
      (''R_AARCH64_GLOB_DAT'', DRK_GotEntry),
      (''R_AARCH64_TLSDESC'', DRK_TlsDesc),
      (''R_AARCH64_JUMP_SLOT'', DRK_JumpSlot)]"

primrec aarch64_r_type :: "elf_constants \<Rightarrow> dynamic_relocation_kind \<Rightarrow> u32" where
  "aarch64_r_type elf DRK_Copy = elf ''R_AARCH64_COPY''"
| "aarch64_r_type elf DRK_Irelative = elf ''R_AARCH64_IRELATIVE''"
| "aarch64_r_type elf DRK_DtpMod = elf ''R_AARCH64_TLS_DTPMOD''"
| "aarch64_r_type elf DRK_DtpOff = elf ''R_AARCH64_TLS_DTPREL''"
| "aarch64_r_type elf DRK_TpOff = elf ''R_AARCH64_TLS_TPREL''"
| "aarch64_r_type elf DRK_Relative = elf ''R_AARCH64_RELATIVE''"
| "aarch64_r_type elf DRK_Absolute = elf ''R_AARCH64_ABS64''"
| "aarch64_r_type elf DRK_GotEntry = elf ''R_AARCH64_GLOB_DAT''"
| "aarch64_r_type elf DRK_TlsDesc = elf ''R_AARCH64_TLSDESC''"
| "aarch64_r_type elf DRK_JumpSlot = elf ''R_AARCH64_JUMP_SLOT''"

definition from_riscv64_r_type :: "elf_constants \<Rightarrow> u32 \<Rightarrow> dynamic_relocation_kind option" where
  "from_riscv64_r_type elf r_type = match_const elf r_type
     [(''R_RISCV_COPY'', DRK_Copy),
      (''R_RISCV_IRELATIVE'', DRK_Irelative),
      (''R_RISCV_TLS_DTPMOD64'', DRK_DtpMod),
      (''R_RISCV_TLS_DTPREL64'', DRK_DtpOff),
      (''R_RISCV_TLS_TPREL64'', DRK_TpOff),
      (''R_RISCV_RELATIVE'', DRK_Relative),
      (''R_RISCV_64'', DRK_Absolute),
      (''R_RISCV_TLSDESC'', DRK_TlsDesc),
      (''R_RISCV_JUMP_SLOT'', DRK_JumpSlot)]"

primrec riscv64_r_type :: "elf_constants \<Rightarrow> dynamic_relocation_kind \<Rightarrow> u32" where
  "riscv64_r_type elf DRK_Copy = elf ''R_RISCV_COPY''"
| "riscv64_r_type elf DRK_Irelative = elf ''R_RISCV_IRELATIVE''"
| "riscv64_r_type elf DRK_DtpMod = elf ''R_RISCV_TLS_DTPMOD64''"
| "riscv64_r_type elf DRK_DtpOff = elf ''R_RISCV_TLS_DTPREL64''"
| "riscv64_r_type elf DRK_TpOff = elf ''R_RISCV_TLS_TPREL64''"
| "riscv64_r_type elf DRK_Relative = elf ''R_RISCV_RELATIVE''"
| "riscv64_r_type elf DRK_Absolute = elf ''R_RISCV_64''"
| "riscv64_r_type elf DRK_GotEntry = elf ''R_RISCV_64''"
| "riscv64_r_type elf DRK_TlsDesc = elf ''R_RISCV_TLSDESC''"
| "riscv64_r_type elf DRK_JumpSlot = elf ''R_RISCV_JUMP_SLOT''"

definition from_loongarch64_r_type :: "elf_constants \<Rightarrow> u32 \<Rightarrow> dynamic_relocation_kind option" where
  "from_loongarch64_r_type elf r_type = match_const elf r_type
     [(''R_LARCH_COPY'', DRK_Copy),
      (''R_LARCH_IRELATIVE'', DRK_Irelative),
      (''R_LARCH_TLS_DTPMOD64'', DRK_DtpMod),
      (''R_LARCH_TLS_DTPREL64'', DRK_DtpOff),
      (''R_LARCH_TLS_TPREL64'', DRK_TpOff),
      (''R_LARCH_RELATIVE'', DRK_Relative),
      (''R_LARCH_64'', DRK_Absolute),
      (''R_LARCH_TLS_DESC64'', DRK_TlsDesc),
      (''R_LARCH_JUMP_SLOT'', DRK_JumpSlot)]"

primrec loongarch64_r_type :: "elf_constants \<Rightarrow> dynamic_relocation_kind \<Rightarrow> u32" where
  "loongarch64_r_type elf DRK_Copy = elf ''R_LARCH_COPY''"
| "loongarch64_r_type elf DRK_Irelative = elf ''R_LARCH_IRELATIVE''"
| "loongarch64_r_type elf DRK_DtpMod = elf ''R_LARCH_TLS_DTPMOD64''"
| "loongarch64_r_type elf DRK_DtpOff = elf ''R_LARCH_TLS_DTPREL64''"
| "loongarch64_r_type elf DRK_TpOff = elf ''R_LARCH_TLS_TPREL64''"
| "loongarch64_r_type elf DRK_Relative = elf ''R_LARCH_RELATIVE''"
| "loongarch64_r_type elf DRK_Absolute = elf ''R_LARCH_64''"
| "loongarch64_r_type elf DRK_GotEntry = elf ''R_LARCH_64''"
| "loongarch64_r_type elf DRK_TlsDesc = elf ''R_LARCH_TLS_DESC64''"
| "loongarch64_r_type elf DRK_JumpSlot = elf ''R_LARCH_JUMP_SLOT''"

subsection \<open>The allowed ranges are the representable values\<close>

lemma i64_range: "- (2 ^ 63) \<le> sint (v :: i64) \<and> sint v < 2 ^ 63"
  using sint_range_size [of v] by (simp add: word_size)

lemma signed_range_iff:
  assumes "0 < n" "n < 64"
  shows "range_contains (range_new (- (2 ^ (n - 1))) (2 ^ (n - 1))) (sint (v :: i64)) \<longleftrightarrow>
    signed_take_bit (n - 1) v = v"
proof -
  from assms have "n - 1 < LENGTH(64)" by simp
  then show ?thesis
    by (simp add: range_defs signed_take_bit_word_eq_iff)
qed

lemma unsigned_range_iff:
  assumes "n < 63"
  shows "range_contains (range_new 0 (2 ^ n)) (sint (v :: i64)) \<longleftrightarrow> take_bit n v = v"
proof -
  have small: "(2 :: int) ^ n \<le> 2 ^ 62"
    using assms by (intro power_increasing) auto
  have "take_bit n v = v \<longleftrightarrow> uint v < 2 ^ n"
    by (rule take_bit_word_eq_iff)
  also have "\<dots> \<longleftrightarrow> 0 \<le> sint v \<and> sint v < 2 ^ n"
    using small uint_lt2p [of v] by (auto simp: sint_eq_uint_u64)
  finally show ?thesis
    by (simp add: range_defs)
qed

text \<open>For every size of 1 to 63 bits, the range that \<open>from_bit_size\<close> allows is exactly the set of
  values that survive being cut to that many bits and extended again: sign extension for \<open>Signed\<close>,
  zero extension for \<open>Unsigned\<close>.\<close>

theorem from_bit_size_representable:
  assumes "from_bit_size n sg = Some r" "0 < n" "n < 64"
  shows "range_contains r (sint (v :: i64)) \<longleftrightarrow>
    (case sg of Signed \<Rightarrow> signed_take_bit (n - 1) v = v | Unsigned \<Rightarrow> take_bit n v = v)"
proof (cases sg)
  case Signed
  with assms have "r = range_new (- (2 ^ (n - 1))) (2 ^ (n - 1))"
    by (auto simp: from_bit_size_def split: if_splits)
  with assms Signed show ?thesis
    by (simp only: signed_range_iff sign.case)
next
  case Unsigned
  with assms have "n < 63" "r = range_new 0 (2 ^ n)"
    by (auto simp: from_bit_size_def split: if_splits)
  with Unsigned show ?thesis
    by (simp add: unsigned_range_iff)
qed

theorem from_bit_size_representable_witness:
  "range_contains \<lparr>ar_min = -512, ar_max = 512\<rparr> (sint (0 :: i64))
    \<longleftrightarrow> signed_take_bit 9 (0 :: i64) = 0"
  using from_bit_size_representable [of 10 Signed "\<lparr>ar_min = -512, ar_max = 512\<rparr>" 0]
  by (simp add: from_bit_size_def range_defs)

text \<open>\<open>no_check\<close>, the range of the relocations the tables leave unchecked, still refuses one value:
  because the range is half-open and its end is \<open>i64::MAX\<close>, the value \<open>i64::MAX\<close> itself fails
  \<open>verify\<close> in every relocation that uses it.\<close>

theorem no_check_refuses_only_i64_max:
  assumes "rki_range info = no_check" "rki_alignment info = 1"
  shows "verify info v = Inr () \<longleftrightarrow> v \<noteq> 0x7fffffffffffffff"
proof -
  have "sint v < 2 ^ 63 - 1 \<longleftrightarrow> sint v \<noteq> 2 ^ 63 - 1"
    using i64_range [of v] by auto
  also have "sint v = 2 ^ 63 - 1 \<longleftrightarrow> v = 0x7fffffffffffffff"
  proof
    assume "sint v = 2 ^ 63 - 1"
    then have "of_int (sint v) = (of_int (2 ^ 63 - 1) :: i64)" by simp
    then show "v = 0x7fffffffffffffff" by simp
  qed simp
  finally show ?thesis
    using assms i64_range [of v] by (simp add: verify_Inr_iff range_defs)
qed

theorem no_check_refuses_only_i64_max_witness:
  "verify \<lparr>rki_kind = RK_Absolute, rki_size = ByteSize 8, rki_mask = None, rki_range = no_check,
      rki_alignment = 1, rki_bias = 0, rki_thunkable = False\<rparr> 0x7fffffffffffffff \<noteq> Inr ()"
  by (subst no_check_refuses_only_i64_max) simp_all

text \<open>On every architecture the raw number of a dynamic relocation kind is read back as that kind,
  with one exception: RISC-V and LoongArch have no relocation of their own for a GOT entry and emit
  the absolute 64-bit one, which reads back as \<open>Absolute\<close>. The hypotheses state that the constants
  of the \<open>object\<close> crate are distinct numbers.\<close>

theorem dynamic_r_type_roundtrip:
  assumes x86: "distinct (map elf [''R_X86_64_COPY'', ''R_X86_64_IRELATIVE'', ''R_X86_64_DTPMOD64'',
      ''R_X86_64_DTPOFF64'', ''R_X86_64_TPOFF64'', ''R_X86_64_RELATIVE'', ''R_X86_64_GLOB_DAT'',
      ''R_X86_64_64'', ''R_X86_64_TLSDESC'', ''R_X86_64_JUMP_SLOT''])"
    and a64: "distinct (map elf [''R_AARCH64_COPY'', ''R_AARCH64_IRELATIVE'',
      ''R_AARCH64_TLS_DTPMOD'', ''R_AARCH64_TLS_DTPREL'', ''R_AARCH64_TLS_TPREL'',
      ''R_AARCH64_RELATIVE'', ''R_AARCH64_ABS64'', ''R_AARCH64_GLOB_DAT'', ''R_AARCH64_TLSDESC'',
      ''R_AARCH64_JUMP_SLOT''])"
    and rv: "distinct (map elf [''R_RISCV_COPY'', ''R_RISCV_IRELATIVE'', ''R_RISCV_TLS_DTPMOD64'',
      ''R_RISCV_TLS_DTPREL64'', ''R_RISCV_TLS_TPREL64'', ''R_RISCV_RELATIVE'', ''R_RISCV_64'',
      ''R_RISCV_TLSDESC'', ''R_RISCV_JUMP_SLOT''])"
    and la: "distinct (map elf [''R_LARCH_COPY'', ''R_LARCH_IRELATIVE'', ''R_LARCH_TLS_DTPMOD64'',
      ''R_LARCH_TLS_DTPREL64'', ''R_LARCH_TLS_TPREL64'', ''R_LARCH_RELATIVE'', ''R_LARCH_64'',
      ''R_LARCH_TLS_DESC64'', ''R_LARCH_JUMP_SLOT''])"
  shows "from_x86_64_r_type elf (x86_64_r_type elf k) = Some k
    \<and> from_aarch64_r_type elf (aarch64_r_type elf k) = Some k
    \<and> from_riscv64_r_type elf (riscv64_r_type elf k) =
        Some (if k = DRK_GotEntry then DRK_Absolute else k)
    \<and> from_loongarch64_r_type elf (loongarch64_r_type elf k) =
        Some (if k = DRK_GotEntry then DRK_Absolute else k)"
proof (intro conjI)
  have hit: "match_const elf (elf c) arms = Some a"
    if "distinct (map elf (map fst arms))" "(c, a) \<in> set arms" for c arms and a :: "'z"
    using match_const_hit [of elf arms c a] that by simp
  show "from_x86_64_r_type elf (x86_64_r_type elf k) = Some k"
    unfolding from_x86_64_r_type_def
    by (cases k) (simp_all only: x86_64_r_type.simps, (rule hit, use x86 in \<open>simp only: list.map fst_conv\<close>,
        simp only: list.set insert_iff simp_thms if_True if_False dynamic_relocation_kind.distinct)+)
  show "from_aarch64_r_type elf (aarch64_r_type elf k) = Some k"
    unfolding from_aarch64_r_type_def
    by (cases k) (simp_all only: aarch64_r_type.simps, (rule hit, use a64 in \<open>simp only: list.map fst_conv\<close>,
        simp only: list.set insert_iff simp_thms if_True if_False dynamic_relocation_kind.distinct)+)
  show "from_riscv64_r_type elf (riscv64_r_type elf k) =
      Some (if k = DRK_GotEntry then DRK_Absolute else k)"
    unfolding from_riscv64_r_type_def
    by (cases k) (simp_all only: riscv64_r_type.simps, (rule hit, use rv in \<open>simp only: list.map fst_conv\<close>,
        simp only: list.set insert_iff simp_thms if_True if_False dynamic_relocation_kind.distinct)+)
  show "from_loongarch64_r_type elf (loongarch64_r_type elf k) =
      Some (if k = DRK_GotEntry then DRK_Absolute else k)"
    unfolding from_loongarch64_r_type_def
    by (cases k) (simp_all only: loongarch64_r_type.simps, (rule hit, use la in \<open>simp only: list.map fst_conv\<close>,
        simp only: list.set insert_iff simp_thms if_True if_False dynamic_relocation_kind.distinct)+)
qed

text \<open>The numbers the architectures' ABI documents assign to these constants.\<close>

definition abi_dynamic_numbers :: elf_constants where
  "abi_dynamic_numbers name = (let arch = name ! 2 in
     case map_of
       (if arch = CHR ''X'' then
          [(''COPY'', 5), (''IRELATIVE'', 37), (''DTPMOD64'', 16), (''DTPOFF64'', 17),
           (''TPOFF64'', 18), (''RELATIVE'', 8), (''GLOB_DAT'', 6), (''64'', 1), (''TLSDESC'', 36),
           (''JUMP_SLOT'', 7)]
        else if arch = CHR ''A'' then
          [(''COPY'', 1024), (''IRELATIVE'', 1032), (''TLS_DTPMOD'', 1028), (''TLS_DTPREL'', 1029),
           (''TLS_TPREL'', 1030), (''RELATIVE'', 1027), (''ABS64'', 257), (''GLOB_DAT'', 1025),
           (''TLSDESC'', 1031), (''JUMP_SLOT'', 1026)]
        else if arch = CHR ''R'' then
          [(''COPY'', 4), (''IRELATIVE'', 58), (''TLS_DTPMOD64'', 7), (''TLS_DTPREL64'', 9),
           (''TLS_TPREL64'', 11), (''RELATIVE'', 3), (''64'', 2), (''TLSDESC'', 12),
           (''JUMP_SLOT'', 5)]
        else
          [(''COPY'', 4), (''IRELATIVE'', 12), (''TLS_DTPMOD64'', 7), (''TLS_DTPREL64'', 9),
           (''TLS_TPREL64'', 11), (''RELATIVE'', 3), (''64'', 2), (''TLS_DESC64'', 14),
           (''JUMP_SLOT'', 5)])
       (drop (if arch = CHR ''X'' then 9 else if arch = CHR ''A'' then 10 else 8) name) of
     Some n \<Rightarrow> n | None \<Rightarrow> 0)"

theorem dynamic_r_type_roundtrip_witness:
  "from_x86_64_r_type abi_dynamic_numbers (x86_64_r_type abi_dynamic_numbers DRK_JumpSlot)
     = Some DRK_JumpSlot"
  by (rule dynamic_r_type_roundtrip [THEN conjunct1]) (simp_all add: abi_dynamic_numbers_def)

end
