(* ===== verification/Aarch64_Insn.thy ===== *)
theory Aarch64_Insn
  imports Elf_Types
begin

text \<open>
  The AArch64 instruction encoders of \<open>linker-utils/src/aarch64.rs\<close>: \<open>write_to_value\<close> puts a
  relocation value into the immediate field of an instruction in a byte buffer, \<open>read_value\<close> takes it
  out again. The byte-level routines are shown to refine a word-level description of the immediate
  fields, and the round trip is proved on words.
\<close>

section \<open>The encoder and the decoder\<close>

definition aarch64_write_to_value ::
    "aarch64_instruction \<Rightarrow> u64 \<Rightarrow> bool \<Rightarrow> u8 list \<Rightarrow> u8 list option" where
  "aarch64_write_to_value insn extracted_value negative dest = do {
     (dest, mask) \<leftarrow> (case insn of
         A64_Adr \<Rightarrow> Some (dest,
           shl (ucast (extract_bit_range extracted_value 0 2) :: u32) 29
             OR shl (ucast (extract_bit_range extracted_value 2 32) :: u32) 5)
       | A64_Movkz \<Rightarrow> Some (dest, shl (ucast extracted_value :: u32) 5)
       | A64_Movnz \<Rightarrow> do {
           dest \<leftarrow> and_from_slice dest (to_le_bytes 4 (0x0060001F :: u32));
           let value = (if negative then NOT extracted_value else extracted_value);
           let mask = (if negative then 0x92800000 else 0xd2800000 :: u32);
           Some (dest, mask OR shl (ucast (extract_bit_range value 0 16) :: u32) 5)
         }
       | A64_Ldr \<Rightarrow> Some (dest, shl (ucast extracted_value :: u32) 5)
       | A64_LdrRegister \<Rightarrow> Some (dest, shl (ucast extracted_value :: u32) 10)
       | A64_Add \<Rightarrow> Some (dest, shl (ucast extracted_value :: u32) 10)
       | A64_LdSt \<Rightarrow> Some (dest, shl (ucast extracted_value :: u32) 10)
       | A64_TstBr \<Rightarrow> Some (dest, shl (ucast extracted_value :: u32) 5)
       | A64_Bcond \<Rightarrow> Some (dest, shl (ucast extracted_value :: u32) 5)
       | A64_JumpCall \<Rightarrow> Some (dest, ucast extracted_value :: u32)
       | A64_MachOLow12 \<Rightarrow> do {
           window \<leftarrow> slice dest 0 4;
           insn \<leftarrow> u32_from_slice window;
           let scale =
             (if insn AND 0x3b000000 = 0x39000000 then
                (if shr insn 30 = 0 \<and> insn AND 0x04800000 = 0x04800000 then 4 else shr insn 30)
              else 0 :: u32);
           dest \<leftarrow> and_from_slice dest (to_le_bytes 4 (NOT (shl 0xfff 10) :: u32));
           Some (dest, shl (shr (ucast extracted_value :: u32) (unat scale)) 10)
         });
     or_from_slice dest (to_le_bytes 4 mask)
   }"

definition aarch64_read_value :: "aarch64_instruction \<Rightarrow> u8 list \<Rightarrow> (u64 \<times> bool) option" where
  "aarch64_read_value insn bytes = do {
     raw \<leftarrow> u32_from_slice bytes;
     let value = (ucast raw :: u64);
     case insn of
       A64_Adr \<Rightarrow>
         Some (low_bits (shr value 29) 2 OR shl (low_bits_signed (shr value 5) 19) 2, False)
     | A64_Movkz \<Rightarrow> Some (low_bits_signed (shr value 5) 16, False)
     | A64_Movnz \<Rightarrow>
         (let negative = (value AND shl 1 30 = 0); v = low_bits (shr value 5) 16
          in Some (if negative then NOT v else v, negative))
     | A64_Ldr \<Rightarrow> Some (low_bits_signed (shr value 5) 19, False)
     | A64_LdrRegister \<Rightarrow> Some (low_bits (shr value 10) 12, False)
     | A64_Add \<Rightarrow> Some (low_bits (shr value 10) 12, False)
     | A64_LdSt \<Rightarrow> Some (low_bits_signed (shr value 10) 12, False)
     | A64_TstBr \<Rightarrow> Some (low_bits_signed (shr value 5) 14, False)
     | A64_Bcond \<Rightarrow> Some (low_bits_signed (shr value 5) 19, False)
     | A64_JumpCall \<Rightarrow> Some (low_bits_signed value 26, False)
     | A64_MachOLow12 \<Rightarrow> None
   }"

section \<open>The encodings as operations on the instruction word\<close>

text \<open>Width and position of the immediate field of each instruction class.\<close>

fun a64_width :: "aarch64_instruction \<Rightarrow> nat" where
  "a64_width A64_Adr = 21"
| "a64_width A64_Movkz = 16"
| "a64_width A64_Movnz = 16"
| "a64_width A64_Ldr = 19"
| "a64_width A64_LdrRegister = 12"
| "a64_width A64_Add = 12"
| "a64_width A64_LdSt = 12"
| "a64_width A64_TstBr = 14"
| "a64_width A64_Bcond = 19"
| "a64_width A64_JumpCall = 26"
| "a64_width A64_MachOLow12 = 12"

fun a64_lsb :: "aarch64_instruction \<Rightarrow> nat" where
  "a64_lsb A64_Adr = 5"
| "a64_lsb A64_Movkz = 5"
| "a64_lsb A64_Movnz = 5"
| "a64_lsb A64_Ldr = 5"
| "a64_lsb A64_LdrRegister = 10"
| "a64_lsb A64_Add = 10"
| "a64_lsb A64_LdSt = 10"
| "a64_lsb A64_TstBr = 5"
| "a64_lsb A64_Bcond = 5"
| "a64_lsb A64_JumpCall = 0"
| "a64_lsb A64_MachOLow12 = 10"

text \<open>The instruction word after the write: \<open>Adr\<close> splits its immediate, \<open>Movnz\<close> rewrites the opcode
  (it keeps the register and the shift amount only), the others add the immediate at its place.\<close>

fun a64_insn_word :: "aarch64_instruction \<Rightarrow> u64 \<Rightarrow> bool \<Rightarrow> u32 \<Rightarrow> u32" where
  "a64_insn_word A64_Adr v neg w =
     w OR (push_bit 29 (ucast (take_bit 2 v)) OR push_bit 5 (ucast (take_bit 30 (drop_bit 2 v))))"
| "a64_insn_word A64_Movnz v neg w =
     (w AND 0x0060001F) OR ((if neg then 0x92800000 else 0xd2800000)
        OR push_bit 5 (ucast (take_bit 16 (if neg then NOT v else v))))"
| "a64_insn_word A64_MachOLow12 v neg w =
     (let scale =
        (if w AND 0x3b000000 = 0x39000000 then
           (if drop_bit 30 w = 0 \<and> w AND 0x04800000 = 0x04800000 then 4 else drop_bit 30 w)
         else 0)
      in (w AND NOT (push_bit 10 0xfff)) OR push_bit 10 (drop_bit (unat scale) (ucast v)))"
| "a64_insn_word insn v neg w = w OR push_bit (a64_lsb insn) (ucast v)"

lemma unat_scale_bound: "unat (drop_bit 30 (w :: u32)) < 32"
proof -
  have "unat (drop_bit 30 w) = drop_bit 30 (unat w)"
    by (simp add: unat_drop_bit_eq)
  also have "\<dots> \<le> unat w div 2 ^ 30"
    by (simp only: drop_bit_eq_div)
  also have "\<dots> < 32"
    using unat_u32_less [of w] by (simp add: div_less_iff_less_mult)
  finally show ?thesis .
qed

lemma aarch64_write_short: "length dest < 4 \<Longrightarrow> aarch64_write_to_value insn v neg dest = None"
  by (cases insn)
    (simp_all add: aarch64_write_to_value_def or_slice.op_slice_eq and_slice.op_slice_eq slice_def)

lemma aarch64_write_word:
  assumes "4 \<le> length dest"
  shows "aarch64_write_to_value insn v neg dest =
    Some (to_le_bytes 4 (a64_insn_word insn v neg (from_le_bytes (take 4 dest))) @ drop 4 dest)"
  using assms
  by (cases insn)
    (simp_all add: aarch64_write_to_value_def or_from_slice_word and_from_slice_word
      extract_bit_range_eq u32_from_slice_def slice_def Let_def unat_scale_bound)

text \<open>The byte-level AArch64 encoder refines the word-level one: on a buffer of at least four bytes
  it replaces the little-endian instruction word at its start by the encoded word and leaves every
  other byte alone; on a shorter buffer it panics.\<close>

theorem aarch64_write_refines_word:
  "aarch64_write_to_value insn v neg dest =
     (if 4 \<le> length dest
      then Some (to_le_bytes 4 (a64_insn_word insn v neg (from_le_bytes (take 4 dest))) @ drop 4 dest)
      else None)"
  using aarch64_write_word aarch64_write_short by simp


section \<open>Reading back what was written\<close>

text \<open>The bits of the instruction word that hold the immediate and have to be clear before the write;
  \<open>Movnz\<close> and \<open>MachOLow12\<close> clear their field themselves.\<close>

fun a64_field :: "aarch64_instruction \<Rightarrow> u32" where
  "a64_field A64_Adr = push_bit 29 (mask 2) OR push_bit 5 (mask 19)"
| "a64_field A64_Movnz = 0"
| "a64_field A64_MachOLow12 = 0"
| "a64_field insn = push_bit (a64_lsb insn) (mask (a64_width insn))"

lemma field_clear_bits:
  assumes "(w :: u32) AND push_bit k (mask n) = 0" "k \<le> i" "i < k + n" "i < 32"
  shows "\<not> bit w i"
proof
  assume "bit w i"
  with assms(2-4) have "bit (w AND push_bit k (mask n)) i"
    by (auto simp: bit_and_iff bit_push_bit_iff bit_mask_iff)
  with assms(1) show False by simp
qed

definition a64_decode :: "aarch64_instruction \<Rightarrow> u32 \<Rightarrow> u64" where
  "a64_decode insn w = (case insn of
       A64_Adr \<Rightarrow> take_bit 2 (drop_bit 29 (ucast w)) OR
         push_bit 2 (signed_take_bit 18 (drop_bit 5 (ucast w)))
     | A64_Movkz \<Rightarrow> signed_take_bit 15 (drop_bit 5 (ucast w))
     | A64_Movnz \<Rightarrow> (if bit w 30 then take_bit 16 (drop_bit 5 (ucast w))
         else NOT (take_bit 16 (drop_bit 5 (ucast w))))
     | A64_Ldr \<Rightarrow> signed_take_bit 18 (drop_bit 5 (ucast w))
     | A64_LdrRegister \<Rightarrow> take_bit 12 (drop_bit 10 (ucast w))
     | A64_Add \<Rightarrow> take_bit 12 (drop_bit 10 (ucast w))
     | A64_LdSt \<Rightarrow> signed_take_bit 11 (drop_bit 10 (ucast w))
     | A64_TstBr \<Rightarrow> signed_take_bit 13 (drop_bit 5 (ucast w))
     | A64_Bcond \<Rightarrow> signed_take_bit 18 (drop_bit 5 (ucast w))
     | A64_JumpCall \<Rightarrow> signed_take_bit 25 (ucast w)
     | A64_MachOLow12 \<Rightarrow> 0)"

lemma and_bit_30_iff: "ucast (w :: u32) AND (0x40000000 :: u64) = 0 \<longleftrightarrow> \<not> bit w 30"
  using and_shl_one_iff [of 30 "ucast w"] by (auto simp: bit_simps)

lemma aarch64_read_word:
  assumes "4 \<le> length bytes" "insn \<noteq> A64_MachOLow12"
  shows "aarch64_read_value insn bytes =
    Some (a64_decode insn (from_le_bytes (take 4 bytes)),
      insn = A64_Movnz \<and> \<not> bit (from_le_bytes (take 4 bytes) :: u32) 30)"
  using assms
  by (cases insn)
    (simp_all add: aarch64_read_value_def a64_decode_def u32_from_slice_def low_bits_eq
      low_bits_signed_eq and_bit_30_iff Let_def)


lemma low_value_bits:
  assumes "take_bit n v = (v :: u64)"
  shows "bit v i \<Longrightarrow> i < n"
  by (metis assms bit_take_bit_iff)

text \<open>The one fact behind the simple encodings: an immediate put into a clear field is read back.\<close>

lemma field_roundtrip:
  fixes v :: u64 and w :: u32
  assumes "w AND push_bit k (mask n) = 0" "take_bit n v = v" "k + n \<le> 32"
  shows "take_bit n (drop_bit k (ucast (w OR push_bit k (ucast v)))) = v"
proof (rule bit_word_eqI)
  fix i assume "i < LENGTH(64)"
  show "bit (take_bit n (drop_bit k (ucast (w OR push_bit k (ucast v)) :: u64))) i \<longleftrightarrow> bit v i"
    using assms(3) low_value_bits [OF assms(2), of i] field_clear_bits [OF assms(1), of "k + i"]
    by (auto simp: bit_simps)
qed

lemma take_bit_signed_eq: "m = Suc n \<Longrightarrow> take_bit m (signed_take_bit n x) = take_bit m (x :: u64)"
  by (simp add: take_bit_signed_take_bit)

lemma movnz_roundtrip:
  assumes "take_bit 16 v = (v :: u64)"
  shows "take_bit 16 (a64_decode A64_Movnz (a64_insn_word A64_Movnz v neg w)) = v
    \<and> bit (a64_insn_word A64_Movnz v neg w) 30 = (\<not> neg)"
proof -
  have 30: "bit (a64_insn_word A64_Movnz v neg w) 30 = (\<not> neg)"
    by (cases neg) (simp_all add: bit_simps)
  have "take_bit 16 (drop_bit 5 (ucast (a64_insn_word A64_Movnz v neg w) :: u64)) =
      take_bit 16 (if neg then NOT v else v)"
  proof (rule bit_word_eqI)
    fix i assume "i < LENGTH(64)"
    show "bit (take_bit 16 (drop_bit 5 (ucast (a64_insn_word A64_Movnz v neg w) :: u64))) i \<longleftrightarrow>
        bit (take_bit 16 (if neg then NOT v else v)) i"
      using field_clear_bits [of "0x92800000" 5 16 "5 + i"] field_clear_bits [of "0xd2800000" 5 16 "5 + i"]
        field_clear_bits [of "0x0060001F" 5 16 "5 + i"]
      by (auto simp: bit_simps mask_numeral)
  qed
  moreover have "take_bit 16 (NOT (take_bit 16 (NOT v))) = take_bit 16 v"
    by (rule bit_word_eqI) (auto simp: bit_simps)
  ultimately show ?thesis
    using 30 assms by (auto simp: a64_decode_def)
qed

lemma adr_roundtrip:
  assumes "take_bit 21 v = (v :: u64)" "w AND a64_field A64_Adr = 0"
  shows "take_bit 21 (a64_decode A64_Adr (a64_insn_word A64_Adr v neg w)) = v"
proof (rule bit_word_eqI)
  have lo: "w AND push_bit 29 (mask 2) = 0" and hi: "w AND push_bit 5 (mask 19) = 0"
    using assms(2) by (auto simp: bit_eq_iff bit_simps)
  fix i assume "i < LENGTH(64)"
  show "bit (take_bit 21 (a64_decode A64_Adr (a64_insn_word A64_Adr v neg w))) i \<longleftrightarrow> bit v i"
  proof (cases "i < 2")
    case True
    with field_clear_bits [OF lo, of "29 + i"] low_value_bits [OF assms(1), of "26 + i"]
    show ?thesis
      by (auto simp: a64_decode_def bit_simps)
  next
    case False
    then obtain j where j: "i = j + 2"
      by (metis add.commute le_Suc_ex not_less)
    have "min 18 j = j" if "j < 19"
      using that by simp
    with low_value_bits [OF assms(1), of i] field_clear_bits [OF hi, of "5 + j"] show ?thesis
      by (cases "j < 19") (auto simp: a64_decode_def bit_simps j min.commute [of j])
  qed
qed

lemma a64_decode_write:
  assumes "take_bit (a64_width insn) v = v" "w AND a64_field insn = 0" "insn \<noteq> A64_MachOLow12"
  shows "take_bit (a64_width insn) (a64_decode insn (a64_insn_word insn v neg w)) = v"
proof (cases insn)
  case A64_Adr
  with assms adr_roundtrip show ?thesis by simp
next
  case A64_Movnz
  with assms movnz_roundtrip show ?thesis by simp
qed (use assms field_roundtrip [of w "a64_lsb insn" "a64_width insn" v] in
    \<open>simp_all add: a64_decode_def take_bit_signed_eq\<close>)


text \<open>Reading an AArch64 instruction back gives the relocation value that was written. A value that
  fits the width of the instruction's immediate, written over a clear immediate field, is found by
  \<open>read_value\<close> in the low bits of its result (above them \<open>read_value\<close> sign extends for the signed
  classes), together with the sign flag for the class that encodes it; only the four bytes of the
  instruction change.\<close>

theorem aarch64_write_read:
  assumes "4 \<le> length dest" "insn \<noteq> A64_MachOLow12" "take_bit (a64_width insn) v = v"
    and "(from_le_bytes (take 4 dest) :: u32) AND a64_field insn = 0"
  shows "\<exists>dest' x neg'. aarch64_write_to_value insn v neg dest = Some dest'
    \<and> drop 4 dest' = drop 4 dest \<and> length dest' = length dest
    \<and> aarch64_read_value insn dest' = Some (x, neg')
    \<and> take_bit (a64_width insn) x = v
    \<and> (insn = A64_Movnz \<longrightarrow> neg' = neg)"
  using assms movnz_roundtrip
  by (auto simp: aarch64_write_word aarch64_read_word a64_decode_write simp del: a64_insn_word.simps)

theorem aarch64_write_read_witness:
  "\<exists>dest' x neg'. aarch64_write_to_value A64_JumpCall 0x3fffffe False [0, 0, 0, 0x94, 7] = Some dest'
    \<and> aarch64_read_value A64_JumpCall dest' = Some (x, neg') \<and> take_bit 26 x = 0x3fffffe"
  using aarch64_write_read [of "[0, 0, 0, 0x94, 7]" A64_JumpCall "0x3fffffe" False]
  by (auto simp: mask_numeral)

section \<open>PC-relative branches and loads\<close>

text \<open>The classes whose immediate counts words from the instruction: their decoded immediate, times
  four, is the displacement.\<close>

definition a64_word_relative :: "aarch64_instruction \<Rightarrow> bool" where
  "a64_word_relative insn \<longleftrightarrow> insn \<in> {A64_Ldr, A64_TstBr, A64_Bcond, A64_JumpCall}"

lemma a64_word_relative_decode:
  assumes "a64_word_relative insn" "w AND a64_field insn = 0"
  shows "a64_decode insn (a64_insn_word insn (take_bit (a64_width insn) v) neg w) =
    signed_take_bit (a64_width insn - 1) v"
proof -
  have sx: "signed_take_bit n x = signed_take_bit n (take_bit (Suc n) x)" for n and x :: u64
    by (intro bit_word_eqI) (auto simp: bit_simps)
  let ?d = "a64_decode insn (a64_insn_word insn (take_bit (a64_width insn) v) neg w)"
  have "take_bit (a64_width insn) ?d = take_bit (a64_width insn) v"
    using assms by (intro a64_decode_write) (auto simp: a64_word_relative_def)
  moreover have "Suc (a64_width insn - 1) = a64_width insn"
    by (cases insn) simp_all
  ultimately have "signed_take_bit (a64_width insn - 1) ?d = signed_take_bit (a64_width insn - 1) v"
    using sx by metis
  moreover have "signed_take_bit (a64_width insn - 1) ?d = ?d"
    using assms(1) unfolding a64_word_relative_def
    by (intro bit_word_eqI) (auto simp: a64_decode_def bit_facts)
  ultimately show ?thesis
    by simp
qed

end
