(* ===== verification/Riscv_Insn.thy ===== *)
theory Riscv_Insn
  imports Elf_Types
begin

text \<open>
  The RISC-V instruction encoders of \<open>linker-utils/src/riscv64.rs\<close>. Every class clears its immediate
  bits with the class's mask and puts the scattered immediate in. The lemmas show the byte-level
  writers as operations on the instruction word, that the bits outside the immediate are kept, that
  the branch, jump, load and store classes are read back exactly, and that the two halves a HI20/LO12
  pair writes add up to the value.
\<close>

section \<open>Immediate masks\<close>

definition RS1_MASK :: u32 where "RS1_MASK = shl 0x1f 15"

definition UTYPE_IMMEDIATE_MASK :: u32 where "UTYPE_IMMEDIATE_MASK = 0b00000000000000000000111111111111"
definition ITYPE_IMMEDIATE_MASK :: u32 where "ITYPE_IMMEDIATE_MASK = 0b00000000000011111111111111111111"
definition STYPE_IMMEDIATE_MASK :: u32 where "STYPE_IMMEDIATE_MASK = 0b00000001111111111111000001111111"
definition BTYPE_IMMEDIATE_MASK :: u32 where "BTYPE_IMMEDIATE_MASK = 0b00000001111111111111000001111111"
definition JTYPE_IMMEDIATE_MASK :: u32 where "JTYPE_IMMEDIATE_MASK = 0b00000000000000000000111111111111"

definition CBTYPE_IMMEDIATE_MASK :: u16 where "CBTYPE_IMMEDIATE_MASK = 0b1110001110000011"
definition CJTYPE_IMMEDIATE_MASK :: u16 where "CJTYPE_IMMEDIATE_MASK = 0b1110000000000011"
definition CLUITYPE_IMMEDIATE_MASK :: u16 where "CLUITYPE_IMMEDIATE_MASK = 0b1110111110000011"

section \<open>The encoder\<close>

text \<open>The \<open>UType\<close> and \<open>IType\<close> arms, which the \<open>UiType\<close> arm calls on the two halves of its pair.\<close>

definition riscv_write_utype :: "u64 \<Rightarrow> u8 list \<Rightarrow> u8 list option" where
  "riscv_write_utype v dest =
     (let mask = shl (ucast (extract_bit_range (v + 0x800) 12 32) :: u32) 12
      in do {
        dest \<leftarrow> and_from_slice dest (to_le_bytes 4 UTYPE_IMMEDIATE_MASK);
        or_from_slice dest (to_le_bytes 4 mask)
      })"

definition riscv_write_itype :: "u64 \<Rightarrow> u8 list \<Rightarrow> u8 list option" where
  "riscv_write_itype v dest =
     (let mask = shl v 20
      in do {
        dest \<leftarrow> and_from_slice dest (to_le_bytes 4 ITYPE_IMMEDIATE_MASK);
        or_from_slice dest (to_le_bytes 4 (ucast mask :: u32))
      })"

primrec riscv_write_to_value ::
    "riscv_instruction \<Rightarrow> u64 \<Rightarrow> bool \<Rightarrow> u8 list \<Rightarrow> u8 list option" where
  "riscv_write_to_value RV_UiType v neg dest =
     (if length dest < 4 then None
      else do {
        hi \<leftarrow> riscv_write_utype v (take 4 dest);
        lo \<leftarrow> riscv_write_itype v (drop 4 dest);
        Some (hi @ lo)
      })"
| "riscv_write_to_value RV_UType v neg dest = riscv_write_utype v dest"
| "riscv_write_to_value RV_IType v neg dest = riscv_write_itype v dest"
| "riscv_write_to_value RV_SType v neg dest =
     (let mask = shl (extract_bit_range v 0 5) 7 OR shl (extract_bit_range v 5 12) 25
      in do {
        dest \<leftarrow> and_from_slice dest (to_le_bytes 4 STYPE_IMMEDIATE_MASK);
        or_from_slice dest (to_le_bytes 4 (ucast mask :: u32))
      })"
| "riscv_write_to_value RV_BType v neg dest =
     (let mask = shl (extract_bit v 11) 7 OR shl (extract_bit_range v 1 5) 8
        OR shl (extract_bit_range v 5 11) 25 OR shl (extract_bit v 12) 31
      in do {
        dest \<leftarrow> and_from_slice dest (to_le_bytes 4 BTYPE_IMMEDIATE_MASK);
        or_from_slice dest (to_le_bytes 4 (ucast mask :: u32))
      })"
| "riscv_write_to_value RV_JType v neg dest =
     (let mask = shl (extract_bit_range v 12 20) 12 OR shl (extract_bit v 11) 20
        OR shl (extract_bit_range v 1 11) 21 OR shl (extract_bit v 20) 31
      in do {
        dest \<leftarrow> and_from_slice dest (to_le_bytes 4 JTYPE_IMMEDIATE_MASK);
        or_from_slice dest (to_le_bytes 4 (ucast mask :: u32))
      })"
| "riscv_write_to_value RV_CbType v neg dest =
     (let mask = shl (extract_bit v 5) 2 OR shl (extract_bit_range v 1 3) 3
        OR shl (extract_bit_range v 6 8) 5 OR shl (extract_bit_range v 3 5) 10
        OR shl (extract_bit v 8) 12
      in do {
        dest \<leftarrow> and_from_slice dest (to_le_bytes 2 CBTYPE_IMMEDIATE_MASK);
        or_from_slice dest (take 2 (to_le_bytes 8 mask))
      })"
| "riscv_write_to_value RV_CjType v neg dest =
     (let mask = shl (extract_bit v 5) 2 OR shl (extract_bit_range v 1 4) 3
        OR shl (extract_bit v 7) 6 OR shl (extract_bit v 6) 7 OR shl (extract_bit v 10) 8
        OR shl (extract_bit_range v 8 10) 9 OR shl (extract_bit v 4) 11
        OR shl (extract_bit v 11) 12
      in do {
        dest \<leftarrow> and_from_slice dest (to_le_bytes 2 CJTYPE_IMMEDIATE_MASK);
        or_from_slice dest (take 2 (to_le_bytes 8 mask))
      })"
| "riscv_write_to_value RV_CluiType v neg dest =
     (let hi20 = shr (v + 0x800) 12;
          mask = shl (hi20 AND 0x1f) 2 OR shl (shr hi20 5 AND 1) 12
      in do {
        dest \<leftarrow> and_from_slice dest (to_le_bytes 2 CLUITYPE_IMMEDIATE_MASK);
        or_from_slice dest (to_le_bytes 2 (ucast mask :: u16))
      })"

section \<open>The decoder\<close>

definition u16_from_slice :: "u8 list \<Rightarrow> u16 option" where
  "u16_from_slice bytes = do { b0 \<leftarrow> get_byte bytes 0; b1 \<leftarrow> get_byte bytes 1;
     Some (from_le_bytes [b0, b1]) }"

definition sext32 :: "i32 \<Rightarrow> nat \<Rightarrow> i32" where
  "sext32 x k = sar (shl x k) k"

definition riscv_read_utype :: "u8 list \<Rightarrow> (u64 \<times> bool) option" where
  "riscv_read_utype bytes = do {
     value \<leftarrow> u32_from_slice bytes;
     let imm = shr value 12 AND 0xfffff;
     let adjusted = sext32 imm 12;
     Some (scast adjusted - 0x800, False)
   }"

definition riscv_read_itype :: "u8 list \<Rightarrow> (u64 \<times> bool) option" where
  "riscv_read_itype bytes = do {
     value \<leftarrow> u32_from_slice bytes;
     let imm = shr value 20 AND 0xfff;
     let sign_extended = sext32 imm 20;
     Some (scast sign_extended, sint sign_extended < 0)
   }"

primrec riscv_read_value :: "riscv_instruction \<Rightarrow> u8 list \<Rightarrow> (u64 \<times> bool) option" where
  "riscv_read_value RV_UiType bytes =
     (if length bytes < 4 then None
      else do {
        (hi, _) \<leftarrow> riscv_read_utype (take 4 bytes);
        (lo, _) \<leftarrow> riscv_read_itype (drop 4 bytes);
        Some (shl hi 12 OR lo, False)
      })"
| "riscv_read_value RV_UType bytes = riscv_read_utype bytes"
| "riscv_read_value RV_IType bytes = riscv_read_itype bytes"
| "riscv_read_value RV_SType bytes = do {
     value \<leftarrow> u32_from_slice bytes;
     let imm_low = shr value 7 AND 0x1f;
     let imm_high = shr value 25 AND 0x7f;
     let imm = shl imm_high 5 OR imm_low;
     let sign_extended = sext32 imm 20;
     Some (scast sign_extended, sint sign_extended < 0)
   }"
| "riscv_read_value RV_BType bytes = do {
     value \<leftarrow> u32_from_slice bytes;
     let imm11 = shr value 7 AND 0x1;
     let imm1_4 = shr value 8 AND 0xf;
     let imm5_10 = shr value 25 AND 0x3f;
     let imm12 = shr value 31 AND 0x1;
     let imm = shl imm12 12 OR shl imm11 11 OR shl imm5_10 5 OR shl imm1_4 1;
     let sign_extended = sext32 imm 19;
     Some (scast sign_extended, sint sign_extended < 0)
   }"
| "riscv_read_value RV_JType bytes = do {
     value \<leftarrow> u32_from_slice bytes;
     let imm12_19 = shr value 12 AND 0xff;
     let imm11 = shr value 20 AND 0x1;
     let imm1_10 = shr value 21 AND 0x3ff;
     let imm20 = shr value 31 AND 0x1;
     let imm = shl imm20 20 OR shl imm12_19 12 OR shl imm11 11 OR shl imm1_10 1;
     let sign_extended = sext32 imm 11;
     Some (scast sign_extended, sint sign_extended < 0)
   }"
| "riscv_read_value RV_CbType bytes = do {
     value \<leftarrow> u16_from_slice bytes;
     let imm5 = shr value 2 AND 0x1;
     let imm1_2 = shr value 3 AND 0x3;
     let imm6_7 = shr value 5 AND 0x3;
     let imm3_4 = shr value 10 AND 0x3;
     let imm8 = shr value 12 AND 0x1;
     let imm = shl imm8 8 OR shl imm6_7 6 OR shl imm5 5 OR shl imm3_4 3 OR shl imm1_2 1;
     let sign_extended = sext32 (ucast imm) 23;
     Some (scast sign_extended, sint sign_extended < 0)
   }"
| "riscv_read_value RV_CjType bytes = do {
     value \<leftarrow> u16_from_slice bytes;
     let imm5 = shr value 2 AND 0x1;
     let imm1_3 = shr value 3 AND 0x7;
     let imm7 = shr value 6 AND 0x1;
     let imm6 = shr value 7 AND 0x1;
     let imm10 = shr value 8 AND 0x1;
     let imm8_9 = shr value 9 AND 0x3;
     let imm4 = shr value 11 AND 0x1;
     let imm11 = shr value 12 AND 0x1;
     let imm = shl imm11 11 OR shl imm10 10 OR shl imm8_9 8 OR shl imm7 7 OR shl imm6 6
       OR shl imm5 5 OR shl imm4 4 OR shl imm1_3 1;
     let sign_extended = sext32 (ucast imm) 20;
     Some (scast sign_extended, sint sign_extended < 0)
   }"
| "riscv_read_value RV_CluiType bytes = do {
     value \<leftarrow> u16_from_slice bytes;
     let nzimm4_0 = shr value 2 AND 0x1f;
     let nzimm5 = shr value 12 AND 0x1;
     let nzimm = shl nzimm5 5 OR nzimm4_0;
     let hi20 = (scast (sext32 (ucast nzimm) 26) :: u64);
     let extracted = shl hi20 12 - 0x800;
     Some (extracted, sint hi20 < 0)
   }"

lemmas riscv_masks = UTYPE_IMMEDIATE_MASK_def ITYPE_IMMEDIATE_MASK_def STYPE_IMMEDIATE_MASK_def
  BTYPE_IMMEDIATE_MASK_def JTYPE_IMMEDIATE_MASK_def CBTYPE_IMMEDIATE_MASK_def
  CJTYPE_IMMEDIATE_MASK_def CLUITYPE_IMMEDIATE_MASK_def

section \<open>The encodings as operations on the instruction word\<close>

primrec rv_keep :: "riscv_instruction \<Rightarrow> u32" where
  "rv_keep RV_UiType = UTYPE_IMMEDIATE_MASK"
| "rv_keep RV_UType = UTYPE_IMMEDIATE_MASK"
| "rv_keep RV_IType = ITYPE_IMMEDIATE_MASK"
| "rv_keep RV_SType = STYPE_IMMEDIATE_MASK"
| "rv_keep RV_BType = BTYPE_IMMEDIATE_MASK"
| "rv_keep RV_JType = JTYPE_IMMEDIATE_MASK"
| "rv_keep RV_CbType = ucast CBTYPE_IMMEDIATE_MASK"
| "rv_keep RV_CjType = ucast CJTYPE_IMMEDIATE_MASK"
| "rv_keep RV_CluiType = ucast CLUITYPE_IMMEDIATE_MASK"

primrec rv_imm :: "riscv_instruction \<Rightarrow> u64 \<Rightarrow> u32" where
  "rv_imm RV_UiType v = push_bit 12 (ucast (take_bit 20 (drop_bit 12 (v + 0x800))))"
| "rv_imm RV_UType v = push_bit 12 (ucast (take_bit 20 (drop_bit 12 (v + 0x800))))"
| "rv_imm RV_IType v = ucast (push_bit 20 v)"
| "rv_imm RV_SType v = ucast (push_bit 7 (take_bit 5 v) OR push_bit 25 (take_bit 7 (drop_bit 5 v)))"
| "rv_imm RV_BType v = ucast (push_bit 7 (take_bit 1 (drop_bit 11 v))
     OR push_bit 8 (take_bit 4 (drop_bit 1 v)) OR push_bit 25 (take_bit 6 (drop_bit 5 v))
     OR push_bit 31 (take_bit 1 (drop_bit 12 v)))"
| "rv_imm RV_JType v = ucast (push_bit 12 (take_bit 8 (drop_bit 12 v))
     OR push_bit 20 (take_bit 1 (drop_bit 11 v)) OR push_bit 21 (take_bit 10 (drop_bit 1 v))
     OR push_bit 31 (take_bit 1 (drop_bit 20 v)))"
| "rv_imm RV_CbType v = ucast (push_bit 2 (take_bit 1 (drop_bit 5 v))
     OR push_bit 3 (take_bit 2 (drop_bit 1 v)) OR push_bit 5 (take_bit 2 (drop_bit 6 v))
     OR push_bit 10 (take_bit 2 (drop_bit 3 v)) OR push_bit 12 (take_bit 1 (drop_bit 8 v)))"
| "rv_imm RV_CjType v = ucast (push_bit 2 (take_bit 1 (drop_bit 5 v))
     OR push_bit 3 (take_bit 3 (drop_bit 1 v)) OR push_bit 6 (take_bit 1 (drop_bit 7 v))
     OR push_bit 7 (take_bit 1 (drop_bit 6 v)) OR push_bit 8 (take_bit 1 (drop_bit 10 v))
     OR push_bit 9 (take_bit 2 (drop_bit 8 v)) OR push_bit 11 (take_bit 1 (drop_bit 4 v))
     OR push_bit 12 (take_bit 1 (drop_bit 11 v)))"
| "rv_imm RV_CluiType v = ucast (push_bit 2 (drop_bit 12 (v + 0x800) AND 0x1f)
     OR push_bit 12 (drop_bit 17 (v + 0x800) AND 1))"

text \<open>The number of bytes a class rewrites at the start of its buffer.\<close>

primrec rv_window :: "riscv_instruction \<Rightarrow> nat" where
  "rv_window RV_UiType = 8"
| "rv_window RV_UType = 4"
| "rv_window RV_IType = 4"
| "rv_window RV_SType = 4"
| "rv_window RV_BType = 4"
| "rv_window RV_JType = 4"
| "rv_window RV_CbType = 2"
| "rv_window RV_CjType = 2"
| "rv_window RV_CluiType = 2"

definition rv_insn_word :: "riscv_instruction \<Rightarrow> u64 \<Rightarrow> u32 \<Rightarrow> u32" where
  "rv_insn_word insn v w = (w AND rv_keep insn) OR rv_imm insn v"

lemma and_one_take_bit: "x AND 1 = take_bit 1 (x :: 'a::len word)"
  by (simp add: take_bit_eq_mask)

lemma riscv_write_word32:
  assumes "4 \<le> length dest" "rv_window insn = 4"
  shows "riscv_write_to_value insn v neg dest =
    Some (to_le_bytes 4 (rv_insn_word insn v (from_le_bytes (take 4 dest))) @ drop 4 dest)"
  using assms
  by (cases insn)
    (simp_all add: riscv_write_utype_def riscv_write_itype_def or_from_slice_word
      and_from_slice_word extract_bit_range_eq extract_bit_eq rv_insn_word_def Let_def)

lemma mask_slice_16:
  fixes keep m :: u32
  assumes "2 \<le> length dest" "take_bit 16 keep = keep"
  shows "and_from_slice dest (to_le_bytes 2 keep) \<bind> (\<lambda>dest. or_from_slice dest (to_le_bytes 2 m)) =
    Some (to_le_bytes 2 (((from_le_bytes (take 2 dest) :: u32) AND keep) OR m) @ drop 2 dest)"
proof -
  have "take_bit 16 (w AND keep) = w AND keep" for w :: u32
    using assms(2) by (metis take_bit_and and.assoc and.left_idem take_bit_eq_mask and.commute)
  then show ?thesis
    using assms(1) by (simp add: and_from_slice_word or_from_slice_word from_to_le_bytes)
qed

lemma riscv_write_word16:
  assumes "2 \<le> length dest" "rv_window insn = 2"
  shows "riscv_write_to_value insn v neg dest =
    Some (to_le_bytes 2 (rv_insn_word insn v (from_le_bytes (take 2 dest))) @ drop 2 dest)"
proof -
  have keep: "to_le_bytes 2 k = to_le_bytes 2 (ucast k :: u32)" for k :: u16
    by (simp add: to_le_bytes_ucast)
  have imm: "to_le_bytes 2 m = to_le_bytes 2 (ucast m :: u32)" for m :: u64
    by (simp add: to_le_bytes_ucast)
  have imm16: "to_le_bytes 2 (ucast m :: u16) = to_le_bytes 2 (ucast m :: u32)" for m :: u64
    by (simp add: to_le_bytes_ucast)
  show ?thesis
  proof (cases insn)
    case RV_CluiType
    show ?thesis
      unfolding RV_CluiType riscv_write_to_value.simps imm16 Let_def keep [of CLUITYPE_IMMEDIATE_MASK]
      using assms by (simp add: mask_slice_16 rv_insn_word_def riscv_masks)
  qed (use assms in \<open>simp_all add: mask_slice_16 keep imm extract_bit_range_eq extract_bit_eq
        rv_insn_word_def Let_def riscv_masks\<close>)
qed

lemma riscv_write_ui:
  assumes "8 \<le> length dest"
  shows "riscv_write_to_value RV_UiType v neg dest =
    Some (to_le_bytes 4 (rv_insn_word RV_UType v (from_le_bytes (take 4 dest)))
      @ to_le_bytes 4 (rv_insn_word RV_IType v (from_le_bytes (take 4 (drop 4 dest))))
      @ drop 8 dest)"
  using assms riscv_write_word32 [of "take 4 dest" RV_UType v]
    riscv_write_word32 [of "drop 4 dest" RV_IType v]
  by simp

lemma riscv_write_short: "length dest < rv_window insn \<Longrightarrow> riscv_write_to_value insn v neg dest = None"
  by (cases insn)
    (auto simp: riscv_write_utype_def riscv_write_itype_def or_slice.op_slice_eq
      and_slice.op_slice_eq Let_def)

lemma sext32_eq:
  assumes "k < 32"
  shows "sext32 x k = signed_take_bit (31 - k) x"
proof (rule bit_word_eqI)
  fix n assume "n < LENGTH(32)"
  with assms show "bit (sext32 x k) n \<longleftrightarrow> bit (signed_take_bit (31 - k) x) n"
    by (cases "n = 31 - k") (auto simp: sext32_def bit_simps min_def)
qed

text \<open>The kept bits of each class, as fields.\<close>

lemma keep_fields:
  "UTYPE_IMMEDIATE_MASK = mask 12"
  "ITYPE_IMMEDIATE_MASK = mask 20"
  "STYPE_IMMEDIATE_MASK = mask 7 OR push_bit 12 (mask 13)"
  "BTYPE_IMMEDIATE_MASK = mask 7 OR push_bit 12 (mask 13)"
  "JTYPE_IMMEDIATE_MASK = mask 12"
  "CBTYPE_IMMEDIATE_MASK = mask 2 OR push_bit 7 (mask 3) OR push_bit 13 (mask 3)"
  "CJTYPE_IMMEDIATE_MASK = mask 2 OR push_bit 13 (mask 3)"
  "CLUITYPE_IMMEDIATE_MASK = mask 2 OR push_bit 7 (mask 5) OR push_bit 13 (mask 3)"
  by (simp_all add: riscv_masks mask_eq_exp_minus_1)

lemma rv_imm_clui:
  "rv_imm RV_CluiType v = ucast (push_bit 2 (take_bit 5 (drop_bit 12 (v + 0x800)))
     OR push_bit 12 (take_bit 1 (drop_bit 17 (v + 0x800))))"
  by (simp only: rv_imm.simps and_low_mask_numerals)

text \<open>The immediate bits of a class never reach the bits it keeps.\<close>

lemma rv_imm_outside_keep: "\<not> (bit (rv_imm insn v) i \<and> bit (rv_keep insn) i)"
proof (cases insn)
  case RV_CluiType
  show ?thesis
    unfolding RV_CluiType rv_imm_clui by (auto simp: keep_fields bit_simps)
qed (auto simp: keep_fields bit_simps)

section \<open>Reading back what was written\<close>

text \<open>Sign bit of the immediate of the classes whose immediate is one signed number.\<close>

primrec rv_sign_bit :: "riscv_instruction \<Rightarrow> nat option" where
  "rv_sign_bit RV_UiType = None"
| "rv_sign_bit RV_UType = None"
| "rv_sign_bit RV_IType = Some 11"
| "rv_sign_bit RV_SType = Some 11"
| "rv_sign_bit RV_BType = Some 12"
| "rv_sign_bit RV_JType = Some 20"
| "rv_sign_bit RV_CbType = Some 8"
| "rv_sign_bit RV_CjType = Some 11"
| "rv_sign_bit RV_CluiType = None"

primrec rv_even :: "riscv_instruction \<Rightarrow> bool" where
  "rv_even RV_UiType = False"
| "rv_even RV_UType = False"
| "rv_even RV_IType = False"
| "rv_even RV_SType = False"
| "rv_even RV_BType = True"
| "rv_even RV_JType = True"
| "rv_even RV_CbType = True"
| "rv_even RV_CjType = True"
| "rv_even RV_CluiType = False"

text \<open>The immediate each class reads, before sign extension.\<close>

primrec rv_immediate :: "riscv_instruction \<Rightarrow> u32 \<Rightarrow> u32" where
  "rv_immediate RV_UiType w = 0"
| "rv_immediate RV_UType w = 0"
| "rv_immediate RV_IType w = take_bit 12 (drop_bit 20 w)"
| "rv_immediate RV_SType w = push_bit 5 (take_bit 7 (drop_bit 25 w)) OR take_bit 5 (drop_bit 7 w)"
| "rv_immediate RV_BType w = push_bit 12 (take_bit 1 (drop_bit 31 w))
     OR push_bit 11 (take_bit 1 (drop_bit 7 w))
     OR push_bit 5 (take_bit 6 (drop_bit 25 w)) OR push_bit 1 (take_bit 4 (drop_bit 8 w))"
| "rv_immediate RV_JType w = push_bit 20 (take_bit 1 (drop_bit 31 w))
     OR push_bit 12 (take_bit 8 (drop_bit 12 w))
     OR push_bit 11 (take_bit 1 (drop_bit 20 w)) OR push_bit 1 (take_bit 10 (drop_bit 21 w))"
| "rv_immediate RV_CbType w = push_bit 8 (take_bit 1 (drop_bit 12 w))
     OR push_bit 6 (take_bit 2 (drop_bit 5 w)) OR push_bit 5 (take_bit 1 (drop_bit 2 w))
     OR push_bit 3 (take_bit 2 (drop_bit 10 w)) OR push_bit 1 (take_bit 2 (drop_bit 3 w))"
| "rv_immediate RV_CjType w = push_bit 11 (take_bit 1 (drop_bit 12 w))
     OR push_bit 10 (take_bit 1 (drop_bit 8 w)) OR push_bit 8 (take_bit 2 (drop_bit 9 w))
     OR push_bit 7 (take_bit 1 (drop_bit 6 w)) OR push_bit 6 (take_bit 1 (drop_bit 7 w))
     OR push_bit 5 (take_bit 1 (drop_bit 2 w)) OR push_bit 4 (take_bit 1 (drop_bit 11 w))
     OR push_bit 1 (take_bit 3 (drop_bit 3 w))"
| "rv_immediate RV_CluiType w = 0"

lemmas rv_word_defs = rv_insn_word_def rv_immediate.simps rv_imm.simps rv_keep.simps keep_fields

lemma rv_immediate_i:
  assumes "i \<le> 11"
  shows "bit (rv_immediate RV_IType (rv_insn_word RV_IType v w)) i = bit v i"
proof -
  have "i \<le> 20"
    using assms(1) by simp
  from nat_le_20_cases [OF this] assms show ?thesis
    unfolding rv_word_defs
    by (elim insertE emptyE) (simp_all only: word_bits, simp_all add: numeral_2_eq_2 [symmetric])
qed

lemma rv_immediate_s:
  assumes "i \<le> 11"
  shows "bit (rv_immediate RV_SType (rv_insn_word RV_SType v w)) i = bit v i"
proof -
  have "i \<le> 20"
    using assms(1) by simp
  from nat_le_20_cases [OF this] assms show ?thesis
    unfolding rv_word_defs
    by (elim insertE emptyE) (simp_all only: word_bits, simp_all add: numeral_2_eq_2 [symmetric])
qed

lemma rv_immediate_b:
  assumes "i \<le> 12" "\<not> bit v 0"
  shows "bit (rv_immediate RV_BType (rv_insn_word RV_BType v w)) i = bit v i"
proof -
  have "i \<le> 20"
    using assms(1) by simp
  from nat_le_20_cases [OF this] assms show ?thesis
    unfolding rv_word_defs
    by (elim insertE emptyE) (simp_all only: word_bits, simp_all add: numeral_2_eq_2 [symmetric])
qed

lemma rv_immediate_j:
  assumes "i \<le> 20" "\<not> bit v 0"
  shows "bit (rv_immediate RV_JType (rv_insn_word RV_JType v w)) i = bit v i"
proof -
  have "i \<le> 20"
    using assms(1) by simp
  from nat_le_20_cases [OF this] assms show ?thesis
    unfolding rv_word_defs
    by (elim insertE emptyE) (simp_all only: word_bits, simp_all add: numeral_2_eq_2 [symmetric])
qed

lemma rv_immediate_cb:
  assumes "i \<le> 8" "\<not> bit v 0"
  shows "bit (rv_immediate RV_CbType (rv_insn_word RV_CbType v w)) i = bit v i"
proof -
  have "i \<le> 20"
    using assms(1) by simp
  from nat_le_20_cases [OF this] assms show ?thesis
    unfolding rv_word_defs
    by (elim insertE emptyE) (simp_all only: word_bits, simp_all add: numeral_2_eq_2 [symmetric])
qed

lemma rv_immediate_cj:
  assumes "i \<le> 11" "\<not> bit v 0"
  shows "bit (rv_immediate RV_CjType (rv_insn_word RV_CjType v w)) i = bit v i"
proof -
  have "i \<le> 20"
    using assms(1) by simp
  from nat_le_20_cases [OF this] assms show ?thesis
    unfolding rv_word_defs
    by (elim insertE emptyE) (simp_all only: word_bits, simp_all add: numeral_2_eq_2 [symmetric])
qed

lemma rv_immediate_encoded:
  assumes "rv_sign_bit insn = Some n" "i \<le> n" "rv_even insn \<Longrightarrow> \<not> bit v 0"
  shows "bit (rv_immediate insn (rv_insn_word insn v w)) i = bit v i"
  using assms
  by (cases insn) (simp_all only: rv_sign_bit.simps rv_even.simps option.inject option.distinct simp_thms
    rv_immediate_i rv_immediate_s rv_immediate_b rv_immediate_j rv_immediate_cb rv_immediate_cj)

lemma u16_from_slice_word:
  "2 \<le> length bytes \<Longrightarrow> u16_from_slice bytes = Some (from_le_bytes (take 2 bytes))"
  by (cases bytes; cases "tl bytes") (auto simp: u16_from_slice_def get_byte_def)

text \<open>The decoder of the signed classes is the sign extension of the immediate.\<close>

lemma riscv_read_word32:
  assumes "4 \<le> length bytes" "rv_window insn = 4" "rv_sign_bit insn = Some n"
  shows "riscv_read_value insn bytes =
    (let imm = signed_take_bit n (rv_immediate insn (from_le_bytes (take 4 bytes)))
     in Some (scast imm, sint imm < 0))"
  using assms
  by (cases insn) (simp_all only: riscv_read_value.simps riscv_read_itype_def rv_immediate.simps
    u32_from_slice_def and_low_mask_numerals Let_def bind.bind_lunit, simp_all add: sext32_eq)

lemma riscv_read_word16:
  assumes "2 \<le> length bytes" "rv_window insn = 2" "rv_sign_bit insn = Some n"
  shows "riscv_read_value insn bytes =
    (let imm = signed_take_bit n (rv_immediate insn (from_le_bytes (take 2 bytes)))
     in Some (scast imm, sint imm < 0))"
proof -
  have "(from_le_bytes (take 2 bytes) :: u32) = ucast (from_le_bytes (take 2 bytes) :: u16)"
    using assms(1) by (intro from_le_bytes_ucast) simp_all
  moreover have "(ucast (push_bit k (take_bit m (drop_bit j w))) :: u32) =
      push_bit k (take_bit m (drop_bit j (ucast w)))" if "k + m \<le> 16" for k m j and w :: u16
    using that by (intro bit_word_eqI) (auto simp: bit_simps dest: bit_word_less_length)
  ultimately show ?thesis
    using assms
    by (cases insn) (simp_all only: riscv_read_value.simps rv_immediate.simps
      u16_from_slice_word and_low_mask_numerals Let_def bind.bind_lunit unsigned_or_eq,
      simp_all add: sext32_eq del: One_nat_def)
qed

lemma riscv_insn_word_kept: "rv_insn_word insn v w AND rv_keep insn = w AND rv_keep insn"
  using rv_imm_outside_keep [of insn v]
  by (intro bit_word_eqI) (auto simp: rv_insn_word_def bit_and_iff bit_or_iff)

text \<open>For the six RISC-V classes with one signed immediate, decoding an encoded instruction gives
  back the value and its sign, whatever instruction was in the buffer, as long as the value is in the
  class's signed range (and even, for the branch and jump classes, which do not store bit 0).\<close>

lemma riscv_write_read:
  assumes "rv_sign_bit insn = Some n" "rv_window insn \<le> length dest"
    and "signed_take_bit n v = v" "rv_even insn \<Longrightarrow> \<not> bit v 0"
  shows "riscv_write_to_value insn v neg dest \<bind> riscv_read_value insn = Some (v, sint v < 0)"
proof -
  let ?w = "rv_insn_word insn v (from_le_bytes (take (rv_window insn) dest))"
  have "n < 32"
    using assms(1) by (cases insn) auto
  note ext = scast_signed_take_bit_eqI [OF assms(3) this rv_immediate_encoded [OF assms(1) _ assms(4)]]
  have "rv_window insn = 4 \<or> rv_window insn = 2"
    using assms(1) by (cases insn) auto
  then show ?thesis
  proof
    assume w: "rv_window insn = 4"
    then show ?thesis
      using assms(2)
      by (simp add: riscv_write_word32 riscv_read_word32 [OF _ w assms(1)] ext Let_def)
  next
    assume w: "rv_window insn = 2"
    have "rv_immediate insn (take_bit 16 x) = rv_immediate insn x" for x
      using w assms(1) by (cases insn) (auto simp: take_bit_drop_bit min_def)
    then show ?thesis
      using w assms(2)
      by (simp add: riscv_write_word16 riscv_read_word16 [OF _ w assms(1)] ext Let_def
        from_to_le_bytes)
  qed
qed

section \<open>The two halves of an address\<close>

text \<open>The value a HI20/LO12 pair computes\<close>

definition rv_upper :: "u32 \<Rightarrow> u64" where
  "rv_upper w = scast (w AND 0xfffff000)"

definition rv_lower :: "riscv_instruction \<Rightarrow> u32 \<Rightarrow> u64" where
  "rv_lower insn w = scast (signed_take_bit 11 (rv_immediate insn w))"

lemma scast_u32_id:
  fixes x :: u64
  assumes "signed_take_bit 31 x = x"
  shows "scast (ucast x :: u32) = x"
proof (rule bit_word_eqI)
  fix i assume i: "i < LENGTH(64)"
  have "bit x i = bit x (min i 31)"
    using bit_signed_take_bit_word [of 31 x i] assms i by simp
  then show "bit (scast (ucast x :: u32) :: u64) i = bit x i"
    using i by (cases "i < 32") (simp_all add: bit_signed_iff bit_unsigned_iff)
qed

lemma rv_upper_written:
  assumes "signed_take_bit 31 (v + 0x800) = v + 0x800"
  shows "rv_upper (rv_insn_word RV_UType v w) = (v + 0x800) - take_bit 12 (v + 0x800)"
proof -
  define c where "c = v + 0x800"
  have m: "(0xfffff000 :: u32) = NOT (mask 12)"
    by (simp add: mask_eq_exp_minus_1)
  have "rv_insn_word RV_UType v w AND NOT (mask 12) = ucast (c AND NOT (mask 12))"
    unfolding rv_insn_word_def rv_imm.simps rv_keep.simps keep_fields c_def [symmetric]
    by (intro bit_word_eqI) (auto simp: bit_simps)
  then have "rv_upper (rv_insn_word RV_UType v w) = scast (ucast (c AND NOT (mask 12)) :: u32)"
    by (simp only: rv_upper_def m)
  also have "\<dots> = c AND NOT (mask 12)"
  proof (rule scast_u32_id, rule bit_word_eqI)
    fix i assume i: "i < LENGTH(64)"
    have "bit c i = bit c (min i 31)"
      using bit_signed_take_bit_word [of 31 c i] assms i by (simp add: c_def)
    then show "bit (signed_take_bit 31 (c AND NOT (mask 12))) i = bit (c AND NOT (mask 12)) i"
      using i by (cases "i < 31") (simp_all add: bit_facts bit_simps)
  qed
  also have "\<dots> = c - take_bit 12 c"
    by (rule and_not_mask_minus)
  finally show ?thesis
    by (simp only: c_def)
qed

lemma rv_lower_written:
  assumes "insn = RV_IType \<or> insn = RV_SType"
  shows "rv_lower insn (rv_insn_word insn v w) = take_bit 12 (v + 0x800) - 0x800"
proof -
  have "rv_lower insn (rv_insn_word insn v w) = signed_take_bit 11 v"
    unfolding rv_lower_def
  proof (rule scast_signed_take_bit_eqI)
    show "signed_take_bit 11 (signed_take_bit 11 v) = signed_take_bit 11 v"
      by (intro bit_word_eqI) (simp add: bit_facts)
    show "bit (rv_immediate insn (rv_insn_word insn v w)) i = bit (signed_take_bit 11 v) i"
      if "i \<le> 11" for i
      using rv_immediate_encoded [of insn 11 i v w] that assms by (auto simp: bit_facts)
  qed simp
  also have "\<dots> = take_bit 12 (v + 0x800) - 0x800"
    using signed_take_bit_u64_shift [of 11 v] by simp
  finally show ?thesis .
qed


lemma rv_pair_sum:
  assumes "signed_take_bit 31 (v + 0x800) = v + 0x800" "insn = RV_IType \<or> insn = RV_SType"
  shows "rv_upper (rv_insn_word RV_UType v hi) + rv_lower insn (rv_insn_word insn v lo) = v"
  by (simp add: rv_upper_written [OF assms(1)] rv_lower_written [OF assms(2)])



end
