(* ===== verification/Relax_Types.thy ===== *)
theory Relax_Types
  imports Bit_Utils
begin

text \<open>
  The types the architectures' relaxations share: the modifier a relaxation returns for the next
  relocation (\<open>linker-utils/src/relaxation.rs\<close>) and the three things every \<open>RelaxationKind::apply\<close>
  may change, the bytes of the section, the offset of the relocation and its addend. A relaxation
  that indexes the section out of range panics (\<open>None\<close>).
\<close>

datatype relocation_modifier = Normal | SkipNextRelocation

record relax_site =
  section_bytes :: "u8 list"
  offset_in_section :: u64
  addend :: i64

text \<open>\<open>section_bytes[lo..hi].copy_from_slice(&bs)\<close> and \<open>section_bytes[i] = b\<close> on a site.\<close>

definition site_copy :: "relax_site \<Rightarrow> u64 \<Rightarrow> u64 \<Rightarrow> u8 list \<Rightarrow> relax_site option" where
  "site_copy s lo hi bs = do {
     out \<leftarrow> copy_from_slice (section_bytes s) lo hi bs;
     Some (s\<lparr>section_bytes := out\<rparr>)
   }"

definition site_set :: "relax_site \<Rightarrow> u64 \<Rightarrow> u8 \<Rightarrow> relax_site option" where
  "site_set s i b = do {
     out \<leftarrow> set_byte (section_bytes s) i b;
     Some (s\<lparr>section_bytes := out\<rparr>)
   }"

text \<open>Two byte lists that differ only at the positions of \<open>W\<close>.\<close>

definition same_outside :: "nat set \<Rightarrow> u8 list \<Rightarrow> u8 list \<Rightarrow> bool" where
  "same_outside W xs ys \<longleftrightarrow>
     length xs = length ys \<and> (\<forall>i. i < length xs \<longrightarrow> i \<notin> W \<longrightarrow> xs ! i = ys ! i)"

lemma same_outside_refl [simp]: "same_outside W xs xs"
  by (simp add: same_outside_def)

lemma same_outside_trans:
  "same_outside W xs ys \<Longrightarrow> same_outside W ys zs \<Longrightarrow> same_outside W xs zs"
  by (simp add: same_outside_def)

lemma same_outside_mono: "same_outside V xs ys \<Longrightarrow> V \<subseteq> W \<Longrightarrow> same_outside W xs ys"
  by (auto simp: same_outside_def)

lemma same_outside_length: "same_outside W xs ys \<Longrightarrow> length ys = length xs"
  by (simp add: same_outside_def)

lemma copy_from_slice_same_outside:
  assumes "copy_from_slice xs lo hi bs = Some ys" "{unat lo ..< unat hi} \<subseteq> W"
  shows "same_outside W xs ys"
  using assms
  by (auto simp: same_outside_def copy_from_slice_def nth_splice split: if_splits)

lemma set_byte_same_outside:
  assumes "set_byte xs i b = Some ys" "unat i \<in> W"
  shows "same_outside W xs ys"
  using assms by (auto simp: same_outside_def set_byte_def nth_list_update split: if_splits)

lemma site_copy_SomeD:
  assumes "site_copy s lo hi bs = Some t"
  shows "offset_in_section t = offset_in_section s" "addend t = addend s"
    "copy_from_slice (section_bytes s) lo hi bs = Some (section_bytes t)"
  using assms by (auto simp: site_copy_def split: bind_splits)

lemma site_set_SomeD:
  assumes "site_set s i b = Some t"
  shows "offset_in_section t = offset_in_section s" "addend t = addend s"
    "set_byte (section_bytes s) i b = Some (section_bytes t)"
  using assms by (auto simp: site_set_def split: bind_splits)

text \<open>
  A section is smaller than the address space, so an offset inside it can be advanced without
  wrapping.
\<close>

lemma unat_offset_add:
  fixes off :: u64
  assumes "unat off + k \<le> n" "n < 2 ^ 64"
  shows "unat (off + of_nat k) = unat off + k"
  using assms by (simp add: unat_word_ariths unat_of_nat)

lemma site_copy_at:
  assumes "unat lo + length bs \<le> length (section_bytes s)" "length (section_bytes s) < 2 ^ 64"
    and "hi = lo + of_nat (length bs)"
  shows "site_copy s lo hi bs =
    Some (s\<lparr>section_bytes := splice (unat lo) bs (section_bytes s)\<rparr>)"
  using assms(1) unat_offset_add [OF assms(1,2)]
  by (simp add: site_copy_def copy_from_slice_def assms(3))

lemma drop_splice:
  "off + length bs \<le> length xs \<Longrightarrow> drop off (splice off bs xs) = bs @ drop (off + length bs) xs"
  by (simp add: splice_def)

section \<open>Relaxations that stay inside one instruction\<close>

text \<open>
  What the linker relies on when it applies a relaxation of a fixed-width architecture: the four bytes
  at the relocation may change, nothing else does, and the relocation stays where it was. A slice is
  at most \<open>isize::MAX\<close> bytes long.
\<close>

definition in_section :: "relax_site \<Rightarrow> bool" where
  "in_section s \<longleftrightarrow> unat (offset_in_section s) < length (section_bytes s)
     \<and> length (section_bytes s) < 2 ^ 63"

locale in_place_relaxation =
  fixes relax :: "'k \<Rightarrow> relax_site \<Rightarrow> relax_site option"
  assumes relax_stays: "relax k s = Some t \<Longrightarrow>
      offset_in_section t = offset_in_section s \<and> addend t = addend s"
    and relax_local: "relax k s = Some t \<Longrightarrow> in_section s \<Longrightarrow>
      same_outside {unat (offset_in_section s) ..< unat (offset_in_section s) + 4}
        (section_bytes s) (section_bytes t)"
begin

lemma relax_length: "relax k s = Some t \<Longrightarrow> in_section s \<Longrightarrow> length (section_bytes t) = length (section_bytes s)"
  using relax_local same_outside_length by blast

text \<open>Relaxing two instructions of a section, one after the other, leaves everything outside the two
  instructions alone.\<close>

lemma relax_two:
  assumes "relax k s = Some t" "relax k' (t\<lparr>offset_in_section := off\<rparr>) = Some u"
    and "in_section s" "unat off < length (section_bytes s)"
  shows "same_outside ({unat (offset_in_section s) ..< unat (offset_in_section s) + 4}
      \<union> {unat off ..< unat off + 4}) (section_bytes s) (section_bytes u)"
proof -
  have "same_outside {unat off ..< unat off + 4} (section_bytes t) (section_bytes u)"
    using relax_local [OF assms(2)] relax_length [OF assms(1,3)] assms(3,4) by (simp add: in_section_def)
  with relax_local [OF assms(1,3)] show ?thesis
    by (meson same_outside_mono same_outside_trans sup_ge1 sup_ge2)
qed

end

text \<open>A copy that starts at the relocation and is at most four bytes long has the frame of the locale.\<close>

lemma site_copy_local:
  assumes "site_copy s (offset_in_section s) hi bs = Some t" "length bs \<le> 4"
  shows "offset_in_section t = offset_in_section s \<and> addend t = addend s
    \<and> same_outside {unat (offset_in_section s) ..< unat (offset_in_section s) + 4}
        (section_bytes s) (section_bytes t)"
proof -
  note copy = site_copy_SomeD [OF assms(1)]
  then have "unat hi - unat (offset_in_section s) = length bs"
    by (auto simp: copy_from_slice_def split: if_splits)
  with assms(2) have "{unat (offset_in_section s) ..< unat hi} \<subseteq>
      {unat (offset_in_section s) ..< unat (offset_in_section s) + 4}"
    by auto
  with copy show ?thesis
    using copy_from_slice_same_outside by blast
qed

end
