(* ===== verification/Loongarch_Insn.thy ===== *)
theory Loongarch_Insn
  imports Elf_Types Relax_Types
begin

text \<open>
  The LoongArch64 part of \<open>linker-utils/src/loongarch64.rs\<close>: instruction encoders and decoders,
  the 64-bit PC-relative formula and the two relaxations. The lemmas show the encoders as operations
  on instruction words, that the branch classes round-trip with their sign, and that the
  \<open>pcaddu18i\<close>/\<open>jirl\<close> pair of a \<open>Call36\<close> reaches its target.
\<close>

section \<open>The encoder\<close>

definition CALL30_CLEAR :: u64 where
  "CALL30_CLEAR = shl 0xFFF803FF 32 OR 0xFE00001F"

definition CALL36_CLEAR :: u64 where
  "CALL36_CLEAR = shl 0xFC0003FF 32 OR 0xFE00001F"

primrec loongarch64_write_to_value ::
    "loongarch64_instruction \<Rightarrow> u64 \<Rightarrow> bool \<Rightarrow> u8 list \<Rightarrow> u8 list option" where
  "loongarch64_write_to_value LA_Shift5 v neg dest = do {
     dest \<leftarrow> and_from_slice dest (to_le_bytes 4 (0xFE00001F :: u32));
     let mask = shl v 5;
     or_from_slice dest (to_le_bytes 4 (ucast mask :: u32))
   }"
| "loongarch64_write_to_value LA_Shift10 v neg dest = do {
     dest \<leftarrow> and_from_slice dest (to_le_bytes 4 (0xFFC003FF :: u32));
     let mask = shl v 10;
     or_from_slice dest (to_le_bytes 4 (ucast mask :: u32))
   }"
| "loongarch64_write_to_value LA_Branch26 v neg dest = do {
     dest \<leftarrow> and_from_slice dest (to_le_bytes 4 (0xFC000000 :: u32));
     let low_part = shl (v AND 0xffff) 10;
     let high_part = shr v 16;
     or_from_slice dest (to_le_bytes 4 (ucast (low_part OR high_part) :: u32))
   }"
| "loongarch64_write_to_value LA_Branch21 v neg dest = do {
     dest \<leftarrow> and_from_slice dest (to_le_bytes 4 (0xFC0003E0 :: u32));
     let low_part = shl (v AND 0xffff) 10;
     let high_part = shr v 16;
     or_from_slice dest (to_le_bytes 4 (ucast (low_part OR high_part) :: u32))
   }"
| "loongarch64_write_to_value LA_Call30 v neg dest = do {
     dest \<leftarrow> and_from_slice dest (to_le_bytes 8 CALL30_CLEAR);
     let low_part = shl (v AND 0x1ff) (32 + 10);
     let high_part = shl (v AND NOT 0x1ff) 5;
     or_from_slice dest (to_le_bytes 8 (low_part OR high_part))
   }"
| "loongarch64_write_to_value LA_Call36 v neg dest = do {
     dest \<leftarrow> and_from_slice dest (to_le_bytes 8 CALL36_CLEAR);
     let low_part = shl (v AND 0xffff) (32 + 10);
     let high_part = shl (shr (v + 0x8000) 16) 5;
     or_from_slice dest (to_le_bytes 8 (low_part OR high_part))
   }"

section \<open>The decoder\<close>

primrec loongarch64_read_value :: "loongarch64_instruction \<Rightarrow> u8 list \<Rightarrow> (u64 \<times> bool) option" where
  "loongarch64_read_value LA_Shift5 bytes = do {
     value \<leftarrow> u32_from_slice bytes;
     let imm = shr value 5 AND 0xfffff;
     Some (ucast imm, False)
   }"
| "loongarch64_read_value LA_Shift10 bytes = do {
     value \<leftarrow> u32_from_slice bytes;
     let imm = shr value 10 AND 0xfff;
     Some (ucast imm, False)
   }"
| "loongarch64_read_value LA_Branch26 bytes = do {
     value \<leftarrow> u32_from_slice bytes;
     let low_part = shr value 10 AND 0xffff;
     let high_part = value AND 0x3ff;
     let imm = shl high_part 16 OR low_part;
     let sign_extended = sar (shl imm 6) 6;
     Some (scast sign_extended, sint sign_extended < 0)
   }"
| "loongarch64_read_value LA_Branch21 bytes = do {
     value \<leftarrow> u32_from_slice bytes;
     let low_part = shr value 10 AND 0xffff;
     let high_part = value AND 0x1f;
     let imm = shl high_part 16 OR low_part;
     let sign_extended = sar (shl imm 11) 11;
     Some (scast sign_extended, sint sign_extended < 0)
   }"
| "loongarch64_read_value LA_Call30 bytes = do {
     value \<leftarrow> u64_from_slice bytes;
     let insn1 = (ucast (shr value 32) :: u32);
     let insn2 = (ucast value :: u32);
     let high_part = shl (shr insn1 5 AND 0x7ffff) 9;
     let low_part = shr insn2 10 AND 0x1ff;
     let imm = high_part OR low_part;
     Some (ucast imm, False)
   }"
| "loongarch64_read_value LA_Call36 bytes = do {
     value \<leftarrow> u64_from_slice bytes;
     let insn1 = (ucast value :: u32);
     let insn2 = (ucast (shr value 32) :: u32);
     let high_part = (ucast (shr insn1 5 AND 0xfffff) :: u64);
     let low_part = (ucast (shr insn2 10 AND 0xffff) :: u64);
     let imm = ((shl high_part 16 - 0x8000) AND 0xffffffff) OR low_part;
     Some (imm, False)
   }"

section \<open>The 64-bit PC-relative formula\<close>

definition highest_relocation_with_bias :: "u64 \<Rightarrow> u64 \<Rightarrow> u64" where
  "highest_relocation_with_bias symbol_with_addend pc =
     ((symbol_with_addend + SIZE_2GB
        + (if symbol_with_addend AND SIZE_2KB \<noteq> 0 then SIZE_4KB - SIZE_4GB else 0))
       AND NOT PAGE_MASK_4KB)
     - ((pc - 8) AND NOT PAGE_MASK_4KB)"

section \<open>Relaxations\<close>

datatype loongarch64_relaxation = LAR_NoOp | LAR_ReplaceWithNop

primrec loongarch64_relax_apply :: "loongarch64_relaxation \<Rightarrow> relax_site \<Rightarrow> relax_site option" where
  "loongarch64_relax_apply LAR_NoOp s = Some s"
| "loongarch64_relax_apply LAR_ReplaceWithNop s =
     (let offset = offset_in_section s
      in site_copy s offset (offset + 4) [0x03, 0x40, 0x0, 0x0])"

definition loongarch64_next_modifier :: "loongarch64_relaxation \<Rightarrow> relocation_modifier" where
  "loongarch64_next_modifier k = Normal"

interpretation la_relax: in_place_relaxation loongarch64_relax_apply
proof
  fix k s t
  assume "loongarch64_relax_apply k s = Some t"
  then have "offset_in_section t = offset_in_section s \<and> addend t = addend s
    \<and> same_outside {unat (offset_in_section s) ..< unat (offset_in_section s) + 4}
        (section_bytes s) (section_bytes t)"
    by (cases k) (auto simp: Let_def dest!: site_copy_local)
  then show "offset_in_section t = offset_in_section s \<and> addend t = addend s"
    and "same_outside {unat (offset_in_section s) ..< unat (offset_in_section s) + 4}
        (section_bytes s) (section_bytes t)"
    by simp_all
qed

section \<open>The encodings as operations on the instruction word\<close>

text \<open>The bytes a class rewrites, the bits of them it keeps and the bits it puts in.\<close>

primrec la_window :: "loongarch64_instruction \<Rightarrow> nat" where
  "la_window LA_Shift5 = 4"
| "la_window LA_Shift10 = 4"
| "la_window LA_Branch26 = 4"
| "la_window LA_Branch21 = 4"
| "la_window LA_Call30 = 8"
| "la_window LA_Call36 = 8"

primrec la_keep :: "loongarch64_instruction \<Rightarrow> u64" where
  "la_keep LA_Shift5 = 0xFE00001F"
| "la_keep LA_Shift10 = 0xFFC003FF"
| "la_keep LA_Branch26 = 0xFC000000"
| "la_keep LA_Branch21 = 0xFC0003E0"
| "la_keep LA_Call30 = CALL30_CLEAR"
| "la_keep LA_Call36 = CALL36_CLEAR"

primrec la_imm :: "loongarch64_instruction \<Rightarrow> u64 \<Rightarrow> u64" where
  "la_imm LA_Shift5 v = push_bit 5 v"
| "la_imm LA_Shift10 v = push_bit 10 v"
| "la_imm LA_Branch26 v = push_bit 10 (take_bit 16 v) OR drop_bit 16 v"
| "la_imm LA_Branch21 v = push_bit 10 (take_bit 16 v) OR drop_bit 16 v"
| "la_imm LA_Call30 v = push_bit 42 (take_bit 9 v) OR push_bit 5 (v AND NOT (mask 9))"
| "la_imm LA_Call36 v = push_bit 42 (take_bit 16 v) OR push_bit 5 (drop_bit 16 (v + 0x8000))"

definition la_insn_word :: "loongarch64_instruction \<Rightarrow> u64 \<Rightarrow> u64 \<Rightarrow> u64" where
  "la_insn_word insn v w = (w AND la_keep insn) OR la_imm insn v"

lemma mask_slice_32:
  fixes keep :: u32 and m :: u64
  assumes "4 \<le> length dest"
  shows "and_from_slice dest (to_le_bytes 4 keep) \<bind>
      (\<lambda>dest. or_from_slice dest (to_le_bytes 4 (ucast m :: u32))) =
    Some (to_le_bytes 4 ((from_le_bytes (take 4 dest) AND ucast keep :: u64) OR m) @ drop 4 dest)"
proof -
  have "to_le_bytes 4 ((from_le_bytes (take 4 dest) AND keep) OR ucast m) =
      to_le_bytes 4 ((from_le_bytes (take 4 dest) AND ucast keep :: u64) OR m)"
    by (intro to_le_bytes_cong) (auto simp: bit_simps bit_from_le_bytes)
  then show ?thesis
    using assms by (simp add: and_from_slice_word or_from_slice_word)
qed

lemma loongarch64_write_word:
  assumes "la_window insn \<le> length dest"
  shows "loongarch64_write_to_value insn v neg dest =
    Some (to_le_bytes (la_window insn)
        (la_insn_word insn v (from_le_bytes (take (la_window insn) dest)))
      @ drop (la_window insn) dest)"
proof -
  have not9: "NOT 0x1ff = (NOT (mask 9) :: u64)"
    by (simp add: mask_eq_exp_minus_1)
  show ?thesis
    using assms
    by (cases insn)
      (simp_all only: loongarch64_write_to_value.simps Let_def mask_slice_32 la_window.simps
        la_insn_word_def la_imm.simps la_keep.simps and_low_mask_numerals not9,
       simp_all add: and_from_slice_word or_from_slice_word)
qed

lemma loongarch64_write_short:
  "length dest < la_window insn \<Longrightarrow> loongarch64_write_to_value insn v neg dest = None"
  by (cases insn) (auto simp: or_slice.op_slice_eq and_slice.op_slice_eq Let_def)

text \<open>The kept bits as fields, for the proofs that look at single bits.\<close>

lemma la_keep_fields:
  "la_keep LA_Shift5 = mask 5 OR push_bit 25 (mask 7)"
  "la_keep LA_Shift10 = mask 10 OR push_bit 22 (mask 10)"
  "la_keep LA_Branch26 = push_bit 26 (mask 6)"
  "la_keep LA_Branch21 = push_bit 5 (mask 5) OR push_bit 26 (mask 6)"
  "la_keep LA_Call30 = mask 5 OR push_bit 25 (mask 7) OR push_bit 32 (mask 10) OR push_bit 51 (mask 13)"
  "la_keep LA_Call36 = mask 5 OR push_bit 25 (mask 7) OR push_bit 32 (mask 10) OR push_bit 58 (mask 6)"
  by (simp_all add: mask_eq_exp_minus_1 CALL30_CLEAR_def CALL36_CLEAR_def)

declare la_keep.simps [simp del]

text \<open>The width of the immediate a class takes: the table entries extract at most this many bits.\<close>

primrec la_width :: "loongarch64_instruction \<Rightarrow> nat" where
  "la_width LA_Shift5 = 20"
| "la_width LA_Shift10 = 12"
| "la_width LA_Branch26 = 26"
| "la_width LA_Branch21 = 21"
| "la_width LA_Call30 = 17"
| "la_width LA_Call36 = 36"

lemma la_bit_outside:
  assumes "take_bit n (v :: u64) = v" "n \<le> i"
  shows "\<not> bit v i"
  using assms bit_take_bit_word [of n v i] by auto

text \<open>A value that fits the class leaves the kept bits of the instruction alone.\<close>

lemma la_insn_word_kept:
  assumes "take_bit (la_width insn) v = v" "insn \<noteq> LA_Call30" "insn \<noteq> LA_Call36"
  shows "take_bit 32 (la_insn_word insn v w AND la_keep insn) = take_bit 32 (w AND la_keep insn)"
proof (rule bit_word_eqI)
  fix i assume "i < LENGTH(64)"
  have v: "bit v j \<Longrightarrow> j < la_width insn" for j
    using la_bit_outside [OF assms(1), of j] by (meson not_less)
  show "bit (take_bit 32 (la_insn_word insn v w AND la_keep insn)) i \<longleftrightarrow>
      bit (take_bit 32 (w AND la_keep insn)) i"
    using assms(2,3) v [of "i - 5"] v [of "i - 10"] v [of "16 + i"]
    unfolding la_insn_word_def
    by (cases insn) (auto simp: la_keep_fields bit_simps)
qed

section \<open>Reading back what was written\<close>

definition la_immediate :: "nat \<Rightarrow> u64 \<Rightarrow> u64" where
  "la_immediate hi w = push_bit 16 (take_bit hi w) OR take_bit 16 (drop_bit 10 w)"

lemma la_branch_immediate:
  "insn = LA_Branch26 \<and> hi = 10 \<or> insn = LA_Branch21 \<and> hi = 5 \<Longrightarrow>
     la_immediate hi (la_insn_word insn (take_bit (la_width insn) v) w) = take_bit (la_width insn) v"
  unfolding la_immediate_def la_insn_word_def
  by (intro bit_word_eqI) (auto simp: la_keep_fields bit_simps)

lemma scast_shift_pair:
  fixes imm :: u32
  shows "sar (shl imm 6) 6 = signed_take_bit 25 imm" "sar (shl imm 11) 11 = signed_take_bit 20 imm"
proof -
  have "sar (shl imm k) k = signed_take_bit (31 - k) imm" if "k < 32" for k
  proof (rule bit_word_eqI)
    fix i assume "i < LENGTH(32)"
    then show "bit (sar (shl imm k) k) i = bit (signed_take_bit (31 - k) imm) i"
      using that by (cases "i = 31 - k") (auto simp: bit_simps min_def)
  qed
  from this [of 6] this [of 11]
  show "sar (shl imm 6) 6 = signed_take_bit 25 imm" "sar (shl imm 11) 11 = signed_take_bit 20 imm"
    by simp_all
qed

lemma la_branch_read:
  assumes "insn = LA_Branch26 \<and> n = 25 \<and> hi = 10 \<or> insn = LA_Branch21 \<and> n = 20 \<and> hi = 5"
    and "4 \<le> length bytes"
  shows "loongarch64_read_value insn bytes =
    (let imm = signed_take_bit n (ucast (la_immediate hi (from_le_bytes (take 4 bytes))) :: u32)
     in Some (scast imm, sint imm < 0))"
proof -
  define w :: u32 where "w = from_le_bytes (take 4 bytes)"
  have "(from_le_bytes (take 4 bytes) :: u64) = ucast w"
    unfolding w_def using assms(2) by (intro from_le_bytes_ucast) simp_all
  moreover have "(ucast (la_immediate h (ucast w)) :: u32) =
      push_bit 16 (take_bit h w) OR take_bit 16 (drop_bit 10 w)" for h
    unfolding la_immediate_def by (intro bit_word_eqI) (auto simp: bit_simps)
  ultimately show ?thesis
    using assms
    by (elim disjE)
      (simp_all add: u32_from_slice_def Let_def scast_shift_pair and_low_mask_numerals w_def
        del: sar_small shl_small shr_small, simp_all)
qed

text \<open>Decoding an encoded LoongArch branch gives back the signed displacement, whatever instruction was
  in the buffer.\<close>

lemma loongarch64_branch_write_read:
  assumes "insn = LA_Branch26 \<and> n = 25 \<or> insn = LA_Branch21 \<and> n = 20" "4 \<le> length dest"
    and "signed_take_bit n v = v"
  shows "loongarch64_write_to_value insn (take_bit (Suc n) v) neg dest \<bind> loongarch64_read_value insn
    = Some (v, sint v < 0)"
proof -
  define hi :: nat where "hi = (if n = 25 then 10 else 5)"
  define w where "w = la_insn_word insn (take_bit (Suc n) v) (from_le_bytes (take 4 dest))"
  have hi: "insn = LA_Branch26 \<and> n = 25 \<and> hi = 10 \<or> insn = LA_Branch21 \<and> n = 20 \<and> hi = 5"
    using assms(1) by (auto simp: hi_def)
  have "la_immediate hi (take_bit 32 w) = la_immediate hi w"
    using hi unfolding la_immediate_def by (intro bit_word_eqI) (auto simp: bit_simps)
  moreover have "la_immediate hi w = take_bit (Suc n) v"
    using la_branch_immediate [of insn hi v] hi unfolding w_def by auto
  ultimately have "la_immediate hi (take_bit 32 w) = take_bit (Suc n) v"
    by simp
  moreover have "loongarch64_write_to_value insn (take_bit (Suc n) v) neg dest =
      Some (to_le_bytes 4 w @ drop 4 dest)"
    using loongarch64_write_word [of insn dest "take_bit (Suc n) v" neg] assms(1,2)
    unfolding w_def by (elim disjE) (simp_all del: loongarch64_write_to_value.simps)
  moreover have "scast (signed_take_bit n (ucast (take_bit (Suc n) v) :: u32)) = v"
    "sint (signed_take_bit n (ucast (take_bit (Suc n) v) :: u32)) < 0 \<longleftrightarrow> sint v < 0"
    using assms(1,3) by (intro scast_signed_take_bit_eqI; auto simp: bit_simps)+
  ultimately show ?thesis
    by (simp add: la_branch_read [OF hi] from_to_le_bytes Let_def)
qed

section \<open>The call pair\<close>

text \<open>
  What the pair \<open>pcaddu18i\<close>, \<open>jirl\<close> adds to the program counter, in units of four bytes: the
  sign-extended 20-bit upper immediate times $2^{16}$ plus the sign-extended 16-bit offset.
\<close>

definition la_call36_offset :: "u64 \<Rightarrow> u64" where
  "la_call36_offset w = push_bit 16 (signed_take_bit 19 (take_bit 20 (drop_bit 5 w)))
     + signed_take_bit 15 (take_bit 16 (drop_bit 42 w))"

lemma la_call36_fields:
  defines "W v w \<equiv> la_insn_word LA_Call36 v w"
  shows "take_bit 20 (drop_bit 5 (W v w)) = take_bit 20 (drop_bit 16 (v + 0x8000))"
    and "take_bit 36 v = v \<Longrightarrow> take_bit 16 (drop_bit 42 (W v w)) = take_bit 16 v"
proof -
  show "take_bit 20 (drop_bit 5 (W v w)) = take_bit 20 (drop_bit 16 (v + 0x8000))"
    unfolding W_def la_insn_word_def la_imm.simps la_keep_fields
    by (intro bit_word_eqI) (auto simp: bit_simps)
  assume v: "take_bit 36 v = v"
  define c where "c = drop_bit 16 (v + 0x8000)"
  have "uint v < 2 ^ 36"
    using v by (simp only: take_bit_word_eq_iff)
  then have "uint (v + 0x8000) < 2 ^ 37"
    by (simp add: uint_word_ariths)
  then have "take_bit 37 (v + 0x8000) = v + 0x8000"
    by (simp only: take_bit_word_eq_iff)
  then have c: "\<not> bit c i" if "37 \<le> i" for i
    using la_bit_outside [of 37 "v + 0x8000" "16 + i"] that by (simp add: c_def bit_drop_bit_word)
  show "take_bit 16 (drop_bit 42 (W v w)) = take_bit 16 v"
    unfolding W_def la_insn_word_def la_imm.simps la_keep_fields c_def [symmetric]
    using c by (intro bit_word_eqI) (auto simp: bit_simps)
qed

lemma la_upper_part:
  fixes c :: u64
  assumes "signed_take_bit 35 c = c"
  shows "push_bit 16 (signed_take_bit 19 (take_bit 20 (drop_bit 16 c))) = c - take_bit 16 c"
proof -
  have "push_bit 16 (signed_take_bit 19 (take_bit 20 (drop_bit 16 c))) = c AND NOT (mask 16)"
  proof (rule bit_word_eqI)
    fix i assume i: "i < LENGTH(64)"
    have "bit c i = bit c (min i 35)"
      using bit_signed_take_bit_word [of 35 c i] assms i by simp
    then show "bit (push_bit 16 (signed_take_bit 19 (take_bit 20 (drop_bit 16 c)))) i =
        bit (c AND NOT (mask 16)) i"
      using i by (cases "i < 35") (auto simp: bit_simps min_def)
  qed
  then show ?thesis
    by (simp only: and_not_mask_minus)
qed

lemma take_bit_add_left:
  fixes x y :: u64
  assumes "n \<le> 64"
  shows "take_bit n (take_bit n x + y) = take_bit n (x + y)"
proof -
  have u: "uint (take_bit n w) = uint w mod 2 ^ n" for w :: u64
    by (simp only: unsigned_take_bit_eq) (simp add: take_bit_eq_mod)
  have "(2 :: int) ^ n dvd 2 ^ 64"
    using assms by (rule le_imp_power_dvd)
  then have "k mod 2 ^ 64 mod 2 ^ n = k mod 2 ^ n" for k :: int
    by (rule mod_mod_cancel)
  then show ?thesis
    by (simp add: word_uint_eq_iff u uint_word_ariths mod_add_left_eq)
qed

lemma la_call36_offset_written:
  assumes "signed_take_bit 35 (q + 0x8000) = q + 0x8000"
  shows "la_call36_offset (la_insn_word LA_Call36 (take_bit 36 q) w) = q"
proof -
  have idem: "take_bit 36 (take_bit 36 q) = take_bit 36 q"
    by simp
  have "take_bit 36 (take_bit 36 q + 0x8000) = take_bit 36 (q + 0x8000)"
    by (rule take_bit_add_left) simp
  then have "take_bit 20 (drop_bit 16 (take_bit 36 q + 0x8000)) = take_bit 20 (drop_bit 16 (q + 0x8000))"
    using take_bit_drop_bit [of 20 16 "q + 0x8000"]
      take_bit_drop_bit [of 20 16 "take_bit 36 q + 0x8000"] by simp
  moreover have "signed_take_bit 15 (take_bit 16 (take_bit 36 q)) = signed_take_bit 15 q"
    by (intro bit_word_eqI) (auto simp: bit_simps min_def)
  moreover have "signed_take_bit 15 q = take_bit 16 (q + 0x8000) - 0x8000"
    using signed_take_bit_u64_shift [of 15 q] by simp
  ultimately show ?thesis
    by (simp add: la_call36_offset_def la_call36_fields(1) la_call36_fields(2) [OF idem]
      la_upper_part [OF assms])
qed

text \<open>A \<open>Call36\<close> relocation writes a \<open>pcaddu18i\<close>/\<open>jirl\<close> pair that reaches the target: the
  offset the two instructions add up to is the one that was encoded, for every 36-bit offset that
  stays in range after the rounding by \<open>0x8000\<close>.\<close>

theorem loongarch64_call36_reaches:
  assumes "8 \<le> length dest" "signed_take_bit 35 (q + 0x8000) = q + 0x8000"
  shows "\<exists>out w. loongarch64_write_to_value LA_Call36 (take_bit 36 q) neg dest = Some out
    \<and> u64_from_slice out = Some w \<and> la_call36_offset w = q \<and> drop 8 out = drop 8 dest"
  using loongarch64_write_word [of LA_Call36 dest "take_bit 36 q" neg] assms(1)
    la_call36_offset_written [OF assms(2)]
  by (auto simp: u64_from_slice_def simp del: loongarch64_write_to_value.simps)

theorem loongarch64_call36_reaches_witness:
  "\<exists>out w. loongarch64_write_to_value LA_Call36 (take_bit 36 (- 4)) True
      [0x01, 0, 0, 0x1e, 0x21, 0, 0, 0x4c] = Some out
    \<and> u64_from_slice out = Some w \<and> la_call36_offset w = - 4 \<and> drop 8 out = []"
proof -
  have "8 \<le> length [0x01, 0, 0, 0x1e, 0x21, 0, 0, 0x4c :: u8]"
    and none: "drop 8 [0x01, 0, 0, 0x1e, 0x21, 0, 0, 0x4c :: u8] = []"
    by simp_all
  moreover have "signed_take_bit 35 (- 4 + 0x8000 :: u64) = - 4 + 0x8000"
    by (simp add: signed_take_bit_word_eq_iff)
  ultimately show ?thesis
    using loongarch64_call36_reaches [of "[0x01, 0, 0, 0x1e, 0x21, 0, 0, 0x4c]" "- 4" True]
    unfolding none by blast
qed

text \<open>\<open>Call30\<close> is the exception: what the decoder reads is not what the encoder wrote, the two
  take opposite words of the pair for the upper and the lower immediate.\<close>

theorem loongarch64_call30_not_inverse:
  "loongarch64_write_to_value LA_Call30 1 False [0, 0, 0, 0, 0, 0, 0, 0]
     \<bind> loongarch64_read_value LA_Call30 = Some (0x4000, False)"
proof -
  have "loongarch64_write_to_value LA_Call30 1 False [0, 0, 0, 0, 0, 0, 0, 0] =
      Some [0, 0, 0, 0, 0, 4, 0, 0]"
    by (simp add: loongarch64_write_word [of LA_Call30] la_insn_word_def to_le_bytes_def
      upt_rec mask_eq_exp_minus_1 del: loongarch64_write_to_value.simps)
  then show ?thesis
    by (simp add: u64_from_slice_def)
qed

end
