(* ===== verification/Reloc_Apply.thy ===== *)
theory Reloc_Apply
  imports Aarch64_Insn Riscv_Insn Loongarch_Insn
begin

text \<open>
  Applying a relocation: \<open>RelocationInstruction\<close> and \<open>RelocationKindInfo::write_to_buffer\<close> of
  \<open>linker-utils/src/elf.rs\<close>, over the encoders of the three architectures. What the writer needs of an
  encoder is the locale \<open>insn_encoder\<close>: it rewrites a window at the start of its buffer, leaves the
  rest alone and panics when the window is not there. The locale is interpreted on each architecture
  and on the dispatcher; the properties of \<open>write_to_buffer\<close> rest on the last interpretation.
\<close>

section \<open>Instructions of any architecture\<close>

primrec write_to_value :: "relocation_instruction \<Rightarrow> u64 \<Rightarrow> bool \<Rightarrow> u8 list \<Rightarrow> u8 list option" where
  "write_to_value (AArch64 insn) v negative dest = aarch64_write_to_value insn v negative dest"
| "write_to_value (RiscV insn) v negative dest = riscv_write_to_value insn v negative dest"
| "write_to_value (LoongArch64 insn) v negative dest = loongarch64_write_to_value insn v negative dest"

primrec read_value :: "relocation_instruction \<Rightarrow> u8 list \<Rightarrow> (u64 \<times> bool) option" where
  "read_value (AArch64 insn) bytes = aarch64_read_value insn bytes"
| "read_value (RiscV insn) bytes = riscv_read_value insn bytes"
| "read_value (LoongArch64 insn) bytes = loongarch64_read_value insn bytes"

definition insn_bit_mask :: "relocation_instruction \<Rightarrow> bit_range \<Rightarrow> u8 list option" where
  "insn_bit_mask insn rng =
     (let all_ones = (shl 1 (u32_sub (range_end rng) (range_start rng)) :: u64) - 1
      in do {
        mask \<leftarrow> write_to_value insn all_ones False [0, 0, 0, 0];
        Some (map NOT mask)
      })"

fun write_windows_size :: "relocation_instruction \<Rightarrow> nat" where
  "write_windows_size (AArch64 _) = 4"
| "write_windows_size (RiscV RV_UiType) = 8"
| "write_windows_size (RiscV _) = 4"
| "write_windows_size (LoongArch64 _) = 4"

text \<open>
  The writer. \<open>uleb128\<close> stands for \<open>leb128::write::unsigned\<close>, as the bytes it appends to the vector.
  The outer \<open>option\<close> is the panic, the sum the \<open>Result\<close>.
\<close>

definition write_to_buffer ::
    "(u64 \<Rightarrow> u8 list) \<Rightarrow> relocation_kind_info \<Rightarrow> u64 \<Rightarrow> u8 list \<Rightarrow> (reloc_error + u8 list) option" where
  "write_to_buffer uleb128 info value output =
     (case verify info value of
        Inl e \<Rightarrow> Some (Inl e)
      | Inr _ \<Rightarrow>
          (case rki_kind info of
             RK_PairSubtractionULEB128 _ \<Rightarrow>
               (let written = uleb128 value; n = length written
                in if length output < n then Some (Inl (Uleb128DoesNotFit n))
                   else Some (Inr (splice 0 written output)))
           | _ \<Rightarrow>
               (case rki_size info of
                  ByteSize byte_size \<Rightarrow>
                    if length output < byte_size then Some (Inl OutsideOfSection)
                    else if 8 < byte_size then None
                    else Some (Inr (splice 0 (take byte_size (to_le_bytes 8 value)) output))
                | BitMasking bm \<Rightarrow>
                    (let rng = bm_range bm;
                         extracted_value = extract_bit_range value (range_start rng) (range_end rng);
                         negative = (sint value < 0)
                     in map_option Inr
                          (write_to_value (bm_instruction bm) extracted_value negative output)))))"

section \<open>What a writer relies on\<close>

locale insn_encoder =
  fixes window :: "'i \<Rightarrow> nat"
    and encode :: "'i \<Rightarrow> u64 \<Rightarrow> bool \<Rightarrow> u8 list \<Rightarrow> u8 list option"
  assumes encode_window: "length xs = window i \<Longrightarrow>
      \<exists>head. length head = window i \<and> (\<forall>ys. encode i v neg (xs @ ys) = Some (head @ ys))"
    and encode_short: "length dest < window i \<Longrightarrow> encode i v neg dest = None"
begin

lemma encode_local:
  assumes "window i \<le> length dest"
  shows "\<exists>head. length head = window i \<and> encode i v neg dest = Some (head @ drop (window i) dest)"
  using encode_window [of "take (window i) dest" i v neg] assms
  by (metis append_take_drop_id length_take min.absorb2)

lemma encode_returns_iff: "(\<exists>out. encode i v neg dest = Some out) \<longleftrightarrow> window i \<le> length dest"
  using encode_local [of i dest v neg] encode_short [of dest i v neg] by fastforce

lemma encode_frame:
  assumes "encode i v neg dest = Some out"
  shows "window i \<le> length dest" "length out = length dest"
    "drop (window i) out = drop (window i) dest"
proof -
  show "window i \<le> length dest"
    using assms encode_returns_iff by blast
  with encode_local [OF this, of v neg] assms
  show "length out = length dest" "drop (window i) out = drop (window i) dest"
    by auto
qed

lemma encode_None_iff: "encode i v neg dest = None \<longleftrightarrow> length dest < window i"
  using encode_returns_iff [of i v neg dest] by (cases "encode i v neg dest") auto

text \<open>What is written does not depend on what follows the window.\<close>

lemma encode_independent:
  assumes "window i \<le> length xs" "take (window i) xs = take (window i) ys" "window i \<le> length ys"
    and "encode i v neg xs = Some out" "encode i v neg ys = Some out'"
  shows "take (window i) out = take (window i) out'"
proof -
  obtain head where "length head = window i"
    and "\<forall>zs. encode i v neg (take (window i) xs @ zs) = Some (head @ zs)"
    using encode_window [of "take (window i) xs" i v neg] assms(1) by auto
  then show ?thesis
    using assms by (metis append_take_drop_id append_eq_conv_conj option.inject)
qed

end

interpretation a64: insn_encoder "\<lambda>_. 4" aarch64_write_to_value
proof
  fix xs :: "u8 list" and i v neg
  assume "length xs = 4"
  then show "\<exists>head. length head = 4
      \<and> (\<forall>ys. aarch64_write_to_value i v neg (xs @ ys) = Some (head @ ys))"
    by (intro exI [of _ "to_le_bytes 4 (a64_insn_word i v neg (from_le_bytes xs))"])
      (simp add: aarch64_write_word)
qed (rule aarch64_write_short)

interpretation rv: insn_encoder rv_window riscv_write_to_value
proof
  fix xs :: "u8 list" and i v neg
  assume len: "length xs = rv_window i"
  consider "rv_window i = 4" | "rv_window i = 2" | "i = RV_UiType" "rv_window i = 8"
    by (cases i) auto
  then show "\<exists>head. length head = rv_window i
      \<and> (\<forall>ys. riscv_write_to_value i v neg (xs @ ys) = Some (head @ ys))"
  proof cases
    case 3
    with len show ?thesis
      by (intro exI [of _ "to_le_bytes 4 (rv_insn_word RV_UType v (from_le_bytes (take 4 xs)))
        @ to_le_bytes 4 (rv_insn_word RV_IType v (from_le_bytes (drop 4 xs)))"])
        (simp add: riscv_write_ui del: riscv_write_to_value.simps)
  qed (use len in \<open>intro exI [of _ "to_le_bytes (rv_window i) (rv_insn_word i v (from_le_bytes xs))"],
        simp add: riscv_write_word32 riscv_write_word16\<close>)+
qed (rule riscv_write_short)

interpretation la: insn_encoder la_window loongarch64_write_to_value
proof
  fix xs :: "u8 list" and i v neg
  assume "length xs = la_window i"
  then show "\<exists>head. length head = la_window i
      \<and> (\<forall>ys. loongarch64_write_to_value i v neg (xs @ ys) = Some (head @ ys))"
    by (intro exI [of _ "to_le_bytes (la_window i) (la_insn_word i v (from_le_bytes xs))"])
      (simp add: loongarch64_write_word)
qed (rule loongarch64_write_short)

text \<open>The bytes an instruction of any architecture rewrites.\<close>

primrec insn_window :: "relocation_instruction \<Rightarrow> nat" where
  "insn_window (AArch64 i) = 4"
| "insn_window (RiscV i) = rv_window i"
| "insn_window (LoongArch64 i) = la_window i"

interpretation any: insn_encoder insn_window write_to_value
proof
  fix xs :: "u8 list" and i v neg
  assume "length xs = insn_window i"
  then show "\<exists>head. length head = insn_window i
      \<and> (\<forall>ys. write_to_value i v neg (xs @ ys) = Some (head @ ys))"
    using a64.encode_window rv.encode_window la.encode_window by (cases i) simp_all
next
  fix dest :: "u8 list" and i v neg
  assume "length dest < insn_window i"
  then show "write_to_value i v neg dest = None"
    using a64.encode_short rv.encode_short la.encode_short by (cases i) simp_all
qed

end
