(* ===== verification/Reloc_Tables.thy ===== *)
theory Reloc_Tables
  imports Elf_Types
begin

text \<open>
  The four relocation tables: for every relocation type number, what the relocation computes, how many
  bits of the result go where, which values are allowed and which alignment is required
  (\<open>relocation_type_from_raw\<close> of \<open>linker-utils/src/aarch64.rs\<close>, \<open>riscv64.rs\<close> and
  \<open>loongarch64.rs\<close>, \<open>relocation_from_raw\<close> of \<open>x86_64.rs\<close>). The arms stand in the order of the source, in
  pieces; \<open>elf\<close> gives the numbers of the constants \<open>object::elf::R_*\<close>.

  The tables are evaluated at compile time, so a range that panics would not build: \<open>the\<close> unwraps
  \<open>from_bit_size\<close> here, and the lemmas show that every range is defined.
\<close>

type_synonym reloc_arm =
  "relocation_kind \<times> relocation_size \<times> page_mask option \<times> allowed_range \<times> nat \<times> u64"

definition arm_info :: "bool \<Rightarrow> reloc_arm \<Rightarrow> relocation_kind_info" where
  "arm_info thunkable arm =
     (case arm of (kind, sz, pages, allowed, alignment, bias) \<Rightarrow>
        \<lparr>rki_kind = kind, rki_size = sz, rki_mask = pages, rki_range = allowed,
         rki_alignment = alignment, rki_bias = bias, rki_thunkable = thunkable\<rparr>)"

section \<open>AArch64\<close>

definition aarch64_arms_1 :: "elf_constants \<Rightarrow> (string \<times> reloc_arm option) list" where
  "aarch64_arms_1 elf =
     [(''R_AARCH64_NONE'', Some (RK_None, ByteSize 0, None, no_check, 1, 0)),
      (''R_AARCH64_ABS64'', Some (RK_Absolute, ByteSize 8, None, no_check, 1, 0)),
      (''R_AARCH64_ABS32'',
        Some (RK_Absolute, ByteSize 4, None, range_new (- (2 ^ 31)) (2 ^ 32), 1, 0)),
      (''R_AARCH64_ABS16'',
        Some (RK_Absolute, ByteSize 2, None, range_new (- (2 ^ 15)) (2 ^ 16), 1, 0)),
      (''R_AARCH64_PREL64'', Some (RK_Relative, ByteSize 8, None, no_check, 1, 0)),
      (''R_AARCH64_PREL32'',
        Some (RK_Relative, ByteSize 4, None, range_new (- (2 ^ 31)) (2 ^ 32), 1, 0)),
      (''R_AARCH64_PREL16'',
        Some (RK_Relative, ByteSize 2, None, range_new (- (2 ^ 15)) (2 ^ 16), 1, 0)),
      (''R_AARCH64_PLT32'',
        Some (RK_PltRelative, ByteSize 4, None, the (from_bit_size 32 Signed), 1, 0)),
      (''R_AARCH64_MOVW_UABS_G0'',
        Some (RK_Absolute, bit_mask_aarch64 0 16 A64_Movkz, None, the (from_bit_size 16 Unsigned), 1, 0)),
      (''R_AARCH64_MOVW_UABS_G0_NC'',
        Some (RK_Absolute, bit_mask_aarch64 0 16 A64_Movkz, None, no_check, 1, 0)),
      (''R_AARCH64_MOVW_UABS_G1'',
        Some (RK_Absolute, bit_mask_aarch64 16 32 A64_Movkz, None, the (from_bit_size 32 Unsigned), 1, 0)),
      (''R_AARCH64_MOVW_UABS_G1_NC'',
        Some (RK_Absolute, bit_mask_aarch64 16 32 A64_Movkz, None, no_check, 1, 0)),
      (''R_AARCH64_MOVW_UABS_G2'',
        Some (RK_Absolute, bit_mask_aarch64 32 48 A64_Movkz, None, the (from_bit_size 48 Unsigned), 1, 0)),
      (''R_AARCH64_MOVW_UABS_G2_NC'',
        Some (RK_Absolute, bit_mask_aarch64 32 48 A64_Movkz, None, no_check, 1, 0)),
      (''R_AARCH64_MOVW_UABS_G3'',
        Some (RK_Absolute, bit_mask_aarch64 48 64 A64_Movkz, None, no_check, 1, 0)),
      (''R_AARCH64_MOVW_SABS_G0'',
        Some (RK_Absolute, bit_mask_aarch64 0 16 A64_Movnz, None, the (from_bit_size 17 Signed), 1, 0)),
      (''R_AARCH64_MOVW_SABS_G1'',
        Some (RK_Absolute, bit_mask_aarch64 16 32 A64_Movnz, None, the (from_bit_size 33 Signed), 1, 0)),
      (''R_AARCH64_MOVW_SABS_G2'',
        Some (RK_Absolute, bit_mask_aarch64 32 48 A64_Movnz, None, the (from_bit_size 49 Signed), 1, 0))]"

definition aarch64_arms_2 :: "elf_constants \<Rightarrow> (string \<times> reloc_arm option) list" where
  "aarch64_arms_2 elf =
     [(''R_AARCH64_LD_PREL_LO19'',
        Some (RK_Relative, bit_mask_aarch64 2 21 A64_Ldr, None, the (from_bit_size 21 Signed), 4, 0)),
      (''R_AARCH64_ADR_PREL_LO21'',
        Some (RK_Relative, bit_mask_aarch64 0 21 A64_Adr, None, the (from_bit_size 21 Signed), 1, 0)),
      (''R_AARCH64_ADR_PREL_PG_HI21'',
        Some (RK_Relative, bit_mask_aarch64 12 33 A64_Adr, Some (SymbolPlusAddendAndPosition PAGE_MASK_4KB), the (from_bit_size 33 Signed), 1, 0)),
      (''R_AARCH64_ADR_PREL_PG_HI21_NC'',
        Some (RK_Relative, bit_mask_aarch64 12 33 A64_Adr, Some (SymbolPlusAddendAndPosition PAGE_MASK_4KB), no_check, 1, 0)),
      (''R_AARCH64_ADD_ABS_LO12_NC'',
        Some (RK_AbsoluteLowPart, bit_mask_aarch64 0 12 A64_Add, None, no_check, 1, 0)),
      (''R_AARCH64_LDST8_ABS_LO12_NC'',
        Some (RK_AbsoluteLowPart, bit_mask_aarch64 0 12 A64_LdSt, None, no_check, 1, 0)),
      (''R_AARCH64_LDST16_ABS_LO12_NC'',
        Some (RK_AbsoluteLowPart, bit_mask_aarch64 1 12 A64_LdSt, None, no_check, 2, 0)),
      (''R_AARCH64_LDST32_ABS_LO12_NC'',
        Some (RK_AbsoluteLowPart, bit_mask_aarch64 2 12 A64_LdSt, None, no_check, 4, 0)),
      (''R_AARCH64_LDST64_ABS_LO12_NC'',
        Some (RK_AbsoluteLowPart, bit_mask_aarch64 3 12 A64_LdSt, None, no_check, 8, 0)),
      (''R_AARCH64_LDST128_ABS_LO12_NC'',
        Some (RK_AbsoluteLowPart, bit_mask_aarch64 4 12 A64_LdSt, None, no_check, 16, 0)),
      (''R_AARCH64_TSTBR14'',
        Some (RK_Relative, bit_mask_aarch64 2 16 A64_TstBr, None, the (from_bit_size 16 Signed), 4, 0)),
      (''R_AARCH64_CONDBR19'',
        Some (RK_Relative, bit_mask_aarch64 2 21 A64_Bcond, None, the (from_bit_size 21 Signed), 4, 0)),
      (''R_AARCH64_JUMP26'',
        Some (RK_PltRelative, bit_mask_aarch64 2 28 A64_JumpCall, None, the (from_bit_size 28 Signed), 4, 0)),
      (''R_AARCH64_CALL26'',
        Some (RK_PltRelative, bit_mask_aarch64 2 28 A64_JumpCall, None, the (from_bit_size 28 Signed), 4, 0)),
      (''R_AARCH64_MOVW_PREL_G0'',
        Some (RK_Relative, bit_mask_aarch64 0 16 A64_Movnz, None, no_check, 1, 0)),
      (''R_AARCH64_MOVW_PREL_G0_NC'',
        Some (RK_Relative, bit_mask_aarch64 0 16 A64_Movkz, None, no_check, 1, 0)),
      (''R_AARCH64_MOVW_PREL_G1'',
        Some (RK_Relative, bit_mask_aarch64 16 32 A64_Movnz, None, no_check, 1, 0)),
      (''R_AARCH64_MOVW_PREL_G1_NC'',
        Some (RK_Relative, bit_mask_aarch64 16 32 A64_Movkz, None, no_check, 1, 0)),
      (''R_AARCH64_MOVW_PREL_G2'',
        Some (RK_Relative, bit_mask_aarch64 32 48 A64_Movnz, None, no_check, 1, 0)),
      (''R_AARCH64_MOVW_PREL_G2_NC'',
        Some (RK_Relative, bit_mask_aarch64 32 48 A64_Movkz, None, no_check, 1, 0))]"

definition aarch64_arms_3 :: "elf_constants \<Rightarrow> (string \<times> reloc_arm option) list" where
  "aarch64_arms_3 elf =
     [(''R_AARCH64_MOVW_PREL_G3'',
        Some (RK_Relative, bit_mask_aarch64 48 64 A64_Movnz, None, no_check, 1, 0)),
      (''R_AARCH64_MOVW_GOTOFF_G0'',
        Some (RK_GotRelGotBase, bit_mask_aarch64 0 16 A64_Movnz, None, no_check, 1, 0)),
      (''R_AARCH64_MOVW_GOTOFF_G0_NC'',
        Some (RK_GotRelGotBase, bit_mask_aarch64 0 16 A64_Movkz, None, no_check, 1, 0)),
      (''R_AARCH64_MOVW_GOTOFF_G1'',
        Some (RK_GotRelGotBase, bit_mask_aarch64 16 32 A64_Movnz, None, no_check, 1, 0)),
      (''R_AARCH64_MOVW_GOTOFF_G1_NC'',
        Some (RK_GotRelGotBase, bit_mask_aarch64 16 32 A64_Movkz, None, no_check, 1, 0)),
      (''R_AARCH64_MOVW_GOTOFF_G2'',
        Some (RK_GotRelGotBase, bit_mask_aarch64 32 48 A64_Movnz, None, no_check, 1, 0)),
      (''R_AARCH64_MOVW_GOTOFF_G2_NC'',
        Some (RK_GotRelGotBase, bit_mask_aarch64 32 48 A64_Movkz, None, no_check, 1, 0)),
      (''R_AARCH64_MOVW_GOTOFF_G3'',
        Some (RK_GotRelGotBase, bit_mask_aarch64 48 64 A64_Movnz, None, no_check, 1, 0)),
      (''R_AARCH64_GOTREL64'', Some (RK_SymRelGotBase, ByteSize 4, None, no_check, 1, 0)),
      (''R_AARCH64_GOTREL32'',
        Some (RK_SymRelGotBase, ByteSize 8, None, the (from_bit_size 32 Signed), 1, 0)),
      (''R_AARCH64_GOTPCREL32'',
        Some (RK_GotRelative, ByteSize 4, None, the (from_bit_size 32 Signed), 1, 0)),
      (''R_AARCH64_GOT_LD_PREL19'',
        Some (RK_GotRelative, bit_mask_aarch64 2 21 A64_LdSt, None, the (from_bit_size 21 Signed), 4, 0)),
      (''R_AARCH64_LD64_GOTOFF_LO15'',
        Some (RK_GotRelGotBase, bit_mask_aarch64 3 15 A64_LdSt, None, the (from_bit_size 15 Unsigned), 8, 0)),
      (''R_AARCH64_ADR_GOT_PAGE'',
        Some (RK_GotRelative, bit_mask_aarch64 12 33 A64_Adr, Some (GotEntryAndPosition PAGE_MASK_4KB), the (from_bit_size 33 Signed), 1, 0)),
      (''R_AARCH64_LD64_GOT_LO12_NC'',
        Some (RK_Got, bit_mask_aarch64 3 12 A64_LdSt, None, no_check, 8, 0)),
      (''R_AARCH64_LD64_GOTPAGE_LO15'',
        Some (RK_GotRelGotBase, bit_mask_aarch64 3 15 A64_LdSt, Some (GotBase PAGE_MASK_4KB), the (from_bit_size 15 Unsigned), 8, 0)),
      (''R_AARCH64_TLSGD_ADR_PREL21'',
        Some (RK_TlsGd, bit_mask_aarch64 0 21 A64_Adr, None, the (from_bit_size 21 Signed), 1, 0)),
      (''R_AARCH64_TLSGD_ADR_PAGE21'',
        Some (RK_TlsGd, bit_mask_aarch64 12 33 A64_Adr, Some (GotEntryAndPosition PAGE_MASK_4KB), the (from_bit_size 33 Signed), 1, 0)),
      (''R_AARCH64_TLSGD_ADD_LO12_NC'',
        Some (RK_TlsGdGot, bit_mask_aarch64 0 12 A64_Add, None, no_check, 1, 0)),
      (''R_AARCH64_TLSGD_MOVW_G1'',
        Some (RK_TlsGdGotBase, bit_mask_aarch64 16 33 A64_Movnz, None, no_check, 1, 0))]"

definition aarch64_arms_4 :: "elf_constants \<Rightarrow> (string \<times> reloc_arm option) list" where
  "aarch64_arms_4 elf =
     [(''R_AARCH64_TLSGD_MOVW_G0_NC'',
        Some (RK_TlsGdGotBase, bit_mask_aarch64 0 16 A64_Movkz, None, no_check, 1, 0)),
      (''R_AARCH64_TLSLD_ADR_PREL21'',
        Some (RK_TlsLd, bit_mask_aarch64 0 21 A64_Adr, None, the (from_bit_size 21 Signed), 1, 0)),
      (''R_AARCH64_TLSLD_ADR_PAGE21'',
        Some (RK_TlsLd, bit_mask_aarch64 12 33 A64_Adr, Some (GotEntryAndPosition PAGE_MASK_4KB), the (from_bit_size 33 Signed), 1, 0)),
      (''R_AARCH64_TLSLD_ADD_LO12_NC'',
        Some (RK_TlsLdGot, bit_mask_aarch64 0 12 A64_Add, None, no_check, 1, 0)),
      (''R_AARCH64_TLSLD_MOVW_G1'',
        Some (RK_TlsLdGotBase, bit_mask_aarch64 16 32 A64_Movnz, None, no_check, 1, 0)),
      (''R_AARCH64_TLSLD_MOVW_G0_NC'',
        Some (RK_TlsLdGotBase, bit_mask_aarch64 0 16 A64_Movkz, None, no_check, 1, 0)),
      (''R_AARCH64_TLSLD_LD_PREL19'',
        Some (RK_TlsLd, bit_mask_aarch64 0 21 A64_Ldr, None, the (from_bit_size 21 Signed), 1, 0)),
      (''R_AARCH64_TLSLD_MOVW_DTPREL_G2'',
        Some (RK_DtpOff, bit_mask_aarch64 32 48 A64_Movnz, None, no_check, 1, 0)),
      (''R_AARCH64_TLSLD_MOVW_DTPREL_G1'',
        Some (RK_DtpOff, bit_mask_aarch64 16 32 A64_Movnz, None, no_check, 1, 0)),
      (''R_AARCH64_TLSLD_MOVW_DTPREL_G1_NC'',
        Some (RK_DtpOff, bit_mask_aarch64 16 32 A64_Movkz, None, no_check, 1, 0)),
      (''R_AARCH64_TLSLD_MOVW_DTPREL_G0'',
        Some (RK_DtpOff, bit_mask_aarch64 0 16 A64_Movnz, None, no_check, 1, 0)),
      (''R_AARCH64_TLSLD_MOVW_DTPREL_G0_NC'',
        Some (RK_DtpOff, bit_mask_aarch64 0 16 A64_Movkz, None, no_check, 1, 0)),
      (''R_AARCH64_TLSLD_ADD_DTPREL_HI12'',
        Some (RK_DtpOff, bit_mask_aarch64 12 24 A64_Add, None, the (from_bit_size 24 Unsigned), 1, 0)),
      (''R_AARCH64_TLSLD_ADD_DTPREL_LO12'',
        Some (RK_DtpOff, bit_mask_aarch64 0 12 A64_Add, None, the (from_bit_size 12 Unsigned), 1, 0)),
      (''R_AARCH64_TLSLD_ADD_DTPREL_LO12_NC'',
        Some (RK_DtpOff, bit_mask_aarch64 0 12 A64_Add, None, no_check, 1, 0)),
      (''R_AARCH64_TLSLD_LDST8_DTPREL_LO12'',
        Some (RK_DtpOff, bit_mask_aarch64 0 12 A64_LdSt, None, the (from_bit_size 12 Unsigned), 1, 0)),
      (''R_AARCH64_TLSLD_LDST8_DTPREL_LO12_NC'',
        Some (RK_DtpOff, bit_mask_aarch64 0 12 A64_LdSt, None, no_check, 1, 0)),
      (''R_AARCH64_TLSLD_LDST16_DTPREL_LO12'',
        Some (RK_DtpOff, bit_mask_aarch64 1 12 A64_LdSt, None, the (from_bit_size 12 Unsigned), 2, 0)),
      (''R_AARCH64_TLSLD_LDST16_DTPREL_LO12_NC'',
        Some (RK_DtpOff, bit_mask_aarch64 1 12 A64_LdSt, None, no_check, 2, 0)),
      (''R_AARCH64_TLSLD_LDST32_DTPREL_LO12'',
        Some (RK_DtpOff, bit_mask_aarch64 2 12 A64_LdSt, None, the (from_bit_size 12 Unsigned), 4, 0))]"

definition aarch64_arms_5 :: "elf_constants \<Rightarrow> (string \<times> reloc_arm option) list" where
  "aarch64_arms_5 elf =
     [(''R_AARCH64_TLSLD_LDST32_DTPREL_LO12_NC'',
        Some (RK_DtpOff, bit_mask_aarch64 2 12 A64_LdSt, None, no_check, 4, 0)),
      (''R_AARCH64_TLSLD_LDST64_DTPREL_LO12'',
        Some (RK_DtpOff, bit_mask_aarch64 3 12 A64_LdSt, None, the (from_bit_size 12 Unsigned), 8, 0)),
      (''R_AARCH64_TLSLD_LDST64_DTPREL_LO12_NC'',
        Some (RK_DtpOff, bit_mask_aarch64 3 12 A64_LdSt, None, no_check, 8, 0)),
      (''R_AARCH64_TLSLD_LDST128_DTPREL_LO12'',
        Some (RK_DtpOff, bit_mask_aarch64 4 12 A64_LdSt, None, the (from_bit_size 12 Unsigned), 16, 0)),
      (''R_AARCH64_TLSLD_LDST128_DTPREL_LO12_NC'',
        Some (RK_DtpOff, bit_mask_aarch64 4 12 A64_LdSt, None, no_check, 16, 0)),
      (''R_AARCH64_TLSIE_MOVW_GOTTPREL_G1'',
        Some (RK_GotTpOffGotBase, bit_mask_aarch64 16 32 A64_Movnz, None, no_check, 1, 0)),
      (''R_AARCH64_TLSIE_MOVW_GOTTPREL_G0_NC'',
        Some (RK_GotTpOffGotBase, bit_mask_aarch64 0 16 A64_Movkz, None, no_check, 1, 0)),
      (''R_AARCH64_TLSIE_ADR_GOTTPREL_PAGE21'',
        Some (RK_GotTpOff, bit_mask_aarch64 12 33 A64_Adr, Some (GotEntryAndPosition PAGE_MASK_4KB), the (from_bit_size 33 Signed), 1, 0)),
      (''R_AARCH64_TLSIE_LD64_GOTTPREL_LO12_NC'',
        Some (RK_GotTpOffGot, bit_mask_aarch64 3 12 A64_LdrRegister, None, no_check, 8, 0)),
      (''R_AARCH64_TLSIE_LD_GOTTPREL_PREL19'',
        Some (RK_GotTpOff, bit_mask_aarch64 2 21 A64_Ldr, None, the (from_bit_size 21 Signed), 4, 0)),
      (''R_AARCH64_TLSLE_MOVW_TPREL_G2'',
        Some (RK_TpOff, bit_mask_aarch64 32 48 A64_Movnz, None, no_check, 1, 0)),
      (''R_AARCH64_TLSLE_MOVW_TPREL_G1'',
        Some (RK_TpOff, bit_mask_aarch64 16 32 A64_Movnz, None, no_check, 1, 0)),
      (''R_AARCH64_TLSLE_MOVW_TPREL_G1_NC'',
        Some (RK_TpOff, bit_mask_aarch64 16 32 A64_Movkz, None, no_check, 1, 0)),
      (''R_AARCH64_TLSLE_MOVW_TPREL_G0'',
        Some (RK_TpOff, bit_mask_aarch64 0 16 A64_Movnz, None, no_check, 1, 0)),
      (''R_AARCH64_TLSLE_MOVW_TPREL_G0_NC'',
        Some (RK_TpOff, bit_mask_aarch64 0 16 A64_Movkz, None, no_check, 1, 0)),
      (''R_AARCH64_TLSLE_ADD_TPREL_HI12'',
        Some (RK_TpOff, bit_mask_aarch64 12 24 A64_Add, None, the (from_bit_size 24 Unsigned), 1, 0)),
      (''R_AARCH64_TLSLE_ADD_TPREL_LO12'',
        Some (RK_TpOff, bit_mask_aarch64 0 12 A64_Add, None, the (from_bit_size 12 Unsigned), 1, 0)),
      (''R_AARCH64_TLSLE_ADD_TPREL_LO12_NC'',
        Some (RK_TpOff, bit_mask_aarch64 0 12 A64_Add, None, no_check, 1, 0)),
      (''R_AARCH64_TLSLE_LDST8_TPREL_LO12'',
        Some (RK_TpOff, bit_mask_aarch64 0 12 A64_LdSt, None, the (from_bit_size 12 Unsigned), 1, 0)),
      (''R_AARCH64_TLSLE_LDST8_TPREL_LO12_NC'',
        Some (RK_TpOff, bit_mask_aarch64 0 12 A64_LdSt, None, no_check, 1, 0))]"

definition aarch64_arms_6 :: "elf_constants \<Rightarrow> (string \<times> reloc_arm option) list" where
  "aarch64_arms_6 elf =
     [(''R_AARCH64_TLSLE_LDST16_TPREL_LO12'',
        Some (RK_TpOff, bit_mask_aarch64 1 12 A64_LdSt, None, the (from_bit_size 12 Unsigned), 2, 0)),
      (''R_AARCH64_TLSLE_LDST16_TPREL_LO12_NC'',
        Some (RK_TpOff, bit_mask_aarch64 1 12 A64_LdSt, None, no_check, 2, 0)),
      (''R_AARCH64_TLSLE_LDST32_TPREL_LO12'',
        Some (RK_TpOff, bit_mask_aarch64 2 12 A64_LdSt, None, the (from_bit_size 12 Unsigned), 4, 0)),
      (''R_AARCH64_TLSLE_LDST32_TPREL_LO12_NC'',
        Some (RK_TpOff, bit_mask_aarch64 2 12 A64_LdSt, None, no_check, 4, 0)),
      (''R_AARCH64_TLSLE_LDST64_TPREL_LO12'',
        Some (RK_TpOff, bit_mask_aarch64 3 12 A64_LdSt, None, the (from_bit_size 12 Unsigned), 8, 0)),
      (''R_AARCH64_TLSLE_LDST64_TPREL_LO12_NC'',
        Some (RK_TpOff, bit_mask_aarch64 3 12 A64_LdSt, None, no_check, 8, 0)),
      (''R_AARCH64_TLSLE_LDST128_TPREL_LO12'',
        Some (RK_TpOff, bit_mask_aarch64 4 12 A64_LdSt, None, the (from_bit_size 12 Unsigned), 16, 0)),
      (''R_AARCH64_TLSLE_LDST128_TPREL_LO12_NC'',
        Some (RK_TpOff, bit_mask_aarch64 4 12 A64_LdSt, None, no_check, 16, 0)),
      (''R_AARCH64_TLSDESC_LD_PREL19'',
        Some (RK_TlsDesc, bit_mask_aarch64 2 21 A64_Ldr, None, the (from_bit_size 21 Signed), 4, 0)),
      (''R_AARCH64_TLSDESC_ADR_PREL21'',
        Some (RK_TlsDesc, bit_mask_aarch64 0 21 A64_Adr, None, the (from_bit_size 21 Signed), 1, 0)),
      (''R_AARCH64_TLSDESC_ADR_PAGE21'',
        Some (RK_TlsDesc, bit_mask_aarch64 12 33 A64_Adr, Some (GotEntryAndPosition PAGE_MASK_4KB), the (from_bit_size 33 Signed), 1, 0)),
      (''R_AARCH64_TLSDESC_LD64_LO12'',
        Some (RK_TlsDescGot, bit_mask_aarch64 3 12 A64_LdrRegister, None, no_check, 8, 0)),
      (''R_AARCH64_TLSDESC_ADD_LO12'',
        Some (RK_TlsDescGot, bit_mask_aarch64 0 12 A64_Add, None, no_check, 1, 0)),
      (''R_AARCH64_TLSDESC_OFF_G1'',
        Some (RK_TlsDescGotBase, bit_mask_aarch64 16 32 A64_Movnz, None, the (from_bit_size 33 Signed), 1, 0)),
      (''R_AARCH64_TLSDESC_OFF_G0_NC'',
        Some (RK_TlsDescGotBase, bit_mask_aarch64 0 16 A64_Movkz, None, no_check, 1, 0)),
      (''R_AARCH64_TLSDESC_CALL'', Some (RK_TlsDescCall, ByteSize 0, None, no_check, 1, 0))]"

definition aarch64_arms :: "elf_constants \<Rightarrow> (string \<times> reloc_arm option) list" where
  "aarch64_arms elf = aarch64_arms_1 elf @ aarch64_arms_2 elf @ aarch64_arms_3 elf
     @ aarch64_arms_4 elf @ aarch64_arms_5 elf @ aarch64_arms_6 elf"

lemmas aarch64_arms_defs = aarch64_arms_def aarch64_arms_1_def aarch64_arms_2_def aarch64_arms_3_def aarch64_arms_4_def aarch64_arms_5_def aarch64_arms_6_def

definition aarch64_relocation_type_from_raw :: "elf_constants \<Rightarrow> u32 \<Rightarrow> relocation_kind_info option" where
  "aarch64_relocation_type_from_raw elf r_type = do {
     arm \<leftarrow> match_const elf r_type (aarch64_arms elf);
     arm \<leftarrow> arm;
     Some (arm_info (r_type \<in> {elf ''R_AARCH64_CALL26'', elf ''R_AARCH64_JUMP26''}) arm)
   }"

section \<open>RISC-V\<close>

definition riscv64_arms_1 :: "elf_constants \<Rightarrow> (string \<times> reloc_arm option) list" where
  "riscv64_arms_1 elf =
     [(''R_RISCV_NONE'', Some (RK_None, ByteSize 0, None, no_check, 1, 0)),
      (''R_RISCV_32'',
        Some (RK_Absolute, ByteSize 4, None, range_new (- (2 ^ 31)) (2 ^ 32), 1, 0)),
      (''R_RISCV_64'', Some (RK_Absolute, ByteSize 8, None, no_check, 1, 0)),
      (''R_RISCV_BRANCH'',
        Some (RK_Relative, bit_mask_riscv 0 32 RV_BType, None, range_new (- (2 ^ 12)) (2 ^ 12 - 1), 2, 0)),
      (''R_RISCV_JAL'',
        Some (RK_Relative, bit_mask_riscv 0 32 RV_JType, None, range_new (- (2 ^ 20)) (2 ^ 20 - 1), 2, 0)),
      (''R_RISCV_CALL'',
        Some (RK_PltRelative, bit_mask_riscv 0 64 RV_UiType, None, range_new (- (2 ^ 31)) (2 ^ 32), 1, 0)),
      (''R_RISCV_CALL_PLT'',
        Some (RK_PltRelative, bit_mask_riscv 0 64 RV_UiType, None, range_new (- (2 ^ 31)) (2 ^ 32), 1, 0)),
      (''R_RISCV_GOT_HI20'',
        Some (RK_GotRelative, bit_mask_riscv 0 32 RV_UType, None, range_new (- (2 ^ 31)) (2 ^ 32), 1, 0)),
      (''R_RISCV_TLS_GOT_HI20'',
        Some (RK_GotTpOff, bit_mask_riscv 0 32 RV_UType, None, range_new (- (2 ^ 31)) (2 ^ 32), 1, 0)),
      (''R_RISCV_TLS_GD_HI20'',
        Some (RK_TlsGd, bit_mask_riscv 0 32 RV_UType, None, range_new (- (2 ^ 31)) (2 ^ 32), 1, 0)),
      (''R_RISCV_PCREL_HI20'',
        Some (RK_Relative, bit_mask_riscv 0 32 RV_UType, None, range_new (- (2 ^ 31)) (2 ^ 32), 1, 0)),
      (''R_RISCV_PCREL_LO12_I'',
        Some (RK_RelativeRiscVLow12, bit_mask_riscv 0 32 RV_IType, None, range_new (- (2 ^ 31)) (2 ^ 32), 1, 0)),
      (''R_RISCV_PCREL_LO12_S'',
        Some (RK_RelativeRiscVLow12, bit_mask_riscv 0 32 RV_SType, None, range_new (- (2 ^ 31)) (2 ^ 32), 1, 0)),
      (''R_RISCV_HI20'',
        Some (RK_Absolute, bit_mask_riscv 0 32 RV_UType, None, range_new (- (2 ^ 31)) (2 ^ 32), 1, 0)),
      (''R_RISCV_LO12_I'',
        Some (RK_Absolute, bit_mask_riscv 0 32 RV_IType, None, range_new (- (2 ^ 31)) (2 ^ 32), 1, 0)),
      (''R_RISCV_LO12_S'',
        Some (RK_Absolute, bit_mask_riscv 0 32 RV_SType, None, range_new (- (2 ^ 31)) (2 ^ 32), 1, 0)),
      (''R_RISCV_TPREL_HI20'',
        Some (RK_TpOff, bit_mask_riscv 0 32 RV_UType, None, range_new (- (2 ^ 31)) (2 ^ 32), 1, 0)),
      (''R_RISCV_TPREL_LO12_I'',
        Some (RK_TpOff, bit_mask_riscv 0 32 RV_IType, None, range_new (- (2 ^ 31)) (2 ^ 32), 1, 0)),
      (''R_RISCV_TPREL_LO12_S'',
        Some (RK_TpOff, bit_mask_riscv 0 32 RV_SType, None, range_new (- (2 ^ 31)) (2 ^ 32), 1, 0))]"

definition riscv64_arms_2 :: "elf_constants \<Rightarrow> (string \<times> reloc_arm option) list" where
  "riscv64_arms_2 elf =
     [(''R_RISCV_TPREL_ADD'', Some (RK_None, ByteSize 0, None, no_check, 1, 0)),
      (''R_RISCV_ADD8'', Some (RK_AbsoluteAddition, ByteSize 1, None, no_check, 1, 0)),
      (''R_RISCV_ADD16'', Some (RK_AbsoluteAddition, ByteSize 2, None, no_check, 1, 0)),
      (''R_RISCV_ADD32'', Some (RK_AbsoluteAddition, ByteSize 4, None, no_check, 1, 0)),
      (''R_RISCV_ADD64'', Some (RK_AbsoluteAddition, ByteSize 8, None, no_check, 1, 0)),
      (''R_RISCV_SUB8'', Some (RK_AbsoluteSubtraction, ByteSize 1, None, no_check, 1, 0)),
      (''R_RISCV_SUB16'', Some (RK_AbsoluteSubtraction, ByteSize 2, None, no_check, 1, 0)),
      (''R_RISCV_SUB32'', Some (RK_AbsoluteSubtraction, ByteSize 4, None, no_check, 1, 0)),
      (''R_RISCV_SUB64'', Some (RK_AbsoluteSubtraction, ByteSize 8, None, no_check, 1, 0)),
      (''R_RISCV_GOT32_PCREL'',
        Some (RK_GotRelative, ByteSize 4, None, range_new (- (2 ^ 31)) (2 ^ 32), 1, 0)),
      (''R_RISCV_ALIGN'', Some (RK_Alignment, ByteSize 0, None, no_check, 1, 0)),
      (''R_RISCV_RVC_BRANCH'',
        Some (RK_Relative, bit_mask_riscv 0 16 RV_CbType, None, range_new (- (2 ^ 8)) (2 ^ 8 - 1), 2, 0)),
      (''R_RISCV_RVC_JUMP'',
        Some (RK_Relative, bit_mask_riscv 0 16 RV_CjType, None, range_new (- (2 ^ 11)) (2 ^ 11 - 1), 2, 0)),
      (''R_RISCV_RELAX'', Some (RK_None, ByteSize 0, None, no_check, 1, 0)),
      (''R_RISCV_SUB6'', Some (RK_AbsoluteSubtractionWord6, ByteSize 1, None, no_check, 1, 0)),
      (''R_RISCV_SET6'', Some (RK_AbsoluteSetWord6, ByteSize 1, None, no_check, 1, 0)),
      (''R_RISCV_SET8'', Some (RK_AbsoluteSet, ByteSize 1, None, no_check, 1, 0)),
      (''R_RISCV_SET16'', Some (RK_AbsoluteSet, ByteSize 2, None, no_check, 1, 0)),
      (''R_RISCV_SET32'', Some (RK_AbsoluteSet, ByteSize 4, None, no_check, 1, 0)),
      (''R_RISCV_32_PCREL'',
        Some (RK_Relative, ByteSize 4, None, range_new (- (2 ^ 31)) (2 ^ 32), 1, 0))]"

definition riscv64_arms_3 :: "elf_constants \<Rightarrow> (string \<times> reloc_arm option) list" where
  "riscv64_arms_3 elf =
     [(''R_RISCV_PLT32'',
        Some (RK_PltRelative, ByteSize 4, None, range_new (- (2 ^ 31)) (2 ^ 32), 1, 0)),
      (''R_RISCV_SET_ULEB128'', Some (RK_Relative, ByteSize 0, None, no_check, 1, 0)),
      (''R_RISCV_SUB_ULEB128'',
        Some (RK_PairSubtractionULEB128 (elf ''R_RISCV_SET_ULEB128''), ByteSize 8, None, no_check, 1, 0)),
      (''R_RISCV_TLSDESC_HI20'', None),
      (''R_RISCV_TLSDESC_LOAD_LO12'', None),
      (''R_RISCV_TLSDESC_ADD_LO12'', None),
      (''R_RISCV_TLSDESC_CALL'', None)]"

definition riscv64_arms :: "elf_constants \<Rightarrow> (string \<times> reloc_arm option) list" where
  "riscv64_arms elf = riscv64_arms_1 elf @ riscv64_arms_2 elf @ riscv64_arms_3 elf"

lemmas riscv64_arms_defs = riscv64_arms_def riscv64_arms_1_def riscv64_arms_2_def riscv64_arms_3_def

definition riscv64_relocation_type_from_raw :: "elf_constants \<Rightarrow> u32 \<Rightarrow> relocation_kind_info option" where
  "riscv64_relocation_type_from_raw elf r_type = do {
     arm \<leftarrow> match_const elf r_type (riscv64_arms elf);
     arm \<leftarrow> arm;
     Some (arm_info False arm)
   }"

section \<open>LoongArch64\<close>

definition loongarch64_arms_1 :: "elf_constants \<Rightarrow> (string \<times> reloc_arm option) list" where
  "loongarch64_arms_1 elf =
     [(''R_LARCH_NONE'', Some (RK_None, ByteSize 0, None, no_check, 1, 0)),
      (''R_LARCH_32'',
        Some (RK_Absolute, ByteSize 4, None, range_new (- (2 ^ 31)) (2 ^ 32), 1, 0)),
      (''R_LARCH_64'', Some (RK_Absolute, ByteSize 8, None, no_check, 1, 0)),
      (''R_LARCH_ADD6'', Some (RK_AbsoluteAdditionWord6, ByteSize 1, None, no_check, 1, 0)),
      (''R_LARCH_ADD8'', Some (RK_AbsoluteAddition, ByteSize 1, None, no_check, 1, 0)),
      (''R_LARCH_ADD16'', Some (RK_AbsoluteAddition, ByteSize 2, None, no_check, 1, 0)),
      (''R_LARCH_ADD24'', Some (RK_AbsoluteAddition, ByteSize 3, None, no_check, 1, 0)),
      (''R_LARCH_ADD32'', Some (RK_AbsoluteAddition, ByteSize 4, None, no_check, 1, 0)),
      (''R_LARCH_ADD64'', Some (RK_AbsoluteAddition, ByteSize 8, None, no_check, 1, 0)),
      (''R_LARCH_SUB6'', Some (RK_AbsoluteSubtractionWord6, ByteSize 1, None, no_check, 1, 0)),
      (''R_LARCH_SUB8'', Some (RK_AbsoluteSubtraction, ByteSize 1, None, no_check, 1, 0)),
      (''R_LARCH_SUB16'', Some (RK_AbsoluteSubtraction, ByteSize 2, None, no_check, 1, 0)),
      (''R_LARCH_SUB24'', Some (RK_AbsoluteSubtraction, ByteSize 3, None, no_check, 1, 0)),
      (''R_LARCH_SUB32'', Some (RK_AbsoluteSubtraction, ByteSize 4, None, no_check, 1, 0)),
      (''R_LARCH_SUB64'', Some (RK_AbsoluteSubtraction, ByteSize 8, None, no_check, 1, 0)),
      (''R_LARCH_ADD_ULEB128'', Some (RK_Relative, ByteSize 0, None, no_check, 1, 0)),
      (''R_LARCH_SUB_ULEB128'',
        Some (RK_PairSubtractionULEB128 (elf ''R_LARCH_ADD_ULEB128''), ByteSize 8, None, no_check, 1, 0))]"

definition loongarch64_arms_2 :: "elf_constants \<Rightarrow> (string \<times> reloc_arm option) list" where
  "loongarch64_arms_2 elf =
     [(''R_LARCH_ABS_HI20'',
        Some (RK_Absolute, bit_mask_loongarch64 12 32 LA_Shift5, None, no_check, 1, 0)),
      (''R_LARCH_ABS_LO12'',
        Some (RK_Absolute, bit_mask_loongarch64 0 12 LA_Shift10, None, no_check, 1, 0)),
      (''R_LARCH_ABS64_HI12'',
        Some (RK_Absolute, bit_mask_loongarch64 52 64 LA_Shift10, None, no_check, 1, 0)),
      (''R_LARCH_ABS64_LO20'',
        Some (RK_Absolute, bit_mask_loongarch64 32 52 LA_Shift5, None, no_check, 1, 0)),
      (''R_LARCH_PCALA_HI20'',
        Some (RK_Relative, bit_mask_loongarch64 12 32 LA_Shift5, Some (SymbolPlusAddendAndPosition PAGE_MASK_4KB), no_check, 1, SIZE_2KB)),
      (''R_LARCH_PCALA_LO12'',
        Some (RK_AbsoluteLowPart, bit_mask_loongarch64 0 12 LA_Shift10, None, no_check, 1, 0)),
      (''R_LARCH_PCALA64_HI12'',
        Some (RK_RelativeLoongArchHigh, bit_mask_loongarch64 52 64 LA_Shift10, None, no_check, 1, 0)),
      (''R_LARCH_PCALA64_LO20'',
        Some (RK_RelativeLoongArchHigh, bit_mask_loongarch64 32 52 LA_Shift5, None, no_check, 1, 0)),
      (''R_LARCH_32_PCREL'',
        Some (RK_Relative, ByteSize 4, None, the (from_bit_size 32 Signed), 1, 0)),
      (''R_LARCH_PCREL20_S2'',
        Some (RK_Relative, bit_mask_loongarch64 2 22 LA_Shift5, None, the (from_bit_size 22 Signed), 4, 0)),
      (''R_LARCH_64_PCREL'', Some (RK_Relative, ByteSize 8, None, no_check, 1, 0)),
      (''R_LARCH_PCADD_HI20'',
        Some (RK_Relative, bit_mask_loongarch64 12 32 LA_Shift5, None, no_check, 1, SIZE_2KB)),
      (''R_LARCH_GOT_PC_HI20'',
        Some (RK_GotRelative, bit_mask_loongarch64 12 32 LA_Shift5, Some (GotEntryAndPosition PAGE_MASK_4KB), no_check, 1, SIZE_2KB)),
      (''R_LARCH_GOT_PC_LO12'',
        Some (RK_Got, bit_mask_loongarch64 0 12 LA_Shift10, None, no_check, 1, 0)),
      (''R_LARCH_GOT64_PC_HI12'',
        Some (RK_GotRelativeLoongArch64, bit_mask_loongarch64 52 64 LA_Shift10, None, no_check, 1, 0)),
      (''R_LARCH_GOT64_PC_LO20'',
        Some (RK_GotRelativeLoongArch64, bit_mask_loongarch64 32 52 LA_Shift5, None, no_check, 1, 0)),
      (''R_LARCH_B16'',
        Some (RK_Relative, bit_mask_loongarch64 2 18 LA_Shift10, None, the (from_bit_size 18 Signed), 4, 0))]"

definition loongarch64_arms_3 :: "elf_constants \<Rightarrow> (string \<times> reloc_arm option) list" where
  "loongarch64_arms_3 elf =
     [(''R_LARCH_B21'',
        Some (RK_Relative, bit_mask_loongarch64 2 23 LA_Branch21, None, the (from_bit_size 23 Signed), 4, 0)),
      (''R_LARCH_B26'',
        Some (RK_PltRelative, bit_mask_loongarch64 2 28 LA_Branch26, None, the (from_bit_size 28 Signed), 4, 0)),
      (''R_LARCH_CALL36'',
        Some (RK_Relative, bit_mask_loongarch64 2 38 LA_Call36, None, the (from_bit_size 38 Signed), 4, 0)),
      (''R_LARCH_CALL30'',
        Some (RK_Relative, bit_mask_loongarch64 2 19 LA_Call30, None, no_check, 1, 0)),
      (''R_LARCH_TLS_LE_HI20'',
        Some (RK_TpOff, bit_mask_loongarch64 12 32 LA_Shift5, None, no_check, 1, 0)),
      (''R_LARCH_TLS_LE_LO12'',
        Some (RK_TpOff, bit_mask_loongarch64 0 12 LA_Shift10, None, no_check, 1, 0)),
      (''R_LARCH_TLS_LE64_LO20'',
        Some (RK_TpOff, bit_mask_loongarch64 32 52 LA_Shift5, None, no_check, 1, 0)),
      (''R_LARCH_TLS_LE64_HI12'',
        Some (RK_TpOff, bit_mask_loongarch64 52 64 LA_Shift10, None, no_check, 1, 0)),
      (''R_LARCH_TLS_LE_HI20_R'',
        Some (RK_TpOff, bit_mask_loongarch64 12 32 LA_Shift5, None, no_check, 1, SIZE_2KB)),
      (''R_LARCH_TLS_LE_LO12_R'',
        Some (RK_TpOff, bit_mask_loongarch64 0 12 LA_Shift10, None, no_check, 1, 0)),
      (''R_LARCH_TLS_IE_PC_HI20'',
        Some (RK_GotTpOff, bit_mask_loongarch64 12 32 LA_Shift5, Some (GotEntryAndPosition PAGE_MASK_4KB), no_check, 1, SIZE_2KB)),
      (''R_LARCH_TLS_IE_PC_LO12'',
        Some (RK_GotTpOffGot, bit_mask_loongarch64 0 12 LA_Shift10, None, no_check, 1, 0)),
      (''R_LARCH_TLS_IE64_PC_LO20'',
        Some (RK_GotTpOffLoongArch64, bit_mask_loongarch64 32 52 LA_Shift5, None, no_check, 1, 0)),
      (''R_LARCH_TLS_IE64_PC_HI12'',
        Some (RK_GotTpOffLoongArch64, bit_mask_loongarch64 52 64 LA_Shift10, None, no_check, 1, 0)),
      (''R_LARCH_TLS_IE_HI20'',
        Some (RK_GotTpOffGot, bit_mask_loongarch64 12 32 LA_Shift5, None, no_check, 1, 0)),
      (''R_LARCH_TLS_IE_LO12'',
        Some (RK_GotTpOffGot, bit_mask_loongarch64 0 12 LA_Shift10, None, no_check, 1, 0)),
      (''R_LARCH_TLS_IE64_HI12'',
        Some (RK_GotTpOffGot, bit_mask_loongarch64 52 64 LA_Shift10, None, no_check, 1, 0))]"

definition loongarch64_arms_4 :: "elf_constants \<Rightarrow> (string \<times> reloc_arm option) list" where
  "loongarch64_arms_4 elf =
     [(''R_LARCH_TLS_IE64_LO20'',
        Some (RK_GotTpOffGot, bit_mask_loongarch64 32 52 LA_Shift5, None, no_check, 1, 0)),
      (''R_LARCH_TLS_LD_PC_HI20'',
        Some (RK_TlsGd, bit_mask_loongarch64 12 32 LA_Shift5, Some (GotEntryAndPosition PAGE_MASK_4KB), no_check, 1, SIZE_2KB)),
      (''R_LARCH_TLS_LD_HI20'',
        Some (RK_TlsGdGot, bit_mask_loongarch64 12 32 LA_Shift5, None, no_check, 1, 0)),
      (''R_LARCH_TLS_GD_PC_HI20'',
        Some (RK_TlsGd, bit_mask_loongarch64 12 32 LA_Shift5, Some (GotEntryAndPosition PAGE_MASK_4KB), no_check, 1, SIZE_2KB)),
      (''R_LARCH_TLS_GD_HI20'',
        Some (RK_TlsGdGot, bit_mask_loongarch64 12 32 LA_Shift5, None, no_check, 1, 0)),
      (''R_LARCH_TLS_DESC_PC_HI20'',
        Some (RK_TlsDesc, bit_mask_loongarch64 12 32 LA_Shift5, Some (GotEntryAndPosition PAGE_MASK_4KB), no_check, 1, SIZE_2KB)),
      (''R_LARCH_TLS_DESC_PC_LO12'',
        Some (RK_TlsDescGot, bit_mask_loongarch64 0 12 LA_Shift10, None, no_check, 1, 0)),
      (''R_LARCH_TLS_DESC64_PC_HI12'',
        Some (RK_TlsDescLoongArch64, bit_mask_loongarch64 52 64 LA_Shift10, None, no_check, 1, 0)),
      (''R_LARCH_TLS_DESC64_PC_LO20'',
        Some (RK_TlsDescLoongArch64, bit_mask_loongarch64 32 52 LA_Shift5, None, no_check, 1, 0)),
      (''R_LARCH_TLS_DESC_LD'', Some (RK_None, ByteSize 0, None, no_check, 1, 0)),
      (''R_LARCH_TLS_DESC_CALL'', Some (RK_TlsDescCall, ByteSize 0, None, no_check, 1, 0)),
      (''R_LARCH_TLS_DTPREL32'', Some (RK_DtpOff, ByteSize 4, None, no_check, 1, 0)),
      (''R_LARCH_TLS_DTPREL64'', Some (RK_DtpOff, ByteSize 8, None, no_check, 1, 0)),
      (''R_LARCH_TLS_LD_PCREL20_S2'', None),
      (''R_LARCH_TLS_GD_PCREL20_S2'', None),
      (''R_LARCH_TLS_DESC_PCREL20_S2'', None),
      (''R_LARCH_RELAX'', Some (RK_None, ByteSize 0, None, no_check, 1, 0)),
      (''R_LARCH_TLS_LE_ADD_R'', Some (RK_None, ByteSize 0, None, no_check, 1, 0)),
      (''R_LARCH_ALIGN'', Some (RK_None, ByteSize 0, None, no_check, 1, 0))]"

definition loongarch64_arms :: "elf_constants \<Rightarrow> (string \<times> reloc_arm option) list" where
  "loongarch64_arms elf = loongarch64_arms_1 elf @ loongarch64_arms_2 elf @ loongarch64_arms_3 elf
     @ loongarch64_arms_4 elf"

lemmas loongarch64_arms_defs = loongarch64_arms_def loongarch64_arms_1_def loongarch64_arms_2_def loongarch64_arms_3_def loongarch64_arms_4_def

definition loongarch64_relocation_type_from_raw :: "elf_constants \<Rightarrow> u32 \<Rightarrow> relocation_kind_info option" where
  "loongarch64_relocation_type_from_raw elf r_type = do {
     arm \<leftarrow> match_const elf r_type (loongarch64_arms elf);
     arm \<leftarrow> arm;
     Some (arm_info False arm)
   }"

section \<open>x86-64\<close>

type_synonym reloc_size_and_range = "relocation_size \<times> allowed_range"

definition RELOC_8_BYTE_UNSIGNED :: reloc_size_and_range where
  "RELOC_8_BYTE_UNSIGNED = (ByteSize 8, the (from_byte_size 8 Unsigned))"

definition RELOC_8_BYTE_SIGNED :: reloc_size_and_range where
  "RELOC_8_BYTE_SIGNED = (ByteSize 8, the (from_byte_size 8 Signed))"

definition RELOC_4_BYTE_UNSIGNED :: reloc_size_and_range where
  "RELOC_4_BYTE_UNSIGNED = (ByteSize 4, the (from_byte_size 4 Unsigned))"

definition RELOC_4_BYTE_SIGNED :: reloc_size_and_range where
  "RELOC_4_BYTE_SIGNED = (ByteSize 4, the (from_byte_size 4 Signed))"

definition RELOC_2_BYTE_SIGNED :: reloc_size_and_range where
  "RELOC_2_BYTE_SIGNED = (ByteSize 2, the (from_byte_size 2 Signed))"

definition RELOC_1_BYTE_SIGNED :: reloc_size_and_range where
  "RELOC_1_BYTE_SIGNED = (ByteSize 1, the (from_byte_size 1 Signed))"

definition RELOC_NONE :: reloc_size_and_range where
  "RELOC_NONE = (ByteSize 0, no_check)"

lemmas x86_64_sizes = RELOC_8_BYTE_UNSIGNED_def RELOC_8_BYTE_SIGNED_def RELOC_4_BYTE_UNSIGNED_def
  RELOC_4_BYTE_SIGNED_def RELOC_2_BYTE_SIGNED_def RELOC_1_BYTE_SIGNED_def RELOC_NONE_def

definition x86_64_arms :: "(string \<times> relocation_kind \<times> reloc_size_and_range) list" where
  "x86_64_arms =
     [(''R_X86_64_64'', (RK_Absolute, RELOC_8_BYTE_UNSIGNED)),
      (''R_X86_64_PC32'', (RK_Relative, RELOC_4_BYTE_SIGNED)),
      (''R_X86_64_PC64'', (RK_Relative, RELOC_8_BYTE_SIGNED)),
      (''R_X86_64_GOT32'', (RK_GotRelGotBase, RELOC_4_BYTE_UNSIGNED)),
      (''R_X86_64_GOT64'', (RK_GotRelGotBase, RELOC_8_BYTE_UNSIGNED)),
      (''R_X86_64_GOTOFF64'', (RK_SymRelGotBase, RELOC_8_BYTE_SIGNED)),
      (''R_X86_64_PLT32'', (RK_PltRelative, RELOC_4_BYTE_SIGNED)),
      (''R_X86_64_PLTOFF64'', (RK_PltRelGotBase, RELOC_8_BYTE_SIGNED)),
      (''R_X86_64_GOTPCREL'', (RK_GotRelative, RELOC_4_BYTE_SIGNED)),
      (''R_X86_64_GOTPC64'', (RK_Relative, RELOC_8_BYTE_SIGNED)),
      (''R_X86_64_GOTPC32'', (RK_Relative, RELOC_4_BYTE_SIGNED)),
      (''R_X86_64_32'', (RK_Absolute, RELOC_4_BYTE_UNSIGNED)),
      (''R_X86_64_32S'', (RK_Absolute, RELOC_4_BYTE_SIGNED)),
      (''R_X86_64_16'', (RK_Absolute, RELOC_2_BYTE_SIGNED)),
      (''R_X86_64_PC16'', (RK_Relative, RELOC_2_BYTE_SIGNED)),
      (''R_X86_64_8'', (RK_Absolute, RELOC_1_BYTE_SIGNED)),
      (''R_X86_64_PC8'', (RK_Relative, RELOC_1_BYTE_SIGNED)),
      (''R_X86_64_TLSGD'', (RK_TlsGd, RELOC_4_BYTE_SIGNED)),
      (''R_X86_64_TLSLD'', (RK_TlsLd, RELOC_4_BYTE_SIGNED)),
      (''R_X86_64_DTPOFF32'', (RK_DtpOff, RELOC_4_BYTE_SIGNED)),
      (''R_X86_64_DTPOFF64'', (RK_DtpOff, RELOC_8_BYTE_SIGNED)),
      (''R_X86_64_GOTTPOFF'', (RK_GotTpOff, RELOC_4_BYTE_SIGNED)),
      (''R_X86_64_CODE_4_GOTTPOFF'', (RK_GotTpOff, RELOC_4_BYTE_SIGNED)),
      (''R_X86_64_CODE_5_GOTTPOFF'', (RK_GotTpOff, RELOC_4_BYTE_SIGNED)),
      (''R_X86_64_CODE_6_GOTTPOFF'', (RK_GotTpOff, RELOC_4_BYTE_SIGNED)),
      (''R_X86_64_GOTPCRELX'', (RK_GotRelative, RELOC_4_BYTE_SIGNED)),
      (''R_X86_64_REX_GOTPCRELX'', (RK_GotRelative, RELOC_4_BYTE_SIGNED)),
      (''R_X86_64_CODE_4_GOTPCRELX'', (RK_GotRelative, RELOC_4_BYTE_SIGNED)),
      (''R_X86_64_CODE_5_GOTPCRELX'', (RK_GotRelative, RELOC_4_BYTE_SIGNED)),
      (''R_X86_64_CODE_6_GOTPCRELX'', (RK_GotRelative, RELOC_4_BYTE_SIGNED)),
      (''R_X86_64_TPOFF32'', (RK_TpOff, RELOC_4_BYTE_SIGNED)),
      (''R_X86_64_GOTPC32_TLSDESC'', (RK_TlsDesc, RELOC_4_BYTE_SIGNED)),
      (''R_X86_64_CODE_4_GOTPC32_TLSDESC'', (RK_TlsDesc, RELOC_4_BYTE_SIGNED)),
      (''R_X86_64_CODE_5_GOTPC32_TLSDESC'', (RK_TlsDesc, RELOC_4_BYTE_SIGNED)),
      (''R_X86_64_CODE_6_GOTPC32_TLSDESC'', (RK_TlsDesc, RELOC_4_BYTE_SIGNED)),
      (''R_X86_64_TLSDESC_CALL'', (RK_TlsDescCall, RELOC_NONE)),
      (''R_X86_64_NONE'', (RK_None, RELOC_NONE))]"

definition x86_64_relocation_from_raw :: "elf_constants \<Rightarrow> u32 \<Rightarrow> relocation_kind_info option" where
  "x86_64_relocation_from_raw elf r_type = do {
     (kind, sz, allowed) \<leftarrow> match_const elf r_type x86_64_arms;
     Some (arm_info False (kind, sz, None, allowed, 1, 0))
   }"

section \<open>Every entry is well formed\<close>

text \<open>
  What the rest of the linker takes for granted of an entry: a byte count that fits a \<open>u64\<close> or a
  proper bit range, an alignment that is not zero and a range that allows something.
\<close>

definition info_wf :: "relocation_kind_info \<Rightarrow> bool" where
  "info_wf info \<longleftrightarrow>
     (case rki_size info of
        ByteSize n \<Rightarrow> n \<le> 8
      | BitMasking bm \<Rightarrow> range_start (bm_range bm) < range_end (bm_range bm) \<and> range_end (bm_range bm) \<le> 64)
     \<and> 1 \<le> rki_alignment info \<and> ar_min (rki_range info) < ar_max (rki_range info)"

lemmas table_simps = size_defs range_new_def no_check_def from_bit_size_def from_byte_size_def

text \<open>A predicate that holds of every entry a table returns.\<close>

definition every_entry :: "(reloc_arm \<Rightarrow> bool) \<Rightarrow> (string \<times> reloc_arm option) list \<Rightarrow> bool" where
  "every_entry P arms \<longleftrightarrow> list_all (\<lambda>arm. case snd arm of None \<Rightarrow> True | Some a \<Rightarrow> P a) arms"

lemma every_entry_append [simp]: "every_entry P (xs @ ys) \<longleftrightarrow> every_entry P xs \<and> every_entry P ys"
  by (simp add: every_entry_def)

lemma every_entry_Nil [simp]: "every_entry P []"
  by (simp add: every_entry_def)

lemma every_entry_Cons [simp]:
  "every_entry P ((c, None) # arms) \<longleftrightarrow> every_entry P arms"
  "every_entry P ((c, Some a) # arms) \<longleftrightarrow> P a \<and> every_entry P arms"
  by (simp_all add: every_entry_def)

lemma table_entry:
  assumes "match_const elf r arms \<bind> (\<lambda>arm. arm \<bind> (\<lambda>arm. Some (f arm))) = Some info"
    and "every_entry P arms"
  shows "\<exists>a. P a \<and> info = f a"
  using assms match_const_SomeD [of elf r arms]
  by (fastforce simp: every_entry_def list_all_iff split: bind_splits option.splits)

lemma aarch64_entry:
  assumes "aarch64_relocation_type_from_raw elf r = Some info" "every_entry P (aarch64_arms elf)"
  shows "\<exists>a t. P a \<and> info = arm_info t a"
  using table_entry [OF assms(1) [unfolded aarch64_relocation_type_from_raw_def] assms(2)] by blast

lemma riscv64_entry:
  assumes "riscv64_relocation_type_from_raw elf r = Some info" "every_entry P (riscv64_arms elf)"
  shows "\<exists>a. P a \<and> info = arm_info False a"
  using table_entry [OF assms(1) [unfolded riscv64_relocation_type_from_raw_def] assms(2)] by blast

lemma loongarch64_entry:
  assumes "loongarch64_relocation_type_from_raw elf r = Some info" "every_entry P (loongarch64_arms elf)"
  shows "\<exists>a. P a \<and> info = arm_info False a"
  using table_entry [OF assms(1) [unfolded loongarch64_relocation_type_from_raw_def] assms(2)] by blast

lemma arms_wf:
  "every_entry (\<lambda>a. \<forall>t. info_wf (arm_info t a)) (aarch64_arms elf)"
  "every_entry (\<lambda>a. \<forall>t. info_wf (arm_info t a)) (riscv64_arms elf)"
  "every_entry (\<lambda>a. \<forall>t. info_wf (arm_info t a)) (loongarch64_arms elf)"
  by (simp_all add: aarch64_arms_defs riscv64_arms_defs loongarch64_arms_defs 
     info_wf_def arm_info_def table_simps)

definition is_uleb128 :: "relocation_kind \<Rightarrow> bool" where
  "is_uleb128 k \<longleftrightarrow> (case k of RK_PairSubtractionULEB128 _ \<Rightarrow> True | _ \<Rightarrow> False)"

definition x86_64_size_ok :: "reloc_size_and_range \<Rightarrow> bool" where
  "x86_64_size_ok sr \<longleftrightarrow> sr = (ByteSize 0, no_check) \<or>
     (\<exists>n. n \<in> {1, 2, 4, 8} \<and> fst sr = ByteSize n
       \<and> Some (snd sr) \<in> {from_byte_size n Signed, from_byte_size n Unsigned})"

lemma x86_64_sizes_ok:
  "x86_64_size_ok RELOC_8_BYTE_UNSIGNED" "x86_64_size_ok RELOC_8_BYTE_SIGNED"
  "x86_64_size_ok RELOC_4_BYTE_UNSIGNED" "x86_64_size_ok RELOC_4_BYTE_SIGNED"
  "x86_64_size_ok RELOC_2_BYTE_SIGNED" "x86_64_size_ok RELOC_1_BYTE_SIGNED"
  "x86_64_size_ok RELOC_NONE"
  unfolding x86_64_size_ok_def x86_64_sizes
  by (auto simp: from_byte_size_def from_bit_size_def)

lemma x86_64_entry:
  assumes "x86_64_relocation_from_raw elf r = Some info"
  shows "\<exists>kind sz allowed. info = arm_info False (kind, sz, None, allowed, 1, 0)
    \<and> x86_64_size_ok (sz, allowed) \<and> \<not> is_uleb128 kind"
proof -
  obtain kind sr where entry: "match_const elf r x86_64_arms = Some (kind, sr)"
    and info: "info = arm_info False (kind, fst sr, None, snd sr, 1, 0)"
    using assms by (auto simp: x86_64_relocation_from_raw_def split: bind_splits)
  have all: "list_all (\<lambda>arm. x86_64_size_ok (snd (snd arm)) \<and> \<not> is_uleb128 (fst (snd arm))) x86_64_arms"
    by (simp add: x86_64_arms_def x86_64_sizes_ok is_uleb128_def)
  obtain c where "(c, kind, sr) \<in> set x86_64_arms"
    using match_const_SomeD [OF entry] by blast
  from all [unfolded list_all_iff, rule_format, OF this] info show ?thesis
    by (metis prod.collapse fst_conv snd_conv)
qed

lemma x86_64_info_wf: "x86_64_size_ok (sz, allowed) \<Longrightarrow> info_wf (arm_info t (kind, sz, None, allowed, 1, 0))"
  unfolding x86_64_size_ok_def
  by (auto simp: info_wf_def arm_info_def from_byte_size_def from_bit_size_def range_defs
      split: sign.splits if_splits)

text \<open>Every entry of the four relocation tables is well formed: a byte size of at most eight or a
  proper bit range inside a 64-bit value, a positive alignment and a range that is not empty; in
  particular no range of the tables runs into the panic of \<open>from_bit_size\<close>.\<close>

theorem relocation_tables_well_formed:
  assumes "aarch64_relocation_type_from_raw elf r = Some info
    \<or> riscv64_relocation_type_from_raw elf r = Some info
    \<or> loongarch64_relocation_type_from_raw elf r = Some info
    \<or> x86_64_relocation_from_raw elf r = Some info"
  shows "info_wf info"
  using assms
proof (elim disjE)
  assume "x86_64_relocation_from_raw elf r = Some info"
  then show ?thesis
    using x86_64_entry x86_64_info_wf by blast
qed (use aarch64_entry [OF _ arms_wf(1)] riscv64_entry [OF _ arms_wf(2)]
    loongarch64_entry [OF _ arms_wf(3)] in blast)+

text \<open>Single lookups, under a numbering that tells the type apart from the ones before it.\<close>

lemma aarch64_call26_lookup:
  "aarch64_relocation_type_from_raw (\<lambda>c. if c = ''R_AARCH64_CALL26'' then 283 else 0) 283 =
     Some (arm_info True (RK_PltRelative, bit_mask_aarch64 2 28 A64_JumpCall, None,
       range_new (- (2 ^ 27)) (2 ^ 27), 4, 0))"
  by (simp add: aarch64_relocation_type_from_raw_def aarch64_arms_defs match_const_Cons from_bit_size_def)

lemma riscv64_jal_lookup:
  "riscv64_relocation_type_from_raw (\<lambda>c. if c = ''R_RISCV_JAL'' then 17 else 0) 17 =
     Some (arm_info False (RK_Relative, bit_mask_riscv 0 32 RV_JType, None,
       range_new (- (2 ^ 20)) (2 ^ 20 - 1), 2, 0))"
  by (simp add: riscv64_relocation_type_from_raw_def riscv64_arms_defs match_const_Cons)

lemma loongarch64_b26_lookup:
  "loongarch64_relocation_type_from_raw (\<lambda>c. if c = ''R_LARCH_B26'' then 66 else 0) 66 =
     Some (arm_info False (RK_PltRelative, bit_mask_loongarch64 2 28 LA_Branch26, None,
       range_new (- (2 ^ 27)) (2 ^ 27), 4, 0))"
  by (simp add: loongarch64_relocation_type_from_raw_def loongarch64_arms_defs match_const_Cons
    from_bit_size_def)

lemma x86_64_pc32_lookup:
  "x86_64_relocation_from_raw (\<lambda>c. if c = ''R_X86_64_PC32'' then 2 else 0) 2 =
     Some (arm_info False (RK_Relative, ByteSize 4, None, range_new (- (2 ^ 31)) (2 ^ 31), 1, 0))"
  by (simp add: x86_64_relocation_from_raw_def x86_64_arms_def match_const_Cons RELOC_4_BYTE_SIGNED_def
    from_byte_size_def from_bit_size_def)

theorem relocation_tables_well_formed_witness:
  "info_wf (arm_info True (RK_PltRelative, bit_mask_aarch64 2 28 A64_JumpCall, None,
     range_new (- (2 ^ 27)) (2 ^ 27), 4, 0))"
  using relocation_tables_well_formed [of "\<lambda>c. if c = ''R_AARCH64_CALL26'' then 283 else 0" 283]
    aarch64_call26_lookup by blast

end
