(* ===== verification/Reloc_Spec.thy ===== *)
theory Reloc_Spec
  imports Reloc_Apply Reloc_Tables
begin

text \<open>
  What applying a relocation promises: which bytes it touches, when it fails and when it panics, and
  that the value the linker computed is the value the relocated field or instruction holds. The
  theorems put the tables (\<open>Reloc_Tables\<close>) and the writer (\<open>Reloc_Apply\<close>) together.
\<close>

section \<open>Which bytes are touched\<close>

text \<open>The number of bytes at the start of the output a successful write may change.\<close>

definition write_extent :: "(u64 \<Rightarrow> u8 list) \<Rightarrow> relocation_kind_info \<Rightarrow> u64 \<Rightarrow> nat" where
  "write_extent uleb128 info value =
     (case rki_kind info of
        RK_PairSubtractionULEB128 _ \<Rightarrow> length (uleb128 value)
      | _ \<Rightarrow> (case rki_size info of ByteSize n \<Rightarrow> n | BitMasking bm \<Rightarrow> insn_window (bm_instruction bm)))"

lemma write_to_buffer_uleb128:
  assumes "is_uleb128 (rki_kind info)" "verify info value = Inr ()"
  shows "write_to_buffer uleb128 info value output =
    (if length output < length (uleb128 value) then Some (Inl (Uleb128DoesNotFit (length (uleb128 value))))
     else Some (Inr (splice 0 (uleb128 value) output)))"
  using assms
  by (auto simp: write_to_buffer_def is_uleb128_def Let_def split: relocation_kind.splits)

lemma write_to_buffer_bytes:
  assumes "\<not> is_uleb128 (rki_kind info)" "verify info value = Inr ()" "rki_size info = ByteSize n"
  shows "write_to_buffer uleb128 info value output =
    (if length output < n then Some (Inl OutsideOfSection)
     else if 8 < n then None
     else Some (Inr (to_le_bytes n value @ drop n output)))"
  using assms
  by (auto simp: write_to_buffer_def is_uleb128_def splice_def split: relocation_kind.splits)

lemma write_to_buffer_bits:
  assumes "\<not> is_uleb128 (rki_kind info)" "verify info value = Inr ()" "rki_size info = BitMasking bm"
  shows "write_to_buffer uleb128 info value output =
    map_option Inr (write_to_value (bm_instruction bm)
      (extract_bit_range value (range_start (bm_range bm)) (range_end (bm_range bm)))
      (sint value < 0) output)"
  using assms
  by (auto simp: write_to_buffer_def is_uleb128_def Let_def split: relocation_kind.splits)

lemma write_extent_cases:
  "is_uleb128 (rki_kind info) \<Longrightarrow> write_extent uleb128 info value = length (uleb128 value)"
  "\<not> is_uleb128 (rki_kind info) \<Longrightarrow> rki_size info = ByteSize n \<Longrightarrow> write_extent uleb128 info value = n"
  "\<not> is_uleb128 (rki_kind info) \<Longrightarrow> rki_size info = BitMasking bm \<Longrightarrow>
     write_extent uleb128 info value = insn_window (bm_instruction bm)"
  by (auto simp: write_extent_def is_uleb128_def split: relocation_kind.splits)

text \<open>The three ways a checked value is written.\<close>

lemma reloc_info_cases:
  obtains (uleb) "is_uleb128 (rki_kind info)"
  | (bytes) n where "\<not> is_uleb128 (rki_kind info)" "rki_size info = ByteSize n"
  | (bits) bm where "\<not> is_uleb128 (rki_kind info)" "rki_size info = BitMasking bm"
  by (cases "is_uleb128 (rki_kind info)"; cases "rki_size info") auto

text \<open>C5: A relocation that is applied successfully has passed its check, keeps the length of the
  buffer and leaves every byte behind the ones it owns unchanged.\<close>

theorem write_to_buffer_frame:
  assumes "write_to_buffer uleb128 info value output = Some (Inr out)"
  shows "verify info value = Inr () \<and> length out = length output
    \<and> write_extent uleb128 info value \<le> length output
    \<and> drop (write_extent uleb128 info value) out = drop (write_extent uleb128 info value) output"
proof -
  have ok: "verify info value = Inr ()"
    using assms by (cases "verify info value") (auto simp: write_to_buffer_def)
  show ?thesis
  proof (cases info rule: reloc_info_cases)
    case uleb
    with assms ok show ?thesis
      by (auto simp: write_to_buffer_uleb128 write_extent_cases splice_def split: if_splits)
  next
    case (bytes n)
    with assms ok show ?thesis
      by (auto simp: write_to_buffer_bytes write_extent_cases split: if_splits)
  next
    case (bits bm)
    then obtain x where "write_to_value (bm_instruction bm) x (sint value < 0) output = Some out"
      using assms ok by (auto simp: write_to_buffer_bits)
    with bits ok any.encode_frame [OF this] show ?thesis
      by (auto simp: write_extent_cases)
  qed
qed

text \<open>C6: when the writer returns at all. A value that fails the check is reported, so is a buffer
  that is too short for a byte-sized or ULEB128 relocation; an instruction relocation whose bytes do
  not fit the buffer is not reported, it panics.\<close>

theorem write_to_buffer_panics_iff:
  assumes "info_wf info"
  shows "write_to_buffer uleb128 info value output = None \<longleftrightarrow>
    verify info value = Inr () \<and> \<not> is_uleb128 (rki_kind info)
    \<and> (\<exists>bm. rki_size info = BitMasking bm \<and> length output < insn_window (bm_instruction bm))"
proof (cases "verify info value")
  case (Inl e)
  then show ?thesis
    by (simp add: write_to_buffer_def)
next
  case (Inr u)
  then have ok: "verify info value = Inr ()"
    by simp
  show ?thesis
  proof (cases info rule: reloc_info_cases)
    case (bits bm)
    with ok show ?thesis
      by (simp add: write_to_buffer_bits any.encode_None_iff)
  qed (use ok assms in \<open>auto simp: write_to_buffer_uleb128 write_to_buffer_bytes info_wf_def\<close>)
qed

theorem write_to_buffer_frame_witness:
  "length (the (write_to_buffer (\<lambda>_. []) (arm_info False (RK_Relative, ByteSize 4, None, no_check, 1, 0))
      0x11223344 [0, 0, 0, 0, 9] \<bind> (\<lambda>r. case r of Inr out \<Rightarrow> Some out | Inl _ \<Rightarrow> None))) = 5
   \<and> write_extent (\<lambda>_. []) (arm_info False (RK_Relative, ByteSize 4, None, no_check, 1, 0)) 0x11223344 = 4"
  using write_to_buffer_frame [of "\<lambda>_. []"
      "arm_info False (RK_Relative, ByteSize 4, None, no_check, 1, 0)" "0x11223344" "[0, 0, 0, 0, 9]"]
  by (simp add: write_to_buffer_bytes is_uleb128_def verify_def arm_info_def range_defs write_extent_def)

text \<open>An \<open>auipc\<close>/\<open>jalr\<close> pair that ends at the end of the section is written, one whose second half is cut
  off panics.\<close>

theorem write_to_buffer_panics_iff_witness:
  "write_to_buffer (\<lambda>_. [])
     (arm_info False (RK_Relative, bit_mask_riscv 0 64 RV_UiType, None, no_check, 1, 0)) 0 [0x97, 0, 0, 0] = None"
  using write_to_buffer_panics_iff [of
      "arm_info False (RK_Relative, bit_mask_riscv 0 64 RV_UiType, None, no_check, 1, 0)"
      "\<lambda>_. []" 0 "[0x97, 0, 0, 0]"]
  by (simp add: info_wf_def is_uleb128_def verify_def arm_info_def range_defs size_defs)

section \<open>Branches land on their target\<close>

text \<open>
  The entries of the branch classes: the bits extracted are exactly the field's, the alignment makes
  the bits below zero and the range is the signed range of what is extracted.
\<close>

definition word_branch_entry :: "relocation_instruction \<Rightarrow> nat \<Rightarrow> relocation_kind_info \<Rightarrow> bool" where
  "word_branch_entry insn width info \<longleftrightarrow>
     rki_size info = BitMasking (bit_mask_new insn 2 (width + 2)) \<and> rki_alignment info = 4
     \<and> from_bit_size (width + 2) Signed = Some (rki_range info) \<and> \<not> is_uleb128 (rki_kind info)"

definition a64_branch_ok :: "reloc_arm \<Rightarrow> bool" where
  "a64_branch_ok arm = (case arm of (kind, sz, pages, allowed, alignment, bias) \<Rightarrow>
     (case sz of ByteSize _ \<Rightarrow> True
      | BitMasking bm \<Rightarrow>
          (case bm_instruction bm of
             AArch64 insn \<Rightarrow> insn \<in> {A64_TstBr, A64_Bcond, A64_JumpCall} \<longrightarrow>
               word_branch_entry (AArch64 insn) (a64_width insn) (arm_info False arm)
           | _ \<Rightarrow> True)))"

definition la_branch_ok :: "reloc_arm \<Rightarrow> bool" where
  "la_branch_ok arm = (case arm of (kind, sz, pages, allowed, alignment, bias) \<Rightarrow>
     (case sz of ByteSize _ \<Rightarrow> True
      | BitMasking bm \<Rightarrow>
          (case bm_instruction bm of
             LoongArch64 insn \<Rightarrow> insn \<in> {LA_Branch21, LA_Branch26} \<longrightarrow>
               word_branch_entry (LoongArch64 insn) (la_width insn) (arm_info False arm)
           | _ \<Rightarrow> True)))"

lemma branch_entries:
  "every_entry a64_branch_ok (aarch64_arms elf)" "every_entry la_branch_ok (loongarch64_arms elf)"
  by (simp_all add: aarch64_arms_defs loongarch64_arms_defs a64_branch_ok_def la_branch_ok_def
     word_branch_entry_def arm_info_def is_uleb128_def table_simps)

lemma word_branch_entry_thunk:
  "word_branch_entry insn width (arm_info t a) = word_branch_entry insn width (arm_info t' a)"
  by (cases a) (simp add: word_branch_entry_def arm_info_def)

lemma aarch64_branch_info:
  assumes "aarch64_relocation_type_from_raw elf r = Some info"
    and "rki_size info = BitMasking bm" "bm_instruction bm = AArch64 insn"
    and "insn \<in> {A64_TstBr, A64_Bcond, A64_JumpCall}"
  shows "word_branch_entry (AArch64 insn) (a64_width insn) info"
proof -
  obtain a t where a: "a64_branch_ok a" "info = arm_info t a"
    using aarch64_entry [OF assms(1) branch_entries(1)] by blast
  then have "word_branch_entry (AArch64 insn) (a64_width insn) (arm_info False a)"
    using assms(2-4) by (cases a) (simp add: a64_branch_ok_def arm_info_def)
  then show ?thesis
    using a(2) word_branch_entry_thunk by metis
qed

lemma loongarch64_branch_info:
  assumes "loongarch64_relocation_type_from_raw elf r = Some info"
    and "rki_size info = BitMasking bm" "bm_instruction bm = LoongArch64 insn"
    and "insn \<in> {LA_Branch21, LA_Branch26}"
  shows "word_branch_entry (LoongArch64 insn) (la_width insn) info"
proof -
  obtain a where a: "la_branch_ok a" "info = arm_info False a"
    using loongarch64_entry [OF assms(1) branch_entries(2)] by blast
  then show ?thesis
    using assms(2-4) by (cases a) (simp add: la_branch_ok_def arm_info_def)
qed

text \<open>What a successful write of such an entry has checked and extracted.\<close>

lemma word_branch_written:
  assumes "word_branch_entry insn width info" "0 < width" "width < 62"
    and "write_to_buffer uleb128 info value output = Some (Inr out)"
  shows "write_to_value insn (take_bit width (drop_bit 2 value)) (sint value < 0) output = Some out"
    "push_bit 2 (signed_take_bit (width - 1) (drop_bit 2 value)) = value"
proof -
  have ok: "verify info value = Inr ()"
    using assms(4) by (cases "verify info value") (auto simp: write_to_buffer_def)
  have "signed_take_bit (width + 1) value = value"
    using ok assms(1-3) signed_range_iff [of "width + 2" "value"]
    by (auto simp: word_branch_entry_def verify_Inr_iff from_bit_size_def split: if_splits)
  moreover have "take_bit 2 value = 0"
    using ok assms(1) by (intro take_bit_zero_of_dvd) (simp add: word_branch_entry_def verify_Inr_iff)
  moreover have "2 + (width - 1) = width + 1"
    using assms(2) by simp
  ultimately show "push_bit 2 (signed_take_bit (width - 1) (drop_bit 2 value)) = value"
    using assms(3) by (intro push_drop_signed) simp_all
  show "write_to_value insn (take_bit width (drop_bit 2 value)) (sint value < 0) output = Some out"
    using assms ok
    by (auto simp: word_branch_entry_def write_to_buffer_bits bit_mask_new_def extract_bit_range_eq)
qed





text \<open>The RISC-V branch classes store all their immediate bits below the sign bit.\<close>

definition rv_branch_ok :: "reloc_arm \<Rightarrow> bool" where
  "rv_branch_ok arm = (case arm of (kind, sz, pages, allowed, alignment, bias) \<Rightarrow>
     (case sz of ByteSize _ \<Rightarrow> True
      | BitMasking bm \<Rightarrow>
          (case bm_instruction bm of
             RiscV insn \<Rightarrow> insn \<in> {RV_BType, RV_JType, RV_CbType, RV_CjType} \<longrightarrow>
               bm_range bm = \<lparr>range_start = 0, range_end = 8 * rv_window insn\<rparr> \<and> alignment = 2
               \<and> (\<exists>n. rv_sign_bit insn = Some n \<and> allowed = range_new (- (2 ^ n)) (2 ^ n - 1))
               \<and> \<not> is_uleb128 kind
           | _ \<Rightarrow> True)))"

lemma rv_branch_entries: "every_entry rv_branch_ok (riscv64_arms elf)"
  by (simp add: riscv64_arms_defs rv_branch_ok_def is_uleb128_def table_simps)

lemma rv_imm_cut:
  assumes "insn \<in> {RV_BType, RV_JType, RV_CbType, RV_CjType}"
  shows "rv_imm insn (take_bit (8 * rv_window insn) v) = rv_imm insn v"
  using assms by (auto simp: take_bit_drop_bit [symmetric] drop_bit_take_bit)

lemma riscv_write_cut:
  assumes "insn \<in> {RV_BType, RV_JType, RV_CbType, RV_CjType}"
  shows "riscv_write_to_value insn (take_bit (8 * rv_window insn) v) neg dest =
    riscv_write_to_value insn v neg dest"
proof (cases "rv_window insn \<le> length dest")
  case True
  have "rv_insn_word insn (take_bit (8 * rv_window insn) v) w = rv_insn_word insn v w" for w
    by (simp only: rv_insn_word_def rv_imm_cut [OF assms])
  moreover have "rv_window insn = 4 \<or> rv_window insn = 2"
    using assms by auto
  ultimately show ?thesis
    using True by (auto simp: riscv_write_word32 riscv_write_word16)
qed (simp add: riscv_write_short)

text \<open>C2: A RISC-V branch or jump relocation, full size or compressed, puts the branch on its target:
  for every such relocation type of the table, a value the writer accepts is read back from the
  written instruction exactly, with its sign, whatever immediate the instruction had before.\<close>

theorem riscv64_branch_lands:
  assumes "riscv64_relocation_type_from_raw elf r = Some info"
    and "rki_size info = BitMasking bm" "bm_instruction bm = RiscV insn"
    and "insn \<in> {RV_BType, RV_JType, RV_CbType, RV_CjType}"
    and "write_to_buffer uleb128 info value output = Some (Inr out)"
  shows "riscv_read_value insn out = Some (value, sint value < 0)"
proof -
  obtain a where a: "rv_branch_ok a" "info = arm_info False a"
    using riscv64_entry [OF assms(1) rv_branch_entries] by blast
  then obtain n where n: "rv_sign_bit insn = Some n"
    and info: "bm_range bm = \<lparr>range_start = 0, range_end = 8 * rv_window insn\<rparr>"
      "rki_alignment info = 2" "rki_range info = range_new (- (2 ^ n)) (2 ^ n - 1)"
      "\<not> is_uleb128 (rki_kind info)"
    using assms(2-4) by (cases a) (auto simp: rv_branch_ok_def arm_info_def)
  have ok: "verify info value = Inr ()"
    using assms(5) by (cases "verify info value") (auto simp: write_to_buffer_def)
  have bounds: "0 < rv_window insn" "8 * rv_window insn \<le> 64" "n < LENGTH(64)"
    using assms(4) n by auto
  have written: "riscv_write_to_value insn value (sint value < 0) output = Some out"
    using assms ok info bounds
    by (simp add: write_to_buffer_bits extract_bit_range_eq riscv_write_cut)
  have "signed_take_bit n value = value"
    using ok info(3) bounds(3) by (auto simp: verify_Inr_iff range_defs signed_take_bit_word_eq_iff)
  moreover have "\<not> bit value 0"
  proof -
    have "take_bit 1 value = 0"
      using ok info(2) by (intro take_bit_zero_of_dvd) (simp add: verify_Inr_iff)
    then show ?thesis
      using bit_take_bit_word [of 1 "value" 0] by simp
  qed
  moreover have "rv_window insn \<le> length output"
    using written rv.encode_returns_iff by blast
  ultimately show ?thesis
    using riscv_write_read [OF n, of "output" "value" "sint value < 0"] written by simp
qed

theorem riscv64_branch_lands_witness:
  "\<exists>out. write_to_buffer (\<lambda>_. []) (arm_info False (RK_Relative, bit_mask_riscv 0 32 RV_JType, None,
       range_new (- (2 ^ 20)) (2 ^ 20 - 1), 2, 0)) (- 0x100) [0xef, 0, 0, 0] = Some (Inr out)
    \<and> riscv_read_value RV_JType out = Some (- 0x100, True)"
proof -
  let ?info = "arm_info False (RK_Relative, bit_mask_riscv 0 32 RV_JType, None,
       range_new (- (2 ^ 20)) (2 ^ 20 - 1), 2, 0)"
  have "\<not> is_uleb128 (rki_kind ?info)" "rki_size ?info = BitMasking (bit_mask_new (RiscV RV_JType) 0 32)"
    "verify ?info (- 0x100) = Inr ()"
    by (simp_all add: arm_info_def is_uleb128_def size_defs verify_Inr_iff range_defs)
  then obtain out where "write_to_buffer (\<lambda>_. []) ?info (- 0x100) [0xef, 0, 0, 0] = Some (Inr out)"
    by (simp add: write_to_buffer_bits bit_mask_new_def riscv_write_word32
      del: riscv_write_to_value.simps)
  then show ?thesis
    using riscv64_branch_lands [OF riscv64_jal_lookup, of _ RV_JType "\<lambda>_. []" "- 0x100"
        "[0xef, 0, 0, 0]" out]
    by (auto simp: arm_info_def size_defs simp del: riscv_read_value.simps)
qed

section \<open>Data fields hold the value\<close>

text \<open>The number a field of \<open>n\<close> bytes holds, read as unsigned or as two's complement.\<close>

definition field_value :: "sign \<Rightarrow> nat \<Rightarrow> u8 list \<Rightarrow> int" where
  "field_value sg n bytes =
     (let w = uint (from_le_bytes (take n bytes) :: u64)
      in case sg of Unsigned \<Rightarrow> w | Signed \<Rightarrow> signed_take_bit (8 * n - 1) w)"

lemma field_value_written:
  assumes "n \<in> {1, 2, 4, 8}" "from_byte_size n sg = Some rng" "range_contains rng (sint (v :: u64))"
  shows "field_value (if n = 8 then Signed else sg) n (to_le_bytes n v @ rest) = sint v"
proof -
  have w: "uint (from_le_bytes (to_le_bytes n v) :: u64) = take_bit (8 * n) (uint v)"
    by (simp add: from_to_le_bytes unsigned_take_bit_eq)
  show ?thesis
  proof (cases "n = 8")
    case True
    then show ?thesis
      by (simp add: field_value_def w sint_uint take_bit_int_eq_self)
  next
    case False
    with assms have n: "0 < 8 * n" "8 * n < 63" "n \<noteq> 8"
      by auto
    show ?thesis
    proof (cases sg)
      case Signed
      with assms(2) n have "rng = range_new (- (2 ^ (8 * n - 1))) (2 ^ (8 * n - 1))"
        by (auto simp: from_byte_size_def from_bit_size_def split: if_splits)
      with assms(3) have "- (2 ^ (8 * n - 1)) \<le> sint v" "sint v < 2 ^ (8 * n - 1)"
        by (simp_all only: range_defs allowed_range.simps)
      then have "signed_take_bit (8 * n - 1) (sint v) = sint v"
        by (simp add: signed_take_bit_int_eq_self_iff)
      moreover have "signed_take_bit (8 * n - 1) (take_bit (8 * n) (uint v)) = signed_take_bit (8 * n - 1) (sint v)"
        using n(1,2) by (intro bit_eqI) (auto simp: bit_simps min_def sint_uint)
      ultimately show ?thesis
        using Signed n(3) by (simp add: field_value_def w)
    next
      case Unsigned
      with assms(2) n have "rng = range_new 0 (2 ^ (8 * n))"
        by (auto simp: from_byte_size_def from_bit_size_def split: if_splits)
      with assms(3) have "0 \<le> sint v" "take_bit (8 * n) v = v"
        using unsigned_range_iff [OF n(2), of v] by (simp_all add: range_defs)
      then have "uint v = sint v" "uint (take_bit (8 * n) v) = uint v"
        using uint_lt2p [of v] by (auto simp: sint_eq_uint_u64 split: if_splits)
      then have "take_bit (8 * n) (uint v) = sint v"
        by (simp only: unsigned_take_bit_eq)
      with Unsigned n(3) show ?thesis
        by (simp add: field_value_def w)
    qed
  qed
qed

text \<open>C4: every x86-64 relocation that is applied leaves the value in the field: read with the
  signedness of the relocation type (the eight-byte types as two's complement), the bytes of the
  field are the value the linker computed. A value the field cannot hold is an error, never a
  truncation.\<close>

theorem x86_64_field_holds_value:
  assumes "x86_64_relocation_from_raw elf r = Some info"
    and "write_to_buffer uleb128 info value output = Some (Inr out)"
  shows "\<exists>n sg. rki_size info = ByteSize n \<and> (n = 0 \<and> out = output \<or>
    from_byte_size n sg = Some (rki_range info)
    \<and> field_value (if n = 8 then Signed else sg) n out = sint value \<and> drop n out = drop n output)"
proof -
  obtain kind sz allowed where info: "info = arm_info False (kind, sz, None, allowed, 1, 0)"
    and ok: "x86_64_size_ok (sz, allowed)" and kind: "\<not> is_uleb128 kind"
    using x86_64_entry [OF assms(1)] by blast
  have verified: "verify info value = Inr ()"
    using assms(2) by (cases "verify info value") (auto simp: write_to_buffer_def)
  from ok consider "sz = ByteSize 0"
    | n sg where "n \<in> {1, 2, 4, 8}" "sz = ByteSize n" "from_byte_size n sg = Some allowed"
    unfolding x86_64_size_ok_def by fastforce
  then show ?thesis
  proof cases
    case 1
    then show ?thesis
      using assms(2) verified kind
      by (auto simp: info arm_info_def write_to_buffer_bytes to_le_bytes_def)
  next
    case 2
    then have "out = to_le_bytes n value @ drop n output" "drop n out = drop n output"
      using assms(2) verified kind
      by (auto simp: info arm_info_def write_to_buffer_bytes split: if_splits)
    moreover have "range_contains allowed (sint value)"
      using verified by (simp add: verify_Inr_iff info arm_info_def)
    ultimately show ?thesis
      using 2 field_value_written [OF 2(1,3)] by (auto simp: info arm_info_def)
  qed
qed

theorem x86_64_field_holds_value_witness:
  "\<exists>out n sg. write_to_buffer (\<lambda>_. []) (arm_info False (RK_Relative, ByteSize 4, None,
       range_new (- (2 ^ 31)) (2 ^ 31), 1, 0)) (- 4) [0, 0, 0, 0, 0xc3] = Some (Inr out)
    \<and> n = 4 \<and> from_byte_size n sg = Some (range_new (- (2 ^ 31)) (2 ^ 31))
    \<and> field_value sg n out = - 4"
proof -
  let ?info = "arm_info False (RK_Relative, ByteSize 4, None, range_new (- (2 ^ 31)) (2 ^ 31), 1, 0)"
  have "\<not> is_uleb128 (rki_kind ?info)" "rki_size ?info = ByteSize 4" "verify ?info (- 4) = Inr ()"
    by (simp_all add: arm_info_def is_uleb128_def verify_Inr_iff range_defs)
  then obtain out where "write_to_buffer (\<lambda>_. []) ?info (- 4) [0, 0, 0, 0, 0xc3] = Some (Inr out)"
    by (simp add: write_to_buffer_bytes)
  then show ?thesis
    using x86_64_field_holds_value [OF x86_64_pc32_lookup, of "\<lambda>_. []" "- 4" "[0, 0, 0, 0, 0xc3]" out]
    by (auto simp: arm_info_def)
qed

section \<open>Where the tables and the encoders disagree\<close>

primrec insn_field_width :: "relocation_instruction \<Rightarrow> nat" where
  "insn_field_width (AArch64 i) = a64_width i"
| "insn_field_width (RiscV i) = 8 * rv_window i"
| "insn_field_width (LoongArch64 i) = la_width i"

definition entry_fits :: "reloc_arm option \<Rightarrow> bool" where
  "entry_fits arm = (case arm of
       Some (_, BitMasking bm, _) \<Rightarrow>
         range_end (bm_range bm) - range_start (bm_range bm) \<le> insn_field_width (bm_instruction bm)
     | _ \<Rightarrow> True)"

definition unfit_names :: "(string \<times> reloc_arm option) list \<Rightarrow> string list" where
  "unfit_names arms = map fst (filter (\<lambda>arm. \<not> entry_fits (snd arm)) arms)"

lemma unfit_names_simps [simp]:
  "unfit_names [] = []"
  "unfit_names (xs @ ys) = unfit_names xs @ unfit_names ys"
  "unfit_names ((c, a) # xs) = (if entry_fits a then [] else [c]) @ unfit_names xs"
  by (simp_all add: unfit_names_def)

text \<open>No relocation of the three tables extracts more bits than the immediate field of its
  instruction holds, with exactly four exceptions, whose surplus bits are written over neighbouring
  bits of the instruction: \<open>R_AARCH64_GOT_LD_PREL19\<close> puts 19 bits into the 12-bit field of a load,
  \<open>R_AARCH64_TLSGD_MOVW_G1\<close> 17 bits into 16, \<open>R_AARCH64_TLSLD_LD_PREL19\<close> 21 into 19 and
  \<open>R_LARCH_B16\<close> 16 bits into a field the encoder clears 12 bits of.\<close>

theorem relocation_fields_fit:
  "unfit_names (aarch64_arms elf @ riscv64_arms elf @ loongarch64_arms elf) =
     [''R_AARCH64_GOT_LD_PREL19'', ''R_AARCH64_TLSGD_MOVW_G1'', ''R_AARCH64_TLSLD_LD_PREL19'',
      ''R_LARCH_B16'']"
  by (simp add: aarch64_arms_defs riscv64_arms_defs loongarch64_arms_defs entry_fits_def size_defs)

text \<open>\<open>write_windows_size\<close> bounds the bytes an encoder rewrites for every instruction but the two
  LoongArch call pairs, which rewrite eight bytes where it says four.\<close>

theorem write_windows_size_bounds:
  "insn_window insn \<le> write_windows_size insn \<longleftrightarrow>
     insn \<notin> {LoongArch64 LA_Call30, LoongArch64 LA_Call36}"
proof (cases insn)
  case (RiscV i)
  then show ?thesis by (cases i) auto
next
  case (LoongArch64 i)
  then show ?thesis by (cases i) auto
qed simp

text \<open>The check of the RISC-V call types is too wide. \<open>R_RISCV_CALL\<close> accepts values up to $2^{32}$,
  but the \<open>auipc\<close>/\<open>jalr\<close> pair sign extends: at $2^{31}$ the write succeeds and the pair computes
  $-2^{31}$, four gigabytes below the target.\<close>

theorem riscv64_call_range_too_wide:
  "\<exists>info out hi lo.
     riscv64_relocation_type_from_raw (\<lambda>c. if c = ''R_RISCV_CALL'' then 18 else 0) 18 = Some info
   \<and> write_to_buffer (\<lambda>_. []) info 0x80000000 [0x97, 0, 0, 0, 0xe7, 0x80, 0, 0] = Some (Inr out)
   \<and> u32_from_slice out = Some hi \<and> u32_from_slice (drop 4 out) = Some lo
   \<and> rv_upper hi + rv_lower RV_IType lo = - 0x80000000"
proof -
  let ?info = "arm_info False (RK_PltRelative, bit_mask_riscv 0 64 RV_UiType, None,
       range_new (- (2 ^ 31)) (2 ^ 32), 1, 0)"
  let ?hi = "rv_insn_word RV_UType 0x80000000 0x97" and ?lo = "rv_insn_word RV_IType 0x80000000 0x80e7"
  have lookup: "riscv64_relocation_type_from_raw (\<lambda>c. if c = ''R_RISCV_CALL'' then 18 else 0) 18 = Some ?info"
    by (simp add: riscv64_relocation_type_from_raw_def riscv64_arms_defs match_const_Cons)
  have "\<not> is_uleb128 (rki_kind ?info)" "rki_size ?info = BitMasking (bit_mask_new (RiscV RV_UiType) 0 64)"
    "verify ?info 0x80000000 = Inr ()"
    by (simp_all add: arm_info_def is_uleb128_def size_defs verify_Inr_iff range_defs)
  then have "write_to_buffer (\<lambda>_. []) ?info 0x80000000 [0x97, 0, 0, 0, 0xe7, 0x80, 0, 0] =
      Some (Inr (to_le_bytes 4 ?hi @ to_le_bytes 4 ?lo))"
    by (simp add: write_to_buffer_bits bit_mask_new_def riscv_write_ui extract_bit_range_def
      del: riscv_write_to_value.simps)
  moreover have "rv_upper ?hi + rv_lower RV_IType ?lo = - 0x80000000"
    by (simp add: rv_upper_def rv_lower_def rv_insn_word_def riscv_masks)
  ultimately show ?thesis
    using lookup by (auto simp: u32_from_slice_def)
qed

section \<open>The mask of a relocated instruction\<close>

text \<open>
  \<open>RelocationInstruction::bit_mask\<close> finds the bits of an instruction that do not belong to the
  relocation by encoding a value of all ones into zeroes. For the classes whose bits are taken straight
  from the value this is the mask the encoder keeps.
\<close>

lemma rv_imm_all_ones:
  assumes "insn \<in> {RV_IType, RV_SType, RV_BType, RV_JType}"
  shows "rv_imm insn 0xffffffff = NOT (rv_keep insn)"
  using assms by (auto simp: riscv_masks)

text \<open>\<open>bit_mask\<close> gives the bits the encoder keeps for the RISC-V immediates that are written bit by
  bit, so what it reports as preserved is preserved by every relocation of that class.\<close>

theorem insn_bit_mask_riscv:
  assumes "insn \<in> {RV_IType, RV_SType, RV_BType, RV_JType}"
  shows "insn_bit_mask (RiscV insn) \<lparr>range_start = 0, range_end = 32\<rparr> =
      Some (to_le_bytes 4 (rv_keep insn))
    \<and> rv_insn_word insn v w AND rv_keep insn = w AND rv_keep insn"
proof -
  have "rv_window insn = 4"
    using assms by auto
  then have "riscv_write_to_value insn 0xffffffff False [0, 0, 0, 0] =
      Some (to_le_bytes 4 (NOT (rv_keep insn)))"
    by (simp add: riscv_write_word32 rv_insn_word_def rv_imm_all_ones [OF assms])
  moreover have "map NOT (to_le_bytes 4 (NOT w)) = to_le_bytes 4 w" for w :: u32
    by (rule nth_equalityI) (auto simp: to_le_bytes_def intro!: bit_word_eqI simp: bit_simps)
  ultimately show ?thesis
    by (simp add: insn_bit_mask_def riscv_insn_word_kept)
qed

theorem insn_bit_mask_riscv_witness:
  "insn_bit_mask (RiscV RV_IType) \<lparr>range_start = 0, range_end = 32\<rparr> =
     Some (to_le_bytes 4 (rv_keep RV_IType))"
  using insn_bit_mask_riscv [of RV_IType 0 0] by blast

text \<open>For the upper-immediate class it does not: the rounding by \<open>0x800\<close> carries out of a value of
  all ones, the encoded field is zero and \<open>bit_mask\<close> reports every bit of the instruction as
  preserved, the immediate included.\<close>

theorem insn_bit_mask_utype_empty:
  "insn_bit_mask (RiscV RV_UType) \<lparr>range_start = 0, range_end = 32\<rparr> = Some [0xff, 0xff, 0xff, 0xff]"
proof -
  have "riscv_write_to_value RV_UType 0xffffffff False [0, 0, 0, 0] = Some [0, 0, 0, 0]"
    by (simp add: riscv_write_word32 rv_insn_word_def to_le_bytes_def upt_rec del: riscv_write_to_value.simps)
  then show ?thesis
    by (simp add: insn_bit_mask_def)
qed

end
