(* ===== verification/Riscv_Relax.thy ===== *)
theory Riscv_Relax
  imports Riscv_Insn Relax_Types
begin

text \<open>
  The RISC-V relaxations of \<open>linker-utils/src/riscv64.rs\<close>: the rewrites of \<open>RelaxationKind::apply\<close>,
  the tests that decide which form of a HI20 address fits, and what the rewritten instruction
  computes once its relocation has been written. The lemmas show that a rewrite touches four bytes
  only, that \<open>jal\<close> and \<open>c.lui\<close> keep the destination register of the instruction they replace, and that
  the shorter forms produce the value of the longer ones.
\<close>

section \<open>Ranges\<close>

definition JAL_RANGE :: "int \<times> int" where
  "JAL_RANGE = (- (2 ^ 20), 2 ^ 20 - 1)"

definition distance_fits_jal :: "i64 \<Rightarrow> bool" where
  "distance_fits_jal distance = (fst JAL_RANGE \<le> sint distance \<and> sint distance \<le> snd JAL_RANGE)"

definition hi20_is_zero :: "u64 \<Rightarrow> bool" where
  "hi20_is_zero v = (let hi20 = shr (v + 0x800) 12 in hi20 AND 0xfffff = 0)"

definition hi20_fits_clui :: "u64 \<Rightarrow> bool" where
  "hi20_fits_clui v =
     (let hi20 = shr (v + 0x800) 12;
          hi20_signed = hi20;
          as_6bit = sar (shl (ucast hi20_signed :: u8) 2) 2
      in scast as_6bit = hi20_signed \<and> hi20_signed \<noteq> 0)"

definition rd_valid_for_clui :: "u32 \<Rightarrow> bool" where
  "rd_valid_for_clui rd = (rd \<noteq> 0 \<and> rd \<noteq> 2)"

definition clui_rel_info :: relocation_kind_info where
  "clui_rel_info =
     \<lparr>rki_kind = RK_Absolute, rki_size = bit_mask_riscv 0 32 RV_CluiType, rki_mask = None,
      rki_range = range_new (- (2 ^ 31)) (2 ^ 32), rki_alignment = 1, rki_bias = 0,
      rki_thunkable = False\<rparr>"

section \<open>Rewrites\<close>

datatype riscv_relaxation = RVR_NoOp | RVR_ReplaceWithNop | RVR_CallToJal | RVR_Hi20ToCLui
  | RVR_Hi20Delete | RVR_Lo12Rs1ToZero

primrec riscv_relax_apply :: "riscv_relaxation \<Rightarrow> relax_site \<Rightarrow> relax_site option" where
  "riscv_relax_apply RVR_NoOp s = Some s"
| "riscv_relax_apply RVR_ReplaceWithNop s =
     (let offset = offset_in_section s
      in site_copy s offset (offset + 4) [0x01, 0x0, 0x01, 0x0])"
| "riscv_relax_apply RVR_CallToJal s =
     (let offset = offset_in_section s
      in do {
        window \<leftarrow> slice_from (section_bytes s) offset;
        auipc_word \<leftarrow> u32_from_slice window;
        let rd = shr auipc_word 7 AND 0x1f;
        let jal_base = 0x6f OR shl rd 7;
        site_copy s offset (offset + 4) (to_le_bytes 4 jal_base)
      })"
| "riscv_relax_apply RVR_Hi20ToCLui s =
     (let offset = offset_in_section s
      in do {
        b0 \<leftarrow> get_byte (section_bytes s) offset;
        b1 \<leftarrow> get_byte (section_bytes s) (offset + 1);
        let lui_lo = (from_le_bytes [b0, b1] :: u16);
        let rd = shr lui_lo 7 AND 0x1f;
        let clui_base = (0x6001 OR shl rd 7 :: u16);
        site_copy s offset (offset + 2) (to_le_bytes 2 clui_base)
      })"
| "riscv_relax_apply RVR_Hi20Delete s = Some s"
| "riscv_relax_apply RVR_Lo12Rs1ToZero s =
     (let offset = offset_in_section s
      in do {
        window \<leftarrow> slice_from (section_bytes s) offset;
        word \<leftarrow> u32_from_slice window;
        let word = word AND NOT RS1_MASK;
        site_copy s offset (offset + 4) (to_le_bytes 4 word)
      })"

primrec riscv_next_modifier :: "riscv_relaxation \<Rightarrow> relocation_modifier" where
  "riscv_next_modifier RVR_NoOp = Normal"
| "riscv_next_modifier RVR_ReplaceWithNop = Normal"
| "riscv_next_modifier RVR_CallToJal = SkipNextRelocation"
| "riscv_next_modifier RVR_Hi20ToCLui = Normal"
| "riscv_next_modifier RVR_Hi20Delete = SkipNextRelocation"
| "riscv_next_modifier RVR_Lo12Rs1ToZero = Normal"

interpretation rv_relax: in_place_relaxation riscv_relax_apply
proof
  fix k s t
  assume "riscv_relax_apply k s = Some t"
  then have "offset_in_section t = offset_in_section s \<and> addend t = addend s
    \<and> same_outside {unat (offset_in_section s) ..< unat (offset_in_section s) + 4}
        (section_bytes s) (section_bytes t)"
    by (cases k) (auto simp: Let_def split: bind_splits dest!: site_copy_local)
  then show "offset_in_section t = offset_in_section s \<and> addend t = addend s"
    and "same_outside {unat (offset_in_section s) ..< unat (offset_in_section s) + 4}
        (section_bytes s) (section_bytes t)"
    by simp_all
qed

section \<open>What the tests decide\<close>

lemma hi20_fits_clui_iff:
  "hi20_fits_clui v \<longleftrightarrow> (let hi20 = drop_bit 12 (v + 0x800) in take_bit 5 hi20 = hi20 \<and> hi20 \<noteq> 0)"
proof -
  define h where "h = drop_bit 12 (v + 0x800)"
  have top: "\<not> bit h 63"
    using bit_word_less_length [of "v + 0x800" 75] by (auto simp: h_def bit_drop_bit_word)
  have sext: "scast (sar (shl (ucast h :: u8) 2) 2) = signed_take_bit 5 h"
  proof (rule bit_word_eqI)
    fix i assume "i < LENGTH(64)"
    then show "bit (scast (sar (shl (ucast h :: u8) 2) 2) :: u64) i = bit (signed_take_bit 5 h) i"
      by (cases "i < 5"; cases "i = 5") (auto simp: bit_simps min_def)
  qed
  have "signed_take_bit 5 h = h \<longleftrightarrow> take_bit 5 h = h"
  proof
    assume s: "signed_take_bit 5 h = h"
    then have "\<not> bit h 5"
      using top bit_signed_take_bit_word [of 5 h 63] by simp
    then have "bit h i \<Longrightarrow> i < 5" for i
      using s bit_signed_take_bit_word [of 5 h i] by (cases "i < 5") auto
    then show "take_bit 5 h = h"
      by (intro bit_word_eqI) (auto simp: bit_facts)
  next
    assume t: "take_bit 5 h = h"
    then have "bit h i \<Longrightarrow> i < 5" for i
      using bit_take_bit_word [of 5 h i] by simp
    then show "signed_take_bit 5 h = h"
      by (intro bit_word_eqI) (force simp: bit_facts min_def)
  qed
  then show ?thesis
    using sext unfolding hi20_fits_clui_def h_def by (simp add: Let_def)
qed

text \<open>The displacement of a \<open>jal\<close> is in range exactly when the 21-bit immediate represents it.\<close>

lemma distance_fits_jal_iff: "distance_fits_jal d \<longleftrightarrow> signed_take_bit 20 d = d"
  by (auto simp: distance_fits_jal_def JAL_RANGE_def signed_take_bit_word_eq_iff)

section \<open>What the rewritten instructions compute\<close>

text \<open>The value \<open>c.lui\<close> loads: its six-bit immediate, sign-extended, times 4096.\<close>

definition rv_clui_value :: "u16 \<Rightarrow> u64" where
  "rv_clui_value h = push_bit 12 (signed_take_bit 5
     (push_bit 5 (take_bit 1 (drop_bit 12 (ucast h))) OR take_bit 5 (drop_bit 2 (ucast h))))"

definition rv_rd :: "'a::len word \<Rightarrow> 'a word" where
  "rv_rd w = take_bit 5 (drop_bit 7 w)"

lemma rv_clui_value_written:
  fixes c :: u64
  assumes "take_bit 5 (drop_bit 12 c) = drop_bit 12 c"
  shows "rv_clui_value ((h AND CLUITYPE_IMMEDIATE_MASK) OR
     ucast (push_bit 2 (take_bit 5 (drop_bit 12 c)) OR push_bit 12 (take_bit 1 (drop_bit 17 c))))
     = push_bit 12 (drop_bit 12 c)"
proof -
  have hi: "\<not> bit c (12 + i)" if "5 \<le> i" for i
    using bit_take_bit_word [of 5 "drop_bit 12 c" i] that assms by (simp add: bit_drop_bit_word)
  have c17: "take_bit 1 (drop_bit 17 c) = 0"
    using hi [of 5] by (simp add: bit_iff_odd_drop_bit even_iff_mod_2_eq_zero)
  have "push_bit 5 (take_bit 1 (drop_bit 12 (ucast ((h AND CLUITYPE_IMMEDIATE_MASK) OR
      ucast (push_bit 2 (take_bit 5 (drop_bit 12 c)))) :: u64)))
      OR take_bit 5 (drop_bit 2 (ucast ((h AND CLUITYPE_IMMEDIATE_MASK) OR
      ucast (push_bit 2 (take_bit 5 (drop_bit 12 c)))))) = take_bit 5 (drop_bit 12 c)"
    unfolding keep_fields
    by (intro bit_word_eqI) (auto simp: bit_simps simp flip: bit_iff_odd_drop_bit)
  moreover have "signed_take_bit 5 (take_bit 5 (drop_bit 12 c)) = drop_bit 12 c"
  proof (rule bit_word_eqI)
    fix n assume "n < LENGTH(64)"
    then show "bit (signed_take_bit 5 (take_bit 5 (drop_bit 12 c))) n = bit (drop_bit 12 c) n"
      using hi [of n] by (cases "n < 5") (auto simp: bit_facts bit_drop_bit_word min_def)
  qed
  ultimately show ?thesis
    by (simp only: rv_clui_value_def c17 push_bit_of_0 or.right_neutral)
qed

lemma hi20_upper:
  assumes "take_bit 5 (drop_bit 12 (v + 0x800)) = drop_bit 12 (v + 0x800)"
  shows "rv_upper (rv_insn_word RV_UType v w) = push_bit 12 (drop_bit 12 (v + 0x800))"
proof -
  define c where "c = v + 0x800"
  have hi: "\<not> bit c i" if "17 \<le> i" for i
    using bit_take_bit_word [of 5 "drop_bit 12 c" "i - 12"] that assms
    by (auto simp: bit_drop_bit_word c_def)
  have "signed_take_bit 31 c = c"
    using hi by (intro bit_word_eqI) (auto simp: bit_facts min_def)
  then have "rv_upper (rv_insn_word RV_UType v w) = c - take_bit 12 c"
    unfolding c_def by (rule rv_upper_written)
  also have "\<dots> = push_bit 12 (drop_bit 12 c)"
    by (metis add_diff_cancel_left' bits_ident add.commute)
  finally show ?thesis
    by (simp only: c_def)
qed

lemma hi20_is_zero_upper: "hi20_is_zero v \<Longrightarrow> rv_upper (rv_insn_word RV_UType v w) = 0"
proof -
  define c where "c = v + 0x800"
  assume "hi20_is_zero v"
  then have "take_bit 20 (drop_bit 12 c) = 0"
    by (simp add: hi20_is_zero_def c_def and_low_mask_numerals)
  then have "rv_imm RV_UType v = 0"
    by (simp only: rv_imm.simps c_def [symmetric]) simp
  moreover have "(w AND UTYPE_IMMEDIATE_MASK) AND 0xfffff000 = 0"
    unfolding UTYPE_IMMEDIATE_MASK_def and.assoc by simp
  ultimately show ?thesis
    by (simp add: rv_upper_def rv_insn_word_def)
qed

text \<open>Deleting a \<open>lui\<close> whose upper part is zero is sound: for a value the pair can reach, the
  LO12 instruction alone, with its base register replaced by \<open>x0\<close>, already computes the value.\<close>

theorem hi20_delete_sound:
  assumes "hi20_is_zero v" "signed_take_bit 31 (v + 0x800) = v + 0x800"
    and "insn = RV_IType \<or> insn = RV_SType"
  shows "rv_lower insn (rv_insn_word insn v lo) = v"
  using rv_pair_sum [OF assms(2,3), of 0 lo] hi20_is_zero_upper [OF assms(1), of 0] by simp

theorem hi20_delete_sound_witness:
  "rv_lower RV_IType (rv_insn_word RV_IType (- 0x20) 0x00058593) = - 0x20"
proof -
  have "hi20_is_zero (- 0x20)"
    by (simp add: hi20_is_zero_def)
  moreover have "signed_take_bit 31 (- 0x20 + 0x800 :: u64) = - 0x20 + 0x800"
    by (simp add: signed_take_bit_word_eq_iff)
  ultimately show ?thesis
    using hi20_delete_sound [of "- 0x20" RV_IType "0x00058593"] by simp
qed

text \<open>The comment on \<open>hi20_fits_clui\<close> gives its range as \<open>[-32, -1] \<union> [1, 31]\<close>; the shift is
  a logical one, so the code accepts exactly 1 to 31 and never a negative upper part.\<close>

theorem hi20_fits_clui_range:
  "hi20_fits_clui v \<longleftrightarrow> 1 \<le> uint (v + 0x800) div 2 ^ 12 \<and> uint (v + 0x800) div 2 ^ 12 \<le> 31"
proof -
  let ?h = "drop_bit 12 (v + 0x800)"
  have u: "uint ?h = uint (v + 0x800) div 2 ^ 12"
    by (simp add: drop_bit_eq_div uint_div_distrib)
  have "take_bit 5 ?h = ?h \<longleftrightarrow> uint ?h \<le> 31"
    by (auto simp: take_bit_word_eq_iff)
  moreover have "?h \<noteq> 0 \<longleftrightarrow> 1 \<le> uint ?h"
  proof -
    have "uint ?h \<noteq> 0 \<longleftrightarrow> 1 \<le> uint ?h"
      using uint_nonnegative [of ?h] by linarith
    then show ?thesis
      by (simp only: word_uint_eq_iff unsigned_0)
  qed
  ultimately show ?thesis
    unfolding hi20_fits_clui_iff Let_def u by auto
qed

lemma clui_base_fields:
  fixes lui :: u16
  assumes "base = 0x6001 OR push_bit 7 (take_bit 5 (drop_bit 7 lui))"
  shows "rv_rd ((base AND CLUITYPE_IMMEDIATE_MASK) OR
      ucast (push_bit 2 (take_bit 5 (x :: u64)) OR push_bit 12 (take_bit 1 y))) = rv_rd lui"
    and "((base AND CLUITYPE_IMMEDIATE_MASK) OR
      ucast (push_bit 2 (take_bit 5 x) OR push_bit 12 (take_bit 1 y))) AND 0xe003 = 0x6001"
proof -
  have n: "(0x6001 :: u16) = mask 1 OR push_bit 13 (mask 2)" "(0xe003 :: u16) = mask 2 OR push_bit 13 (mask 3)"
    by (simp_all add: mask_eq_exp_minus_1)
  show "rv_rd ((base AND CLUITYPE_IMMEDIATE_MASK) OR
      ucast (push_bit 2 (take_bit 5 x) OR push_bit 12 (take_bit 1 y))) = rv_rd lui"
    unfolding assms n keep_fields rv_rd_def
    by (intro bit_word_eqI) (auto simp: bit_simps)
  show "((base AND CLUITYPE_IMMEDIATE_MASK) OR
      ucast (push_bit 2 (take_bit 5 x) OR push_bit 12 (take_bit 1 y))) AND 0xe003 = 0x6001"
    unfolding assms n keep_fields
    by (intro bit_word_eqI) (auto simp: bit_simps)
qed

lemma jal_base_fields:
  fixes auipc :: u32
  assumes "base = 0x6f OR push_bit 7 (take_bit 5 (drop_bit 7 auipc))"
  shows "rv_rd (rv_insn_word RV_JType v base) = rv_rd auipc"
    and "take_bit 7 (rv_insn_word RV_JType v base) = 0x6f"
proof -
  have low: "take_bit 12 (rv_insn_word RV_JType v base) = take_bit 12 base"
    using riscv_insn_word_kept [of RV_JType v base]
    by (simp add: keep_fields take_bit_eq_mask)
  have n: "(0x6f :: u32) = mask 4 OR push_bit 5 (mask 2)"
    by (simp add: mask_eq_exp_minus_1)
  have "rv_rd w = drop_bit 7 (take_bit 12 w)" for w :: u32
    by (simp add: rv_rd_def drop_bit_take_bit)
  moreover have "rv_rd base = rv_rd auipc"
    unfolding assms n rv_rd_def by (intro bit_word_eqI) (auto simp: bit_simps)
  ultimately show "rv_rd (rv_insn_word RV_JType v base) = rv_rd auipc"
    using low by metis
  have "take_bit 7 (rv_insn_word RV_JType v base) = take_bit 7 (take_bit 12 (rv_insn_word RV_JType v base))"
    by simp
  also have "\<dots> = take_bit 7 base"
    by (simp only: low) simp
  also have "\<dots> = 0x6f"
    unfolding assms n by (intro bit_word_eqI) (auto simp: bit_simps)
  finally show "take_bit 7 (rv_insn_word RV_JType v base) = 0x6f" .
qed

lemma take_bit_word_eq_same: "take_bit 16 (w :: u16) = w"
  by (rule bit_word_eqI) (simp add: bit_facts)

lemma ucast_clui_word:
  fixes base :: u16
  shows "(ucast (rv_insn_word RV_CluiType v (ucast base)) :: u16) =
    (base AND CLUITYPE_IMMEDIATE_MASK) OR
      ucast (push_bit 2 (take_bit 5 (drop_bit 12 (v + 0x800)))
        OR push_bit 12 (take_bit 1 (drop_bit 17 (v + 0x800))))"
  unfolding rv_insn_word_def rv_imm_clui rv_keep.simps unsigned_or_eq unsigned_and_eq
  by (intro bit_word_eqI) (auto simp: bit_simps simp del: One_nat_def)

lemma apply_hi20_to_clui:
  assumes "unat (offset_in_section s) = off" "off + 2 \<le> length (section_bytes s)"
    and "length (section_bytes s) < 2 ^ 64" "lui = from_le_bytes (take 2 (drop off (section_bytes s)))"
    and "base = (0x6001 :: u16) OR push_bit 7 (take_bit 5 (drop_bit 7 lui))"
  shows "riscv_relax_apply RVR_Hi20ToCLui s =
    Some (s\<lparr>section_bytes := splice off (to_le_bytes 2 base) (section_bytes s)\<rparr>)"
proof -
  have "lui = from_le_bytes [section_bytes s ! off, section_bytes s ! Suc off]"
    using assms(2,4)
    by (simp add: take_Suc_conv_app_nth numeral_2_eq_2 Cons_nth_drop_Suc [symmetric])
  then show ?thesis
    using assms unat_offset_add [of "offset_in_section s" 1 "length (section_bytes s)"]
      site_copy_at [of "offset_in_section s" "to_le_bytes 2 base" s "offset_in_section s + 2"]
    by (simp add: get_byte_def Let_def and_low_mask_numerals)
qed

lemma apply_call_to_jal:
  assumes "unat (offset_in_section s) = off" "off + 4 \<le> length (section_bytes s)"
    and "length (section_bytes s) < 2 ^ 64" "auipc = from_le_bytes (take 4 (drop off (section_bytes s)))"
    and "base = (0x6f :: u32) OR push_bit 7 (take_bit 5 (drop_bit 7 auipc))"
  shows "riscv_relax_apply RVR_CallToJal s =
    Some (s\<lparr>section_bytes := splice off (to_le_bytes 4 base) (section_bytes s)\<rparr>)"
  using assms site_copy_at [of "offset_in_section s" "to_le_bytes 4 base" s "offset_in_section s + 4"]
  by (simp add: slice_from_def u32_from_slice_def Let_def and_low_mask_numerals)

text \<open>When \<open>hi20_fits_clui\<close> holds, rewriting a \<open>lui\<close> to \<open>c.lui\<close> and then writing the immediate
  gives an instruction that is a \<open>c.lui\<close>, targets the register the \<open>lui\<close> targeted and loads the
  value the \<open>lui\<close> would have loaded.\<close>

theorem hi20_to_clui_sound:
  assumes "hi20_fits_clui v" "off = unat (offset_in_section s)" "off + 2 \<le> length (section_bytes s)"
    and "length (section_bytes s) < 2 ^ 64" "lui = from_le_bytes (take 2 (drop off (section_bytes s)))"
  shows "\<exists>t out h. riscv_relax_apply RVR_Hi20ToCLui s = Some t
    \<and> riscv_write_to_value RV_CluiType v neg (drop off (section_bytes t)) = Some out
    \<and> u16_from_slice out = Some h \<and> h AND 0xe003 = 0x6001 \<and> rv_rd h = rv_rd lui
    \<and> rv_clui_value h = rv_upper (rv_insn_word RV_UType v w)"
proof -
  define base :: u16 where "base = 0x6001 OR push_bit 7 (take_bit 5 (drop_bit 7 lui))"
  define t where "t = s\<lparr>section_bytes := splice off (to_le_bytes 2 base) (section_bytes s)\<rparr>"
  define h :: u16 where "h = ucast (rv_insn_word RV_CluiType v (ucast base))"
  have fits: "take_bit 5 (drop_bit 12 (v + 0x800)) = drop_bit 12 (v + 0x800)"
    using assms(1) by (simp add: hi20_fits_clui_iff Let_def)
  have "drop off (section_bytes t) = to_le_bytes 2 base @ drop (off + 2) (section_bytes s)"
    using assms(3) by (simp add: t_def drop_splice)
  moreover have "(from_le_bytes (to_le_bytes 2 base) :: u32) = ucast base"
    by (simp add: from_to_le_bytes take_bit_word_eq_same)
  ultimately have "riscv_write_to_value RV_CluiType v neg (drop off (section_bytes t)) =
      Some (to_le_bytes 2 (rv_insn_word RV_CluiType v (ucast base)) @ drop (off + 2) (section_bytes s))"
    by (simp add: riscv_write_word16 del: riscv_write_to_value.simps)
  moreover have "u16_from_slice (to_le_bytes 2 x @ xs) = Some (ucast x)" for x :: u32 and xs
    by (simp add: u16_from_slice_word from_to_le_bytes) (intro bit_word_eqI, simp add: bit_facts bit_simps)
  moreover have "h AND 0xe003 = 0x6001" "rv_rd h = rv_rd lui"
    unfolding h_def ucast_clui_word by (rule clui_base_fields [OF base_def])+
  moreover have "rv_clui_value h = rv_upper (rv_insn_word RV_UType v w)"
    unfolding h_def ucast_clui_word by (simp only: rv_clui_value_written [OF fits] hi20_upper [OF fits])
  moreover have "riscv_relax_apply RVR_Hi20ToCLui s = Some t"
    unfolding t_def using assms(2-5) base_def by (intro apply_hi20_to_clui) simp_all
  ultimately show ?thesis
    unfolding h_def by blast
qed

theorem hi20_to_clui_sound_witness:
  "\<exists>t out h. riscv_relax_apply RVR_Hi20ToCLui
      \<lparr>section_bytes = [0x37, 0x05, 0, 0], offset_in_section = 0, addend = 0\<rparr> = Some t
    \<and> riscv_write_to_value RV_CluiType 0x11234 False (drop 0 (section_bytes t)) = Some out
    \<and> u16_from_slice out = Some h \<and> h AND 0xe003 = 0x6001 \<and> rv_rd h = rv_rd 0x0537
    \<and> rv_clui_value h = rv_upper (rv_insn_word RV_UType 0x11234 0x00000537)"
proof -
  have "hi20_fits_clui 0x11234"
    by (simp add: hi20_fits_clui_iff)
  moreover have "0x0537 = (from_le_bytes (take 2 (drop 0 [0x37, 0x05, 0, 0])) :: u16)"
    by simp
  ultimately show ?thesis
    using hi20_to_clui_sound [of "0x11234" 0 "\<lparr>section_bytes = [0x37, 0x05, 0, 0], offset_in_section = 0, addend = 0\<rparr>"
      "0x0537" False "0x00000537"] by simp
qed



end
