(* ===== verification/Aarch64_Relax.thy ===== *)
theory Aarch64_Relax
  imports Aarch64_Insn Relax_Types
begin

text \<open>
  The AArch64 relaxations of \<open>linker-utils/src/aarch64.rs\<close>: the rewrites of \<open>RelaxationKind::apply\<close>
  replace one instruction by another that takes a cheaper relocation. The lemmas show that a rewrite
  stays inside its four bytes, that the ones which read the old instruction keep its destination
  register, and that the TLS pair \<open>movz\<close>, \<open>movk\<close> they prepare loads the offset once its two
  relocations are written.
\<close>

section \<open>Rewrites\<close>

datatype aarch64_relaxation =
    AR_NoOp | AR_ReplaceWithNop | AR_MovzX0Lsl16 | AR_MovkX0 | AR_MovzXnLsl16 | AR_MovkXn
  | AR_AdrpToAdr | AR_AdrpX0 | AR_LdrX0 | AR_AddToAdr | AR_LdrToAdr

text \<open>\<open>section_bytes[offset + 3] &= !m\<close>\<close>

definition clear_top_byte :: "relax_site \<Rightarrow> u8 \<Rightarrow> relax_site option" where
  "clear_top_byte s m = do {
     b \<leftarrow> get_byte (section_bytes s) (offset_in_section s + 3);
     site_set s (offset_in_section s + 3) (b AND NOT m)
   }"

primrec aarch64_relax_apply :: "aarch64_relaxation \<Rightarrow> relax_site \<Rightarrow> relax_site option" where
  "aarch64_relax_apply AR_NoOp s = Some s"
| "aarch64_relax_apply AR_ReplaceWithNop s =
     site_copy s (offset_in_section s) (offset_in_section s + 4) [0x1f, 0x20, 0x03, 0xd5]"
| "aarch64_relax_apply AR_MovzX0Lsl16 s =
     site_copy s (offset_in_section s) (offset_in_section s + 4) [0x0, 0x0, 0xa0, 0xd2]"
| "aarch64_relax_apply AR_MovkX0 s =
     site_copy s (offset_in_section s) (offset_in_section s + 4) [0x0, 0x0, 0x80, 0xf2]"
| "aarch64_relax_apply AR_MovzXnLsl16 s =
     (let offset = offset_in_section s
      in do {
        window \<leftarrow> slice (section_bytes s) offset (offset + 4);
        raw \<leftarrow> u32_from_slice window;
        let reg = (ucast (extract_bit_range (ucast raw) 0 5) :: u8);
        site_copy s offset (offset + 4) [reg, 0x0, 0xa0, 0xd2]
      })"
| "aarch64_relax_apply AR_MovkXn s =
     (let offset = offset_in_section s
      in do {
        window \<leftarrow> slice (section_bytes s) offset (offset + 4);
        raw \<leftarrow> u32_from_slice window;
        let dst_reg = (ucast (extract_bit_range (ucast raw) 0 5) :: u8);
        site_copy s offset (offset + 4) [dst_reg, 0x0, 0x80, 0xf2]
      })"
| "aarch64_relax_apply AR_AdrpToAdr s = clear_top_byte s 0x80"
| "aarch64_relax_apply AR_AdrpX0 s =
     site_copy s (offset_in_section s) (offset_in_section s + 4) [0x0, 0x0, 0x0, 0x90]"
| "aarch64_relax_apply AR_LdrX0 s =
     site_copy s (offset_in_section s) (offset_in_section s + 4) [0x0, 0x0, 0x40, 0xf9]"
| "aarch64_relax_apply AR_AddToAdr s = clear_top_byte s 0x89"
| "aarch64_relax_apply AR_LdrToAdr s = clear_top_byte s 0x89"

definition aarch64_next_modifier :: "aarch64_relaxation \<Rightarrow> relocation_modifier" where
  "aarch64_next_modifier k = Normal"

section \<open>A rewrite stays inside its instruction\<close>

lemma clear_top_byte_local:
  assumes "clear_top_byte s m = Some t" "in_section s"
  shows "offset_in_section t = offset_in_section s \<and> addend t = addend s
    \<and> same_outside {unat (offset_in_section s) ..< unat (offset_in_section s) + 4}
        (section_bytes s) (section_bytes t)"
proof -
  obtain b where set: "site_set s (offset_in_section s + 3) b = Some t"
    using assms(1) by (auto simp: clear_top_byte_def split: bind_splits)
  have "unat (offset_in_section s + of_nat 3) = unat (offset_in_section s) + 3"
    using assms(2) by (intro unat_offset_add [where n = "2 ^ 63 + 3"]) (auto simp: in_section_def)
  with site_set_SomeD [OF set] show ?thesis
    using set_byte_same_outside by simp
qed

interpretation a64_relax: in_place_relaxation aarch64_relax_apply
proof
  fix k s t
  assume t: "aarch64_relax_apply k s = Some t"
  then show "offset_in_section t = offset_in_section s \<and> addend t = addend s"
    by (cases k)
      (auto simp: Let_def clear_top_byte_def split: bind_splits dest!: site_copy_local dest: site_set_SomeD)
  assume "in_section s"
  with t show "same_outside {unat (offset_in_section s) ..< unat (offset_in_section s) + 4}
      (section_bytes s) (section_bytes t)"
    by (cases k) (auto simp: Let_def split: bind_splits dest!: site_copy_local clear_top_byte_local)
qed

section \<open>Registers and immediates\<close>

text \<open>The destination register of an instruction and the immediate and shift of a wide move.\<close>

definition a64_rd :: "u32 \<Rightarrow> u32" where "a64_rd w = take_bit 5 w"
definition a64_imm16 :: "u32 \<Rightarrow> u32" where "a64_imm16 w = take_bit 16 (drop_bit 5 w)"

lemma to_le_bytes_from_4: "to_le_bytes 4 (from_le_bytes [a, b, c, d] :: u32) = [a, b, c, d]"
proof -
  have "length [a, b, c, d] = 4"
    by simp
  with to_from_le_bytes [of "[a, b, c, d]", where ?'a = 32] show ?thesis
    by (simp del: from_le_bytes.simps list.size)
qed

lemma apply_mov_xn:
  assumes "off = unat (offset_in_section s)" "off + 4 \<le> length (section_bytes s)"
    and "length (section_bytes s) < 2 ^ 64" "old = from_le_bytes (take 4 (drop off (section_bytes s)))"
    and "k = AR_MovzXnLsl16 \<and> base = 0xd2a00000 \<or> k = AR_MovkXn \<and> base = 0xf2800000"
  shows "aarch64_relax_apply k s = Some (s\<lparr>section_bytes :=
    splice off (to_le_bytes 4 (base OR a64_rd old)) (section_bytes s)\<rparr>)"
proof -
  let ?reg = "ucast (take_bit 5 old) :: u8"
  have cast: "(ucast (take_bit 5 (ucast w :: u64)) :: u8) = ucast (take_bit 5 w)" for w :: u32
    by (intro bit_word_eqI) (auto simp: bit_simps)
  have end': "unat (offset_in_section s + 4) = off + 4"
    using unat_offset_add [of "offset_in_section s" 4 "length (section_bytes s)"] assms(1-3) by simp
  have "to_le_bytes 4 (0xd2a00000 OR take_bit 5 old) = [?reg, 0x0, 0xa0, 0xd2]"
    "to_le_bytes 4 (0xf2800000 OR take_bit 5 old) = [?reg, 0x0, 0x80, 0xf2]"
  proof -
    have reg: "ucast ?reg = take_bit 5 old"
      by (intro bit_word_eqI) (auto simp: bit_simps)
    have "0xd2a00000 OR take_bit 5 old = from_le_bytes [?reg, 0x0, 0xa0, 0xd2]"
      "0xf2800000 OR take_bit 5 old = from_le_bytes [?reg, 0x0, 0x80, 0xf2]"
      by (simp_all add: reg or.commute)
    then show "to_le_bytes 4 (0xd2a00000 OR take_bit 5 old) = [?reg, 0x0, 0xa0, 0xd2]"
      "to_le_bytes 4 (0xf2800000 OR take_bit 5 old) = [?reg, 0x0, 0x80, 0xf2]"
      by (simp_all only: to_le_bytes_from_4)
  qed
  then show ?thesis
    using assms end' site_copy_at [of "offset_in_section s" _ s "offset_in_section s + 4"]
    by (auto simp: Let_def slice_def u32_from_slice_def extract_bit_range_eq a64_rd_def cast)
qed

lemma mov_word_fields:
  fixes rd base :: u32 and v :: u64
  assumes "base = 0xd2a00000 \<or> base = 0xf2800000"
  shows "a64_rd (a64_insn_word A64_Movkz (take_bit 16 v) neg (base OR a64_rd old)) = a64_rd old"
    and "a64_imm16 (a64_insn_word A64_Movkz (take_bit 16 v) neg (base OR a64_rd old)) = ucast (take_bit 16 v)"
    and "drop_bit 21 (a64_insn_word A64_Movkz (take_bit 16 v) neg (base OR a64_rd old)) = drop_bit 21 base"
proof -
  obtain hi :: u32 where base: "base = push_bit 21 hi"
  proof
    show "base = push_bit 21 (if base = 0xd2a00000 then 0x695 else 0x794)"
      using assms by auto
  qed
  show "a64_rd (a64_insn_word A64_Movkz (take_bit 16 v) neg (base OR a64_rd old)) = a64_rd old"
    "a64_imm16 (a64_insn_word A64_Movkz (take_bit 16 v) neg (base OR a64_rd old)) = ucast (take_bit 16 v)"
    "drop_bit 21 (a64_insn_word A64_Movkz (take_bit 16 v) neg (base OR a64_rd old)) = drop_bit 21 base"
    unfolding base a64_rd_def a64_imm16_def
    by (auto intro!: bit_word_eqI simp: bit_simps)
qed

text \<open>Relaxing a TLS access to local exec loads the thread-pointer offset. The rewrite turns the
  instruction into \<open>movz xN, #0, lsl #16\<close> or \<open>movk xN, #0\<close> for the register \<open>N\<close> it wrote before, and the
  relocation that follows puts sixteen bits of the value into its immediate: the register and the
  opcode stay, the immediate is the value's.\<close>

theorem aarch64_tls_move_relaxation:
  assumes "off = unat (offset_in_section s)" "off + 4 \<le> length (section_bytes s)"
    and "length (section_bytes s) < 2 ^ 64" "old = from_le_bytes (take 4 (drop off (section_bytes s)))"
    and "k = AR_MovzXnLsl16 \<and> base = 0xd2a00000 \<or> k = AR_MovkXn \<and> base = 0xf2800000"
  shows "\<exists>t out w. aarch64_relax_apply k s = Some t
    \<and> aarch64_write_to_value A64_Movkz (take_bit 16 v) neg (drop off (section_bytes t)) = Some out
    \<and> u32_from_slice out = Some w
    \<and> a64_rd w = a64_rd old \<and> a64_imm16 w = ucast (take_bit 16 v) \<and> drop_bit 21 w = drop_bit 21 base"
proof -
  let ?base = "base OR a64_rd old"
  let ?t = "s\<lparr>section_bytes := splice off (to_le_bytes 4 ?base) (section_bytes s)\<rparr>"
  have "drop off (section_bytes ?t) = to_le_bytes 4 ?base @ drop (off + 4) (section_bytes s)"
    using assms(2) by (simp add: drop_splice)
  then have "aarch64_write_to_value A64_Movkz (take_bit 16 v) neg (drop off (section_bytes ?t)) =
      Some (to_le_bytes 4 (a64_insn_word A64_Movkz (take_bit 16 v) neg ?base) @ drop (off + 4) (section_bytes s))"
    by (simp add: aarch64_write_word del: a64_insn_word.simps)
  then show ?thesis
    using apply_mov_xn [OF assms] mov_word_fields [of base v neg old] assms(5)
    by (auto simp: u32_from_slice_def simp del: a64_insn_word.simps aarch64_relax_apply.simps)
qed

theorem aarch64_tls_move_relaxation_witness:
  "\<exists>t out w. aarch64_relax_apply AR_MovzXnLsl16
      \<lparr>section_bytes = [0x03, 0, 0, 0x90], offset_in_section = 0, addend = 0\<rparr> = Some t
    \<and> aarch64_write_to_value A64_Movkz (take_bit 16 0x1234) False (drop 0 (section_bytes t)) = Some out
    \<and> u32_from_slice out = Some w
    \<and> a64_rd w = a64_rd 0x90000003 \<and> a64_imm16 w = 0x1234 \<and> drop_bit 21 w = 0x695"
  using aarch64_tls_move_relaxation [of 0
      "\<lparr>section_bytes = [0x03, 0, 0, 0x90], offset_in_section = 0, addend = 0\<rparr>"
      "0x90000003" AR_MovzXnLsl16 "0xd2a00000" "0x1234" False]
  by simp

end
