(* ===== verification/X86_Relax.thy ===== *)
theory X86_Relax
  imports Relax_Types
begin

text \<open>
  The x86-64 relaxations of \<open>linker-utils/src/x86_64.rs\<close>: \<open>RelaxationKind::apply\<close> rewrites the
  instruction around a relocation in place, moves the relocation when the new instruction keeps its
  operand elsewhere and clears the addend when the operand is no longer PC-relative. The lemmas show
  which bytes a rewrite may touch, where the relocation ends up, and that the register an instruction
  wrote is the register its replacement writes.
\<close>

section \<open>Kinds\<close>

datatype x86_relaxation =
    XR_MovIndirectToLea
  | XR_MovIndirectToAbsolute
  | XR_RexMovIndirectToAbsolute u8
  | XR_RexAddIndirectToAbsolute u8
  | XR_RexSubIndirectToAbsolute u8
  | XR_RexCmpIndirectToAbsolute u8
  | XR_CallIndirectToRelative
  | XR_JmpIndirectToRelative
  | XR_NoOp
  | XR_TlsGdToLocalExec
  | XR_TlsGdToLocalExecLarge
  | XR_TlsLdToLocalExec
  | XR_TlsLdToLocalExecNoPlt
  | XR_TlsLdToLocalExec64
  | XR_TlsGdToInitialExec
  | XR_TlsDescToLocalExec u8
  | XR_TlsDescToInitialExec
  | XR_SkipTlsDescCall

section \<open>Rewrites\<close>

text \<open>\<open>*mod_rm = (*mod_rm >> 3) & 0x7 | ext\<close> on the byte before the relocation.\<close>

definition rewrite_mod_rm :: "relax_site \<Rightarrow> u64 \<Rightarrow> u8 \<Rightarrow> relax_site option" where
  "rewrite_mod_rm s i ext = do {
     mod_rm \<leftarrow> get_byte (section_bytes s) i;
     site_set s i (shr mod_rm 3 AND 0x7 OR ext)
   }"

text \<open>Moving REX.R (and, for the two-byte prefix, REX2.R4) to the bit of the other operand.\<close>

definition rewrite_rex :: "relax_site \<Rightarrow> u64 \<Rightarrow> u8 \<Rightarrow> u8 \<Rightarrow> relax_site option" where
  "rewrite_rex s i rex inst_offset =
     (if inst_offset = 3 then site_set s i ((rex AND NOT 4) OR shr (rex AND 4) 2)
      else if inst_offset = 4 then site_set s i ((rex AND NOT 0x44) OR shr (rex AND 0x44) 2)
      else Some s)"

text \<open>The common shape of the \<open>Rex*IndirectToAbsolute\<close> arms.\<close>

definition rex_to_absolute :: "relax_site \<Rightarrow> u8 \<Rightarrow> u8 \<Rightarrow> u8 \<Rightarrow> relax_site option" where
  "rex_to_absolute s inst_offset opcode ext =
     (let offset = offset_in_section s
      in do {
        rex \<leftarrow> get_byte (section_bytes s) (offset - 3);
        s \<leftarrow> rewrite_rex s (offset - 3) rex inst_offset;
        s \<leftarrow> site_set s (offset - 2) opcode;
        s \<leftarrow> rewrite_mod_rm s (offset - 1) ext;
        Some (s\<lparr>addend := 0\<rparr>)
      })"

text \<open>The \<open>inst_offset == 6\<close> case of the add: an EVEX prefix byte.\<close>

definition rewrite_evex :: "u8 \<Rightarrow> u8" where
  "rewrite_evex l5 =
     (let l5 = (if l5 AND shl 1 7 = 0 then (l5 OR shl 1 7) AND NOT (shl 1 5) else l5)
      in if l5 AND shl 1 4 = 0 then l5 OR shl 1 4 OR shl 1 3 else l5)"

definition rex_add_to_absolute :: "relax_site \<Rightarrow> u8 \<Rightarrow> relax_site option" where
  "rex_add_to_absolute s inst_offset =
     (let offset = offset_in_section s
      in do {
        s \<leftarrow> (if inst_offset = 3 \<or> inst_offset = 4 then do {
               rex \<leftarrow> get_byte (section_bytes s) (offset - 3);
               rewrite_rex s (offset - 3) rex inst_offset
             } else if inst_offset = 6 then do {
               l5 \<leftarrow> get_byte (section_bytes s) (offset - 5);
               site_set s (offset - 5) (rewrite_evex l5)
             } else Some s);
        s \<leftarrow> site_set s (offset - 2) 0x81;
        s \<leftarrow> rewrite_mod_rm s (offset - 1) 0xc0;
        Some (s\<lparr>addend := 0\<rparr>)
      })"

definition tlsdesc_to_local_exec :: "relax_site \<Rightarrow> u8 \<Rightarrow> relax_site option" where
  "tlsdesc_to_local_exec s inst_offset =
     (let offset = offset_in_section s
      in do {
        rex \<leftarrow> get_byte (section_bytes s) (offset - 3);
        modrm \<leftarrow> get_byte (section_bytes s) (offset - 1);
        let rex_r = shr rex 2 AND 1;
        let reg = shr modrm 3 AND 0x7;
        if inst_offset = 3 \<or> inst_offset = 4 then do {
          let rex = (if inst_offset = 3 then (if rex_r = 0 then 0x48 else 0x49)
                     else (if rex_r = 0 then 0x18 else 0x19));
          s \<leftarrow> site_copy s (offset - 3) (offset + 4) [rex, 0xc7, 0xc0 OR reg, 0, 0, 0, 0];
          Some (s\<lparr>addend := 0\<rparr>)
        } else Some s
      })"

definition tlsdesc_to_initial_exec :: "relax_site \<Rightarrow> relax_site option" where
  "tlsdesc_to_initial_exec s =
     (let offset = offset_in_section s
      in do {
        rex \<leftarrow> get_byte (section_bytes s) (offset - 3);
        modrm \<leftarrow> get_byte (section_bytes s) (offset - 1);
        let rex_r = shr rex 2 AND 1;
        let reg = shr modrm 3 AND 0x7;
        let rex = (if rex_r = 0 then 0x48 else 0x4c);
        site_copy s (offset - 3) (offset + 4) [rex, 0x8b, 0x05 OR shl reg 3, 0, 0, 0, 0]
      })"

primrec x86_relax_apply :: "x86_relaxation \<Rightarrow> relax_site \<Rightarrow> relax_site option" where
  "x86_relax_apply XR_MovIndirectToLea s = site_set s (offset_in_section s - 2) 0x8d"
| "x86_relax_apply XR_MovIndirectToAbsolute s = do {
     let offset = offset_in_section s;
     s \<leftarrow> site_set s (offset - 2) 0xc7;
     s \<leftarrow> rewrite_mod_rm s (offset - 1) 0xc0;
     Some (s\<lparr>addend := 0\<rparr>)
   }"
| "x86_relax_apply (XR_RexMovIndirectToAbsolute inst_offset) s = rex_to_absolute s inst_offset 0xc7 0xc0"
| "x86_relax_apply (XR_RexAddIndirectToAbsolute inst_offset) s = rex_add_to_absolute s inst_offset"
| "x86_relax_apply (XR_RexSubIndirectToAbsolute inst_offset) s = rex_to_absolute s inst_offset 0x81 0xe8"
| "x86_relax_apply (XR_RexCmpIndirectToAbsolute inst_offset) s = rex_to_absolute s inst_offset 0x81 0xf8"
| "x86_relax_apply XR_CallIndirectToRelative s =
     site_copy s (offset_in_section s - 2) (offset_in_section s) [0x67, 0xe8]"
| "x86_relax_apply XR_JmpIndirectToRelative s = do {
     let offset = offset_in_section s;
     s \<leftarrow> site_copy s (offset - 2) (offset + 4) [0xe9, 0, 0, 0, 0, 0x90];
     Some (s\<lparr>offset_in_section := offset - 1\<rparr>)
   }"
| "x86_relax_apply XR_NoOp s = Some s"
| "x86_relax_apply XR_TlsGdToLocalExec s = do {
     let offset = offset_in_section s;
     s \<leftarrow> site_copy s (offset - 4) (offset + 8)
       [0x64, 0x48, 0x8b, 0x04, 0x25, 0, 0, 0, 0, 0x48, 0x8d, 0x80];
     Some (s\<lparr>offset_in_section := offset + 8, addend := 0\<rparr>)
   }"
| "x86_relax_apply XR_TlsGdToLocalExecLarge s = do {
     let offset = offset_in_section s;
     s \<leftarrow> site_copy s (offset - 3) (offset + 19)
       [0x64, 0x48, 0x8b, 0x04, 0x25, 0, 0, 0, 0,
        0x48, 0x8d, 0x80, 0, 0, 0, 0,
        0x66, 0x0f, 0x1f, 0x44, 0, 0];
     Some (s\<lparr>offset_in_section := offset + 9, addend := 0\<rparr>)
   }"
| "x86_relax_apply XR_TlsLdToLocalExec s = do {
     let offset = offset_in_section s;
     s \<leftarrow> site_copy s (offset - 3) (offset + 9)
       [0x66, 0x66, 0x66, 0x64, 0x48, 0x8b, 0x04, 0x25, 0, 0, 0, 0];
     Some (s\<lparr>offset_in_section := offset + 5\<rparr>)
   }"
| "x86_relax_apply XR_TlsLdToLocalExecNoPlt s = do {
     let offset = offset_in_section s;
     s \<leftarrow> site_copy s (offset - 3) (offset + 10)
       [0x66, 0x66, 0x66, 0x66, 0x64, 0x48, 0x8b, 0x04, 0x25, 0, 0, 0, 0];
     Some (s\<lparr>offset_in_section := offset + 5\<rparr>)
   }"
| "x86_relax_apply XR_TlsLdToLocalExec64 s = do {
     let offset = offset_in_section s;
     s \<leftarrow> site_copy s (offset - 3) (offset + 19)
       [0x66, 0x66, 0x66, 0x66, 0x2e, 0x0f, 0x1f, 0x84, 0, 0, 0, 0, 0,
        0x64, 0x48, 0x8b, 0x04, 0x25, 0, 0, 0, 0];
     Some (s\<lparr>offset_in_section := offset + 15\<rparr>)
   }"
| "x86_relax_apply XR_TlsGdToInitialExec s = do {
     let offset = offset_in_section s;
     s \<leftarrow> site_copy s (offset - 4) (offset + 8)
       [0x64, 0x48, 0x8b, 0x04, 0x25, 0, 0, 0, 0, 0x48, 0x03, 0x05];
     Some (s\<lparr>offset_in_section := offset + 8\<rparr>)
   }"
| "x86_relax_apply (XR_TlsDescToLocalExec inst_offset) s = tlsdesc_to_local_exec s inst_offset"
| "x86_relax_apply XR_TlsDescToInitialExec s = tlsdesc_to_initial_exec s"
| "x86_relax_apply XR_SkipTlsDescCall s =
     site_copy s (offset_in_section s) (offset_in_section s + 2) [0x66, 0x90]"

definition x86_next_modifier :: "x86_relaxation \<Rightarrow> relocation_modifier" where
  "x86_next_modifier k =
     (case k of
        XR_TlsGdToInitialExec \<Rightarrow> SkipNextRelocation
      | XR_TlsGdToLocalExec \<Rightarrow> SkipNextRelocation
      | XR_TlsGdToLocalExecLarge \<Rightarrow> SkipNextRelocation
      | XR_TlsLdToLocalExec \<Rightarrow> SkipNextRelocation
      | XR_TlsLdToLocalExecNoPlt \<Rightarrow> SkipNextRelocation
      | XR_TlsLdToLocalExec64 \<Rightarrow> SkipNextRelocation
      | _ \<Rightarrow> Normal)"

section \<open>Indices around the relocation\<close>

text \<open>A slice is at most \<open>isize::MAX\<close> bytes long, so an index below the start of the section, which
  wraps, is never in range.\<close>

lemma unat_sub_index:
  fixes off :: u64
  assumes "unat (off - of_nat k) < n" "n \<le> 2 ^ 63" "k < 2 ^ 62"
  shows "k \<le> unat off \<and> unat (off - of_nat k) = unat off - k"
proof -
  have k: "unat (of_nat k :: u64) = k"
    using assms(3) by (simp add: unat_of_nat)
  show ?thesis
  proof (cases "k \<le> unat off")
    case True
    then show ?thesis
      using k by (simp add: unat_sub word_le_nat_alt)
  next
    case False
    then have "unat (off - of_nat k) = unat off + 2 ^ 64 - k"
      using k by (simp add: unat_sub_if')
    with assms show ?thesis by simp
  qed
qed

lemma site_set_before:
  assumes "site_set s (offset_in_section s - of_nat k) b = Some t"
    and "length (section_bytes s) < 2 ^ 63" "k < 2 ^ 62"
  shows "k \<le> unat (offset_in_section s) \<and> unat (offset_in_section s) - k < length (section_bytes s)
    \<and> t = s\<lparr>section_bytes := (section_bytes s)[unat (offset_in_section s) - k := b]\<rparr>"
  using assms unat_sub_index [of "offset_in_section s" k "length (section_bytes s)"]
  by (auto simp: site_set_def set_byte_def split: if_splits bind_splits)

lemma get_byte_before:
  assumes "get_byte xs (off - of_nat k) = Some b" "length xs < 2 ^ 63" "k < 2 ^ 62"
  shows "k \<le> unat off \<and> unat off - k < length xs \<and> b = xs ! (unat off - k)"
  using assms unat_sub_index [of off k "length xs"]
  by (auto simp: get_byte_def split: if_splits)

lemma site_copy_around:
  assumes "site_copy s (offset_in_section s - of_nat before) (offset_in_section s + of_nat after) bs = Some t"
    and "length bs = before + after" "length (section_bytes s) < 2 ^ 63" "before < 2 ^ 62"
  shows "before \<le> unat (offset_in_section s)
    \<and> unat (offset_in_section s) + after \<le> length (section_bytes s)
    \<and> t = s\<lparr>section_bytes := splice (unat (offset_in_section s) - before) bs (section_bytes s)\<rparr>"
proof -
  let ?off = "offset_in_section s" and ?n = "length (section_bytes s)"
  let ?lo = "?off - of_nat before" and ?hi = "?off + of_nat after"
  have copy: "unat ?lo \<le> unat ?hi" "unat ?hi \<le> ?n" "before + after = unat ?hi - unat ?lo"
    and t: "t = s\<lparr>section_bytes := splice (unat ?lo) bs (section_bytes s)\<rparr>"
    using assms(1,2) by (auto simp: site_copy_def copy_from_slice_def split: if_splits bind_splits)
  have "unat ?lo < 2 ^ 63"
    using copy assms(3) by simp
  then have "before \<le> unat ?off \<and> unat ?lo = unat ?off - before"
    using unat_sub_index [of ?off before "2 ^ 63"] assms(4) by simp
  with copy t show ?thesis
    by auto
qed

section \<open>What a rewrite may touch\<close>

text \<open>The bytes before and after the relocation that a kind rewrites, and where the relocation moves.\<close>

fun x86_reach :: "x86_relaxation \<Rightarrow> nat \<times> nat" where
  "x86_reach XR_MovIndirectToLea = (2, 0)"
| "x86_reach XR_MovIndirectToAbsolute = (2, 0)"
| "x86_reach (XR_RexMovIndirectToAbsolute _) = (3, 0)"
| "x86_reach (XR_RexAddIndirectToAbsolute _) = (5, 0)"
| "x86_reach (XR_RexSubIndirectToAbsolute _) = (3, 0)"
| "x86_reach (XR_RexCmpIndirectToAbsolute _) = (3, 0)"
| "x86_reach XR_CallIndirectToRelative = (2, 0)"
| "x86_reach XR_JmpIndirectToRelative = (2, 4)"
| "x86_reach XR_NoOp = (0, 0)"
| "x86_reach XR_TlsGdToLocalExec = (4, 8)"
| "x86_reach XR_TlsGdToLocalExecLarge = (3, 19)"
| "x86_reach XR_TlsLdToLocalExec = (3, 9)"
| "x86_reach XR_TlsLdToLocalExecNoPlt = (3, 10)"
| "x86_reach XR_TlsLdToLocalExec64 = (3, 19)"
| "x86_reach XR_TlsGdToInitialExec = (4, 8)"
| "x86_reach (XR_TlsDescToLocalExec _) = (3, 4)"
| "x86_reach XR_TlsDescToInitialExec = (3, 4)"
| "x86_reach XR_SkipTlsDescCall = (0, 2)"

definition x86_touched :: "u64 \<Rightarrow> nat \<times> nat \<Rightarrow> nat set" where
  "x86_touched off reach = {unat off - fst reach ..< unat off + snd reach}"

text \<open>One relation carries the frame through the rewrites: same bytes outside, same offset.\<close>

definition rewritten :: "nat \<times> nat \<Rightarrow> relax_site \<Rightarrow> relax_site \<Rightarrow> bool" where
  "rewritten reach s t \<longleftrightarrow> offset_in_section t = offset_in_section s
     \<and> same_outside (x86_touched (offset_in_section s) reach) (section_bytes s) (section_bytes t)"

lemma rewritten_refl [simp]: "rewritten reach s s"
  by (simp add: rewritten_def)

lemma rewritten_trans: "rewritten reach s t \<Longrightarrow> rewritten reach t u \<Longrightarrow> rewritten reach s u"
  using same_outside_trans by (auto simp: rewritten_def)

lemma rewritten_addend [simp]:
  "rewritten reach s (t\<lparr>addend := a\<rparr>) = rewritten reach s t"
  by (simp add: rewritten_def)

lemma rewritten_length: "rewritten reach s t \<Longrightarrow> length (section_bytes t) = length (section_bytes s)"
  by (auto simp: rewritten_def dest: same_outside_length)

lemma rewritten_set:
  assumes "site_set s (offset_in_section s - of_nat k) b = Some t" "length (section_bytes s) < 2 ^ 63"
    and "0 < k" "k \<le> fst reach" "k < 2 ^ 62"
  shows "rewritten reach s t"
  using site_set_before [OF assms(1,2,5)] assms(3,4)
  by (auto simp: rewritten_def same_outside_def x86_touched_def nth_list_update)

lemma rewritten_copy:
  assumes "site_copy s (offset_in_section s - of_nat before) (offset_in_section s + of_nat after) bs = Some t"
    and "length bs = before + after" "length (section_bytes s) < 2 ^ 63" "before < 2 ^ 62"
    and "before \<le> fst reach" "after \<le> snd reach"
  shows "rewritten reach s t"
  using site_copy_around [OF assms(1-4)] assms(2,5,6)
  by (auto simp: rewritten_def same_outside_def x86_touched_def nth_splice)

lemma rewritten_mod_rm:
  assumes "rewrite_mod_rm s (offset_in_section s - of_nat k) ext = Some t"
    and "length (section_bytes s) < 2 ^ 63" "0 < k" "k \<le> fst reach" "k < 2 ^ 62"
  shows "rewritten reach s t"
  using assms by (auto simp: rewrite_mod_rm_def split: bind_splits intro: rewritten_set)

lemma rewritten_rex:
  assumes "rewrite_rex s (offset_in_section s - of_nat k) rex n = Some t"
    and "length (section_bytes s) < 2 ^ 63" "0 < k" "k \<le> fst reach" "k < 2 ^ 62"
  shows "rewritten reach s t"
  using assms by (auto simp: rewrite_rex_def split: if_splits intro: rewritten_set)

text \<open>A rewrite of the opcode and the ModRM byte, after the rewrite of a prefix.\<close>

lemma rewritten_opcode_mod_rm:
  assumes "rewritten reach s s1" "length (section_bytes s) < 2 ^ 63" "2 \<le> fst reach"
    and "site_set s1 (offset_in_section s - 2) opcode = Some s2"
    and "rewrite_mod_rm s2 (offset_in_section s - 1) ext = Some s3"
  shows "rewritten reach s s3"
proof -
  have off: "offset_in_section s1 = offset_in_section s" and len: "length (section_bytes s1) < 2 ^ 63"
    using assms(1,2) rewritten_length [OF assms(1)] by (auto simp: rewritten_def)
  have 2: "rewritten reach s1 s2"
    using rewritten_set [of s1 2 opcode s2 reach] assms(3,4) off len by simp
  then have "offset_in_section s2 = offset_in_section s" "length (section_bytes s2) < 2 ^ 63"
    using off len rewritten_length [OF 2] by (auto simp: rewritten_def)
  then have "rewritten reach s2 s3"
    using rewritten_mod_rm [of s2 1 ext s3 reach] assms(3,5) by simp
  with assms(1) 2 show ?thesis
    using rewritten_trans by blast
qed

lemma rewritten_rex_to_absolute:
  assumes "rex_to_absolute s n opcode ext = Some t" "length (section_bytes s) < 2 ^ 63" "3 \<le> fst reach"
  shows "rewritten reach s t"
proof -
  obtain rex s1 s2 s3 where "rewrite_rex s (offset_in_section s - 3) rex n = Some s1"
    and "site_set s1 (offset_in_section s - 2) opcode = Some s2"
    and "rewrite_mod_rm s2 (offset_in_section s - 1) ext = Some s3" "t = s3\<lparr>addend := 0\<rparr>"
    using assms(1) by (auto simp: rex_to_absolute_def Let_def split: bind_splits)
  then show ?thesis
    using assms(2,3) rewritten_rex [of s 3 rex n s1 reach] rewritten_opcode_mod_rm by simp
qed

lemma rewritten_rex_add:
  assumes "rex_add_to_absolute s n = Some t" "length (section_bytes s) < 2 ^ 63" "5 \<le> fst reach"
  shows "rewritten reach s t"
proof -
  let ?off = "offset_in_section s"
  obtain s1 s2 s3 where 1: "(if n = 3 \<or> n = 4 then
          get_byte (section_bytes s) (?off - 3) \<bind> (\<lambda>rex. rewrite_rex s (?off - 3) rex n)
        else if n = 6 then
          get_byte (section_bytes s) (?off - 5) \<bind> (\<lambda>l5. site_set s (?off - 5) (rewrite_evex l5))
        else Some s) = Some s1"
    and "site_set s1 (?off - 2) 0x81 = Some s2" "rewrite_mod_rm s2 (?off - 1) 0xc0 = Some s3"
    and "t = s3\<lparr>addend := 0\<rparr>"
    using assms(1) by (auto simp: rex_add_to_absolute_def Let_def split: bind_splits)
  moreover have "rewritten reach s s1"
    using 1 assms(2,3) rewritten_rex [of s 3 _ n s1 reach] rewritten_set [of s 5 _ s1 reach]
    by (auto split: if_splits bind_splits)
  ultimately show ?thesis
    using assms(2,3) rewritten_opcode_mod_rm by simp
qed

lemma rewritten_tlsdesc:
  assumes "tlsdesc_to_local_exec s n = Some t \<or> tlsdesc_to_initial_exec s = Some t"
    and "length (section_bytes s) < 2 ^ 63"
  shows "rewritten (3, 4) s t"
  using assms rewritten_copy [of s 3 4 _ _ "(3, 4)"]
  by (auto simp: tlsdesc_to_local_exec_def tlsdesc_to_initial_exec_def Let_def
    split: bind_splits if_splits)

text \<open>How far a kind moves the relocation.\<close>

definition x86_moves :: "x86_relaxation \<Rightarrow> u64" where
  "x86_moves k = (case k of
       XR_JmpIndirectToRelative \<Rightarrow> - 1
     | XR_TlsGdToLocalExec \<Rightarrow> 8
     | XR_TlsGdToLocalExecLarge \<Rightarrow> 9
     | XR_TlsLdToLocalExec \<Rightarrow> 5
     | XR_TlsLdToLocalExecNoPlt \<Rightarrow> 5
     | XR_TlsLdToLocalExec64 \<Rightarrow> 15
     | XR_TlsGdToInitialExec \<Rightarrow> 8
     | _ \<Rightarrow> 0)"

lemma same_outside_rewritten:
  "rewritten reach s t \<Longrightarrow>
     same_outside (x86_touched (offset_in_section s) reach) (section_bytes s) (section_bytes t)"
  by (simp add: rewritten_def)

lemma rewritten_offset: "rewritten reach s t \<Longrightarrow> offset_in_section t = offset_in_section s"
  by (simp add: rewritten_def)

lemmas rewritten_copies =
  rewritten_copy [where before = 2 and after = 0 and reach = "(2, 0)", simplified]
  rewritten_copy [where before = 2 and after = 4 and reach = "(2, 4)", simplified]
  rewritten_copy [where before = 4 and after = 8 and reach = "(4, 8)", simplified]
  rewritten_copy [where before = 3 and after = 19 and reach = "(3, 19)", simplified]
  rewritten_copy [where before = 3 and after = 9 and reach = "(3, 9)", simplified]
  rewritten_copy [where before = 3 and after = 10 and reach = "(3, 10)", simplified]
  rewritten_copy [where before = 0 and after = 2 and reach = "(0, 2)", simplified]

lemma x86_relax_rewritten:
  assumes "x86_relax_apply k s = Some t" "length (section_bytes s) < 2 ^ 63"
  shows "\<exists>u. rewritten (x86_reach k) s u \<and> section_bytes t = section_bytes u
    \<and> offset_in_section t = offset_in_section s + x86_moves k"
proof (cases k)
  case XR_MovIndirectToLea
  with assms rewritten_set [of s 2 _ t "(2, 0)"] show ?thesis
    by (auto simp: x86_moves_def dest: rewritten_offset)
next
  case XR_MovIndirectToAbsolute
  then obtain s2 s3 where "site_set s (offset_in_section s - 2) 0xc7 = Some s2"
    and "rewrite_mod_rm s2 (offset_in_section s - 1) 0xc0 = Some s3" "t = s3\<lparr>addend := 0\<rparr>"
    using assms(1) by (auto simp: Let_def split: bind_splits)
  with rewritten_opcode_mod_rm [of "(2, 0)" s s "0xc7" s2 "0xc0" s3] assms(2) XR_MovIndirectToAbsolute
  show ?thesis
    by (auto simp: x86_moves_def dest: rewritten_offset)
next
  case XR_CallIndirectToRelative
  with assms rewritten_copies(1) [of s "[0x67, 0xe8]" t] show ?thesis
    by (auto simp: x86_moves_def dest: rewritten_offset)
next
  case XR_NoOp
  with assms show ?thesis
    by (intro exI [of _ s]) (simp add: x86_moves_def)
next
  case XR_SkipTlsDescCall
  with assms rewritten_copies(7) [of s "[0x66, 0x90]" t] show ?thesis
    by (auto simp: x86_moves_def dest: rewritten_offset)
next
  case XR_TlsDescToInitialExec
  with assms rewritten_tlsdesc [of s _ t] show ?thesis
    by (auto simp: x86_moves_def dest: rewritten_offset)
next
  case (XR_TlsDescToLocalExec n)
  with assms rewritten_tlsdesc [of s n t] show ?thesis
    by (auto simp: x86_moves_def dest: rewritten_offset)
qed (use assms in \<open>auto simp: x86_moves_def Let_def split: bind_splits
      dest: rewritten_offset rewritten_rex_to_absolute [where reach = "(3, 0)", simplified]
        rewritten_rex_add [where reach = "(5, 0)", simplified]
      dest!: rewritten_copies\<close>)

text \<open>An x86-64 relaxation that is applied changes only the bytes of the instruction it rewrites,
  a fixed window around the relocation, keeps the length of the section and moves the relocation by
  the distance its kind prescribes.\<close>

theorem x86_relax_frame:
  assumes "x86_relax_apply k s = Some t" "length (section_bytes s) < 2 ^ 63"
  shows "same_outside (x86_touched (offset_in_section s) (x86_reach k)) (section_bytes s) (section_bytes t)
    \<and> offset_in_section t = offset_in_section s + x86_moves k"
  using x86_relax_rewritten [OF assms] same_outside_rewritten by fastforce

theorem x86_relax_frame_witness:
  "\<exists>t. x86_relax_apply XR_CallIndirectToRelative
      \<lparr>section_bytes = [0x90, 0xff, 0x15, 1, 2, 3, 4], offset_in_section = 3, addend = - 4\<rparr> = Some t
    \<and> same_outside {1 ..< 3} [0x90, 0xff, 0x15, 1, 2, 3, 4] (section_bytes t) \<and> offset_in_section t = 3"
proof -
  let ?s = "\<lparr>section_bytes = [0x90, 0xff, 0x15, 1, 2, 3, 4], offset_in_section = 3, addend = - 4\<rparr>"
  obtain t where "x86_relax_apply XR_CallIndirectToRelative ?s = Some t"
    by (simp add: site_copy_def copy_from_slice_def)
  with x86_relax_frame [of XR_CallIndirectToRelative ?s t] show ?thesis
    by (simp add: x86_moves_def x86_touched_def)
qed

section \<open>Registers survive the rewrite\<close>

text \<open>
  The register number in the \<open>reg\<close> field of an instruction with a REX prefix (REX.R extends ModRM.reg)
  and in its \<open>r/m\<close> field (REX.B extends ModRM.rm); the prefix is three bytes and the ModRM byte one byte
  before the displacement.
\<close>

definition x86_reg :: "u8 list \<Rightarrow> nat \<Rightarrow> nat" where
  "x86_reg xs off = 8 * of_bool (bit (xs ! (off - 3)) 2) + unat (take_bit 3 (drop_bit 3 (xs ! (off - 1))))"

definition x86_rm :: "u8 list \<Rightarrow> nat \<Rightarrow> nat" where
  "x86_rm xs off = 8 * of_bool (bit (xs ! (off - 3)) 0) + unat (take_bit 3 (xs ! (off - 1)))"

lemma mod_rm_fields:
  fixes m :: u8
  assumes "take_bit 3 ext = 0"
  shows "take_bit 3 (shr m 3 AND 0x7 OR ext) = take_bit 3 (drop_bit 3 m)"
    "drop_bit 3 (shr m 3 AND 0x7 OR ext) = drop_bit 3 ext"
proof -
  have ext: "i < 3 \<Longrightarrow> \<not> bit ext i" for i
    using bit_take_bit_word [of 3 ext i] assms by simp
  show "take_bit 3 (shr m 3 AND 0x7 OR ext) = take_bit 3 (drop_bit 3 m)"
    using ext by (intro bit_word_eqI) (auto simp: and_low_mask_numerals bit_simps)
  show "drop_bit 3 (shr m 3 AND 0x7 OR ext) = drop_bit 3 ext"
    by (intro bit_word_eqI) (auto simp: and_low_mask_numerals bit_simps)
qed

lemma bit_4_u8: "bit (4 :: u8) i \<longleftrightarrow> i = 2"
proof -
  have "bit (push_bit 2 1 :: u8) i \<longleftrightarrow> i = 2"
    by (simp only: bit_push_bit_word bit_1_iff) auto
  then show ?thesis by simp
qed

lemma rex_bits:
  fixes rex f :: u8
  assumes "\<And>i. bit f i \<longleftrightarrow> i = 2"
  shows "bit ((rex AND NOT f) OR shr (rex AND f) 2) 0 \<longleftrightarrow> bit rex 0 \<or> bit rex 2"
    "3 \<le> i \<Longrightarrow> bit ((rex AND NOT f) OR shr (rex AND f) 2) i = bit rex i"
proof -
  have shifted: "bit (shr (rex AND f) 2) j \<longleftrightarrow> bit rex 2 \<and> j = 0" for j
    using assms [of "2 + j"] by (auto simp: bit_drop_bit_word bit_and_iff numeral_2_eq_2)
  have kept: "bit (rex AND NOT f) j \<longleftrightarrow> bit rex j \<and> j \<noteq> 2" for j
    using assms [of j] bit_word_less_length [of rex j] by (auto simp: bit_and_iff bit_not_iff)
  show "bit ((rex AND NOT f) OR shr (rex AND f) 2) 0 \<longleftrightarrow> bit rex 0 \<or> bit rex 2"
    by (auto simp only: bit_or_iff shifted kept)
  show "bit ((rex AND NOT f) OR shr (rex AND f) 2) i = bit rex i" if "3 \<le> i"
    using that by (auto simp only: bit_or_iff shifted kept)
qed

lemmas rex_bits_4 = rex_bits [of 4, OF bit_4_u8]

lemma rex_to_absolute_bytes:
  assumes "rex_to_absolute s 3 opcode ext = Some t" "length (section_bytes s) < 2 ^ 63"
    and "off = unat (offset_in_section s)" "xs = section_bytes s"
  shows "3 \<le> off \<and> off \<le> length xs \<and> addend t = 0 \<and> section_bytes t =
    xs[off - 3 := (xs ! (off - 3) AND NOT 4) OR shr (xs ! (off - 3) AND 4) 2, off - 2 := opcode,
       off - 1 := shr (xs ! (off - 1)) 3 AND 0x7 OR ext]"
proof -
  obtain rex s1 s2 s3 where rex: "get_byte xs (offset_in_section s - 3) = Some rex"
    and 1: "site_set s (offset_in_section s - 3) ((rex AND NOT 4) OR shr (rex AND 4) 2) = Some s1"
    and 2: "site_set s1 (offset_in_section s - 2) opcode = Some s2"
    and 3: "rewrite_mod_rm s2 (offset_in_section s - 1) ext = Some s3" and t: "t = s3\<lparr>addend := 0\<rparr>"
    using assms(1,4) by (auto simp: rex_to_absolute_def rewrite_rex_def Let_def split: bind_splits)
  have "rex = xs ! (off - 3)" "3 \<le> off" "off - 3 < length xs"
    using get_byte_before [of xs "offset_in_section s" 3 rex] rex assms(2-4) by auto
  moreover have "s1 = s\<lparr>section_bytes := xs[off - 3 := (rex AND NOT 4) OR shr (rex AND 4) 2]\<rparr>"
    using site_set_before [of s 3 _ s1] 1 assms(2-4) by auto
  moreover from this have "s2 = s1\<lparr>section_bytes := (section_bytes s1)[off - 2 := opcode]\<rparr>"
    using site_set_before [of s1 2 _ s2] 2 assms(2-4) by auto
  moreover from calculation obtain m where "get_byte (section_bytes s2) (offset_in_section s2 - 1) = Some m"
    and "site_set s2 (offset_in_section s2 - 1) (shr m 3 AND 0x7 OR ext) = Some s3"
    using 3 by (auto simp: rewrite_mod_rm_def split: bind_splits)
  moreover from calculation have "m = section_bytes s2 ! (off - 1)" "off - 1 < length xs"
    "s3 = s2\<lparr>section_bytes := (section_bytes s2)[off - 1 := shr m 3 AND 0x7 OR ext]\<rparr>"
    using get_byte_before [of "section_bytes s2" "offset_in_section s2" 1 m]
      site_set_before [of s2 1 _ s3] assms(2-4) by auto
  ultimately show ?thesis
    using t by (simp add: nth_list_update)
qed

text \<open>Turning a load, subtraction or comparison through the GOT into its absolute form keeps the
  operand register. The register that was in the \<open>reg\<close> field (extended by REX.R) is afterwards in the
  \<open>r/m\<close> field (extended by REX.B) of a register-direct operand, the operand size bit REX.W is kept,
  the opcode extension in \<open>reg\<close> selects the operation, and the addend is cleared. RIP-relative
  addressing leaves REX.B clear.\<close>

theorem x86_rex_rewrite_keeps_register:
  assumes "(k, opcode, ext) \<in> {(XR_RexMovIndirectToAbsolute 3, 0xc7, 0),
      (XR_RexSubIndirectToAbsolute 3, 0x81, 5), (XR_RexCmpIndirectToAbsolute 3, 0x81, 7)}"
    and "x86_relax_apply k s = Some t" "length (section_bytes s) < 2 ^ 63"
    and "off = unat (offset_in_section s)" "\<not> bit (section_bytes s ! (off - 3)) 0"
  shows "x86_rm (section_bytes t) off = x86_reg (section_bytes s) off
    \<and> section_bytes t ! (off - 2) = opcode
    \<and> drop_bit 6 (section_bytes t ! (off - 1)) = 3
    \<and> take_bit 3 (drop_bit 3 (section_bytes t ! (off - 1))) = ext
    \<and> bit (section_bytes t ! (off - 3)) 3 = bit (section_bytes s ! (off - 3)) 3
    \<and> addend t = 0"
proof -
  define ext' :: u8 where "ext' = 0xc0 OR push_bit 3 ext"
  have low: "take_bit 3 ext' = 0" and high: "drop_bit 6 ext' = 3" "take_bit 3 (drop_bit 3 ext') = ext"
    using assms(1) by (auto simp: ext'_def)
  have "rex_to_absolute s 3 opcode ext' = Some t"
    using assms(1,2) by (auto simp: ext'_def)
  note t = rex_to_absolute_bytes [OF this assms(3,4) refl]
  let ?m = "section_bytes s ! (off - 1)" and ?m' = "section_bytes t ! (off - 1)"
  have m': "?m' = shr ?m 3 AND 0x7 OR ext'" and rex': "section_bytes t ! (off - 3) =
      (section_bytes s ! (off - 3) AND NOT 4) OR shr (section_bytes s ! (off - 3) AND 4) 2"
    and "section_bytes t ! (off - 2) = opcode" "addend t = 0"
    using t by (auto simp: nth_list_update)
  moreover have "take_bit 3 ?m' = take_bit 3 (drop_bit 3 ?m)" "drop_bit 3 ?m' = drop_bit 3 ext'"
    unfolding m' by (rule mod_rm_fields [OF low])+
  moreover from this(2) have "drop_bit 6 ?m' = drop_bit 6 ext'"
    using drop_bit_drop_bit [of 3 3 ?m'] drop_bit_drop_bit [of 3 3 ext'] by simp
  ultimately show ?thesis
    using high rex_bits_4(1) [of "section_bytes s ! (off - 3)"]
      rex_bits_4(2) [of 3 "section_bytes s ! (off - 3)"] assms(5)
    by (simp add: x86_rm_def x86_reg_def)
qed

theorem x86_rex_rewrite_keeps_register_witness:
  "\<exists>t. x86_relax_apply (XR_RexMovIndirectToAbsolute 3)
      \<lparr>section_bytes = [0x4c, 0x8b, 0x15, 1, 2, 3, 4], offset_in_section = 3, addend = - 4\<rparr> = Some t
    \<and> x86_rm (section_bytes t) 3 = x86_reg [0x4c, 0x8b, 0x15, 1, 2, 3, 4] 3
    \<and> section_bytes t ! 1 = 0xc7 \<and> addend t = 0"
proof -
  let ?s = "\<lparr>section_bytes = [0x4c, 0x8b, 0x15, 1, 2, 3, 4], offset_in_section = 3, addend = - 4\<rparr>"
  obtain t where "x86_relax_apply (XR_RexMovIndirectToAbsolute 3) ?s = Some t"
    by (simp add: rex_to_absolute_def rewrite_rex_def rewrite_mod_rm_def site_set_def set_byte_def
      get_byte_def)
  moreover have "(XR_RexMovIndirectToAbsolute 3, 0xc7, 0) \<in> {(XR_RexMovIndirectToAbsolute 3, 0xc7, 0 :: u8),
      (XR_RexSubIndirectToAbsolute 3, 0x81, 5), (XR_RexCmpIndirectToAbsolute 3, 0x81, 7)}"
    by simp
  moreover have "length (section_bytes ?s) < 2 ^ 63" "3 = unat (offset_in_section ?s)"
    "\<not> bit (section_bytes ?s ! (3 - 3)) 0"
    by simp_all
  ultimately have "x86_rm (section_bytes t) 3 = x86_reg (section_bytes ?s) 3
      \<and> section_bytes t ! (3 - 2) = 0xc7 \<and> addend t = 0"
    using x86_rex_rewrite_keeps_register by blast
  with \<open>x86_relax_apply (XR_RexMovIndirectToAbsolute 3) ?s = Some t\<close> show ?thesis
    by auto
qed

end
