(* ===== verification/Slice_Search.thy ===== *)
theory Slice_Search
  imports Rust_Prelude
begin

text \<open>
  The branch-free binary search of the standard library's slices
  (\<open>rust/library/core/src/slice/mod.rs\<close>), on which the relaxation tables of the linker rest:
  \<open>binary_search_by\<close>, \<open>binary_search_by_key\<close> and \<open>partition_point\<close>. The source reads the slice with
  \<open>get_unchecked\<close>, so a probe out of range would be undefined behaviour; it is the value \<open>None\<close> here,
  and the lemmas show that it never arises, whatever the comparison function answers. On a slice that
  is sorted by the comparison the search finds a match or the insertion point, and
  \<open>partition_point\<close> is the length of the longest prefix that satisfies the predicate.
\<close>

section \<open>Orderings\<close>

datatype ordering = Less | Equal | Greater

text \<open>\<open>core::cmp::Ordering\<close> is itself ordered, as its declaration order says.\<close>

instantiation ordering :: linorder
begin

fun ordering_rank :: "ordering \<Rightarrow> nat" where
  "ordering_rank Less = 0"
| "ordering_rank Equal = 1"
| "ordering_rank Greater = 2"

definition less_eq_ordering :: "ordering \<Rightarrow> ordering \<Rightarrow> bool" where
  "less_eq_ordering a b \<longleftrightarrow> ordering_rank a \<le> ordering_rank b"

definition less_ordering :: "ordering \<Rightarrow> ordering \<Rightarrow> bool" where
  "less_ordering a b \<longleftrightarrow> ordering_rank a < ordering_rank b"

instance
proof
  fix a b :: ordering
  show "a \<le> b \<Longrightarrow> b \<le> a \<Longrightarrow> a = b"
    by (cases a; cases b) (simp_all add: less_eq_ordering_def)
qed (auto simp: less_eq_ordering_def less_ordering_def)

end

lemma Greater_le_iff [simp]: "Greater \<le> a \<longleftrightarrow> a = Greater"
  by (cases a) (simp_all add: less_eq_ordering_def)

lemma le_Less_iff [simp]: "a \<le> Less \<longleftrightarrow> a = Less"
  by (cases a) (simp_all add: less_eq_ordering_def)

text \<open>The \<open>Ord::cmp\<close> of a totally ordered key.\<close>

definition cmp :: "'k::linorder \<Rightarrow> 'k \<Rightarrow> ordering" where
  "cmp a b = (if a < b then Less else if a = b then Equal else Greater)"

lemma cmp_simps [simp]:
  "cmp a b = Less \<longleftrightarrow> a < b" "cmp a b = Equal \<longleftrightarrow> a = b" "cmp a b = Greater \<longleftrightarrow> b < a"
  by (auto simp: cmp_def)

lemma cmp_mono: "a \<le> b \<Longrightarrow> cmp a k \<le> cmp b k"
  by (auto simp: cmp_def less_eq_ordering_def)

section \<open>The search loop\<close>

definition get_unchecked :: "'a list \<Rightarrow> nat \<Rightarrow> 'a option" where
  "get_unchecked xs i = (if i < length xs then Some (xs ! i) else None)"

function bisect :: "('a \<Rightarrow> ordering) \<Rightarrow> 'a list \<Rightarrow> nat \<Rightarrow> nat \<Rightarrow> nat option" where
  "bisect f xs base sz =
     (if 1 < sz then do {
        let half = sz div 2;
        let mid = base + half;
        x \<leftarrow> get_unchecked xs mid;
        bisect f xs (if f x = Greater then base else mid) (sz - half)
      } else Some base)"
  by pat_completeness auto

termination
  by (relation "measure (\<lambda>(f, xs, base, sz). sz)") auto

declare bisect.simps [simp del]

definition binary_search_by :: "('a \<Rightarrow> ordering) \<Rightarrow> 'a list \<Rightarrow> (nat + nat) option" where
  "binary_search_by f xs =
     (if length xs = 0 then Some (Inl 0)
      else do {
        base \<leftarrow> bisect f xs 0 (length xs);
        x \<leftarrow> get_unchecked xs base;
        (if f x = Equal then Some (Inr base)
         else Some (Inl (base + (if f x = Less then 1 else 0))))
      })"

definition binary_search_by_key :: "'k::linorder \<Rightarrow> ('a \<Rightarrow> 'k) \<Rightarrow> 'a list \<Rightarrow> (nat + nat) option" where
  "binary_search_by_key b f xs = binary_search_by (\<lambda>k. cmp (f k) b) xs"

definition partition_point :: "('a \<Rightarrow> bool) \<Rightarrow> 'a list \<Rightarrow> nat option" where
  "partition_point pred xs = do {
     r \<leftarrow> binary_search_by (\<lambda>x. if pred x then Less else Greater) xs;
     Some (case r of Inr i \<Rightarrow> i | Inl i \<Rightarrow> i)
   }"

section \<open>No probe out of range\<close>

text \<open>The loop keeps a non-empty window inside the slice; it ends on an index of the window.\<close>

lemma bisect_defined:
  assumes "0 < sz" "base + sz \<le> length xs"
  shows "\<exists>i. bisect f xs base sz = Some i \<and> base \<le> i \<and> i < base + sz"
  using assms
proof (induction f xs base sz rule: bisect.induct)
  case (1 f xs base sz)
  show ?case
  proof (cases "1 < sz")
    case True
    define half where "half = sz div 2"
    have half: "0 < half" "half < sz" "half \<le> sz - half"
      using True by (auto simp: half_def)
    then have mid: "get_unchecked xs (base + half) = Some (xs ! (base + half))"
      using "1.prems" by (simp add: get_unchecked_def)
    let ?base = "if f (xs ! (base + half)) = Greater then base else base + half"
    have "\<exists>i. bisect f xs ?base (sz - half) = Some i \<and> ?base \<le> i \<and> i < ?base + (sz - half)"
      using "1.IH" [OF True half_def refl mid] "1.prems" half by auto
    then show ?thesis
      using True mid half by (subst bisect.simps) (auto simp: half_def [symmetric] Let_def)
  qed (use "1.prems" in \<open>auto simp: bisect.simps\<close>)
qed

section \<open>What the search finds in a sorted slice\<close>

text \<open>Below the window nothing is known to be greater, above it everything is.\<close>

definition window :: "('a \<Rightarrow> ordering) \<Rightarrow> 'a list \<Rightarrow> nat \<Rightarrow> nat \<Rightarrow> bool" where
  "window f xs base sz \<longleftrightarrow> (base = 0 \<or> f (xs ! base) \<noteq> Greater)
     \<and> (\<forall>j. base + sz \<le> j \<longrightarrow> j < length xs \<longrightarrow> f (xs ! j) = Greater)"

lemma sorted_map_nth:
  "sorted (map f xs) \<Longrightarrow> i \<le> j \<Longrightarrow> j < length xs \<Longrightarrow> f (xs ! i) \<le> f (xs ! j)"
  by (auto dest: sorted_nth_mono [of "map f xs" i j])

lemma window_step:
  assumes "window f xs base sz" "sorted (map f xs)" "0 < half" "half \<le> sz - half"
    and "base + sz \<le> length xs"
  shows "window f xs (if f (xs ! (base + half)) = Greater then base else base + half) (sz - half)"
proof (cases "f (xs ! (base + half)) = Greater")
  case True
  have "f (xs ! j) = Greater" if "base + half \<le> j" "j < length xs" for j
    using sorted_map_nth [OF assms(2) that] True by simp
  then show ?thesis
    using assms(1,4) True by (auto simp: window_def)
next
  case False
  then show ?thesis
    using assms(1,4) by (auto simp: window_def)
qed

lemma bisect_window:
  assumes "0 < sz" "base + sz \<le> length xs" "sorted (map f xs)" "window f xs base sz"
  shows "\<exists>i. bisect f xs base sz = Some i \<and> i < length xs \<and> window f xs i 1"
  using assms
proof (induction f xs base sz rule: bisect.induct)
  case (1 f xs base sz)
  show ?case
  proof (cases "1 < sz")
    case True
    define half where "half = sz div 2"
    have half: "0 < half" "half < sz" "half \<le> sz - half"
      using True by (auto simp: half_def)
    then have mid: "get_unchecked xs (base + half) = Some (xs ! (base + half))"
      using "1.prems" by (simp add: get_unchecked_def)
    let ?base = "if f (xs ! (base + half)) = Greater then base else base + half"
    have "window f xs ?base (sz - half)"
      using window_step [OF "1.prems"(4,3) half(1,3) "1.prems"(2)] .
    then have "\<exists>i. bisect f xs ?base (sz - half) = Some i \<and> i < length xs \<and> window f xs i 1"
      using "1.IH" [OF True half_def refl mid] "1.prems" half by auto
    then show ?thesis
      using True mid by (subst bisect.simps) (simp add: half_def [symmetric] Let_def)
  next
    case False
    then have "sz = 1"
      using "1.prems" by simp
    then show ?thesis
      using "1.prems" by (auto simp: bisect.simps)
  qed
qed

text \<open>
  The contract of \<open>binary_search_by\<close>: a match with nothing equal behind it, or the point where a
  match would have to be inserted.
\<close>

definition search_spec :: "('a \<Rightarrow> ordering) \<Rightarrow> 'a list \<Rightarrow> nat + nat \<Rightarrow> bool" where
  "search_spec f xs r = (case r of
     Inr i \<Rightarrow> i < length xs \<and> f (xs ! i) = Equal \<and> (\<forall>j. i < j \<longrightarrow> j < length xs \<longrightarrow> f (xs ! j) = Greater)
   | Inl i \<Rightarrow> i \<le> length xs \<and> (\<forall>j < i. f (xs ! j) = Less)
       \<and> (\<forall>j. i \<le> j \<longrightarrow> j < length xs \<longrightarrow> f (xs ! j) = Greater))"

lemma binary_search_by_found:
  assumes "sorted (map f xs)"
  shows "\<exists>r. binary_search_by f xs = Some r \<and> search_spec f xs r"
proof (cases "xs = []")
  case True
  then show ?thesis
    by (simp add: binary_search_by_def search_spec_def)
next
  case False
  then obtain i where i: "bisect f xs 0 (length xs) = Some i" "i < length xs" and w: "window f xs i 1"
    using bisect_window [of "length xs" 0 xs f] assms by (auto simp: window_def)
  have above: "f (xs ! j) = Greater" if "i < j" "j < length xs" for j
    using w that by (simp add: window_def)
  have below: "f (xs ! j) = Less" if "j \<le> i" "f (xs ! i) = Less" for j
    using sorted_map_nth [OF assms that(1) i(2)] that(2) by simp
  have first: "i = 0" if "f (xs ! i) = Greater"
    using w that by (simp add: window_def)
  show ?thesis
  proof (cases "f (xs ! i)")
    case Less
    have "binary_search_by f xs = Some (Inl (Suc i))"
      using i Less False by (simp add: binary_search_by_def get_unchecked_def)
    moreover have "search_spec f xs (Inl (Suc i))"
      using i(2) above below Less by (auto simp: search_spec_def less_Suc_eq_le Suc_le_eq)
    ultimately show ?thesis by blast
  next
    case Equal
    then show ?thesis
      using i False above by (auto simp: binary_search_by_def get_unchecked_def search_spec_def)
  next
    case Greater
    then have "i = 0"
      using first by blast
    moreover have "f (xs ! j) = Greater" if "j < length xs" for j
      using above [of j] Greater \<open>i = 0\<close> that by (cases j) auto
    ultimately show ?thesis
      using i False Greater by (auto simp: binary_search_by_def get_unchecked_def search_spec_def)
  qed
qed

lemma binary_search_by_defined: "\<exists>r. binary_search_by f xs = Some r"
proof (cases "xs = []")
  case False
  then obtain i where "bisect f xs 0 (length xs) = Some i" "i < length xs"
    using bisect_defined [of "length xs" 0 xs f] by auto
  then show ?thesis
    by (simp add: binary_search_by_def get_unchecked_def)
qed (simp add: binary_search_by_def)

lemma binary_search_by_key_Inr:
  assumes "sorted (map f xs)" "binary_search_by_key b f xs = Some (Inr i)"
  shows "i < length xs" "f (xs ! i) = b"
proof -
  have "sorted (map (\<lambda>k. cmp (f k) b) xs)"
    using assms(1) by (auto simp: sorted_iff_nth_mono cmp_mono)
  with binary_search_by_found assms(2) show "i < length xs" "f (xs ! i) = b"
    by (fastforce simp: binary_search_by_key_def search_spec_def)+
qed

text \<open>On distinct sorted keys the search decides membership and finds the only entry.\<close>

lemma binary_search_by_key_iff:
  assumes "sorted (map f xs)"
  shows "(\<exists>i. binary_search_by_key b f xs = Some (Inr i)) \<longleftrightarrow> b \<in> f ` set xs"
proof -
  have "sorted (map (\<lambda>k. cmp (f k) b) xs)"
    using assms by (auto simp: sorted_iff_nth_mono cmp_mono)
  then obtain r where r: "binary_search_by_key b f xs = Some r"
      "search_spec (\<lambda>k. cmp (f k) b) xs r"
    using binary_search_by_found unfolding binary_search_by_key_def by blast
  show ?thesis
  proof (cases r)
    case (Inl i)
    then have "f (xs ! j) \<noteq> b" if "j < length xs" for j
      using r(2) that by (cases "j < i") (force simp: search_spec_def dest: spec [of _ j])+
    then have "b \<notin> f ` set xs"
      by (metis imageE in_set_conv_nth)
    then show ?thesis
      using r(1) Inl by simp
  next
    case (Inr i)
    then have "b \<in> f ` set xs"
      using r(2) by (auto simp: search_spec_def)
    then show ?thesis
      using r(1) Inr by simp
  qed
qed

lemma binary_search_by_key_at:
  assumes "sorted (map f xs)" "distinct (map f xs)" "i < length xs"
  shows "binary_search_by_key (f (xs ! i)) f xs = Some (Inr i)"
proof -
  obtain j where j: "binary_search_by_key (f (xs ! i)) f xs = Some (Inr j)"
    using binary_search_by_key_iff [OF assms(1), of "f (xs ! i)"] assms(3) by auto
  have "j < length xs" "map f xs ! j = map f xs ! i"
    using binary_search_by_key_Inr [OF assms(1) j] assms(3) by auto
  then have "j = i"
    using assms(2,3) by (simp only: nth_eq_iff_index_eq length_map)
  with j show ?thesis by simp
qed

section \<open>Partition points\<close>

definition partitioned :: "('a \<Rightarrow> bool) \<Rightarrow> 'a list \<Rightarrow> bool" where
  "partitioned pred xs \<longleftrightarrow> sorted_wrt (\<lambda>x y. pred y \<longrightarrow> pred x) xs"

lemma partition_point_takeWhile:
  assumes "partitioned pred xs"
  shows "partition_point pred xs = Some (length (takeWhile pred xs))"
proof -
  let ?f = "\<lambda>x. if pred x then Less else Greater"
  have le: "?f x \<le> ?f y \<longleftrightarrow> (pred y \<longrightarrow> pred x)" for x y
    by (auto simp: less_eq_ordering_def)
  have "sorted (map ?f xs)"
    using assms by (simp only: partitioned_def sorted_map le)
  then obtain r where r: "binary_search_by ?f xs = Some r" "search_spec ?f xs r"
    using binary_search_by_found by blast
  then obtain i where i: "r = Inl i"
    by (cases r) (auto simp: search_spec_def split: if_splits)
  then have "i \<le> length xs" "\<And>j. j < i \<Longrightarrow> pred (xs ! j)"
      "\<And>j. i \<le> j \<Longrightarrow> j < length xs \<Longrightarrow> \<not> pred (xs ! j)"
    using r(2) by (fastforce simp: search_spec_def split: if_splits)+
  then have "takeWhile pred xs = take i xs"
    by (intro takeWhile_eq_take_P_nth) auto
  then show ?thesis
    using r(1) i \<open>i \<le> length xs\<close> by (simp add: partition_point_def)
qed

lemma partitioned_key:
  assumes "sorted (map f xs)"
  shows "partitioned (\<lambda>x. f x < b) xs" "partitioned (\<lambda>x. f x \<le> b) xs"
  using assms unfolding partitioned_def sorted_map
  by (auto elim!: sorted_wrt_mono_rel [rotated])

lemma dropWhile_key_ge:
  "sorted (map f xs) \<Longrightarrow> x \<in> set (dropWhile (\<lambda>x. f x < b) xs) \<Longrightarrow> b \<le> f x"
  by (induction xs) (auto split: if_splits)

section \<open>Properties\<close>

text \<open>C33: whatever the comparison function answers, the search ends and never probes outside the slice;
  on a slice that is sorted by the comparison it returns a match behind which everything is greater,
  or the insertion point.\<close>

theorem binary_search_by_correct:
  "\<exists>r. binary_search_by f xs = Some r \<and> (sorted (map f xs) \<longrightarrow> search_spec f xs r)"
  using binary_search_by_found [of f xs] binary_search_by_defined [of f xs] by auto

theorem binary_search_by_correct_witness:
  "sorted (map (\<lambda>k. cmp k 5) [1, 5, 9 :: nat])
    \<and> (\<exists>r. binary_search_by (\<lambda>k. cmp k 5) [1, 5, 9 :: nat] = Some r
        \<and> search_spec (\<lambda>k. cmp k 5) [1, 5, 9 :: nat] r)"
  using binary_search_by_correct [of "\<lambda>k. cmp k 5" "[1, 5, 9 :: nat]"]
  by (simp add: cmp_def less_eq_ordering_def)

end
