(* ===== verification/Relax_Deltas.thy ===== *)
theory Relax_Deltas
  imports Slice_Search
begin

text \<open>
  The bookkeeping of size-changing relaxations (\<open>linker-utils/src/relaxation.rs\<close>): the list of byte
  deletions of a section with its running totals, the translations between input and output offsets,
  and the cursor that translates ascending offsets without searching. The compacting copy of \<open>write_section_raw\<close> in \<open>elf_writer.rs\<close>, which
  leaves the deleted bytes out of the output, is modelled beside them.

  The abstract view of a deletion list is the set of input positions it deletes. The lemmas show that
  the copy keeps exactly the bytes outside that set, in order; that \<open>input_to_output_offset\<close> is the
  rank of a position among the surviving ones, so that a surviving byte is found at its translated
  offset; that \<open>output_to_input_offset\<close> is the inverse; and that the cursor agrees with the search.
\<close>

section \<open>Deletion lists\<close>

record relax_delta =
  input_offset :: u64
  cumulative_deleted :: u64
  bytes_deleted :: u32

record section_relax_deltas =
  deltas :: "relax_delta list"

type_synonym raw_delta = "u64 \<times> u32"

fun push_deltas :: "u64 \<Rightarrow> raw_delta list \<Rightarrow> relax_delta list" where
  "push_deltas running [] = []"
| "push_deltas running ((off, n) # raw) =
     (let running = running + ucast n
      in \<lparr>input_offset = off, cumulative_deleted = running, bytes_deleted = n\<rparr>
         # push_deltas running raw)"

definition deltas_new :: "raw_delta list \<Rightarrow> section_relax_deltas" where
  "deltas_new raw = \<lparr>deltas = push_deltas 0 raw\<rparr>"

definition deltas_is_empty :: "section_relax_deltas \<Rightarrow> bool" where
  "deltas_is_empty s \<longleftrightarrow> deltas s = []"

definition total_deleted :: "section_relax_deltas \<Rightarrow> u64" where
  "total_deleted s = (if deltas s = [] then 0 else cumulative_deleted (last (deltas s)))"

definition merge_additional :: "raw_delta list \<Rightarrow> section_relax_deltas \<Rightarrow> section_relax_deltas" where
  "merge_additional additional s =
     (if additional = [] then s
      else let raw = map (\<lambda>d. (input_offset d, bytes_deleted d)) (deltas s) @ additional
           in deltas_new (sort_key fst raw))"

text \<open>\<open>self.deltas[i]\<close>; an index out of range panics.\<close>

definition delta_at :: "relax_delta list \<Rightarrow> nat \<Rightarrow> relax_delta option" where
  "delta_at ds i = (if i < length ds then Some (ds ! i) else None)"

definition has_delta_at :: "section_relax_deltas \<Rightarrow> u64 \<Rightarrow> bool option" where
  "has_delta_at s off = do {
     r \<leftarrow> binary_search_by_key off input_offset (deltas s);
     Some (case r of Inr _ \<Rightarrow> True | Inl _ \<Rightarrow> False)
   }"

definition delta_bytes_at :: "section_relax_deltas \<Rightarrow> u64 \<Rightarrow> u32 option" where
  "delta_bytes_at s off = do {
     r \<leftarrow> binary_search_by_key off input_offset (deltas s);
     (case r of Inl _ \<Rightarrow> Some 0
      | Inr i \<Rightarrow> do { d \<leftarrow> delta_at (deltas s) i; Some (bytes_deleted d) })
   }"

definition deletes_input_offset :: "section_relax_deltas \<Rightarrow> u64 \<Rightarrow> bool option" where
  "deletes_input_offset s off = do {
     idx \<leftarrow> partition_point (\<lambda>d. input_offset d \<le> off) (deltas s);
     if idx = 0 then Some False
     else do {
       d \<leftarrow> delta_at (deltas s) (idx - 1);
       Some (off < input_offset d + ucast (bytes_deleted d))
     }
   }"

definition input_to_output_offset :: "section_relax_deltas \<Rightarrow> u64 \<Rightarrow> u64 option" where
  "input_to_output_offset s off =
     (if deltas s = [] then Some off
      else do {
        idx \<leftarrow> partition_point (\<lambda>d. input_offset d < off) (deltas s);
        if idx = 0 then Some off
        else do {
          d \<leftarrow> delta_at (deltas s) (idx - 1);
          Some (off - cumulative_deleted d)
        }
      })"

definition output_to_input_offset :: "section_relax_deltas \<Rightarrow> u64 \<Rightarrow> u64 option" where
  "output_to_input_offset s off =
     (if deltas s = [] then Some off
      else do {
        lo \<leftarrow> partition_point
          (\<lambda>d. input_offset d + ucast (bytes_deleted d) - cumulative_deleted d \<le> off) (deltas s);
        if lo = 0 then Some off
        else do {
          d \<leftarrow> delta_at (deltas s) (lo - 1);
          Some (off + cumulative_deleted d)
        }
      })"

definition opt_input_to_output :: "section_relax_deltas option \<Rightarrow> u64 \<Rightarrow> u64 option" where
  "opt_input_to_output s off =
     (case s of Some d \<Rightarrow> input_to_output_offset d off | None \<Rightarrow> Some off)"

section \<open>The cursor\<close>

record relax_cursor =
  cursor_deltas :: "relax_delta list"
  index :: nat
  current_cumulative :: u64

definition cursor :: "section_relax_deltas \<Rightarrow> relax_cursor" where
  "cursor s = \<lparr>cursor_deltas = deltas s, index = 0, current_cumulative = 0\<rparr>"

function advance :: "u64 \<Rightarrow> relax_cursor \<Rightarrow> relax_cursor" where
  "advance off c =
     (if index c < length (cursor_deltas c) \<and> input_offset (cursor_deltas c ! index c) < off
      then advance off (c\<lparr>current_cumulative := cumulative_deleted (cursor_deltas c ! index c),
                          index := index c + 1\<rparr>)
      else c)"
  by pat_completeness auto

termination
  by (relation "measure (\<lambda>(off, c). length (cursor_deltas c) - index c)") auto

declare advance.simps [simp del]

definition translate :: "u64 \<Rightarrow> relax_cursor \<Rightarrow> u64 \<times> relax_cursor" where
  "translate off c = (let c = advance off c in (off - current_cumulative c, c))"

text \<open>The loop of \<open>apply_relocations\<close> as far as the cursor goes: one translation per relocation.\<close>

primrec translate_all :: "u64 list \<Rightarrow> relax_cursor \<Rightarrow> u64 list" where
  "translate_all [] c = []"
| "translate_all (off # offs) c =
     (let (out, c) = translate off c in out # translate_all offs c)"

section \<open>The compacting copy\<close>

text \<open>\<open>if len > 0 { out[output_pos..output_pos + len].copy_from_slice(&input_data[start..stop]);
  output_pos += len; }\<close> with \<open>len = stop - start\<close>.\<close>

definition copy_run :: "u8 list \<Rightarrow> u64 \<Rightarrow> u64 \<Rightarrow> u8 list \<Rightarrow> u64 \<Rightarrow> (u8 list \<times> u64) option" where
  "copy_run input_data start stop out output_pos =
     (let len = stop - start
      in if 0 < len then do {
           src \<leftarrow> slice input_data start stop;
           out \<leftarrow> copy_from_slice out output_pos (output_pos + len) src;
           Some (out, output_pos + len)
         } else Some (out, output_pos))"

fun copy_kept :: "u8 list \<Rightarrow> relax_delta list \<Rightarrow> u8 list \<Rightarrow> u64 \<Rightarrow> u64 \<Rightarrow> (u8 list \<times> u64 \<times> u64) option" where
  "copy_kept input_data [] out input_pos output_pos = Some (out, input_pos, output_pos)"
| "copy_kept input_data (delta # ds) out input_pos output_pos =
     (let skip_start = input_offset delta
      in do {
        (out, output_pos) \<leftarrow> copy_run input_data input_pos skip_start out output_pos;
        copy_kept input_data ds out (skip_start + ucast (bytes_deleted delta)) output_pos
      })"

definition write_compacted :: "u8 list \<Rightarrow> u8 list \<Rightarrow> u64 \<Rightarrow> section_relax_deltas \<Rightarrow> u8 list option" where
  "write_compacted input_data out effective_size s = do {
     (out, input_pos, output_pos) \<leftarrow> copy_kept input_data (deltas s) out 0 0;
     (out, output_pos) \<leftarrow> copy_run input_data input_pos (of_nat (length input_data)) out output_pos;
     tail \<leftarrow> slice_from out output_pos;
     let out = take (unat output_pos) out @ replicate (length tail) 0;
     slice out 0 effective_size
   }"

section \<open>Well-formed deletions\<close>

text \<open>
  Deletions of a section of \<open>n\<close> bytes: ascending, disjoint, non-empty and inside the section. A
  section is a slice, so it is at most \<open>isize::MAX\<close> bytes long.
\<close>

definition raw_ok :: "nat \<Rightarrow> raw_delta list \<Rightarrow> bool" where
  "raw_ok n raw \<longleftrightarrow> n < 2 ^ 63
     \<and> sorted_wrt (\<lambda>(o1, n1) (o2, n2). unat o1 + unat n1 \<le> unat o2) raw
     \<and> (\<forall>(off, m) \<in> set raw. 0 < unat m \<and> unat off + unat m \<le> n)"

definition deleted :: "raw_delta list \<Rightarrow> nat set" where
  "deleted raw = (\<Union>(off, m) \<in> set raw. {unat off ..< unat off + unat m})"

definition del_sum :: "raw_delta list \<Rightarrow> nat" where
  "del_sum raw = sum_list (map (\<lambda>(off, m). unat m) raw)"

text \<open>A position that is not strictly inside a deletion.\<close>

definition boundary :: "raw_delta list \<Rightarrow> nat \<Rightarrow> bool" where
  "boundary raw i \<longleftrightarrow> (\<forall>(off, m) \<in> set raw. i \<le> unat off \<or> unat off + unat m \<le> i)"

lemma deleted_simps [simp]:
  "deleted [] = {}"
  "deleted ((off, m) # raw) = {unat off ..< unat off + unat m} \<union> deleted raw"
  "deleted (xs @ ys) = deleted xs \<union> deleted ys"
  by (auto simp: deleted_def)

lemma del_sum_simps [simp]:
  "del_sum [] = 0" "del_sum ((off, m) # raw) = unat m + del_sum raw"
  "del_sum (xs @ ys) = del_sum xs + del_sum ys"
  by (simp_all add: del_sum_def)

lemma finite_deleted [simp]: "finite (deleted raw)"
  by (auto simp: deleted_def)

lemma survivor_boundary: "i \<notin> deleted raw \<Longrightarrow> boundary raw i"
  by (fastforce simp: deleted_def boundary_def)

lemma raw_ok_Cons:
  "raw_ok n ((off, m) # raw) \<longleftrightarrow> raw_ok n raw \<and> 0 < unat m \<and> unat off + unat m \<le> n
     \<and> (\<forall>x \<in> set raw. unat off + unat m \<le> unat (fst x))"
  by (auto simp: raw_ok_def)

lemma raw_ok_append:
  "raw_ok n (xs @ ys) \<Longrightarrow> raw_ok n xs \<and> raw_ok n ys"
  by (auto simp: raw_ok_def sorted_wrt_append)

lemma raw_ok_take: "raw_ok n raw \<Longrightarrow> raw_ok n (take k raw)"
  using raw_ok_append [of n "take k raw" "drop k raw"] by simp

lemma raw_ok_sorted:
  assumes "raw_ok n raw"
  shows "sorted (map fst raw)" "distinct (map fst raw)"
proof -
  have "sorted_wrt (\<lambda>x y. fst x < fst y) raw"
    using assms unfolding raw_ok_def
    by (auto simp: word_less_nat_alt elim!: sorted_wrt_mono_rel [rotated])
  then have "sorted_wrt (<) (map fst raw)"
    by (simp add: sorted_wrt_map)
  then show "sorted (map fst raw)" "distinct (map fst raw)"
    by (simp_all add: strict_sorted_iff)
qed

lemma card_deleted: "raw_ok n raw \<Longrightarrow> card (deleted raw) = del_sum raw"
proof (induction raw)
  case (Cons x raw)
  obtain off m where x: "x = (off, m)"
    by (cases x)
  with Cons.prems have "{unat off ..< unat off + unat m} \<inter> deleted raw = {}"
    by (fastforce simp: raw_ok_Cons deleted_def)
  with Cons x show ?case
    by (simp add: card_Un_disjoint raw_ok_Cons)
qed simp

lemma deleted_bound: "raw_ok n raw \<Longrightarrow> deleted raw \<subseteq> {..<n}"
  by (fastforce simp: raw_ok_def deleted_def)

lemma del_sum_le: "raw_ok n raw \<Longrightarrow> del_sum raw \<le> n"
  using card_mono [OF finite_lessThan deleted_bound] by (simp add: card_deleted)

section \<open>The list as the sources build it\<close>

lemma length_push_deltas [simp]: "length (push_deltas r raw) = length raw"
  by (induction r raw rule: push_deltas.induct) (simp_all add: Let_def)

lemma push_deltas_nth:
  assumes "k < length raw"
  shows "push_deltas r raw ! k =
    \<lparr>input_offset = fst (raw ! k), cumulative_deleted = r + of_nat (del_sum (take (Suc k) raw)),
     bytes_deleted = snd (raw ! k)\<rparr>"
  using assms
proof (induction r raw arbitrary: k rule: push_deltas.induct)
  case (2 r off m raw)
  have [simp]: "(of_nat (unat m) :: u64) = ucast m"
    by simp
  show ?case
    using "2.prems" "2.IH" [OF refl, of "k - 1"] by (cases k) (simp_all add: Let_def)
qed simp

lemma push_deltas_raw:
  "map (\<lambda>d. (input_offset d, bytes_deleted d)) (push_deltas r raw) = raw"
  by (induction r raw rule: push_deltas.induct) (simp_all add: Let_def)

lemma map_input_offset [simp]: "map input_offset (push_deltas r raw) = map fst raw"
  by (induction r raw rule: push_deltas.induct) (simp_all add: Let_def)

text \<open>How many deletions satisfy a monotone test on the offset.\<close>

lemma length_takeWhile_map:
  assumes "map f xs = map g ys"
  shows "length (takeWhile (\<lambda>x. P (f x)) xs) = length (takeWhile (\<lambda>y. P (g y)) ys)"
proof -
  have "length (takeWhile (\<lambda>x. P (f x)) xs) = length (takeWhile P (map f xs))"
    by (simp add: takeWhile_map comp_def)
  also have "\<dots> = length (takeWhile (\<lambda>y. P (g y)) ys)"
    by (simp add: assms takeWhile_map comp_def)
  finally show ?thesis .
qed

abbreviation before :: "u64 \<Rightarrow> raw_delta list \<Rightarrow> raw_delta list" where
  "before off \<equiv> takeWhile (\<lambda>x. fst x < off)"

lemma takeWhile_take: "take (length (takeWhile P xs)) xs = takeWhile P xs"
  by (metis takeWhile_eq_take)

lemma before_point:
  assumes "sorted (map fst raw)"
  shows "partition_point (\<lambda>d. input_offset d < off) (push_deltas 0 raw) = Some (length (before off raw))"
  using partition_point_takeWhile [OF partitioned_key(1) [of input_offset "push_deltas 0 raw" off]]
    length_takeWhile_map [of input_offset "push_deltas 0 raw" fst raw "\<lambda>x. x < off"] assms
  by simp

lemma before_last:
  assumes "before off raw \<noteq> []"
  obtains d where "delta_at (push_deltas 0 raw) (length (before off raw) - 1) = Some d"
    "cumulative_deleted d = of_nat (del_sum (before off raw))"
proof -
  let ?k = "length (before off raw) - 1"
  have k: "?k < length raw" "Suc ?k = length (before off raw)"
    using assms length_takeWhile_le [of "\<lambda>x. fst x < off" raw] by (cases "before off raw"; simp)+
  then show ?thesis
    using that push_deltas_nth [OF k(1), of 0] takeWhile_take [of "\<lambda>x. fst x < off" raw]
    by (simp add: delta_at_def)
qed

lemma input_to_output_deltas:
  assumes "sorted (map fst raw)"
  shows "input_to_output_offset (deltas_new raw) off = Some (off - of_nat (del_sum (before off raw)))"
proof (cases "before off raw = []")
  case True
  then show ?thesis
    using before_point [OF assms] by (simp add: input_to_output_offset_def deltas_new_def)
next
  case False
  then obtain d where "delta_at (push_deltas 0 raw) (length (before off raw) - 1) = Some d"
      "cumulative_deleted d = of_nat (del_sum (before off raw))"
    by (rule before_last)
  moreover from this(1) have "push_deltas 0 raw \<noteq> []"
    by (metis delta_at_def list.size(3) not_less_zero option.distinct(1))
  ultimately show ?thesis
    using before_point [OF assms] False by (simp add: input_to_output_offset_def deltas_new_def)
qed

section \<open>Offsets are ranks\<close>

lemma deleted_before:
  assumes "raw_ok n raw" "boundary raw (unat off)"
  shows "deleted (before off raw) \<subseteq> {..<unat off}"
    "{..<unat off} - deleted raw = {..<unat off} - deleted (before off raw)"
proof -
  have b: "boundary (before off raw) (unat off)"
    using assms(2) set_takeWhileD by (fastforce simp: boundary_def)
  show "deleted (before off raw) \<subseteq> {..<unat off}"
    using b by (fastforce simp: boundary_def deleted_def word_less_nat_alt dest: set_takeWhileD)
  have "{..<unat off} \<inter> deleted (dropWhile (\<lambda>x. fst x < off) raw) = {}"
    using dropWhile_key_ge [OF raw_ok_sorted(1) [OF assms(1)], of _ off]
    by (fastforce simp: deleted_def word_le_nat_alt)
  moreover have "deleted raw = deleted (before off raw) \<union> deleted (dropWhile (\<lambda>x. fst x < off) raw)"
    by (simp flip: deleted_simps(3))
  ultimately show "{..<unat off} - deleted raw = {..<unat off} - deleted (before off raw)"
    by blast
qed

lemma rank_before:
  assumes "raw_ok n raw" "boundary raw (unat off)"
  shows "card ({..<unat off} - deleted raw) + del_sum (before off raw) = unat off"
proof -
  have ok: "raw_ok n (before off raw)"
    using raw_ok_take [OF assms(1), of "length (before off raw)"] by (simp only: takeWhile_take)
  have "card (deleted (before off raw)) \<le> unat off"
    using card_mono [OF _ deleted_before(1) [OF assms]] by simp
  then show ?thesis
    using card_Diff_subset [OF finite_deleted deleted_before(1) [OF assms]] card_deleted [OF ok]
      deleted_before(2) [OF assms] by simp
qed

lemma input_to_output_rank:
  assumes "raw_ok n raw" "boundary raw (unat off)"
  shows "input_to_output_offset (deltas_new raw) off =
    Some (of_nat (card ({..<unat off} - deleted raw)))"
proof -
  have "off = of_nat (card ({..<unat off} - deleted raw) + del_sum (before off raw))"
    by (simp only: rank_before [OF assms] of_nat_unat ucast_id)
  then have "off = of_nat (card ({..<unat off} - deleted raw)) + of_nat (del_sum (before off raw))"
    by (simp only: of_nat_add)
  then have "off - of_nat (del_sum (before off raw)) = of_nat (card ({..<unat off} - deleted raw))"
    by (metis add_diff_cancel_right')
  then show ?thesis
    using input_to_output_deltas [OF raw_ok_sorted(1) [OF assms(1)]] by simp
qed

section \<open>The inverse translation\<close>

text \<open>Deletions between two entries fit between their offsets.\<close>

lemma gap_sum:
  assumes "raw_ok n raw" "k \<le> l" "l < length raw"
  shows "del_sum (take l raw) + unat (fst (raw ! k)) \<le> del_sum (take k raw) + unat (fst (raw ! l))"
  using assms(2,3)
proof (induction l rule: dec_induct)
  case (step l)
  have "unat (fst (raw ! l)) + unat (snd (raw ! l)) \<le> unat (fst (raw ! Suc l))"
    using assms(1) step.prems
    by (auto simp: raw_ok_def case_prod_beta dest: sorted_wrt_nth_less [of _ raw l "Suc l"])
  moreover have "del_sum (take (Suc l) raw) = del_sum (take l raw) + unat (snd (raw ! l))"
    using step.prems by (cases "raw ! l") (simp add: take_Suc_conv_app_nth)
  ultimately show ?case
    using step by simp
qed simp

lemma del_sum_take_le:
  assumes "raw_ok n raw" "k < length raw"
  shows "del_sum (take k raw) \<le> unat (fst (raw ! k))"
proof -
  have "unat (fst (raw ! i)) + unat (snd (raw ! i)) \<le> unat (fst (raw ! k))" if "i < k" for i
    using assms that
    by (auto simp: raw_ok_def case_prod_beta dest: sorted_wrt_nth_less [of _ raw i k])
  moreover have "unat (fst (raw ! k)) < 2 ^ 63"
    using assms nth_mem [OF assms(2)] by (cases "raw ! k") (auto simp: raw_ok_def dest!: bspec)
  moreover from calculation(1) have "unat (fst x) + unat (snd x) \<le> unat (fst (raw ! k))"
    if "x \<in> set (take k raw)" for x
    using that by (auto simp: in_set_conv_nth simp del: split_paired_All)
  ultimately have "raw_ok (unat (fst (raw ! k))) (take k raw)"
    using raw_ok_take [OF assms(1), of k] unfolding raw_ok_def case_prod_beta by blast
  then show ?thesis
    by (rule del_sum_le)
qed

text \<open>The output offset the first byte behind a deletion has.\<close>

lemma delta_output_end:
  assumes "raw_ok n raw" "k < length raw"
  shows "(let d = push_deltas 0 raw ! k
          in input_offset d + ucast (bytes_deleted d) - cumulative_deleted d)
    = of_nat (unat (fst (raw ! k)) - del_sum (take k raw))"
proof -
  have "del_sum (take (Suc k) raw) = del_sum (take k raw) + unat (snd (raw ! k))"
    using assms(2) by (cases "raw ! k") (simp add: take_Suc_conv_app_nth)
  then have "cumulative_deleted (push_deltas 0 raw ! k)
      = of_nat (del_sum (take k raw)) + ucast (snd (raw ! k))"
    using assms(2) by (simp add: push_deltas_nth)
  moreover have "of_nat (unat (fst (raw ! k)) - del_sum (take k raw))
      = fst (raw ! k) - (of_nat (del_sum (take k raw)) :: u64)"
    using del_sum_take_le [OF assms] by (simp add: of_nat_diff)
  ultimately show ?thesis
    using assms(2) by (simp add: Let_def push_deltas_nth)
qed

lemma delta_end_le_iff:
  assumes "raw_ok n raw" "k < length raw"
  shows "(let d = push_deltas 0 raw ! k
          in input_offset d + ucast (bytes_deleted d) - cumulative_deleted d \<le> off)
    \<longleftrightarrow> unat (fst (raw ! k)) - del_sum (take k raw) \<le> unat off"
proof -
  have "unat (fst (raw ! k)) - del_sum (take k raw) < 2 ^ 64"
    using unat_u64_less [of "fst (raw ! k)"] by linarith
  then show ?thesis
    using delta_output_end [OF assms] by (simp add: Let_def word_le_nat_alt unat_of_nat)
qed

lemma delta_ends_partitioned:
  assumes "raw_ok n raw"
  shows "partitioned (\<lambda>d. input_offset d + ucast (bytes_deleted d) - cumulative_deleted d \<le> off)
    (push_deltas 0 raw)"
  unfolding partitioned_def sorted_wrt_iff_nth_less
proof (intro allI impI)
  fix i j
  assume "i < j" "j < length (push_deltas 0 raw)"
    and le: "input_offset (push_deltas 0 raw ! j) + ucast (bytes_deleted (push_deltas 0 raw ! j))
      - cumulative_deleted (push_deltas 0 raw ! j) \<le> off"
  then have ij: "i < length raw" "j < length raw" "i \<le> j"
    by auto
  have "unat (fst (raw ! i)) - del_sum (take i raw) \<le> unat off"
    using gap_sum [OF assms ij(3,2)] del_sum_take_le [OF assms ij(1)] le
      delta_end_le_iff [OF assms ij(2), of off] by (simp add: Let_def)
  then show "input_offset (push_deltas 0 raw ! i) + ucast (bytes_deleted (push_deltas 0 raw ! i))
      - cumulative_deleted (push_deltas 0 raw ! i) \<le> off"
    using delta_end_le_iff [OF assms ij(1), of off] by (simp add: Let_def)
qed

text \<open>The offset of the first deletion at or behind a surviving position lies behind it.\<close>

lemma survivor_between:
  assumes "raw_ok n raw" "unat off \<notin> deleted raw" "i < length raw"
  shows "i < length (before off raw) \<Longrightarrow> unat (fst (raw ! i)) + unat (snd (raw ! i)) \<le> unat off"
    and "length (before off raw) \<le> i \<Longrightarrow> unat off < unat (fst (raw ! i))"
proof -
  have mem: "raw ! i \<in> set raw"
    using assms(3) by simp
  have b: "unat off \<le> unat (fst (raw ! i)) \<or> unat (fst (raw ! i)) + unat (snd (raw ! i)) \<le> unat off"
    using survivor_boundary [OF assms(2)] mem by (auto simp: boundary_def)
  show "unat (fst (raw ! i)) + unat (snd (raw ! i)) \<le> unat off" if "i < length (before off raw)"
    using b nth_length_takeWhile that takeWhile_nth [OF that] nth_mem [OF that]
    by (auto simp: word_less_nat_alt dest: set_takeWhileD)
  show "unat off < unat (fst (raw ! i))" if "length (before off raw) \<le> i"
  proof -
    have "raw ! i = dropWhile (\<lambda>x. fst x < off) raw ! (i - length (before off raw))"
      using that assms(3) by (simp add: dropWhile_eq_drop)
    moreover have "i - length (before off raw) < length (dropWhile (\<lambda>x. fst x < off) raw)"
      using that assms(3) by (simp add: dropWhile_eq_drop)
    ultimately have "raw ! i \<in> set (dropWhile (\<lambda>x. fst x < off) raw)"
      by simp
    then have "unat off \<le> unat (fst (raw ! i))"
      using dropWhile_key_ge [OF raw_ok_sorted(1) [OF assms(1)]] by (simp add: word_le_nat_alt)
    moreover have "unat off \<noteq> unat (fst (raw ! i))"
      using assms(1,2) mem by (auto simp: raw_ok_def deleted_def dest!: bspec)
    ultimately show ?thesis by simp
  qed
qed

lemma output_to_input_survivor:
  assumes "raw_ok n raw" "unat off \<notin> deleted raw"
  shows "output_to_input_offset (deltas_new raw) (off - of_nat (del_sum (before off raw))) = Some off"
proof -
  define k where "k = length (before off raw)"
  define j where "j = off - of_nat (del_sum (before off raw))"
  have tk: "take k raw = before off raw"
    by (simp add: k_def takeWhile_take)
  have sum: "del_sum (take k raw) \<le> unat off"
    using rank_before [OF assms(1) survivor_boundary [OF assms(2)]] tk by simp
  then have j: "unat j = unat off - del_sum (take k raw)"
    using unat_u64_less [of off] by (simp add: j_def tk unat_sub word_le_nat_alt unat_of_nat)
  let ?P = "\<lambda>d. input_offset d + ucast (bytes_deleted d) - cumulative_deleted d \<le> j"
  have lo: "?P (push_deltas 0 raw ! i)" if "i < k" for i
  proof -
    have "k - 1 < length raw" "i \<le> k - 1"
      using that length_takeWhile_le [of "\<lambda>x. fst x < off" raw] by (auto simp: k_def)
    then have "del_sum (take (k - 1) raw) + unat (fst (raw ! i))
        \<le> del_sum (take i raw) + unat (fst (raw ! (k - 1)))"
      using gap_sum [OF assms(1)] by blast
    moreover have "unat (fst (raw ! (k - 1))) + unat (snd (raw ! (k - 1))) \<le> unat off"
      using survivor_between(1) [OF assms \<open>k - 1 < length raw\<close>] that by (simp add: k_def)
    moreover have "del_sum (take k raw) = del_sum (take (k - 1) raw) + unat (snd (raw ! (k - 1)))"
      using that \<open>k - 1 < length raw\<close> take_Suc_conv_app_nth [of "k - 1" raw]
      by (cases "raw ! (k - 1)") simp
    ultimately have "unat (fst (raw ! i)) - del_sum (take i raw) \<le> unat j"
      using j sum by arith
    then show ?thesis
      using delta_end_le_iff [OF assms(1), of i j] \<open>k - 1 < length raw\<close> \<open>i \<le> k - 1\<close>
      by (simp add: Let_def)
  qed
  have hi: "\<not> ?P (push_deltas 0 raw ! i)" if "k \<le> i" "i < length raw" for i
    using gap_sum [OF assms(1) that] delta_end_le_iff [OF assms(1) that(2), of j] j sum
      survivor_between(2) [OF assms, of k] that by (auto simp: k_def Let_def)
  have "takeWhile ?P (push_deltas 0 raw) = take k (push_deltas 0 raw)"
    using lo hi by (intro takeWhile_eq_take_P_nth) auto
  moreover have "k \<le> length raw"
    by (simp add: k_def length_takeWhile_le)
  ultimately have p: "partition_point ?P (push_deltas 0 raw) = Some k"
    using partition_point_takeWhile [OF delta_ends_partitioned [OF assms(1)]] by simp
  have off: "j + of_nat (del_sum (take k raw)) = off"
    by (simp add: j_def tk)
  show ?thesis
  proof (cases "k = 0")
    case True
    then show ?thesis
      using p off by (simp add: output_to_input_offset_def deltas_new_def j_def [symmetric])
  next
    case False
    then have "k - 1 < length raw" "push_deltas 0 raw \<noteq> []"
      using \<open>k \<le> length raw\<close> by (auto simp flip: length_0_conv)
    then show ?thesis
      using p off False push_deltas_nth [of "k - 1" raw 0]
      by (simp add: output_to_input_offset_def deltas_new_def delta_at_def j_def [symmetric])
  qed
qed

section \<open>The cursor agrees with the search\<close>

definition cursor_at :: "raw_delta list \<Rightarrow> nat \<Rightarrow> relax_cursor" where
  "cursor_at raw k = \<lparr>cursor_deltas = push_deltas 0 raw, index = k,
     current_cumulative = of_nat (del_sum (take k raw))\<rparr>"

lemma cursor_start: "cursor (deltas_new raw) = cursor_at raw 0"
  by (simp add: cursor_def cursor_at_def deltas_new_def)

lemma advance_cursor_at:
  assumes "k \<le> length (before off raw)"
  shows "advance off (cursor_at raw k) = cursor_at raw (length (before off raw))"
  using assms
proof (induction k rule: inc_induct)
  case base
  show ?case
  proof (cases "length (before off raw) < length raw")
    case True
    then have "\<not> fst (raw ! length (before off raw)) < off"
      using nth_length_takeWhile by blast
    then show ?thesis
      using True by (subst advance.simps) (simp add: cursor_at_def push_deltas_nth)
  qed (subst advance.simps, simp add: cursor_at_def)
next
  case (step k)
  then have k: "k < length raw"
    using length_takeWhile_le [of "\<lambda>x. fst x < off" raw] by simp
  have "fst (raw ! k) < off"
    using step.hyps takeWhile_nth [of k "\<lambda>x. fst x < off" raw] nth_mem [of k "before off raw"]
    by (auto dest: set_takeWhileD)
  then have "advance off (cursor_at raw k) = advance off (cursor_at raw (Suc k))"
    using k by (subst advance.simps) (simp add: cursor_at_def push_deltas_nth)
  then show ?case
    using step.IH by simp
qed

lemma length_takeWhile_mono:
  "(\<And>x. P x \<Longrightarrow> Q x) \<Longrightarrow> length (takeWhile P xs) \<le> length (takeWhile Q xs)"
  by (induction xs) auto

lemma translate_all_cursor_at:
  assumes "sorted (map fst raw)" "sorted offs" "\<forall>off \<in> set offs. k \<le> length (before off raw)"
  shows "map Some (translate_all offs (cursor_at raw k)) =
    map (input_to_output_offset (deltas_new raw)) offs"
  using assms(2,3)
proof (induction offs arbitrary: k)
  case (Cons off offs)
  let ?k = "length (before off raw)"
  have adv: "advance off (cursor_at raw k) = cursor_at raw ?k"
    using Cons.prems by (intro advance_cursor_at) simp
  have "\<forall>off' \<in> set offs. ?k \<le> length (before off' raw)"
    using Cons.prems(1) by (auto intro!: length_takeWhile_mono)
  then have "map Some (translate_all offs (cursor_at raw ?k)) =
      map (input_to_output_offset (deltas_new raw)) offs"
    using Cons by simp
  then show ?case
    using adv input_to_output_deltas [OF assms(1)]
    by (simp add: translate_def cursor_at_def takeWhile_take)
qed simp

section \<open>The copy keeps the surviving bytes\<close>

fun kept :: "nat \<Rightarrow> raw_delta list \<Rightarrow> u8 list \<Rightarrow> u8 list" where
  "kept p [] xs = drop p xs"
| "kept p ((off, m) # raw) xs =
     take (unat off - p) (drop p xs) @ kept (unat off + unat m) raw xs"

lemma nths_none: "\<forall>i < length xs. i \<notin> A \<Longrightarrow> nths xs A = []"
  by (induction xs arbitrary: A) (auto simp: nths_Cons)

lemma kept_nths:
  assumes "raw_ok (length xs) raw" "\<forall>x \<in> set raw. p \<le> unat (fst x)" "p \<le> length xs"
  shows "kept p raw xs = nths (drop p xs) {i. i + p \<notin> deleted raw}"
  using assms
proof (induction p raw xs rule: kept.induct)
  case (1 p xs)
  then show ?case
    by (simp add: nths_all)
next
  case (2 p off m raw xs)
  have b: "p \<le> unat off" "unat off + unat m \<le> length xs"
      and rest: "\<forall>x \<in> set raw. unat off + unat m \<le> unat (fst x)" "raw_ok (length xs) raw"
    using "2.prems" by (auto simp: raw_ok_Cons)
  have notin: "i \<notin> deleted raw" if "i < unat off + unat m" for i
    using rest(1) that by (fastforce simp: deleted_def)
  have split: "drop p xs = take (unat off - p) (drop p xs) @ take (unat m) (drop (unat off) xs)
      @ drop (unat off + unat m) xs"
  proof -
    have "drop p xs = take (unat off - p) (drop p xs) @ drop (unat off) xs"
      using b(1) append_take_drop_id [of "unat off - p" "drop p xs"] by simp
    also have "drop (unat off) xs
        = take (unat m) (drop (unat off) xs) @ drop (unat off + unat m) xs"
      using append_take_drop_id [of "unat m" "drop (unat off) xs"] by (simp add: add.commute)
    finally show ?thesis .
  qed
  let ?A = "{i. i + p \<notin> deleted ((off, m) # raw)}"
  have len: "length (take (unat off - p) (drop p xs)) = unat off - p"
      "length (take (unat m) (drop (unat off) xs)) = unat m"
    using b by auto
  have "nths (take (unat off - p) (drop p xs)) ?A = take (unat off - p) (drop p xs)"
    using len(1) notin b by (intro nths_all) auto
  moreover have "nths (take (unat m) (drop (unat off) xs)) {j. j + (unat off - p) \<in> ?A} = []"
    using b(1) len(2) by (intro nths_none) auto
  moreover have "{j. j + unat m \<in> {j. j + (unat off - p) \<in> ?A}}
      = {i. i + (unat off + unat m) \<notin> deleted raw}"
    using b(1) by (auto simp: ac_simps)
  ultimately have "nths (drop p xs) ?A = take (unat off - p) (drop p xs)
      @ nths (drop (unat off + unat m) xs) {i. i + (unat off + unat m) \<notin> deleted raw}"
    using arg_cong [OF split, of "\<lambda>ys. nths ys ?A"] len by (simp add: nths_append)
  then show ?case
    using "2.IH" [OF rest(2,1) b(2)] by simp
qed

lemma length_kept:
  assumes "raw_ok (length xs) raw" "\<forall>x \<in> set raw. p \<le> unat (fst x)" "p \<le> length xs"
  shows "length (kept p raw xs) + del_sum raw + p = length xs"
  using assms by (induction p raw xs rule: kept.induct) (auto simp: raw_ok_Cons)

lemma unat_add_le:
  fixes a b :: u64
  assumes "unat a + unat b \<le> n" "n < 2 ^ 63"
  shows "unat (a + b) = unat a + unat b"
  using assms by (simp add: unat_word_ariths)

text \<open>One step of the loop: the bytes up to the deletion are appended to what has been written.\<close>

lemma copy_run_eq:
  fixes p q :: u64
  assumes "unat p \<le> unat off" "unat off \<le> length xs" "unat q + (unat off - unat p) \<le> length out"
    and "length out < 2 ^ 63"
  obtains out' where "copy_run xs p off out q = Some (out', q + (off - p))"
    "length out' = length out" "unat (q + (off - p)) = unat q + (unat off - unat p)"
    "take (unat (q + (off - p))) out' = take (unat q) out @ take (unat off - unat p) (drop (unat p) xs)"
proof (cases "p = off")
  case True
  then show ?thesis
    using that [of out] by (simp add: copy_run_def)
next
  case False
  have sub: "unat (off - p) = unat off - unat p"
    using assms(1) by (simp add: unat_sub word_le_nat_alt)
  then have add: "unat (q + (off - p)) = unat q + (unat off - unat p)"
    using unat_add_le [of q "off - p"] assms(3,4) by simp
  let ?src = "take (unat off - unat p) (drop (unat p) xs)"
  have len: "length ?src = unat off - unat p"
    using assms(2) by simp
  have "copy_from_slice out q (q + (off - p)) ?src = Some (splice (unat q) ?src out)"
    using add len assms(3) by (simp add: copy_from_slice_def)
  moreover have "take (unat (q + (off - p))) (splice (unat q) ?src out) = take (unat q) out @ ?src"
    using add len assms(3) by (simp add: splice_def)
  ultimately show ?thesis
    using that [of "splice (unat q) ?src out"] add len assms(1-3) False
    by (simp add: copy_run_def Let_def slice_def word_gt_0)
qed

lemma copy_kept_eq:
  assumes "raw_ok (length xs) raw" "\<forall>x \<in> set raw. unat p \<le> unat (fst x)" "unat p \<le> length xs"
    and "unat q + length (kept (unat p) raw xs) \<le> length out" "length out < 2 ^ 63"
  shows "\<exists>out' p' q'. copy_kept xs (push_deltas r raw) out p q = Some (out', p', q')
    \<and> unat p' \<le> length xs \<and> length out' = length out
    \<and> take (unat q') out' @ drop (unat p') xs = take (unat q) out @ kept (unat p) raw xs
    \<and> unat q' + (length xs - unat p') = unat q + length (kept (unat p) raw xs)"
  using assms
proof (induction raw arbitrary: r p q out)
  case (Cons x raw)
  obtain off m where x: "x = (off, m)"
    by (cases x)
  have b: "unat p \<le> unat off" "unat off + unat m \<le> length xs" "length xs < 2 ^ 63"
      and rest: "\<forall>y \<in> set raw. unat off + unat m \<le> unat (fst y)" "raw_ok (length xs) raw"
    using Cons.prems(1,2) by (auto simp: x raw_ok_Cons raw_ok_def)
  have "unat off + unat (ucast m :: u64) \<le> length xs"
    using b(2) by simp
  then have p': "unat (off + ucast m) = unat off + unat m"
    using unat_add_le [OF _ b(3)] by simp
  have room: "unat q + (unat off - unat p) \<le> length out"
    using Cons.prems(4) b by (simp add: x)
  obtain out' where step: "copy_run xs p off out q = Some (out', q + (off - p))"
    and out': "length out' = length out" "unat (q + (off - p)) = unat q + (unat off - unat p)"
      "take (unat (q + (off - p))) out' = take (unat q) out @ take (unat off - unat p) (drop (unat p) xs)"
    using copy_run_eq [OF b(1) _ room Cons.prems(5), of xs] b(2) by auto
  have "copy_kept xs (push_deltas r (x # raw)) out p q =
      copy_kept xs (push_deltas (r + ucast m) raw) out' (off + ucast m) (q + (off - p))"
    using step by (simp add: x Let_def)
  moreover have "\<exists>out'' p' q'. copy_kept xs (push_deltas (r + ucast m) raw) out' (off + ucast m)
        (q + (off - p)) = Some (out'', p', q')
      \<and> unat p' \<le> length xs \<and> length out'' = length out'
      \<and> take (unat q') out'' @ drop (unat p') xs
        = take (unat (q + (off - p))) out' @ kept (unat (off + ucast m)) raw xs
      \<and> unat q' + (length xs - unat p')
        = unat (q + (off - p)) + length (kept (unat (off + ucast m)) raw xs)"
    using Cons.prems(4,5) b rest out' p'
    by (intro Cons.IH) (auto simp: x)
  ultimately show ?case
    using out' p' b by (auto simp: x)
qed auto

lemma write_compacted_eq:
  assumes "raw_ok (length xs) raw" "length xs - del_sum raw \<le> length out" "length out < 2 ^ 63"
    and "unat eff = length xs - del_sum raw"
  shows "write_compacted xs out eff (deltas_new raw) = Some (nths xs (- deleted raw))"
proof -
  have len: "length (kept 0 raw xs) = length xs - del_sum raw"
    using length_kept [OF assms(1), of 0] by simp
  obtain out' p' q' where c: "copy_kept xs (push_deltas 0 raw) out 0 0 = Some (out', p', q')"
      "unat p' \<le> length xs" "length out' = length out"
      "take (unat q') out' @ drop (unat p') xs = kept 0 raw xs"
      "unat q' + (length xs - unat p') = length xs - del_sum raw"
    using copy_kept_eq [OF assms(1), of 0 0 out 0] assms(2,3) len by auto
  define e :: u64 where "e = of_nat (length xs)"
  have e: "unat e = length xs"
    using assms(1) by (simp add: e_def raw_ok_def unat_of_nat)
  have room: "unat q' + (unat e - unat p') \<le> length out'"
    using c(3,5) assms(2) e by simp
  obtain out'' where step: "copy_run xs p' e out' q' = Some (out'', q' + (e - p'))"
    and out'': "length out'' = length out'" "unat (q' + (e - p')) = unat q' + (unat e - unat p')"
      "take (unat (q' + (e - p'))) out'' = take (unat q') out' @ take (unat e - unat p') (drop (unat p') xs)"
    using copy_run_eq [of p' e xs q' out'] c(2,3) e room assms(3) by auto
  have kept: "take (unat (q' + (e - p'))) out'' = kept 0 raw xs"
    using out''(3) c(4) e by simp
  have pos: "unat (q' + (e - p')) = length (kept 0 raw xs)" "length (kept 0 raw xs) \<le> length out''"
    using out''(1,2) c(3,5) e len assms(2) by simp_all
  have "write_compacted xs out eff (deltas_new raw) =
      slice (kept 0 raw xs @ replicate (length out'' - unat (q' + (e - p'))) 0) 0 eff"
    using c(1) step pos kept
    by (simp add: write_compacted_def deltas_new_def Let_def e_def [symmetric] slice_from_def)
  also have "\<dots> = Some (kept 0 raw xs)"
    using assms(4) len by (simp add: slice_def)
  also have "kept 0 raw xs = nths xs (- deleted raw)"
    using kept_nths [OF assms(1), of 0] by (simp add: Compl_eq)
  finally show ?thesis .
qed

section \<open>Queries\<close>

lemma has_delta_at_iff:
  assumes "sorted (map fst raw)"
  shows "has_delta_at (deltas_new raw) off = Some (off \<in> fst ` set raw)"
proof -
  have s: "sorted (map input_offset (push_deltas 0 raw))"
    using assms by simp
  have "input_offset ` set (push_deltas 0 raw) = fst ` set raw"
    by (metis map_input_offset set_map)
  moreover obtain r where r: "binary_search_by_key off input_offset (push_deltas 0 raw) = Some r"
    using binary_search_by_defined unfolding binary_search_by_key_def by blast
  ultimately have "off \<in> fst ` set raw \<longleftrightarrow> (\<exists>i. r = Inr i)"
    using binary_search_by_key_iff [OF s, of off] by simp
  then show ?thesis
    using r by (cases r) (simp_all add: has_delta_at_def deltas_new_def)
qed

lemma delta_bytes_at_eq:
  assumes "sorted (map fst raw)" "distinct (map fst raw)"
  shows "delta_bytes_at (deltas_new raw) off = Some (case map_of raw off of None \<Rightarrow> 0 | Some m \<Rightarrow> m)"
proof (cases "off \<in> fst ` set raw")
  case True
  then obtain i where i: "i < length raw" "fst (raw ! i) = off"
    by (auto simp: in_set_conv_nth)
  then have "binary_search_by_key off input_offset (push_deltas 0 raw) = Some (Inr i)"
    using binary_search_by_key_at [of input_offset "push_deltas 0 raw" i] assms
    by (simp add: push_deltas_nth)
  moreover have "map_of raw off = Some (snd (raw ! i))"
    using assms(2) i by (metis map_of_is_SomeI nth_mem prod.collapse)
  ultimately show ?thesis
    using i by (simp add: delta_bytes_at_def deltas_new_def delta_at_def push_deltas_nth)
next
  case False
  have s: "sorted (map input_offset (push_deltas 0 raw))"
    using assms by simp
  have "input_offset ` set (push_deltas 0 raw) = fst ` set raw"
    by (metis map_input_offset set_map)
  then obtain j where "binary_search_by_key off input_offset (push_deltas 0 raw) = Some (Inl j)"
    using binary_search_by_key_iff [OF s, of off] binary_search_by_defined False
    unfolding binary_search_by_key_def by (metis old.sum.exhaust)
  moreover have "map_of raw off = None"
    using False by (simp add: map_of_eq_None_iff)
  ultimately show ?thesis
    by (simp add: delta_bytes_at_def deltas_new_def)
qed

lemma raw_ok_nth:
  assumes "raw_ok n raw" "i < j" "j < length raw"
  shows "unat (fst (raw ! i)) + unat (snd (raw ! i)) \<le> unat (fst (raw ! j))"
  using assms by (auto simp: raw_ok_def case_prod_beta dest: sorted_wrt_nth_less [of _ raw i j])

lemma raw_ok_bound:
  assumes "raw_ok n raw" "x \<in> set raw"
  shows "0 < unat (snd x)" "unat (fst x) + unat (snd x) \<le> n" "n < 2 ^ 63"
  using assms by (auto simp: raw_ok_def)

lemma deletes_input_offset_iff:
  assumes "raw_ok n raw"
  shows "deletes_input_offset (deltas_new raw) off = Some (unat off \<in> deleted raw)"
proof -
  define k where "k = length (takeWhile (\<lambda>x. fst x \<le> off) raw)"
  have sorted: "sorted (map fst raw)"
    using raw_ok_sorted [OF assms] by blast
  then have p: "partition_point (\<lambda>d. input_offset d \<le> off) (push_deltas 0 raw) = Some k"
    using partition_point_takeWhile [OF partitioned_key(2) [of input_offset "push_deltas 0 raw" off]]
      length_takeWhile_map [of input_offset "push_deltas 0 raw" fst raw "\<lambda>x. x \<le> off"]
    by (simp add: k_def)
  have le: "k \<le> length raw"
    by (simp add: k_def length_takeWhile_le)
  have hi: "unat off < unat (fst (raw ! i))" if "k \<le> i" "i < length raw" for i
  proof -
    have "\<not> fst (raw ! k) \<le> off"
      using that nth_length_takeWhile [of "\<lambda>x. fst x \<le> off" raw] by (simp add: k_def)
    moreover have "fst (raw ! k) \<le> fst (raw ! i)"
      using sorted_nth_mono [OF sorted that(1)] that by simp
    ultimately show ?thesis
      by (simp add: word_le_nat_alt)
  qed
  have mem: "unat off \<in> deleted raw \<longleftrightarrow>
      (\<exists>i < length raw. unat (fst (raw ! i)) \<le> unat off
        \<and> unat off < unat (fst (raw ! i)) + unat (snd (raw ! i)))"
    by (force simp: deleted_def in_set_conv_nth case_prod_beta)
  show ?thesis
  proof (cases "k = 0")
    case True
    then have "unat off \<notin> deleted raw"
      using hi mem by fastforce
    then show ?thesis
      using p True by (simp add: deletes_input_offset_def deltas_new_def)
  next
    case False
    let ?x = "raw ! (k - 1)"
    have last: "k - 1 < length raw" "fst ?x \<le> off"
    proof -
      show "k - 1 < length raw"
        using False le by simp
      have "k - 1 < length (takeWhile (\<lambda>x. fst x \<le> off) raw)"
        using False by (simp add: k_def)
      then have "?x \<in> set (takeWhile (\<lambda>x. fst x \<le> off) raw)"
        by (metis nth_mem takeWhile_nth)
      then show "fst ?x \<le> off"
        by (rule set_takeWhileD [THEN conjunct2])
    qed
    have only: "i = k - 1" if "i < length raw" "unat (fst (raw ! i)) \<le> unat off"
        "unat off < unat (fst (raw ! i)) + unat (snd (raw ! i))" for i
      using raw_ok_nth [OF assms, of i "k - 1"] hi [of i] that last
      by (cases "i < k - 1"; cases "k \<le> i") (auto simp: word_le_nat_alt)
    have "unat off \<in> deleted raw \<longleftrightarrow> unat off < unat (fst ?x) + unat (snd ?x)"
    proof
      assume "unat off \<in> deleted raw"
      then show "unat off < unat (fst ?x) + unat (snd ?x)"
        using mem only by blast
    next
      assume "unat off < unat (fst ?x) + unat (snd ?x)"
      moreover have "unat (fst ?x) \<le> unat off"
        using last(2) by (simp add: word_le_nat_alt)
      ultimately show "unat off \<in> deleted raw"
        using mem last(1) by blast
    qed
    also have "\<dots> \<longleftrightarrow> off < fst ?x + ucast (snd ?x)"
      using unat_add_le [of "fst ?x" "ucast (snd ?x)" n] raw_ok_bound [OF assms nth_mem [OF last(1)]]
      by (simp add: word_less_nat_alt)
    finally show ?thesis
      using p False last by (simp add: deletes_input_offset_def deltas_new_def delta_at_def push_deltas_nth)
  qed
qed

section \<open>Merging\<close>

lemma raw_ok_iff_disjoint:
  "raw_ok n raw \<longleftrightarrow> n < 2 ^ 63 \<and> sorted (map fst raw) \<and> distinct raw
     \<and> (\<forall>x \<in> set raw. 0 < unat (snd x) \<and> unat (fst x) + unat (snd x) \<le> n)
     \<and> (\<forall>x \<in> set raw. \<forall>y \<in> set raw. x \<noteq> y \<longrightarrow> deleted [x] \<inter> deleted [y] = {})"
  (is "_ \<longleftrightarrow> ?R")
proof
  assume ok: "raw_ok n raw"
  have "deleted [x] \<inter> deleted [y] = {}" if "x \<in> set raw" "y \<in> set raw" "x \<noteq> y" for x y
  proof -
    obtain i j where ij: "i < length raw" "j < length raw" "x = raw ! i" "y = raw ! j" "i \<noteq> j"
      using \<open>x \<in> set raw\<close> \<open>y \<in> set raw\<close> \<open>x \<noteq> y\<close> by (metis in_set_conv_nth)
    then consider "unat (fst x) + unat (snd x) \<le> unat (fst y)" | "unat (fst y) + unat (snd y) \<le> unat (fst x)"
      using raw_ok_nth [OF ok] by (metis linorder_neqE_nat)
    then show ?thesis
      by cases (auto simp: deleted_def)
  qed
  moreover have "distinct raw"
    using raw_ok_sorted [OF ok] by (simp add: distinct_map)
  ultimately show ?R
    using ok raw_ok_sorted [OF ok] raw_ok_bound [OF ok] by (auto simp: raw_ok_def)
next
  assume r: ?R
  have "unat (fst (raw ! i)) + unat (snd (raw ! i)) \<le> unat (fst (raw ! j))" if "i < j" "j < length raw" for i j
  proof -
    have "raw ! i \<noteq> raw ! j" "raw ! i \<in> set raw" "raw ! j \<in> set raw"
      using r that by (auto simp: nth_eq_iff_index_eq)
    then have "deleted [raw ! i] \<inter> deleted [raw ! j] = {}" "0 < unat (snd (raw ! j))"
      using r by blast+
    moreover have "unat (fst (raw ! i)) \<le> unat (fst (raw ! j))"
      using r sorted_nth_mono [of "map fst raw" i j] that by (simp add: word_le_nat_alt)
    ultimately show ?thesis
      by (cases "raw ! i"; cases "raw ! j") (auto simp: disjoint_iff not_le)
  qed
  then show "raw_ok n raw"
    using r by (auto simp: raw_ok_def sorted_wrt_iff_nth_less case_prod_beta)
qed

lemma merge_additional_deltas:
  assumes "raw_ok n raw" "raw_ok n add" "deleted raw \<inter> deleted add = {}"
  shows "\<exists>raw'. merge_additional add (deltas_new raw) = deltas_new raw' \<and> raw_ok n raw'
    \<and> set raw' = set raw \<union> set add"
proof (cases "add = []")
  case True
  then show ?thesis
    using assms(1) by (auto simp: merge_additional_def)
next
  case False
  let ?raw = "sort_key fst (raw @ add)"
  have across: "deleted [x] \<inter> deleted [y] = {}" if "x \<in> set raw" "y \<in> set add" for x y
    using assms(3) that by (fastforce simp: deleted_def)
  have ne: "deleted [x] \<noteq> {}" if "x \<in> set raw \<union> set add" for x
    using raw_ok_bound(1) [OF assms(1)] raw_ok_bound(1) [OF assms(2)] that by (cases x) fastforce
  then have "set raw \<inter> set add = {}"
    using across by blast
  moreover have "deleted [x] \<inter> deleted [y] = {}"
    if "x \<in> set raw \<union> set add" "y \<in> set raw \<union> set add" "x \<noteq> y" for x y
    using that across [of x y] across [of y x] assms(1,2) unfolding raw_ok_iff_disjoint
    by (metis Int_commute Un_iff)
  ultimately have "raw_ok n ?raw"
    using assms(1,2) unfolding raw_ok_iff_disjoint by (simp del: deleted_simps) blast
  moreover have "merge_additional add (deltas_new raw) = deltas_new ?raw"
    using False by (simp add: merge_additional_def deltas_new_def push_deltas_raw Let_def)
  ultimately show ?thesis
    by (intro exI [of _ ?raw]) simp
qed

section \<open>Properties\<close>

lemma nths_rank:
  assumes "i < length xs" "i \<in> A"
  shows "card ({..<i} \<inter> A) < length (nths xs A)" "nths xs A ! card ({..<i} \<inter> A) = xs ! i"
proof -
  have pre: "length (nths (take i xs) A) = card ({..<i} \<inter> A)"
    using assms(1) by (auto simp: length_nths intro!: arg_cong [where f = card])
  have "nths xs A = nths (take i xs) A @ xs ! i # nths (drop (Suc i) xs) {j. Suc (j + i) \<in> A}"
    using assms id_take_nth_drop [OF assms(1)]
      nths_append [of "take i xs" "xs ! i # drop (Suc i) xs" A]
    by (simp add: nths_Cons)
  then show "card ({..<i} \<inter> A) < length (nths xs A)" "nths xs A ! card ({..<i} \<inter> A) = xs ! i"
    by (simp_all add: nth_append pre)
qed

lemma kept_at_rank:
  assumes "raw_ok (length xs) raw" "i < length xs" "i \<notin> deleted raw"
  shows "\<exists>j. input_to_output_offset (deltas_new raw) (of_nat i) = Some j
    \<and> unat j < length (nths xs (- deleted raw)) \<and> nths xs (- deleted raw) ! unat j = xs ! i"
proof -
  let ?r = "card ({..<i} - deleted raw)"
  have small: "unat (of_nat i :: u64) = i" "?r < 2 ^ 64"
    using assms(1,2) card_mono [of "{..<i}" "{..<i} - deleted raw"]
    by (auto simp: raw_ok_def unat_of_nat)
  then have "input_to_output_offset (deltas_new raw) (of_nat i) = Some (of_nat ?r)"
    using input_to_output_rank [OF assms(1), of "of_nat i"] survivor_boundary [OF assms(3)] by simp
  moreover have "unat (of_nat ?r :: u64) = ?r"
    using small(2) by (simp add: unat_of_nat)
  ultimately show ?thesis
    using nths_rank [OF assms(2), of "- deleted raw"] assms(3) by (simp add: Diff_eq)
qed

text \<open>The compacting copy of a section with well-formed deletions does not panic; it writes exactly
  the bytes outside the deletions, in order; and a surviving byte stands in the output at the offset
  that \<open>input_to_output_offset\<close> gives for it.\<close>

theorem compaction_matches_translation:
  assumes "raw_ok (length input_data) raw"
    and "length input_data - del_sum raw \<le> length out" "length out < 2 ^ 63"
    and "unat eff = length input_data - del_sum raw"
  shows "write_compacted input_data out eff (deltas_new raw) = Some (nths input_data (- deleted raw))
    \<and> (\<forall>i < length input_data. i \<notin> deleted raw \<longrightarrow>
        (\<exists>j. input_to_output_offset (deltas_new raw) (of_nat i) = Some j
          \<and> unat j < length (nths input_data (- deleted raw))
          \<and> nths input_data (- deleted raw) ! unat j = input_data ! i))"
  using write_compacted_eq [OF assms] kept_at_rank [OF assms(1)] by blast

theorem compaction_matches_translation_witness:
  "write_compacted [10, 11, 12, 13, 14, 15] [0, 0, 0, 0, 0] 4 (deltas_new [(2, 2)])
      = Some [10, 11, 14, 15]
    \<and> (\<exists>j. input_to_output_offset (deltas_new [(2, 2)]) (of_nat 4) = Some j
          \<and> [10, 11, 14, 15 :: u8] ! unat j = 14)"
proof -
  let ?in = "[10, 11, 12, 13, 14, 15 :: u8]" and ?raw = "[(2, 2)] :: raw_delta list"
  have del: "deleted ?raw = {2, 3}"
    by auto
  have "nths ?in (- deleted ?raw) = [10, 11, 14, 15]"
    by (simp add: del nths_Cons)
  with compaction_matches_translation [of ?in ?raw "[0, 0, 0, 0, 0]" 4] show ?thesis
    by (auto simp: raw_ok_def del dest: spec [of _ 4])
qed

text \<open>C29: A cursor that is asked for ascending offsets, as \<open>apply_relocations\<close> asks it, gives the
  translations of the binary search.\<close>

theorem cursor_translates_like_search:
  assumes "sorted (map fst raw)" "sorted offs"
  shows "map Some (translate_all offs (cursor (deltas_new raw)))
    = map (input_to_output_offset (deltas_new raw)) offs"
  using translate_all_cursor_at [OF assms, of 0] by (simp add: cursor_start)

theorem cursor_translates_like_search_witness:
  "map Some (translate_all [1, 4, 9] (cursor (deltas_new [(2, 2), (6, 1)])))
    = map (input_to_output_offset (deltas_new [(2, 2), (6, 1)])) [1, 4, 9]"
  using cursor_translates_like_search [of "[(2, 2), (6, 1)]" "[1, 4, 9]"] by simp

text \<open>C30: for a position that survives the deletions, translating it to the output and back gives the
  position.\<close>

theorem output_to_input_inverts:
  assumes "raw_ok n raw" "unat off \<notin> deleted raw"
  shows "\<exists>out. input_to_output_offset (deltas_new raw) off = Some out
    \<and> output_to_input_offset (deltas_new raw) out = Some off"
  using input_to_output_deltas [OF raw_ok_sorted(1) [OF assms(1)]] output_to_input_survivor [OF assms]
  by blast

theorem output_to_input_inverts_witness:
  "\<exists>out. input_to_output_offset (deltas_new [(2, 2), (6, 1)]) 5 = Some out
    \<and> output_to_input_offset (deltas_new [(2, 2), (6, 1)]) out = Some 5"
  using output_to_input_inverts [of 8 "[(2, 2), (6, 1)]" 5] by (simp add: raw_ok_def)

text \<open>Merging further deletions into a list whose deletions they do not overlap keeps the list
  well formed and deletes exactly the positions of both; the queries then answer for the union.\<close>

theorem merge_additional_deletes_union:
  assumes "raw_ok n raw" "raw_ok n add" "deleted raw \<inter> deleted add = {}"
  shows "\<exists>raw'. merge_additional add (deltas_new raw) = deltas_new raw' \<and> raw_ok n raw'
    \<and> (\<forall>off. deletes_input_offset (merge_additional add (deltas_new raw)) off
          = Some (unat off \<in> deleted raw \<union> deleted add)
        \<and> has_delta_at (merge_additional add (deltas_new raw)) off
          = Some (off \<in> fst ` set raw \<union> fst ` set add))"
proof -
  obtain raw' where m: "merge_additional add (deltas_new raw) = deltas_new raw'" "raw_ok n raw'"
      "set raw' = set raw \<union> set add"
    using merge_additional_deltas [OF assms] by blast
  then have "deleted raw' = deleted raw \<union> deleted add"
    by (auto simp: deleted_def)
  then show ?thesis
    using m deletes_input_offset_iff [OF m(2)] has_delta_at_iff [OF raw_ok_sorted(1) [OF m(2)]]
    by (auto simp: image_Un)
qed

theorem merge_additional_deletes_union_witness:
  "deletes_input_offset (merge_additional [(0, 1)] (deltas_new [(2, 2)])) 3 = Some True"
  using merge_additional_deletes_union [of 8 "[(2, 2)]" "[(0, 1)]"]
  by (auto simp: raw_ok_def dest: spec [of _ 3])

end
