(* ===== verification/Relax_Table.thy ===== *)
theory Relax_Table
  imports Relax_Deltas
begin

text \<open>
  The sparse table from section indices to deletion lists (\<open>RelaxDeltaMap\<close> of
  \<open>linker-utils/src/relaxation.rs\<close>): a vector sorted by section index that is looked up by binary
  search and filled either by appending (\<open>insert\<close>) or at the position a search gives
  (\<open>insert_sorted\<close>). The contract both ways of filling share is the locale \<open>delta_table\<close>; its two
  interpretations show that the table implements a finite map.
\<close>

section \<open>The sparse table\<close>

record relax_delta_map =
  entries :: "(nat \<times> section_relax_deltas) list"

definition map_new :: relax_delta_map where
  "map_new = \<lparr>entries = []\<rparr>"

definition map_insert :: "nat \<Rightarrow> section_relax_deltas \<Rightarrow> relax_delta_map \<Rightarrow> relax_delta_map option" where
  "map_insert section_index d m = Some \<lparr>entries = entries m @ [(section_index, d)]\<rparr>"

definition map_get :: "relax_delta_map \<Rightarrow> nat \<Rightarrow> section_relax_deltas option option" where
  "map_get m section_index = do {
     r \<leftarrow> binary_search_by_key section_index fst (entries m);
     (case r of Inl _ \<Rightarrow> Some None
      | Inr i \<Rightarrow> if i < length (entries m) then Some (Some (snd (entries m ! i))) else None)
   }"

text \<open>\<open>Vec::insert\<close> panics past the end.\<close>

definition vec_insert :: "nat \<Rightarrow> 'a \<Rightarrow> 'a list \<Rightarrow> 'a list option" where
  "vec_insert pos x xs = (if pos \<le> length xs then Some (take pos xs @ x # drop pos xs) else None)"

definition map_insert_sorted :: "nat \<Rightarrow> section_relax_deltas \<Rightarrow> relax_delta_map \<Rightarrow> relax_delta_map option" where
  "map_insert_sorted section_index d m = do {
     pos \<leftarrow> partition_point (\<lambda>(idx, _). idx < section_index) (entries m);
     es \<leftarrow> vec_insert pos (section_index, d) (entries m);
     Some \<lparr>entries = es\<rparr>
   }"

text \<open>What \<open>relaxation_scan_pass\<close> (\<open>layout.rs\<close>) does with the deletions a scan found in a section:
  merge them into the section's list through \<open>get_mut\<close>, or insert a new list.\<close>

definition map_record :: "nat \<Rightarrow> raw_delta list \<Rightarrow> relax_delta_map \<Rightarrow> relax_delta_map option" where
  "map_record sec_idx raw m = do {
     r \<leftarrow> binary_search_by_key sec_idx fst (entries m);
     (case r of
        Inr i \<Rightarrow>
          if i < length (entries m)
          then let (idx, existing) = entries m ! i
               in Some \<lparr>entries = (entries m)[i := (idx, merge_additional raw existing)]\<rparr>
          else None
      | Inl _ \<Rightarrow> map_insert_sorted sec_idx (deltas_new raw) m)
   }"

definition map_is_empty :: "relax_delta_map \<Rightarrow> bool" where
  "map_is_empty m \<longleftrightarrow> entries m = []"

section \<open>The table as a map\<close>

definition table_ok :: "relax_delta_map \<Rightarrow> bool" where
  "table_ok m \<longleftrightarrow> sorted_wrt (<) (map fst (entries m))"

definition table_lookup :: "relax_delta_map \<Rightarrow> nat \<Rightarrow> section_relax_deltas option" where
  "table_lookup m = map_of (entries m)"

lemma table_ok_keys: "table_ok m \<Longrightarrow> sorted (map fst (entries m)) \<and> distinct (map fst (entries m))"
  by (simp add: table_ok_def strict_sorted_iff)

lemma table_search:
  assumes "table_ok m"
  shows "(\<exists>i < length (entries m). binary_search_by_key k fst (entries m) = Some (Inr i)
      \<and> fst (entries m ! i) = k \<and> table_lookup m k = Some (snd (entries m ! i)))
    \<or> (\<exists>i. binary_search_by_key k fst (entries m) = Some (Inl i) \<and> table_lookup m k = None)"
proof (cases "k \<in> fst ` set (entries m)")
  case True
  then obtain i where i: "i < length (entries m)" "fst (entries m ! i) = k"
    by (auto simp: in_set_conv_nth)
  have "binary_search_by_key k fst (entries m) = Some (Inr i)"
    using binary_search_by_key_at [of fst "entries m" i] table_ok_keys [OF assms] i by simp
  moreover have "table_lookup m k = Some (snd (entries m ! i))"
    using table_ok_keys [OF assms] i unfolding table_lookup_def
    by (metis map_of_is_SomeI nth_mem prod.collapse)
  ultimately show ?thesis
    using i by blast
next
  case False
  then obtain i where "binary_search_by_key k fst (entries m) = Some (Inl i)"
    using binary_search_by_key_iff [of fst "entries m" k] table_ok_keys [OF assms]
      binary_search_by_defined unfolding binary_search_by_key_def by (metis old.sum.exhaust)
  then show ?thesis
    using False by (simp add: table_lookup_def map_of_eq_None_iff)
qed

lemma map_get_lookup: "table_ok m \<Longrightarrow> map_get m k = Some (table_lookup m k)"
  using table_search [of m k] by (auto simp: map_get_def)

text \<open>What the users of the table rely on, however it is filled.\<close>

locale delta_table =
  fixes empty :: 'm
    and ins :: "nat \<Rightarrow> 'v \<Rightarrow> 'm \<Rightarrow> 'm option"
    and get :: "'m \<Rightarrow> nat \<Rightarrow> 'v option option"
    and fresh :: "'m \<Rightarrow> nat \<Rightarrow> bool"
    and invar :: "'m \<Rightarrow> bool"
    and lookup :: "'m \<Rightarrow> nat \<Rightarrow> 'v option"
  assumes empty_ok: "invar empty" "lookup empty = Map.empty"
    and ins_ok: "invar m \<Longrightarrow> fresh m k \<Longrightarrow>
      \<exists>m'. ins k v m = Some m' \<and> invar m' \<and> lookup m' = (lookup m)(k \<mapsto> v)"
    and get_ok: "invar m \<Longrightarrow> get m k = Some (lookup m k)"
begin

lemma get_empty: "get empty k = Some None"
  using empty_ok get_ok by simp

lemma get_ins:
  assumes "invar m" "fresh m k"
  shows "\<exists>m'. ins k v m = Some m' \<and> invar m'
    \<and> (\<forall>j. get m' j = (if j = k then Some (Some v) else get m j))"
  using ins_ok [OF assms, of v] get_ok assms(1) by force

end

lemma strict_sorted_insert:
  fixes k :: "'a::linorder"
  assumes "sorted_wrt (<) (xs @ ys)" "\<forall>x \<in> set xs. x < k" "\<forall>y \<in> set ys. k < y"
  shows "sorted_wrt (<) (xs @ k # ys)"
  using assms by (simp add: sorted_wrt_append)

lemma map_of_insert:
  "k \<notin> fst ` set xs \<Longrightarrow> map_of (xs @ (k, d) # ys) = (map_of (xs @ ys))(k \<mapsto> d)"
  by (induction xs) (auto simp: fun_upd_twist)

lemma table_insert_sorted:
  assumes "table_ok m" "k \<notin> fst ` set (entries m)"
  shows "map_insert_sorted k d m =
    Some \<lparr>entries = takeWhile (\<lambda>e. fst e < k) (entries m) @ (k, d) # dropWhile (\<lambda>e. fst e < k) (entries m)\<rparr>"
proof -
  have "partition_point (\<lambda>e. fst e < k) (entries m) = Some (length (takeWhile (\<lambda>e. fst e < k) (entries m)))"
    using table_ok_keys [OF assms(1)] by (intro partition_point_takeWhile partitioned_key) simp
  then show ?thesis
    using length_takeWhile_le [of "\<lambda>e. fst e < k" "entries m"]
    by (simp add: map_insert_sorted_def case_prod_unfold vec_insert_def
        takeWhile_eq_take [symmetric] dropWhile_eq_drop)
qed

interpretation push: delta_table map_new map_insert map_get
  "\<lambda>m k. \<forall>j \<in> fst ` set (entries m). j < k" table_ok table_lookup
proof
  show "table_ok map_new" "table_lookup map_new = Map.empty"
    by (simp_all add: map_new_def table_ok_def table_lookup_def)
  fix m k and d :: section_relax_deltas
  assume "table_ok m" "\<forall>j \<in> fst ` set (entries m). j < k"
  moreover from this(2) have "k \<notin> fst ` set (entries m)"
    by blast
  ultimately show "\<exists>m'. map_insert k d m = Some m' \<and> table_ok m'
      \<and> table_lookup m' = (table_lookup m)(k \<mapsto> d)"
    using map_of_insert [of k "entries m" d "[]"]
    by (auto simp: map_insert_def table_ok_def table_lookup_def sorted_wrt_append)
next
  show "map_get m k = Some (table_lookup m k)" if "table_ok m" for m k
    using that by (rule map_get_lookup)
qed

interpretation sorted_table: delta_table map_new map_insert_sorted map_get
  "\<lambda>m k. k \<notin> fst ` set (entries m)" table_ok table_lookup
proof
  show "table_ok map_new" "table_lookup map_new = Map.empty"
    by (simp_all add: map_new_def table_ok_def table_lookup_def)
  fix m k and d :: section_relax_deltas
  assume ok: "table_ok m" and new: "k \<notin> fst ` set (entries m)"
  let ?lo = "takeWhile (\<lambda>e. fst e < k) (entries m)" and ?hi = "dropWhile (\<lambda>e. fst e < k) (entries m)"
  have hi: "\<forall>j \<in> set (map fst ?hi). k < j"
  proof
    fix j assume j: "j \<in> set (map fst ?hi)"
    then have "k \<le> j" "j \<in> fst ` set (entries m)"
      using dropWhile_key_ge [of fst "entries m" _ k] table_ok_keys [OF ok]
      by (auto dest: set_dropWhileD)
    with new show "k < j"
      by (cases "k = j") auto
  qed
  have lo: "\<forall>j \<in> set (map fst ?lo). j < k"
    by (auto dest: set_takeWhileD)
  have "sorted_wrt (<) (map fst ?lo @ map fst ?hi)"
    using ok by (simp only: table_ok_def takeWhile_dropWhile_id map_append [symmetric])
  from strict_sorted_insert [OF this lo hi]
  have "sorted_wrt (<) (map fst (?lo @ (k, d) # ?hi))"
    by (simp only: map_append list.map fst_conv)
  moreover have "map_of (?lo @ (k, d) # ?hi) = (map_of (entries m))(k \<mapsto> d)"
    using map_of_insert [of k ?lo d ?hi] new by (auto dest: set_takeWhileD)
  ultimately show "\<exists>m'. map_insert_sorted k d m = Some m' \<and> table_ok m'
      \<and> table_lookup m' = (table_lookup m)(k \<mapsto> d)"
    using table_insert_sorted [OF ok new] by (simp add: table_ok_def table_lookup_def)
next
  show "map_get m k = Some (table_lookup m k)" if "table_ok m" for m k
    using that by (rule map_get_lookup)
qed

section \<open>Properties\<close>

text \<open>Looking a section up after \<open>insert_sorted\<close> of a new section index gives the inserted list for
  that index and what the table held before for every other one; nothing panics, and the table stays
  sorted.\<close>

theorem insert_sorted_then_get:
  assumes "table_ok m" "k \<notin> fst ` set (entries m)"
  shows "\<exists>m'. map_insert_sorted k d m = Some m' \<and> table_ok m'
    \<and> (\<forall>j. map_get m' j = (if j = k then Some (Some d) else map_get m j))"
  using assms by (rule sorted_table.get_ins)

theorem insert_sorted_then_get_witness:
  "\<exists>m'. map_insert_sorted 3 (deltas_new [(4, 2)]) \<lparr>entries = [(1, deltas_new []), (5, deltas_new [])]\<rparr>
      = Some m' \<and> map_get m' 3 = Some (Some (deltas_new [(4, 2)]))"
  using insert_sorted_then_get [of "\<lparr>entries = [(1, deltas_new []), (5, deltas_new [])]\<rparr>" 3
      "deltas_new [(4, 2)]"]
  by (auto simp: table_ok_def)

lemma table_update:
  assumes "table_ok m" "i < length (entries m)" "fst (entries m ! i) = k"
  shows "table_ok (\<lparr>entries = (entries m)[i := (k, d)]\<rparr>)"
    "table_lookup \<lparr>entries = (entries m)[i := (k, d)]\<rparr> = (table_lookup m)(k \<mapsto> d)"
proof -
  have keys: "map fst ((entries m)[i := (k, d)]) = map fst (entries m)"
    using assms(2,3) by (simp add: map_update list_update_same_conv)
  then show "table_ok (\<lparr>entries = (entries m)[i := (k, d)]\<rparr>)"
    using assms(1) by (simp add: table_ok_def)
  let ?lo = "take i (entries m)" and ?hi = "drop (Suc i) (entries m)"
  have split: "entries m = ?lo @ (k, snd (entries m ! i)) # ?hi"
    using assms(2,3) by (metis id_take_nth_drop prod.collapse)
  have "distinct (map fst (entries m))"
    using table_ok_keys [OF assms(1)] by blast
  then have "k \<notin> fst ` set ?lo"
    by (subst (asm) split) auto
  then show "table_lookup \<lparr>entries = (entries m)[i := (k, d)]\<rparr> = (table_lookup m)(k \<mapsto> d)"
    using map_of_insert [of k ?lo d ?hi] map_of_insert [of k ?lo "snd (entries m ! i)" ?hi] split assms(2)
    by (simp add: table_lookup_def upd_conv_take_nth_drop)
qed

lemma map_record_update:
  assumes "table_ok m"
  shows "\<exists>m'. map_record k raw m = Some m' \<and> table_ok m'
    \<and> table_lookup m' = (table_lookup m)(k \<mapsto>
        (case table_lookup m k of None \<Rightarrow> deltas_new raw | Some d \<Rightarrow> merge_additional raw d))"
  using table_search [OF assms, of k]
proof (elim disjE exE conjE)
  fix i
  assume "i < length (entries m)" "binary_search_by_key k fst (entries m) = Some (Inr i)"
    "fst (entries m ! i) = k" "table_lookup m k = Some (snd (entries m ! i))"
  then show ?thesis
    using table_update [OF assms, of i k] by (auto simp: map_record_def case_prod_unfold)
next
  fix i
  assume i: "binary_search_by_key k fst (entries m) = Some (Inl i)" "table_lookup m k = None"
  then have "k \<notin> fst ` set (entries m)"
    by (simp add: table_lookup_def map_of_eq_None_iff)
  then show ?thesis
    using sorted_table.ins_ok [OF assms] i by (auto simp: map_record_def)
qed

text \<open>C31: recording the deletions of a scan implements the update of a finite map from sections to
  deletion lists: a section seen before has the new deletions merged into its list, a new one gets a
  list of its own, and no other section changes.\<close>

theorem map_record_refines_update:
  assumes "table_ok m"
  shows "\<exists>m'. map_record k raw m = Some m' \<and> table_ok m'
    \<and> table_lookup m' = (table_lookup m)(k \<mapsto>
        (case table_lookup m k of None \<Rightarrow> deltas_new raw | Some d \<Rightarrow> merge_additional raw d))"
  using assms by (rule map_record_update)

theorem map_record_refines_update_witness:
  "\<exists>m'. map_record 2 [(8, 4)] \<lparr>entries = [(2, deltas_new [(0, 2)])]\<rparr> = Some m' \<and> table_ok m'
    \<and> table_lookup m' 2 = Some (merge_additional [(8, 4)] (deltas_new [(0, 2)]))"
  using map_record_refines_update [of "\<lparr>entries = [(2, deltas_new [(0, 2)])]\<rparr>" 2 "[(8, 4)]"]
  by (auto simp: table_ok_def table_lookup_def)

end
