(* ===== verification/Alignment.thy ===== *)
theory Alignment
  imports Rust_Prelude
begin

text \<open>
  Alignments of output sections and parts (\<open>libsld/src/alignment.rs\<close>) and the integer operations of
  the standard library they rest on (\<open>rust/library/core/src/num/uint_macros.rs\<close>): powers of two and
  rounding up to a multiple. Rounding up to a multiple of zero panics (\<open>None\<close>); an overflow wraps.
\<close>

section \<open>Powers of two and multiples\<close>

definition count_ones :: "u64 \<Rightarrow> nat" where
  "count_ones x = length (filter (bit x) [0..<64])"

definition trailing_zeros :: "u64 \<Rightarrow> nat" where
  "trailing_zeros x = length (takeWhile (\<lambda>i. \<not> bit x i) [0..<64])"

definition leading_zeros :: "u64 \<Rightarrow> nat" where
  "leading_zeros x = length (takeWhile (\<lambda>i. \<not> bit x i) (rev [0..<64]))"

definition is_power_of_two :: "u64 \<Rightarrow> bool" where
  "is_power_of_two x \<longleftrightarrow> count_ones x = 1"

definition one_less_than_next_power_of_two :: "u64 \<Rightarrow> u64" where
  "one_less_than_next_power_of_two x =
     (if x \<le> 1 then 0
      else let p = x - 1; z = leading_zeros p in shr (- 1) z)"

definition next_power_of_two :: "u64 \<Rightarrow> u64" where
  "next_power_of_two x = one_less_than_next_power_of_two x + 1"

definition next_multiple_of :: "u64 \<Rightarrow> u64 \<Rightarrow> u64 option" where
  "next_multiple_of x rhs =
     (if rhs = 0 then None
      else let r = x mod rhs in if r = 0 then Some x else Some (x + (rhs - r)))"

lemma next_multiple_of_spec:
  assumes "0 < unat b" "unat x + unat b \<le> 2 ^ 64"
  shows "\<exists>y. next_multiple_of x b = Some y \<and> unat x \<le> unat y \<and> unat y < unat x + unat b
    \<and> unat b dvd unat y"
proof (cases "x mod b = 0")
  case True
  then have "unat x mod unat b = 0"
    by (metis unat_mod unsigned_0)
  then show ?thesis
    using True assms(1) by (auto simp: next_multiple_of_def)
next
  case False
  let ?r = "unat x mod unat b"
  have r: "unat (x mod b) = ?r" "?r < unat b"
    using assms(1) by (simp_all add: unat_mod)
  have pos: "0 < ?r"
    using False r(1) by (metis gr0I unsigned_eq_0_iff)
  have "unat (b - x mod b) = unat b - ?r"
    using r by (simp add: unat_sub word_le_nat_alt)
  then have y: "unat (x + (b - x mod b)) = unat x + (unat b - ?r)"
    using assms(2) r pos by (simp add: unat_word_ariths)
  have "unat x + (unat b - ?r) = unat b * (unat x div unat b) + unat b"
    using r(2) mult_div_mod_eq [of "unat b" "unat x"] by linarith
  then have "unat b dvd unat (x + (b - x mod b))"
    by (simp only: y) simp
  moreover have "b \<noteq> 0"
    using assms(1) by auto
  ultimately show ?thesis
    using False y r pos by (simp add: next_multiple_of_def)
qed

text \<open>No multiple at or above the argument is smaller.\<close>

lemma next_multiple_of_least:
  assumes "next_multiple_of x b = Some y" "unat x \<le> q" "unat b dvd q" "unat x + unat b \<le> 2 ^ 64"
  shows "unat y \<le> q"
proof -
  have "0 < unat b"
    using assms(1) unat_gt_0 [of b] by (auto simp: next_multiple_of_def split: if_splits)
  then obtain z where "next_multiple_of x b = Some z" "unat z < unat x + unat b" "unat b dvd unat z"
    using next_multiple_of_spec assms(4) by blast
  then have y: "unat y < q + unat b" "unat b dvd unat y"
    using assms(1,2) by auto
  obtain i j where "unat y = unat b * i" "q = unat b * j"
    using y(2) assms(3) by (auto elim!: dvdE)
  moreover from this have "i < Suc j"
    using y(1) by (metis add.commute mult_Suc_right mult_less_cancel1)
  ultimately show ?thesis
    by simp
qed

lemma bit_unat: "bit (x :: u64) i \<longleftrightarrow> bit (unat x) i"
  using bit_word_less_length [of x i] by (auto simp: bit_unsigned_iff)

text \<open>The bits of a value between $2^k$ and $2^{k+1}$.\<close>

lemma top_bit:
  assumes "2 ^ k \<le> unat (x :: u64)" "unat x < 2 ^ Suc k"
  shows "bit x k" "k < i \<Longrightarrow> \<not> bit x i"
proof -
  have "unat x div 2 ^ k = 1"
    using assms by (simp add: div_nat_eqI)
  then show "bit x k"
    by (simp add: bit_unat bit_iff_odd)
  assume "k < i"
  then have "(2 :: nat) ^ Suc k \<le> 2 ^ i"
    by (intro power_increasing) simp_all
  then show "\<not> bit x i"
    using assms(2) by (simp add: bit_unat bit_iff_odd)
qed

lemma upt_64_split:
  assumes "k < 64"
  shows "[0..<64] = [0..<k] @ k # [Suc k..<64]"
proof -
  have "[0..<64] = [0..<k] @ [k..<64]"
    using upt_add_eq_append [of 0 k "64 - k"] assms by simp
  then show ?thesis
    using assms by (simp only: upt_conv_Cons)
qed

lemma leading_zeros_eq:
  assumes "2 ^ k \<le> unat (x :: u64)" "unat x < 2 ^ Suc k"
  shows "leading_zeros x = 63 - k" "k < 64"
proof -
  show k: "k < 64"
    using top_bit(1) [OF assms] by (rule bit_word_less_length [of x k, simplified])
  then have "rev [0..<64] = rev [Suc k..<64] @ k # rev [0..<k]"
    by (simp only: upt_64_split) simp
  moreover have "takeWhile (\<lambda>i. \<not> bit x i) (rev [Suc k..<64] @ k # rev [0..<k]) = rev [Suc k..<64]"
    using top_bit [OF assms] by (subst takeWhile_append2) auto
  ultimately show "leading_zeros x = 63 - k"
    by (simp only: leading_zeros_def) simp
qed

lemma next_power_of_two_spec:
  assumes "1 < unat x"
  shows "\<exists>k. 2 ^ k < unat x \<and> unat x \<le> 2 ^ Suc k \<and> next_power_of_two x = 2 ^ Suc k"
proof -
  have p: "unat (x - 1) = unat x - 1"
    using assms by (simp add: unat_sub word_le_nat_alt)
  obtain k where k: "2 ^ k \<le> unat (x - 1)" "unat (x - 1) < 2 ^ Suc k"
    using ex_power_ivl1 [of 2 "unat (x - 1)"] p assms by force
  note lz = leading_zeros_eq [OF k]
  have "drop_bit (63 - k) (- 1 :: u64) = mask (Suc k)"
    using lz(2) by (intro bit_word_eqI) (auto simp: bit_drop_bit_eq bit_mask_iff)
  then have "next_power_of_two x = mask (Suc k) + 1"
    using assms lz by (simp add: next_power_of_two_def one_less_than_next_power_of_two_def
        word_le_nat_alt Let_def)
  then have "next_power_of_two x = 2 ^ Suc k"
    by (simp add: mask_eq_exp_minus_1)
  moreover have "2 ^ k < unat x" "unat x \<le> 2 ^ Suc k"
    using k p assms by linarith+
  ultimately show ?thesis
    by blast
qed

lemma is_power_of_two_iff: "is_power_of_two x \<longleftrightarrow> (\<exists>k < 64. x = 2 ^ k)"
proof
  assume "is_power_of_two x"
  then obtain k where k: "filter (bit x) [0..<64] = [k]"
    by (auto simp: is_power_of_two_def count_ones_def length_Suc_conv)
  then have "{i \<in> set [0..<64]. bit x i} = {k}"
    using set_filter [of "bit x" "[0..<64]"] by (simp only: list.set)
  then have only: "i < 64 \<Longrightarrow> bit x i \<longleftrightarrow> i = k" and "k < 64" for i
    by (auto simp only: set_upt atLeastLessThan_iff set_eq_iff mem_Collect_eq singleton_iff)
  then have "x = 2 ^ k"
    by (intro bit_word_eqI) (auto simp: bit_exp_iff)
  then show "\<exists>k < 64. x = 2 ^ k"
    using \<open>k < 64\<close> by blast
next
  assume "\<exists>k < 64. x = 2 ^ k"
  then obtain k where k: "k < 64" "x = 2 ^ k"
    by blast
  have "filter (bit x) ([0..<k] @ k # [Suc k..<64]) = [k]"
    using k by (auto simp: bit_exp_iff filter_empty_conv)
  then show "is_power_of_two x"
    by (simp only: is_power_of_two_def count_ones_def upt_64_split [OF k(1)]) simp
qed

lemma trailing_zeros_power:
  assumes "k < 64"
  shows "trailing_zeros (2 ^ k) = k"
proof -
  have "takeWhile (\<lambda>i. \<not> bit (2 ^ k :: u64) i) ([0..<k] @ k # [Suc k..<64]) = [0..<k]"
    using assms by (subst takeWhile_append2) (auto simp: bit_exp_iff)
  then show ?thesis
    by (simp only: trailing_zeros_def upt_64_split [OF assms]) simp
qed

section \<open>Alignments\<close>

datatype alignment = Alignment (exponent: u8)

text \<open>The derived order compares the exponents.\<close>

instantiation alignment :: linorder
begin

definition less_eq_alignment :: "alignment \<Rightarrow> alignment \<Rightarrow> bool" where
  "less_eq_alignment a b \<longleftrightarrow> exponent a \<le> exponent b"

definition less_alignment :: "alignment \<Rightarrow> alignment \<Rightarrow> bool" where
  "less_alignment a b \<longleftrightarrow> exponent a < exponent b"

instance
  by standard (auto simp: less_eq_alignment_def less_alignment_def alignment.expand)

end

definition MAX_ALIGNMENT_EXPONENT :: u8 where
  "MAX_ALIGNMENT_EXPONENT = 16"

datatype alignment_error = InvalidAlignment u64 | UnsupportedAlignment u64 | UnsupportedExponent u32

definition alignment_new :: "u64 \<Rightarrow> alignment_error + alignment" where
  "alignment_new raw =
     (if \<not> is_power_of_two raw then Inl (InvalidAlignment raw)
      else let exponent = (of_nat (trailing_zeros raw) :: u32)
           in if exponent > ucast MAX_ALIGNMENT_EXPONENT then Inl (UnsupportedAlignment raw)
              else Inr (Alignment (ucast exponent)))"

definition from_exponent :: "u32 \<Rightarrow> alignment_error + alignment" where
  "from_exponent e =
     (if e > ucast MAX_ALIGNMENT_EXPONENT then Inl (UnsupportedExponent e)
      else Inr (Alignment (ucast e)))"

definition alignment_value :: "alignment \<Rightarrow> u64" where
  "alignment_value a = shl 1 (unat (exponent a))"

definition alignment_mask :: "alignment \<Rightarrow> u64" where
  "alignment_mask a = alignment_value a - 1"

definition align_up :: "alignment \<Rightarrow> u64 \<Rightarrow> u64 option" where
  "align_up a v = next_multiple_of v (alignment_value a)"

definition align_down :: "alignment \<Rightarrow> u64 \<Rightarrow> u64" where
  "align_down a v = v AND NOT (alignment_mask a)"

definition align_modulo :: "alignment \<Rightarrow> u64 \<Rightarrow> u64 \<Rightarrow> u64 option" where
  "align_modulo a ref_offset offset = do {
     let m = alignment_mask a;
     offset \<leftarrow> align_up a offset;
     if offset AND m = ref_offset AND m then Some offset
     else do {
       let adjustment = (ref_offset AND m) + alignment_value a - (offset AND m);
       let adjustment = (if adjustment > alignment_value a then adjustment - alignment_value a
                         else adjustment);
       Some (offset + adjustment)
     }
   }"

text \<open>The type invariant \<open>Alignment\<close> documents.\<close>

definition alignment_ok :: "alignment \<Rightarrow> bool" where
  "alignment_ok a \<longleftrightarrow> exponent a \<le> MAX_ALIGNMENT_EXPONENT"

lemma alignment_ok_exponent: "alignment_ok a \<longleftrightarrow> unat (exponent a) \<le> 16"
  by (simp add: alignment_ok_def MAX_ALIGNMENT_EXPONENT_def word_le_nat_alt)

lemma unat_power_u64:
  assumes "k < 64"
  shows "unat (2 ^ k :: u64) = 2 ^ k"
proof -
  have "(2 :: nat) ^ k < 2 ^ 64"
    using assms by (intro power_strict_increasing) simp_all
  moreover have "(2 ^ k :: u64) = of_nat (2 ^ k)"
    by simp
  ultimately show ?thesis
    by (simp only: unat_of_nat) simp
qed

lemma exp_eq_iff_u64: "j < 64 \<Longrightarrow> k < 64 \<Longrightarrow> (2 ^ j :: u64) = 2 ^ k \<longleftrightarrow> j = k"
  by (metis unat_power_u64 power_inject_exp one_less_numeral_iff semiring_norm(76))

lemma alignment_value_power: "alignment_ok a \<Longrightarrow> unat (alignment_value a) = 2 ^ unat (exponent a)"
  by (simp add: alignment_ok_exponent alignment_value_def push_bit_of_1 unat_power_u64)

lemma and_alignment_mask:
  assumes "alignment_ok a"
  shows "x AND alignment_mask a = take_bit (unat (exponent a)) x"
proof -
  have "unat (exponent a) < LENGTH(64)"
    using assms by (simp add: alignment_ok_exponent)
  from and_low_mask [OF this] show ?thesis
    by (simp only: alignment_mask_def alignment_value_def)
qed

lemma unat_take_bit: "unat (take_bit n (x :: u64)) = unat x mod 2 ^ n"
  by (simp only: unsigned_take_bit_eq take_bit_eq_mod [of n "unat x"])

lemma align_up_spec:
  assumes "alignment_ok a" "unat v + 2 ^ unat (exponent a) \<le> 2 ^ 64"
  shows "\<exists>r. align_up a v = Some r \<and> unat v \<le> unat r \<and> unat r < unat v + 2 ^ unat (exponent a)
    \<and> 2 ^ unat (exponent a) dvd unat r"
  using next_multiple_of_spec [of "alignment_value a" v] alignment_value_power [OF assms(1)] assms(2)
  by (simp add: align_up_def)

text \<open>\<open>align_modulo\<close> moves an offset up, by less than twice the alignment, to one that has the
  remainder of the reference offset; it does not panic.\<close>

lemma align_modulo_spec:
  assumes "alignment_ok a" "unat offset + 2 * 2 ^ unat (exponent a) \<le> 2 ^ 64"
  shows "\<exists>r. align_modulo a ref_offset offset = Some r
    \<and> unat r mod 2 ^ unat (exponent a) = unat ref_offset mod 2 ^ unat (exponent a)
    \<and> unat offset \<le> unat r \<and> unat r < unat offset + 2 * 2 ^ unat (exponent a)"
proof -
  let ?v = "2 ^ unat (exponent a) :: nat"
  obtain u where u: "align_up a offset = Some u" "unat offset \<le> unat u" "unat u < unat offset + ?v"
      "?v dvd unat u"
    using align_up_spec [OF assms(1), of offset] assms(2) by auto
  let ?t = "take_bit (unat (exponent a)) ref_offset"
  have t: "unat ?t = unat ref_offset mod ?v" "unat ?t < ?v"
    by (simp_all add: unat_take_bit)
  have u0: "take_bit (unat (exponent a)) u = 0"
    using u(4) by (rule take_bit_zero_of_dvd)
  have v: "unat (alignment_value a) = ?v" "?v \<le> 2 ^ 16"
    using assms(1) alignment_value_power power_increasing [of "unat (exponent a)" 16 "2 :: nat"]
    by (simp_all add: alignment_ok_exponent)
  have sum: "unat (?t + alignment_value a) = unat ?t + ?v"
    using t(2) v by (simp add: unat_word_ariths)
  have "align_modulo a ref_offset offset = Some (u + ?t)"
  proof (cases "?t = 0")
    case True
    then show ?thesis
      using u(1) u0 by (simp add: align_modulo_def and_alignment_mask [OF assms(1)])
  next
    case False
    then have "0 < unat ?t"
      by (metis gr0I unsigned_eq_0_iff)
    then have "alignment_value a < ?t + alignment_value a"
      using sum v by (simp add: word_less_nat_alt)
    then show ?thesis
      using u(1) u0 False by (simp add: align_modulo_def and_alignment_mask [OF assms(1)] Let_def)
  qed
  moreover have r: "unat (u + ?t) = unat u + unat ?t"
  proof -
    have "unat u + unat ?t < 2 ^ 64"
      using u(3) t(2) assms(2) by linarith
    then show ?thesis
      by (simp add: unat_word_ariths)
  qed
  moreover have "(unat u + unat ?t) mod ?v = unat ref_offset mod ?v"
    using u(4) t(1) by (auto elim!: dvdE)
  ultimately show ?thesis
    using u(2,3) t(2) by simp
qed

section \<open>Properties\<close>

text \<open>C38: \<open>Alignment::new\<close> accepts exactly the powers of two up to $2^{16}$; the alignment it returns
  satisfies the invariant of the type and has the value it was made from.\<close>

theorem alignment_new_value:
  "case alignment_new raw of
     Inr a \<Rightarrow> (\<exists>k \<le> 16. raw = 2 ^ k) \<and> alignment_value a = raw \<and> alignment_ok a
   | Inl e \<Rightarrow> \<not> (\<exists>k \<le> 16. raw = 2 ^ k)"
proof (cases "is_power_of_two raw")
  case False
  then have "\<not> (\<exists>k \<le> 16. raw = 2 ^ k)"
    unfolding is_power_of_two_iff by (auto dest: spec)
  then show ?thesis
    using False by (simp add: alignment_new_def)
next
  case True
  then obtain k where k: "k < 64" "raw = 2 ^ k"
    by (auto simp: is_power_of_two_iff)
  have tz: "trailing_zeros raw = k"
    using k trailing_zeros_power by simp
  have le: "(of_nat k :: u32) \<le> ucast MAX_ALIGNMENT_EXPONENT \<longleftrightarrow> k \<le> 16"
    using k(1) by (simp add: word_le_nat_alt unat_of_nat MAX_ALIGNMENT_EXPONENT_def)
  show ?thesis
  proof (cases "k \<le> 16")
    case True
    have "unat (ucast (of_nat k :: u32) :: u8) = k"
      using True by (simp add: unsigned_ucast_eq unat_of_nat take_bit_nat_eq_self)
    then have "alignment_value (Alignment (ucast (of_nat k :: u32))) = raw"
        "alignment_ok (Alignment (ucast (of_nat k :: u32)))"
      using True k by (simp_all add: alignment_value_def alignment_ok_exponent push_bit_of_1)
    moreover have "alignment_new raw = Inr (Alignment (ucast (of_nat k :: u32)))"
      using \<open>is_power_of_two raw\<close> tz le True by (simp add: alignment_new_def Let_def not_less)
    ultimately show ?thesis
      using True k by auto
  next
    case False
    have "j = k" if "(2 ^ j :: u64) = 2 ^ k" "j \<le> 16" for j
      using that k(1) exp_eq_iff_u64 [of j k] by simp
    then have "\<not> (\<exists>j \<le> 16. raw = 2 ^ j)"
      using False k(2) by metis
    then show ?thesis
      using \<open>is_power_of_two raw\<close> tz le False by (simp add: alignment_new_def Let_def not_less)
  qed
qed

end
