(* ===== verification/Riscv_Scan.thy ===== *)
theory Riscv_Scan
  imports Riscv_Relax Relax_Table Alignment
begin

text \<open>
  The scan that finds what RISC-V relaxation may delete (\<open>collect_relaxation_deltas\<close> of
  \<open>libsld/src/elf_riscv64.rs\<close>): padding of alignment directives, the \<open>jalr\<close> of a call that fits a
  \<open>jal\<close>, a \<open>lui\<close> that loads zero or that fits \<open>c.lui\<close>. The scan walks the relocations of a section
  once; its local variables are the record \<open>scan_state\<close>, one step of the loop is \<open>scan_step\<close>. It is
  run repeatedly, each time with the deletions of the earlier passes, and its result is merged into
  them.

  The lemmas show that a pass over relocations that do not overlap yields well-formed deletions that do
  not touch those of earlier passes, so that every pass keeps the deletion list of the section well
  formed.
\<close>


record relocation =
  raw_type :: u32
  rel_offset :: u64
  rel_addend :: i64
  rel_symbol :: "nat option"

record relax_symbol_info =
  output_address :: u64
  is_interposable :: bool

record scan_state =
  raw_deltas :: "raw_delta list"
  min_unrelaxed_margin :: "u64 option"
  prev_call :: "(u64 \<times> nat) option"
  prev_hi20 :: "(u64 \<times> nat \<times> i64) option"
  new_cumulative_delta :: u64

text \<open>A resolver looks a symbol up; the look-up may panic, and the symbol may have no known address.\<close>

type_synonym resolver = "nat \<Rightarrow> relax_symbol_info option option"

text \<open>\<open>existing_deltas.is_some_and(|d| d.has_delta_at(offset))\<close>.\<close>

definition existing_has :: "section_relax_deltas option \<Rightarrow> u64 \<Rightarrow> bool option" where
  "existing_has existing off = (case existing of None \<Rightarrow> Some False | Some d \<Rightarrow> has_delta_at d off)"

text \<open>The bytes earlier passes deleted strictly before an input offset.\<close>

definition existing_cumulative :: "section_relax_deltas option \<Rightarrow> u64 \<Rightarrow> u64 option" where
  "existing_cumulative existing off =
     (case existing of None \<Rightarrow> Some 0
      | Some d \<Rightarrow> do {
          idx \<leftarrow> partition_point (\<lambda>e. input_offset e < off) (deltas d);
          if idx = 0 then Some 0
          else do { e \<leftarrow> delta_at (deltas d) (idx - 1); Some (cumulative_deleted e) }
        })"

definition push_delta :: "u64 \<Rightarrow> u32 \<Rightarrow> scan_state \<Rightarrow> scan_state" where
  "push_delta off n st =
     st\<lparr>raw_deltas := raw_deltas st @ [(off, n)],
        new_cumulative_delta := new_cumulative_delta st + ucast n\<rparr>"

definition note_margin :: "u64 \<Rightarrow> scan_state \<Rightarrow> scan_state" where
  "note_margin margin st =
     st\<lparr>min_unrelaxed_margin :=
          Some (case min_unrelaxed_margin st of None \<Rightarrow> margin | Some m \<Rightarrow> min m margin)\<rparr>"

definition forget :: "scan_state \<Rightarrow> scan_state" where
  "forget st = st\<lparr>prev_call := None, prev_hi20 := None\<rparr>"

definition scan_align :: "u64 \<Rightarrow> section_relax_deltas option \<Rightarrow> relocation \<Rightarrow> scan_state \<Rightarrow> scan_state option" where
  "scan_align section_output_address existing rel st = do {
     let pad_bytes = rel_addend rel;
     let input_off = rel_offset rel;
     had \<leftarrow> existing_has existing input_off;
     if pad_bytes = 0 \<or> had then Some (forget st)
     else do {
       existing_cum \<leftarrow> existing_cumulative existing input_off;
       let output_offset = input_off - existing_cum - new_cumulative_delta st;
       let p = section_output_address + output_offset;
       let alignment = next_power_of_two pad_bytes;
       desired \<leftarrow> next_multiple_of p alignment;
       let actual = p + pad_bytes;
       Some (forget (if actual > desired then push_delta input_off (ucast (actual - desired)) st else st))
     }
   }"

text \<open>\<open>i64::unsigned_abs\<close>.\<close>

definition unsigned_abs :: "i64 \<Rightarrow> u64" where
  "unsigned_abs d = (if sint d < 0 then - d else d)"

definition scan_call :: "u64 \<Rightarrow> u64 \<Rightarrow> relax_symbol_info \<Rightarrow> scan_state \<Rightarrow> scan_state" where
  "scan_call section_output_address call_offset info st =
     (let distance = output_address info - (section_output_address + call_offset)
      in if distance_fits_jal distance then push_delta (call_offset + 4) 4 st
         else let jal_max = unsigned_abs (word_of_int (snd JAL_RANGE));
                  margin = unsigned_abs distance - jal_max
              in note_margin margin st)"

definition scan_hi20 :: "u8 list \<Rightarrow> u64 \<Rightarrow> i64 \<Rightarrow> relax_symbol_info \<Rightarrow> scan_state \<Rightarrow> scan_state option" where
  "scan_hi20 bytes hi20_offset hi20_addend info st =
     (if unat (hi20_offset + 4) \<le> length bytes then do {
        window \<leftarrow> slice bytes hi20_offset (hi20_offset + 4);
        let lui_word = (from_le_bytes window :: u32);
        let rd = shr lui_word 7 AND 0x1f;
        let v = output_address info + hi20_addend;
        if hi20_is_zero v then Some (push_delta hi20_offset 4 st)
        else if rd_valid_for_clui rd then
          (if hi20_fits_clui v then Some (push_delta (hi20_offset + 2) 2 st)
           else do {
             let hi20 = shr (v + 0x800) 12;
             let margin = (if sint hi20 > 31 then (hi20 - 31) * 0x1000
                           else if sint hi20 < -32 then - 1
                           else 0x1000);
             Some (note_margin margin st)
           })
        else Some st
      } else Some st)"

text \<open>The two conditions of the \<open>R_RISCV_RELAX\<close> arm: which remembered relocation it relaxes.\<close>

definition relaxes_call :: "section_relax_deltas option \<Rightarrow> relocation \<Rightarrow> scan_state \<Rightarrow> (u64 \<times> nat) option option" where
  "relaxes_call existing rel st =
     (case prev_call st of None \<Rightarrow> Some None
      | Some (call_offset, sym_idx) \<Rightarrow>
          if rel_offset rel = call_offset then do {
            had \<leftarrow> existing_has existing (call_offset + 4);
            Some (if had then None else Some (call_offset, sym_idx))
          } else Some None)"

definition relaxes_hi20 :: "section_relax_deltas option \<Rightarrow> relocation \<Rightarrow> scan_state
    \<Rightarrow> (u64 \<times> nat \<times> i64) option option" where
  "relaxes_hi20 existing rel st =
     (case prev_hi20 st of None \<Rightarrow> Some None
      | Some (hi20_offset, sym_idx, hi20_addend) \<Rightarrow>
          if rel_offset rel = hi20_offset then do {
            had \<leftarrow> existing_has existing hi20_offset;
            had2 \<leftarrow> existing_has existing (hi20_offset + 2);
            Some (if had \<or> had2 then None else Some (hi20_offset, sym_idx, hi20_addend))
          } else Some None)"

definition scan_relax :: "u64 \<Rightarrow> u8 list \<Rightarrow> section_relax_deltas option \<Rightarrow> resolver \<Rightarrow> relocation
    \<Rightarrow> scan_state \<Rightarrow> scan_state option" where
  "scan_relax section_output_address bytes existing resolve_symbol rel st = do {
     call \<leftarrow> relaxes_call existing rel st;
     st \<leftarrow>
       (case call of
          Some (call_offset, sym_idx) \<Rightarrow>
            Option.bind (resolve_symbol sym_idx) (\<lambda>target. case target of
               Some info \<Rightarrow>
                 if is_interposable info then Some st
                 else Some (scan_call section_output_address call_offset info st)
             | None \<Rightarrow> Some st)
        | None \<Rightarrow> do {
            hi20 \<leftarrow> relaxes_hi20 existing rel st;
            (case hi20 of
               Some (hi20_offset, sym_idx, hi20_addend) \<Rightarrow>
                 Option.bind (resolve_symbol sym_idx) (\<lambda>target. case target of
                    Some info \<Rightarrow>
                      if is_interposable info then Some st
                      else scan_hi20 bytes hi20_offset hi20_addend info st
                  | None \<Rightarrow> Some st)
             | None \<Rightarrow> Some st)
          });
     Some (forget st)
   }"

definition scan_step :: "elf_constants \<Rightarrow> u64 \<Rightarrow> u8 list \<Rightarrow> section_relax_deltas option \<Rightarrow> resolver
    \<Rightarrow> relocation \<Rightarrow> scan_state \<Rightarrow> scan_state option" where
  "scan_step elf section_output_address bytes existing resolve_symbol rel st =
     (if raw_type rel = elf ''R_RISCV_ALIGN'' then scan_align section_output_address existing rel st
      else if raw_type rel = elf ''R_RISCV_CALL'' \<or> raw_type rel = elf ''R_RISCV_CALL_PLT'' then
        Some (st\<lparr>prev_call := map_option (\<lambda>sym_idx. (rel_offset rel, sym_idx)) (rel_symbol rel),
                 prev_hi20 := None\<rparr>)
      else if raw_type rel = elf ''R_RISCV_HI20'' then
        Some (st\<lparr>prev_hi20 := map_option (\<lambda>sym_idx. (rel_offset rel, sym_idx, rel_addend rel)) (rel_symbol rel),
                 prev_call := None\<rparr>)
      else if raw_type rel = elf ''R_RISCV_RELAX'' then
        scan_relax section_output_address bytes existing resolve_symbol rel st
      else Some (forget st))"

primrec scan_all :: "elf_constants \<Rightarrow> u64 \<Rightarrow> u8 list \<Rightarrow> section_relax_deltas option \<Rightarrow> resolver
    \<Rightarrow> relocation list \<Rightarrow> scan_state \<Rightarrow> scan_state option" where
  "scan_all elf addr bytes existing resolve_symbol [] st = Some st"
| "scan_all elf addr bytes existing resolve_symbol (rel # rels) st = do {
     st \<leftarrow> scan_step elf addr bytes existing resolve_symbol rel st;
     scan_all elf addr bytes existing resolve_symbol rels st
   }"

definition scan_start :: scan_state where
  "scan_start = \<lparr>raw_deltas = [], min_unrelaxed_margin = None, prev_call = None, prev_hi20 = None,
     new_cumulative_delta = 0\<rparr>"

definition collect_relaxation_deltas :: "elf_constants \<Rightarrow> u64 \<Rightarrow> u8 list \<Rightarrow> relocation list
    \<Rightarrow> section_relax_deltas option \<Rightarrow> resolver \<Rightarrow> (raw_delta list \<times> u64 option) option" where
  "collect_relaxation_deltas elf section_output_address bytes rels existing resolve_symbol = do {
     st \<leftarrow> scan_all elf section_output_address bytes existing resolve_symbol rels scan_start;
     Some (raw_deltas st, min_unrelaxed_margin st)
   }"

section \<open>What a relocation may delete\<close>

definition is_align :: "elf_constants \<Rightarrow> relocation \<Rightarrow> bool" where
  "is_align elf r \<longleftrightarrow> raw_type r = elf ''R_RISCV_ALIGN''"

definition is_call :: "elf_constants \<Rightarrow> relocation \<Rightarrow> bool" where
  "is_call elf r \<longleftrightarrow> \<not> is_align elf r
     \<and> (raw_type r = elf ''R_RISCV_CALL'' \<or> raw_type r = elf ''R_RISCV_CALL_PLT'')"

definition is_hi20 :: "elf_constants \<Rightarrow> relocation \<Rightarrow> bool" where
  "is_hi20 elf r \<longleftrightarrow> \<not> is_align elf r \<and> \<not> is_call elf r \<and> raw_type r = elf ''R_RISCV_HI20''"

text \<open>The input bytes a relocation covers: its padding, the two instructions of a call, a \<open>lui\<close>.\<close>

definition footprint :: "elf_constants \<Rightarrow> relocation \<Rightarrow> nat" where
  "footprint elf r = (if is_align elf r then unat (rel_addend r)
     else if is_call elf r then 8 else if is_hi20 elf r then 4 else 0)"

definition delta_of :: "elf_constants \<Rightarrow> relocation \<Rightarrow> raw_delta \<Rightarrow> bool" where
  "delta_of elf r d \<longleftrightarrow>
     (is_align elf r \<and> fst d = rel_offset r \<and> 0 < unat (snd d) \<and> unat (snd d) \<le> unat (rel_addend r))
   \<or> (is_call elf r \<and> d = (rel_offset r + 4, 4))
   \<or> (is_hi20 elf r \<and> (d = (rel_offset r, 4) \<or> d = (rel_offset r + 2, 2)))"

text \<open>
  The relocations of a section of \<open>n\<close> bytes as an assembler emits them: those that cover bytes are in
  ascending order, do not overlap and lie inside the section, and a padding is shorter than 4 GiB.
\<close>

definition rels_ok :: "elf_constants \<Rightarrow> nat \<Rightarrow> relocation list \<Rightarrow> bool" where
  "rels_ok elf n rels \<longleftrightarrow> n < 2 ^ 63
     \<and> sorted_wrt (\<lambda>r r'. 0 < footprint elf r \<longrightarrow> 0 < footprint elf r' \<longrightarrow>
          unat (rel_offset r) + footprint elf r \<le> unat (rel_offset r')) rels
     \<and> (\<forall>r \<in> set rels. unat (rel_offset r) + footprint elf r \<le> n \<and> footprint elf r < 2 ^ 32)"

definition derived :: "elf_constants \<Rightarrow> relocation list \<Rightarrow> raw_delta list \<Rightarrow> bool" where
  "derived elf rels raw \<longleftrightarrow> (\<forall>d \<in> set raw. \<exists>r \<in> set rels. delta_of elf r d)"

definition represents :: "section_relax_deltas option \<Rightarrow> raw_delta list \<Rightarrow> bool" where
  "represents existing raw \<longleftrightarrow> (existing = None \<and> raw = []) \<or> existing = Some (deltas_new raw)"

lemma existing_has_iff:
  "represents existing eraw \<Longrightarrow> raw_ok n eraw \<Longrightarrow> existing_has existing off = Some (off \<in> fst ` set eraw)"
  using has_delta_at_iff [OF raw_ok_sorted(1)] by (auto simp: represents_def existing_has_def)

lemma existing_cumulative_eq:
  assumes "represents existing eraw" "raw_ok n eraw"
  shows "existing_cumulative existing off = Some (of_nat (del_sum (before off eraw)))"
proof (cases existing)
  case None
  then show ?thesis
    using assms(1) by (simp add: represents_def existing_cumulative_def)
next
  case (Some d)
  then have d: "d = deltas_new eraw"
    using assms(1) by (simp add: represents_def)
  note point = before_point [OF raw_ok_sorted(1) [OF assms(2)], of off]
  show ?thesis
  proof (cases "before off eraw = []")
    case True
    then show ?thesis
      using Some d point by (simp add: existing_cumulative_def deltas_new_def)
  next
    case False
    then obtain e where "delta_at (push_deltas 0 eraw) (length (before off eraw) - 1) = Some e"
        "cumulative_deleted e = of_nat (del_sum (before off eraw))"
      by (rule before_last)
    then show ?thesis
      using Some d point False by (simp add: existing_cumulative_def deltas_new_def)
  qed
qed

lemma delta_inside:
  assumes "delta_of elf r d" "unat (rel_offset r) + footprint elf r \<le> n" "n < 2 ^ 63"
  shows "unat (rel_offset r) \<le> unat (fst d)" "0 < unat (snd d)"
    "unat (fst d) + unat (snd d) \<le> unat (rel_offset r) + footprint elf r" "0 < footprint elf r"
proof -
  have add: "unat (rel_offset r + 4) = unat (rel_offset r) + 4" if "is_call elf r"
    using unat_offset_add [of "rel_offset r" 4 n] assms(2,3) that
    by (simp add: footprint_def is_call_def)
  have add2: "unat (rel_offset r + 2) = unat (rel_offset r) + 2" if "is_hi20 elf r"
    using unat_offset_add [of "rel_offset r" 2 n] assms(2,3) that
    by (simp add: footprint_def is_hi20_def)
  show "unat (rel_offset r) \<le> unat (fst d)" "0 < unat (snd d)"
    "unat (fst d) + unat (snd d) \<le> unat (rel_offset r) + footprint elf r" "0 < footprint elf r"
    using assms(1) add add2
    by (auto simp: delta_of_def footprint_def is_call_def is_hi20_def)
qed

lemma footprints_disjoint:
  assumes "rels_ok elf n rels" "r \<in> set rels" "r' \<in> set rels" "r \<noteq> r'"
    and "0 < footprint elf r" "0 < footprint elf r'"
  shows "unat (rel_offset r) + footprint elf r \<le> unat (rel_offset r')
    \<or> unat (rel_offset r') + footprint elf r' \<le> unat (rel_offset r)"
proof -
  obtain i j where "i < length rels" "j < length rels" "r = rels ! i" "r' = rels ! j" "i \<noteq> j"
    using assms(2-4) by (metis in_set_conv_nth)
  then show ?thesis
    using assms(1,5,6) unfolding rels_ok_def
    by (cases i j rule: linorder_cases) (auto dest: sorted_wrt_nth_less)
qed

section \<open>The invariant of the scan\<close>

text \<open>
  Between two steps: the deletions found so far are well formed, each comes from a relocation, none
  touches a deletion of an earlier pass, all of them end before the relocations still to come, and the
  running total is their sum.
\<close>

definition scan_core :: "elf_constants \<Rightarrow> relocation list \<Rightarrow> nat \<Rightarrow> raw_delta list \<Rightarrow> scan_state
    \<Rightarrow> relocation list \<Rightarrow> bool" where
  "scan_core elf rels n eraw st fut \<longleftrightarrow> raw_ok n (raw_deltas st) \<and> derived elf rels (raw_deltas st)
     \<and> deleted (raw_deltas st) \<inter> deleted eraw = {}
     \<and> (\<forall>d \<in> set (raw_deltas st). \<forall>r \<in> set fut. 0 < footprint elf r \<longrightarrow>
          unat (fst d) + unat (snd d) \<le> unat (rel_offset r))
     \<and> new_cumulative_delta st = of_nat (del_sum (raw_deltas st))"

text \<open>A remembered relocation: the deletions end before it and it ends before what follows.\<close>

definition pending :: "elf_constants \<Rightarrow> relocation list \<Rightarrow> scan_state \<Rightarrow> relocation list \<Rightarrow> relocation \<Rightarrow> bool" where
  "pending elf rels st fut r \<longleftrightarrow> r \<in> set rels
     \<and> (\<forall>d \<in> set (raw_deltas st). unat (fst d) + unat (snd d) \<le> unat (rel_offset r))
     \<and> (\<forall>r' \<in> set fut. 0 < footprint elf r' \<longrightarrow>
          unat (rel_offset r) + footprint elf r \<le> unat (rel_offset r'))"

definition scan_inv :: "elf_constants \<Rightarrow> relocation list \<Rightarrow> nat \<Rightarrow> raw_delta list \<Rightarrow> scan_state
    \<Rightarrow> relocation list \<Rightarrow> bool" where
  "scan_inv elf rels n eraw st fut \<longleftrightarrow> scan_core elf rels n eraw st fut
     \<and> (\<forall>off s. prev_call st = Some (off, s) \<longrightarrow>
          (\<exists>r. is_call elf r \<and> rel_offset r = off \<and> pending elf rels st fut r))
     \<and> (\<forall>off s a. prev_hi20 st = Some (off, s, a) \<longrightarrow>
          (\<exists>r. is_hi20 elf r \<and> rel_offset r = off \<and> pending elf rels st fut r))"

lemma core_forget: "scan_core elf rels n eraw st fut \<Longrightarrow> scan_inv elf rels n eraw (forget st) fut"
  by (simp add: scan_inv_def scan_core_def forget_def)

lemma core_note_margin [simp]:
  "scan_core elf rels n eraw (note_margin m st) fut \<longleftrightarrow> scan_core elf rels n eraw st fut"
  by (simp add: scan_core_def note_margin_def)

lemma core_tail: "scan_core elf rels n eraw st (r # fut) \<Longrightarrow> scan_core elf rels n eraw st fut"
  by (simp add: scan_core_def)

lemma raw_ok_snoc:
  assumes "raw_ok n raw" "0 < unat m" "unat off + unat m \<le> n"
    and "\<forall>d \<in> set raw. unat (fst d) + unat (snd d) \<le> unat off"
  shows "raw_ok n (raw @ [(off, m)])"
  using assms by (fastforce simp: raw_ok_def sorted_wrt_append)

lemma core_push:
  assumes "scan_core elf rels n eraw st fut" "rels_ok elf n rels" "derived elf rels eraw"
    and "pending elf rels st fut r" "delta_of elf r (off, m)"
    and none: "\<forall>d \<in> set eraw. \<not> delta_of elf r d"
  shows "scan_core elf rels n eraw (push_delta off m st) fut"
proof -
  have r: "r \<in> set rels" and n: "n < 2 ^ 63"
      and ends: "\<forall>d \<in> set (raw_deltas st). unat (fst d) + unat (snd d) \<le> unat (rel_offset r)"
    using assms(2,4) by (auto simp: pending_def rels_ok_def)
  then have fp: "unat (rel_offset r) + footprint elf r \<le> n"
    using assms(2) by (simp add: rels_ok_def)
  note d = delta_inside [OF assms(5) fp n, simplified]
  have "{unat off ..< unat off + unat m} \<inter> deleted eraw = {}"
  proof -
    have "{unat off ..< unat off + unat m} \<inter> deleted [e] = {}" if e: "e \<in> set eraw" for e
    proof -
      obtain r' where r': "r' \<in> set rels" "delta_of elf r' e"
        using assms(3) e by (auto simp: derived_def)
      have n': "unat (rel_offset r') + footprint elf r' \<le> n"
        using assms(2) r'(1) by (simp add: rels_ok_def)
      note e' = delta_inside [OF r'(2) n' n]
      have "r \<noteq> r'"
        using none e r'(2) by blast
      from footprints_disjoint [OF assms(2) r r'(1) this d(4) e'(4)] show ?thesis
        using d e' by (auto simp: deleted_def)
    qed
    then show ?thesis
      by (fastforce simp: deleted_def)
  qed
  then have "deleted (raw_deltas st @ [(off, m)]) \<inter> deleted eraw = {}"
    using assms(1) by (auto simp: scan_core_def)
  moreover have "raw_ok n (raw_deltas st @ [(off, m)])"
    using assms(1) d ends fp by (intro raw_ok_snoc) (auto simp: scan_core_def)
  ultimately show ?thesis
    using assms(1,4,5) d by (fastforce simp: scan_core_def push_delta_def derived_def pending_def)
qed

lemma call_core:
  assumes "scan_core elf rels n eraw st fut" "rels_ok elf n rels" "derived elf rels eraw"
    and "is_call elf r" "pending elf rels st fut r" "rel_offset r + 4 \<notin> fst ` set eraw"
  shows "scan_core elf rels n eraw (scan_call addr (rel_offset r) info st) fut"
proof -
  have "\<forall>d \<in> set eraw. \<not> delta_of elf r d" "delta_of elf r (rel_offset r + 4, 4)"
    using assms(4,6) by (force simp: delta_of_def is_call_def is_hi20_def)+
  with core_push [OF assms(1-3,5)] show ?thesis
    using assms(1) by (simp add: scan_call_def Let_def)
qed

lemma hi20_core:
  assumes "scan_core elf rels n eraw st fut" "rels_ok elf n rels" "derived elf rels eraw"
    and "is_hi20 elf r" "pending elf rels st fut r"
    and "rel_offset r \<notin> fst ` set eraw" "rel_offset r + 2 \<notin> fst ` set eraw"
  shows "\<exists>st'. scan_hi20 bytes (rel_offset r) a info st = Some st' \<and> scan_core elf rels n eraw st' fut"
proof -
  have "\<forall>d \<in> set eraw. \<not> delta_of elf r d"
    using assms(4,6,7) by (force simp: delta_of_def is_call_def is_hi20_def)
  then have push: "delta_of elf r (off, m) \<Longrightarrow> scan_core elf rels n eraw (push_delta off m st) fut" for off m
    using core_push [OF assms(1-3,5)] by blast
  have "delta_of elf r (rel_offset r, 4)" "delta_of elf r (rel_offset r + 2, 2)"
    using assms(4) by (simp_all add: delta_of_def)
  moreover have "unat (rel_offset r) + 4 \<le> n" "n < 2 ^ 63"
    using assms(2,4,5) by (auto simp: pending_def rels_ok_def footprint_def is_hi20_def dest!: bspec)
  then have "unat (rel_offset r + 4) = unat (rel_offset r) + 4"
    using unat_offset_add [of "rel_offset r" 4 n] by simp
  then have "slice bytes (rel_offset r) (rel_offset r + 4) \<noteq> None"
    if "unat (rel_offset r + 4) \<le> length bytes"
    using that by (simp add: slice_def)
  ultimately show ?thesis
    using push assms(1) by (auto simp: scan_hi20_def Let_def)
qed

lemma pending_head:
  assumes "rels_ok elf n (pre @ r # fut)" "scan_core elf (pre @ r # fut) n eraw st (r # fut)"
    and "0 < footprint elf r"
  shows "pending elf (pre @ r # fut) st fut r"
  using assms by (simp add: pending_def rels_ok_def scan_core_def sorted_wrt_append)

lemma next_power_of_two_bounds:
  assumes "0 < unat x" "unat x \<le> 2 ^ 32"
  shows "unat x \<le> unat (next_power_of_two x)" "unat (next_power_of_two x) \<le> 2 ^ 33"
proof -
  have "unat x \<le> unat (next_power_of_two x) \<and> unat (next_power_of_two x) \<le> 2 ^ 33"
  proof (cases "1 < unat x")
    case True
    then obtain k where k: "2 ^ k < unat x" "unat x \<le> 2 ^ Suc k" "next_power_of_two x = 2 ^ Suc k"
      using next_power_of_two_spec by blast
    have "(2 :: nat) ^ k < 2 ^ 32"
      using k(1) assms(2) by linarith
    then have "k < 32"
      using power_less_imp_less_exp [of "2 :: nat" k 32] by simp
    then have "unat (2 ^ Suc k :: u64) = 2 ^ Suc k"
      by (intro unat_power_u64) simp
    then show ?thesis
      using k \<open>(2 :: nat) ^ k < 2 ^ 32\<close> by simp
  next
    case False
    then have "unat x = unat (1 :: u64)"
      using assms(1) by simp
    then have "x = 1"
      by (simp only: word_unat_eq_iff)
    then show ?thesis
      by (simp add: next_power_of_two_def one_less_than_next_power_of_two_def)
  qed
  then show "unat x \<le> unat (next_power_of_two x)" "unat (next_power_of_two x) \<le> 2 ^ 33"
    by simp_all
qed

text \<open>At a padding, what has been deleted before it fits before it.\<close>

lemma deleted_before_align:
  assumes "rels_ok elf n rels" "derived elf rels eraw" "raw_ok n eraw" "r \<in> set rels"
    and "scan_core elf rels n eraw st fut" "pending elf rels st fut r" "0 < footprint elf r"
    and "is_align elf r"
  shows "del_sum (before (rel_offset r) eraw) + del_sum (raw_deltas st) \<le> unat (rel_offset r)"
proof -
  let ?off = "rel_offset r" and ?pre = "before (rel_offset r) eraw"
  have n: "n < 2 ^ 63"
    using assms(1) by (simp add: rels_ok_def)
  have "unat (fst e) + unat (snd e) \<le> unat ?off" if "e \<in> set ?pre" for e
  proof -
    have e: "e \<in> set eraw" "unat (fst e) < unat ?off"
      using that by (auto simp: word_less_nat_alt dest: set_takeWhileD)
    then obtain r' where r': "r' \<in> set rels" "delta_of elf r' e"
      using assms(2) by (auto simp: derived_def)
    have "unat (rel_offset r') + footprint elf r' \<le> n"
      using assms(1) r'(1) by (simp add: rels_ok_def)
    note e' = delta_inside [OF r'(2) this n]
    have "r \<noteq> r'"
      using r'(2) assms(8) e(2) by (auto simp: delta_of_def is_call_def is_hi20_def)
    from footprints_disjoint [OF assms(1,4) r'(1) this assms(7) e'(4)] show ?thesis
      using e' e(2) by auto
  qed
  then have pre: "deleted ?pre \<subseteq> {..<unat ?off}"
    by (fastforce simp: deleted_def)
  have st: "deleted (raw_deltas st) \<subseteq> {..<unat ?off}"
    using assms(6) by (fastforce simp: pending_def deleted_def)
  have "deleted ?pre \<subseteq> deleted eraw"
    by (auto simp: deleted_def dest!: set_takeWhileD)
  then have disj: "deleted ?pre \<inter> deleted (raw_deltas st) = {}"
    using assms(5) by (auto simp: scan_core_def)
  have ok: "raw_ok n ?pre"
    using raw_ok_take [OF assms(3), of "length ?pre"] by (simp only: takeWhile_take)
  have "card (deleted ?pre \<union> deleted (raw_deltas st)) \<le> unat ?off"
    using card_mono [of "{..<unat ?off}" "deleted ?pre \<union> deleted (raw_deltas st)"] pre st by simp
  then show ?thesis
    using card_Un_disjoint [OF finite_deleted finite_deleted disj] card_deleted [OF ok]
      card_deleted [of n "raw_deltas st"] assms(5) by (simp add: scan_core_def)
qed

text \<open>
  The scan's answer for a padding at the address \<open>p\<close>: enough bytes are deleted that the code behind
  the padding starts at a multiple of \<open>next_power_of_two(addend)\<close>, if the padding is long enough.
\<close>

lemma align_deletion:
  assumes "0 < unat a" "unat a < 2 ^ 32" "unat p < 2 ^ 63"
  obtains desired where "next_multiple_of p (next_power_of_two a) = Some desired"
    "unat (p + a) = unat p + unat a"
    "unat p \<le> unat desired" "unat (next_power_of_two a) dvd unat desired"
    "desired < p + a \<Longrightarrow> unat (ucast (p + a - desired) :: u32) = unat p + unat a - unat desired"
proof -
  note al = next_power_of_two_bounds [of a]
  obtain desired where d: "next_multiple_of p (next_power_of_two a) = Some desired"
      "unat p \<le> unat desired" "unat (next_power_of_two a) dvd unat desired"
    using next_multiple_of_spec [of "next_power_of_two a" p] al assms by auto
  have add: "unat (p + a) = unat p + unat a"
    using assms(2,3) by (simp add: unat_word_ariths)
  have "unat (ucast (p + a - desired) :: u32) = unat p + unat a - unat desired" if "desired < p + a"
  proof -
    have "unat (p + a - desired) = unat p + unat a - unat desired"
      using that add by (simp add: unat_sub word_less_nat_alt word_le_nat_alt)
    moreover have "\<dots> < 2 ^ 32"
      using d(2) assms(2) by linarith
    ultimately show ?thesis
      by (simp add: unsigned_ucast_eq take_bit_nat_eq_self)
  qed
  with d add show ?thesis
    using that by blast
qed

lemma unat_sub_of_nat:
  assumes "k \<le> unat (x :: u64)"
  shows "unat (x - of_nat k) = unat x - k"
proof -
  have "unat (of_nat k :: u64) = k"
    using assms unat_u64_less [of x] by (simp add: unat_of_nat)
  then show ?thesis
    using assms by (simp add: unat_sub word_le_nat_alt)
qed

lemma align_core:
  assumes "scan_core elf (pre @ r # fut) n eraw st (r # fut)" "rels_ok elf n (pre @ r # fut)"
    and "derived elf (pre @ r # fut) eraw" "raw_ok n eraw" "represents existing eraw"
    and "is_align elf r" "unat addr + n < 2 ^ 63"
  shows "\<exists>st'. scan_align addr existing r st = Some st' \<and> scan_inv elf (pre @ r # fut) n eraw st' fut"
proof (cases "rel_addend r = 0 \<or> rel_offset r \<in> fst ` set eraw")
  case True
  then have "scan_align addr existing r st = Some (forget st)"
    using existing_has_iff [OF assms(5,4)] by (auto simp: scan_align_def)
  then show ?thesis
    using core_forget [OF core_tail [OF assms(1)]] by simp
next
  case False
  let ?rels = "pre @ r # fut" and ?off = "rel_offset r" and ?a = "rel_addend r"
  have fp: "0 < footprint elf r" "footprint elf r = unat ?a" "footprint elf r < 2 ^ 32"
      "unat ?off + footprint elf r \<le> n"
    using False assms(2,6) unat_gt_0 [of ?a] by (auto simp: footprint_def rels_ok_def)
  note pend = pending_head [OF assms(2,1) fp(1)]
  let ?s1 = "del_sum (before ?off eraw)" and ?s2 = "del_sum (raw_deltas st)"
  define p where "p = addr + (?off - of_nat ?s1 - new_cumulative_delta st)"
  have sum: "?s1 + ?s2 \<le> unat ?off"
    using deleted_before_align [OF assms(2-4) _ core_tail [OF assms(1)] pend fp(1) assms(6)] by simp
  define q where "q = ?off - of_nat (?s1 + ?s2)"
  have "?off - of_nat ?s1 - new_cumulative_delta st = q"
    using assms(1) by (simp add: q_def scan_core_def algebra_simps)
  then have peq: "p = addr + q"
    by (simp only: p_def)
  have q: "unat q = unat ?off - (?s1 + ?s2)"
    using sum unfolding q_def by (rule unat_sub_of_nat)
  have "unat p = unat addr + unat q"
    unfolding peq using q fp(4) assms(7) by (intro unat_add_le [of _ _ "unat addr + n"]) simp_all
  then have "unat p < 2 ^ 63"
    using q fp(4) assms(7) by linarith
  then obtain desired where d: "next_multiple_of p (next_power_of_two ?a) = Some desired"
      "unat (p + ?a) = unat p + unat ?a" "unat p \<le> unat desired"
      "desired < p + ?a \<Longrightarrow> unat (ucast (p + ?a - desired) :: u32) = unat p + unat ?a - unat desired"
    using align_deletion [of ?a p] fp by (metis fp)
  let ?m = "ucast (p + ?a - desired) :: u32"
  have scan: "scan_align addr existing r st =
      Some (forget (if desired < p + ?a then push_delta ?off ?m st else st))"
    using False existing_has_iff [OF assms(5,4)] existing_cumulative_eq [OF assms(5,4)] d(1)
    by (simp add: scan_align_def Let_def p_def)
  have "scan_core elf ?rels n eraw (push_delta ?off ?m st) fut" if "desired < p + ?a"
  proof -
    have "delta_of elf r (?off, ?m)"
      using d that assms(6) by (auto simp: delta_of_def word_less_nat_alt)
    moreover have "\<forall>e \<in> set eraw. \<not> delta_of elf r e"
      using False assms(6) by (force simp: delta_of_def is_call_def is_hi20_def)
    ultimately show ?thesis
      by (intro core_push [OF core_tail [OF assms(1)] assms(2,3) pend])
  qed
  then have "scan_core elf ?rels n eraw (if desired < p + ?a then push_delta ?off ?m st else st) fut"
    using core_tail [OF assms(1)] by simp
  then show ?thesis
    using scan core_forget by blast
qed

definition total_resolver :: "resolver \<Rightarrow> bool" where
  "total_resolver resolve \<longleftrightarrow> (\<forall>s. resolve s \<noteq> None)"

lemma relax_core:
  assumes "scan_inv elf rels n eraw st (r # fut)" "rels_ok elf n rels"
    and "derived elf rels eraw" "raw_ok n eraw" "represents existing eraw" "total_resolver resolve"
  shows "\<exists>st'. scan_relax addr bytes existing resolve r st = Some st' \<and> scan_inv elf rels n eraw st' fut"
proof -
  have core: "scan_core elf rels n eraw st fut"
    using assms(1) core_tail by (auto simp: scan_inv_def)
  have pend: "pending elf rels st (r # fut) q \<Longrightarrow> pending elf rels st fut q" for q
    by (simp add: pending_def)
  define E where "E = fst ` set eraw"
  note has = existing_has_iff [OF assms(5,4), folded E_def]
  have "relaxes_call existing r st \<noteq> None" "relaxes_hi20 existing r st \<noteq> None"
    using has by (auto simp: relaxes_call_def relaxes_hi20_def split: option.splits prod.splits)
  then obtain call hi where call: "relaxes_call existing r st = Some call"
      and hi: "relaxes_hi20 existing r st = Some hi"
    by blast
  have "\<exists>st'. (case call of
          Some (call_offset, sym_idx) \<Rightarrow>
            Option.bind (resolve sym_idx) (\<lambda>target. case target of
               Some info \<Rightarrow> if is_interposable info then Some st else Some (scan_call addr call_offset info st)
             | None \<Rightarrow> Some st)
        | None \<Rightarrow> (case hi of
               Some (hi20_offset, sym_idx, hi20_addend) \<Rightarrow>
                 Option.bind (resolve sym_idx) (\<lambda>target. case target of
                    Some info \<Rightarrow>
                      if is_interposable info then Some st
                      else scan_hi20 bytes hi20_offset hi20_addend info st
                  | None \<Rightarrow> Some st)
             | None \<Rightarrow> Some st)) = Some st' \<and> scan_core elf rels n eraw st' fut"
  proof (cases call)
    case (Some c)
    obtain off s where c: "c = (off, s)"
      by (cases c)
    with Some call has have "prev_call st = Some (off, s)" "off + 4 \<notin> E"
      by (auto simp: relaxes_call_def split: option.splits if_splits)
    then obtain q where "is_call elf q" "rel_offset q = off" "pending elf rels st fut q"
      using assms(1) pend by (auto simp: scan_inv_def)
    then have "scan_core elf rels n eraw (scan_call addr off info st) fut" for info
      using call_core [OF core assms(2,3)] \<open>off + 4 \<notin> E\<close> unfolding E_def by blast
    then show ?thesis
      using core Some c assms(6) by (auto simp: total_resolver_def split: bind_splits option.splits)
  next
    case None
    show ?thesis
    proof (cases hi)
      case (Some h)
      obtain off s a where h: "h = (off, s, a)"
        by (cases h)
      with Some hi has have "prev_hi20 st = Some (off, s, a)" "off \<notin> E" "off + 2 \<notin> E"
        by (auto simp: relaxes_hi20_def split: option.splits if_splits)
      moreover then obtain q where "is_hi20 elf q" "rel_offset q = off" "pending elf rels st fut q"
        using assms(1) pend by (auto simp: scan_inv_def)
      ultimately have "\<exists>st'. scan_hi20 bytes off a info st = Some st' \<and> scan_core elf rels n eraw st' fut" for info
        using hi20_core [OF core assms(2,3)] unfolding E_def by blast
      then show ?thesis
        using core None Some h assms(6) by (auto simp: total_resolver_def split: bind_splits option.splits)
    qed (use core None in simp)
  qed
  then show ?thesis
    using call hi core_forget by (auto simp: scan_relax_def simp del: Option.bind_assoc split: option.splits)
qed

lemma step_inv:
  assumes "scan_inv elf (pre @ r # fut) n eraw st (r # fut)" "rels_ok elf n (pre @ r # fut)"
    and "derived elf (pre @ r # fut) eraw" "raw_ok n eraw" "represents existing eraw"
    and "unat addr + n < 2 ^ 63" "total_resolver resolve"
  shows "\<exists>st'. scan_step elf addr bytes existing resolve r st = Some st'
    \<and> scan_inv elf (pre @ r # fut) n eraw st' fut"
proof -
  have core: "scan_core elf (pre @ r # fut) n eraw st (r # fut)"
    using assms(1) by (simp add: scan_inv_def)
  have pend: "pending elf (pre @ r # fut) st fut r" if "is_call elf r \<or> is_hi20 elf r"
    using that by (intro pending_head [OF assms(2) core])
      (auto simp: footprint_def is_call_def is_hi20_def)
  note tail = core_tail [OF core]
  consider "is_align elf r" | "is_call elf r" | "is_hi20 elf r"
    | "\<not> is_align elf r" "\<not> is_call elf r" "\<not> is_hi20 elf r"
    by blast
  then show ?thesis
  proof cases
    case 1
    then show ?thesis
      using align_core [OF core assms(2-5) 1 assms(6)] by (simp add: scan_step_def is_align_def)
  next
    case 2
    then show ?thesis
      using pend tail
      by (auto simp: scan_step_def is_call_def is_align_def scan_inv_def scan_core_def pending_def)
  next
    case 3
    then show ?thesis
      using pend tail
      by (auto simp: scan_step_def is_hi20_def is_call_def is_align_def scan_inv_def scan_core_def
          pending_def)
  next
    case 4
    then have types: "raw_type r \<noteq> elf ''R_RISCV_ALIGN''" "raw_type r \<noteq> elf ''R_RISCV_CALL''"
        "raw_type r \<noteq> elf ''R_RISCV_CALL_PLT''" "raw_type r \<noteq> elf ''R_RISCV_HI20''"
      by (auto simp: is_align_def is_call_def is_hi20_def)
    show ?thesis
    proof (cases "raw_type r = elf ''R_RISCV_RELAX''")
      case True
      then show ?thesis
        using relax_core [OF assms(1-5,7)] types by (simp add: scan_step_def)
    next
      case False
      then show ?thesis
        using core_forget [OF tail] types by (simp add: scan_step_def)
    qed
  qed
qed

lemma scan_all_inv:
  assumes "scan_inv elf (pre @ fut) n eraw st fut" "rels_ok elf n (pre @ fut)"
    and "derived elf (pre @ fut) eraw" "raw_ok n eraw" "represents existing eraw"
    and "unat addr + n < 2 ^ 63" "total_resolver resolve"
  shows "\<exists>st'. scan_all elf addr bytes existing resolve fut st = Some st'
    \<and> scan_inv elf (pre @ fut) n eraw st' []"
  using assms(1-3)
proof (induction fut arbitrary: pre st)
  case (Cons r fut)
  obtain st' where "scan_step elf addr bytes existing resolve r st = Some st'"
      "scan_inv elf (pre @ r # fut) n eraw st' fut"
    using step_inv [OF Cons.prems assms(4-7)] by blast
  then show ?case
    using Cons.IH [of "pre @ [r]" st'] Cons.prems by simp
qed simp

text \<open>A scan that returns would have returned the same with a resolver that never panics.\<close>

definition never_panics :: "resolver \<Rightarrow> resolver" where
  "never_panics resolve s = (case resolve s of None \<Rightarrow> Some None | Some target \<Rightarrow> Some target)"

lemma total_never_panics: "total_resolver (never_panics resolve)"
  by (simp add: total_resolver_def never_panics_def split: option.splits)

lemma never_panics_eq: "resolve s = Some target \<Longrightarrow> never_panics resolve s = Some target"
  by (simp add: never_panics_def)

lemma scan_step_never_panics:
  assumes "scan_step elf addr bytes existing resolve r st = Some st'"
  shows "scan_step elf addr bytes existing (never_panics resolve) r st = Some st'"
proof -
  have "scan_relax addr bytes existing (never_panics resolve) r st = Some st1"
    if "scan_relax addr bytes existing resolve r st = Some st1" for st1
    using that unfolding scan_relax_def
    by (auto simp: never_panics_eq split: bind_splits option.splits prod.splits)
  then show ?thesis
    using assms by (auto simp: scan_step_def split: if_splits)
qed

lemma scan_all_never_panics:
  assumes "scan_all elf addr bytes existing resolve rels st = Some st'"
  shows "scan_all elf addr bytes existing (never_panics resolve) rels st = Some st'"
  using assms by (induction rels arbitrary: st) (auto simp: scan_step_never_panics split: bind_splits)

lemma collect_deltas_total:
  assumes "rels_ok elf n rels" "derived elf rels eraw" "raw_ok n eraw" "represents existing eraw"
    and "unat addr + n < 2 ^ 63" "total_resolver resolve"
  obtains raw margin where
    "collect_relaxation_deltas elf addr bytes rels existing resolve = Some (raw, margin)"
    "raw_ok n raw" "derived elf rels raw" "deleted eraw \<inter> deleted raw = {}"
proof -
  have "scan_inv elf ([] @ rels) n eraw scan_start rels"
    using assms(1) by (simp add: scan_inv_def scan_core_def scan_start_def raw_ok_def derived_def rels_ok_def)
  then obtain st where "scan_all elf addr bytes existing resolve rels scan_start = Some st"
      "scan_inv elf rels n eraw st []"
    using scan_all_inv [of elf "[]" rels n eraw scan_start existing addr resolve bytes] assms by auto
  then show ?thesis
    using that by (auto simp: collect_relaxation_deltas_def scan_inv_def scan_core_def)
qed

text \<open>It is enough that the resolver knows the symbols of the relocations.\<close>

definition resolves :: "resolver \<Rightarrow> relocation list \<Rightarrow> bool" where
  "resolves resolve rels \<longleftrightarrow> (\<forall>r \<in> set rels. \<forall>s. rel_symbol r = Some s \<longrightarrow> resolve s \<noteq> None)"

definition remembered :: "resolver \<Rightarrow> scan_state \<Rightarrow> bool" where
  "remembered resolve st \<longleftrightarrow> (\<forall>off s. prev_call st = Some (off, s) \<longrightarrow> resolve s \<noteq> None)
     \<and> (\<forall>off s a. prev_hi20 st = Some (off, s, a) \<longrightarrow> resolve s \<noteq> None)"

lemma scan_step_remembers:
  assumes "remembered resolve st" "resolves resolve [r]"
  shows "scan_step elf addr bytes existing (never_panics resolve) r st = scan_step elf addr bytes existing resolve r st
    \<and> (\<forall>st'. scan_step elf addr bytes existing resolve r st = Some st' \<longrightarrow> remembered resolve st')"
proof -
  have np: "never_panics resolve s = resolve s" if "resolve s \<noteq> None" for s
    using that by (auto simp: never_panics_def)
  have "scan_relax addr bytes existing (never_panics resolve) r st = scan_relax addr bytes existing resolve r st"
  proof -
    have c: "resolve s \<noteq> None" if "relaxes_call existing r st = Some (Some (off, s))" for off s
      using that assms(1) by (auto simp: relaxes_call_def remembered_def split: option.splits if_splits bind_splits)
    have h: "resolve s \<noteq> None" if "relaxes_hi20 existing r st = Some (Some (off, s, a))" for off s a
      using that assms(1) by (auto simp: relaxes_hi20_def remembered_def split: option.splits if_splits bind_splits)
    show ?thesis
      unfolding scan_relax_def
      by (cases "relaxes_call existing r st"; cases "relaxes_hi20 existing r st")
        (auto simp: np c h split: option.splits)
  qed
  moreover have "remembered resolve st'" if "scan_step elf addr bytes existing resolve r st = Some st'" for st'
    using that assms(2)
    by (auto simp: scan_step_def scan_align_def scan_relax_def Let_def forget_def remembered_def resolves_def
        split: if_splits bind_splits)
  ultimately show ?thesis
    by (simp add: scan_step_def)
qed

lemma scan_all_remembers:
  assumes "remembered resolve st" "resolves resolve rels"
  shows "scan_all elf addr bytes existing (never_panics resolve) rels st = scan_all elf addr bytes existing resolve rels st"
  using assms
proof (induction rels arbitrary: st)
  case (Cons r rels)
  then have "resolves resolve [r]" "resolves resolve rels"
    by (auto simp: resolves_def)
  then show ?case
    using Cons scan_step_remembers [of resolve st r elf addr bytes existing]
    by (cases "scan_step elf addr bytes existing resolve r st") auto
qed simp

lemma collect_deltas_ok:
  assumes "rels_ok elf n rels" "derived elf rels eraw" "raw_ok n eraw" "represents existing eraw"
    and "unat addr + n < 2 ^ 63" "resolves resolve rels"
  obtains raw margin where
    "collect_relaxation_deltas elf addr bytes rels existing resolve = Some (raw, margin)"
    "raw_ok n raw" "derived elf rels raw" "deleted eraw \<inter> deleted raw = {}"
proof -
  have "collect_relaxation_deltas elf addr bytes rels existing (never_panics resolve)
      = collect_relaxation_deltas elf addr bytes rels existing resolve"
    using assms(6) scan_all_remembers [of resolve scan_start rels]
    by (simp add: collect_relaxation_deltas_def remembered_def scan_start_def)
  then show ?thesis
    using that collect_deltas_total [OF assms(1-5) total_never_panics, of bytes resolve] by metis
qed

lemma collect_deltas_of_run:
  assumes "rels_ok elf n rels" "derived elf rels eraw" "raw_ok n eraw" "represents existing eraw"
    and "unat addr + n < 2 ^ 63"
    and "collect_relaxation_deltas elf addr bytes rels existing resolve = Some (raw, margin)"
  shows "raw_ok n raw \<and> derived elf rels raw \<and> deleted eraw \<inter> deleted raw = {}"
proof -
  have "collect_relaxation_deltas elf addr bytes rels existing (never_panics resolve) = Some (raw, margin)"
    using assms(6) by (auto simp: collect_relaxation_deltas_def scan_all_never_panics split: bind_splits)
  then show ?thesis
    using collect_deltas_total [OF assms(1-5) total_never_panics, of bytes resolve] by auto
qed

end
