(* ===== verification/Value_Flags.thy ===== *)
theory Value_Flags
  imports Rust_Prelude
begin

text \<open>
  The flags of symbols, \<open>value_flags.rs\<close>: sixteen bits that say what a symbol is and what the references
  to it need, the table of the flags of all symbols, and the atomic updates by which the threads of the
  graph traversal claim a symbol. An update is a sequence of steps on the shared word; a step relation
  interleaves the updates of any number of threads.
\<close>

section \<open>Flags\<close>

type_synonym value_flags = u16

definition ABSOLUTE :: value_flags where "ABSOLUTE = shl 1 0"
definition DYNAMIC :: value_flags where "DYNAMIC = shl 1 1"
definition IFUNC :: value_flags where "IFUNC = shl 1 2"
definition NON_INTERPOSABLE :: value_flags where "NON_INTERPOSABLE = shl 1 3"
definition DOWNGRADE_TO_LOCAL :: value_flags where "DOWNGRADE_TO_LOCAL = shl 1 4"
definition FUNCTION :: value_flags where "FUNCTION = shl 1 5"
definition DIRECT :: value_flags where "DIRECT = shl 1 6"
definition GOT :: value_flags where "GOT = shl 1 7"
definition PLT :: value_flags where "PLT = shl 1 8"
definition GOT_TLS_MODULE :: value_flags where "GOT_TLS_MODULE = shl 1 9"
definition GOT_TLS_OFFSET :: value_flags where "GOT_TLS_OFFSET = shl 1 10"
definition GOT_TLS_DESCRIPTOR :: value_flags where "GOT_TLS_DESCRIPTOR = shl 1 11"
definition EXPORT_DYNAMIC :: value_flags where "EXPORT_DYNAMIC = shl 1 12"
definition COPY_RELOCATION :: value_flags where "COPY_RELOCATION = shl 1 13"
definition IFUNC_GOT_FOR_ADDRESS :: value_flags where "IFUNC_GOT_FOR_ADDRESS = shl 1 14"
definition HAS_RANGE_LIMITED_REL :: value_flags where "HAS_RANGE_LIMITED_REL = shl 1 15"

lemmas flag_defs = ABSOLUTE_def DYNAMIC_def IFUNC_def NON_INTERPOSABLE_def DOWNGRADE_TO_LOCAL_def
  FUNCTION_def DIRECT_def GOT_def PLT_def GOT_TLS_MODULE_def GOT_TLS_OFFSET_def GOT_TLS_DESCRIPTOR_def
  EXPORT_DYNAMIC_def COPY_RELOCATION_def IFUNC_GOT_FOR_ADDRESS_def HAS_RANGE_LIMITED_REL_def shl_def

text \<open>\<open>contains\<close> of the \<open>bitflags\<close> types: all the bits of the argument are set.\<close>

definition contains :: "value_flags \<Rightarrow> value_flags \<Rightarrow> bool" where
  "contains flags other \<longleftrightarrow> flags AND other = other"

definition flags_merge :: "value_flags \<Rightarrow> value_flags \<Rightarrow> value_flags" where
  "flags_merge flags other = (if contains other NON_INTERPOSABLE then flags OR NON_INTERPOSABLE else flags)"

definition resolution_flags :: "value_flags \<Rightarrow> value_flags" where
  "resolution_flags flags = flags AND (DIRECT OR GOT OR PLT OR GOT_TLS_MODULE OR GOT_TLS_OFFSET
     OR GOT_TLS_DESCRIPTOR OR EXPORT_DYNAMIC OR COPY_RELOCATION OR IFUNC_GOT_FOR_ADDRESS)"

definition has_resolution :: "value_flags \<Rightarrow> bool" where
  "has_resolution flags \<longleftrightarrow> resolution_flags flags \<noteq> 0"

definition is_address :: "value_flags \<Rightarrow> bool" where
  "is_address flags \<longleftrightarrow> \<not> contains flags IFUNC \<and> \<not> contains flags DYNAMIC \<and> \<not> contains flags ABSOLUTE"

definition flags_is_interposable :: "value_flags \<Rightarrow> bool" where
  "flags_is_interposable flags \<longleftrightarrow> \<not> contains flags NON_INTERPOSABLE"

definition flags_is_tls :: "value_flags \<Rightarrow> bool" where
  "flags_is_tls flags \<longleftrightarrow> contains flags GOT_TLS_OFFSET \<or> contains flags GOT_TLS_MODULE
     \<or> contains flags GOT_TLS_DESCRIPTOR"

section \<open>The flags of all symbols\<close>

type_synonym per_symbol_flags = "value_flags list"

definition flags_push :: "value_flags \<Rightarrow> per_symbol_flags \<Rightarrow> per_symbol_flags" where
  "flags_push extra flags = flags @ [extra]"

definition set_flag :: "nat \<Rightarrow> value_flags \<Rightarrow> per_symbol_flags \<Rightarrow> per_symbol_flags option" where
  "set_flag symbol_id extra flags = do {
     old \<leftarrow> nth_opt flags symbol_id;
     update_opt flags symbol_id (old OR extra)
   }"

definition flags_for_symbol :: "per_symbol_flags \<Rightarrow> nat \<Rightarrow> value_flags option" where
  "flags_for_symbol flags symbol_id = nth_opt flags symbol_id"

text \<open>
  The table of definitions of \<open>symbol_db.rs\<close>: two steps, since the definition may have changed after the
  first look-up. \<open>flags_for_reference\<close> is \<open>SymbolDb::flags_for_symbol\<close>.
\<close>

type_synonym symbol_definitions = "nat list"

definition definition_of :: "symbol_definitions \<Rightarrow> nat \<Rightarrow> nat option" where
  "definition_of defs symbol_id = do {
     step1 \<leftarrow> nth_opt defs symbol_id;
     nth_opt defs step1
   }"

definition flags_for_reference :: "symbol_definitions \<Rightarrow> per_symbol_flags \<Rightarrow> nat \<Rightarrow> value_flags option" where
  "flags_for_reference defs flags symbol_id = do {
     def_id \<leftarrow> definition_of defs symbol_id;
     f \<leftarrow> flags_for_symbol flags def_id;
     g \<leftarrow> flags_for_symbol flags symbol_id;
     Some (flags_merge f g)
   }"

section \<open>Atomic updates\<close>

text \<open>
  The calls threads make on one word. \<open>fetch_or\<close> first loads the word: when the bits are all set it returns
  what it loaded, otherwise it goes on to the atomic operation, which returns the word it replaced.
  \<open>or_assign\<close> and \<open>remove\<close> are one atomic operation each.
\<close>

datatype request =
    FetchOr value_flags
  | Absent value_flags
  | OrAssign value_flags
  | Remove value_flags
  | Returned value_flags
  | Finished

type_synonym shared_flags = "value_flags \<times> request list"

inductive flags_step :: "shared_flags \<Rightarrow> shared_flags \<Rightarrow> bool" where
  present: "i < length rs \<Longrightarrow> rs ! i = FetchOr f \<Longrightarrow> v AND f = f \<Longrightarrow> flags_step (v, rs) (v, rs[i := Returned v])"
| absent: "i < length rs \<Longrightarrow> rs ! i = FetchOr f \<Longrightarrow> v AND f \<noteq> f \<Longrightarrow> flags_step (v, rs) (v, rs[i := Absent f])"
| fetch: "i < length rs \<Longrightarrow> rs ! i = Absent f \<Longrightarrow> flags_step (v, rs) (v OR f, rs[i := Returned v])"
| or_assign: "i < length rs \<Longrightarrow> rs ! i = OrAssign f \<Longrightarrow> flags_step (v, rs) (v OR f, rs[i := Finished])"
| remove: "i < length rs \<Longrightarrow> rs ! i = Remove f \<Longrightarrow> flags_step (v, rs) (v AND NOT f, rs[i := Finished])"

inductive_cases flags_step_cases: "flags_step (v, rs) s'"

fun is_done :: "request \<Rightarrow> bool" where
  "is_done (Returned r) = True"
| "is_done Finished = True"
| "is_done _ = False"

fun steps_left :: "request \<Rightarrow> nat" where
  "steps_left (FetchOr f) = 2"
| "steps_left (Absent f) = 1"
| "steps_left (OrAssign f) = 1"
| "steps_left (Remove f) = 1"
| "steps_left _ = 0"

fun requested :: "request \<Rightarrow> value_flags" where
  "requested (FetchOr f) = f"
| "requested (Absent f) = f"
| "requested (OrAssign f) = f"
| "requested _ = 0"

section \<open>Resolutions\<close>

lemma has_resolution_iff: "has_resolution v \<longleftrightarrow> (\<exists>b < 16. bit v b \<and> bit (resolution_flags (- 1)) b)"
proof -
  have "resolution_flags v = v AND resolution_flags (- 1)"
    by (simp add: resolution_flags_def)
  moreover have "w \<noteq> 0 \<longleftrightarrow> (\<exists>b < 16. bit w b)" for w :: u16
    by (simp add: bit_eq_iff)
  ultimately show ?thesis
    unfolding has_resolution_def by (metis bit_and_iff)
qed

lemma has_resolution_or: "has_resolution (v OR f) \<longleftrightarrow> has_resolution v \<or> has_resolution f"
  by (auto simp: has_resolution_iff bit_or_iff)

lemma has_resolution_part: "v AND f = f \<Longrightarrow> has_resolution f \<Longrightarrow> has_resolution v"
  unfolding has_resolution_iff by (metis bit_and_iff)

lemma has_resolution_remove: "\<not> has_resolution f \<Longrightarrow> has_resolution (v AND NOT f) \<longleftrightarrow> has_resolution v"
  by (auto simp: has_resolution_iff bit_and_iff bit_not_iff)

section \<open>Runs\<close>

abbreviation reaches :: "shared_flags \<Rightarrow> shared_flags \<Rightarrow> bool" where
  "reaches \<equiv> flags_step\<^sup>*\<^sup>*"

lemma step_length: "flags_step s s' \<Longrightarrow> length (snd s') = length (snd s)"
  by (auto elim: flags_step.cases)

lemma steps_left_decrease:
  assumes "flags_step s s'"
  shows "sum_list (map steps_left (snd s')) < sum_list (map steps_left (snd s))"
proof -
  have "sum_list (map steps_left (rs[i := r])) < sum_list (map steps_left rs)"
    if "i < length rs" "steps_left r < steps_left (rs ! i)" for rs i r
  proof -
    have "steps_left (rs ! i) \<le> sum_list (map steps_left rs)"
      using elem_le_sum_list [of i "map steps_left rs"] that(1) by simp
    then show ?thesis
      using that by (simp add: map_update sum_list_update)
  qed
  then show ?thesis
    using assms by (auto elim!: flags_step.cases)
qed

lemma not_done_steps:
  assumes "\<not> list_all is_done rs"
  shows "\<exists>s'. flags_step (v, rs) s'"
proof -
  obtain i where i: "i < length rs" "\<not> is_done (rs ! i)"
    using assms by (auto simp: list_all_length)
  then show ?thesis
    using flags_step.present [of i rs _ v] flags_step.absent [of i rs _ v] flags_step.fetch [of i rs _ v]
      flags_step.or_assign [of i rs _ v] flags_step.remove [of i rs _ v]
    by (cases "rs ! i") auto
qed

text \<open>
  The requests for a resolution that found none: the threads that go on to load the symbol. The other
  updates do not touch the flags of resolutions.
\<close>

definition winners :: "request list \<Rightarrow> request list \<Rightarrow> nat set" where
  "winners calls rs = {i. i < length calls \<and> (\<exists>f r. calls ! i = FetchOr f \<and> rs ! i = Returned r \<and> \<not> has_resolution r)}"

fun call_ok :: "request \<Rightarrow> bool" where
  "call_ok (FetchOr f) = has_resolution f"
| "call_ok (OrAssign f) = (\<not> has_resolution f)"
| "call_ok (Remove f) = (\<not> has_resolution f)"
| "call_ok _ = False"

fun stage_of :: "request \<Rightarrow> request \<Rightarrow> bool" where
  "stage_of (FetchOr f) r = (r = FetchOr f \<or> r = Absent f \<or> (\<exists>v. r = Returned v))"
| "stage_of c r = (r = c \<or> r = Finished)"

lemma stage_calls:
  "stage_of c (FetchOr f) \<Longrightarrow> call_ok c \<Longrightarrow> c = FetchOr f \<and> has_resolution f"
  "stage_of c (Absent f) \<Longrightarrow> call_ok c \<Longrightarrow> c = FetchOr f \<and> has_resolution f"
  "stage_of c (OrAssign f) \<Longrightarrow> call_ok c \<Longrightarrow> c = OrAssign f \<and> \<not> has_resolution f"
  "stage_of c (Remove f) \<Longrightarrow> call_ok c \<Longrightarrow> c = Remove f \<and> \<not> has_resolution f"
  by (cases c; simp)+

definition claim_inv :: "request list \<Rightarrow> shared_flags \<Rightarrow> bool" where
  "claim_inv calls s \<longleftrightarrow> list_all2 stage_of calls (snd s)
     \<and> card (winners calls (snd s)) = (if has_resolution (fst s) then 1 else 0)
     \<and> (\<forall>r. Returned r \<in> set (snd s) \<longrightarrow> has_resolution (fst s))"


lemma claim_step:
  assumes "flags_step (v, rs) (v', rs')" "claim_inv calls (v, rs)" "list_all call_ok calls"
  shows "claim_inv calls (v', rs')"
proof -
  have len: "length rs = length calls" and st: "\<And>i. i < length calls \<Longrightarrow> stage_of (calls ! i) (rs ! i)"
    using assms(2) by (auto simp: claim_inv_def list_all2_conv_all_nth)
  have ok: "\<And>i. i < length calls \<Longrightarrow> call_ok (calls ! i)"
    using assms(3) by (simp add: list_all_length)
  have card: "card (winners calls rs) = (if has_resolution v then 1 else 0)"
    using assms(2) by (simp add: claim_inv_def)
  have ret: "\<forall>r. Returned r \<in> set rs \<longrightarrow> has_resolution v"
    using assms(2) by (simp add: claim_inv_def)
  have ret': "\<forall>u. Returned u \<in> set (rs[i := r]) \<longrightarrow> has_resolution v"
    if "\<And>u. r = Returned u \<Longrightarrow> has_resolution v" for i r
    using that ret set_update_subset_insert [of rs i r] by blast
  have fin: "finite (winners calls rs)"
    by (simp add: winners_def)
  have stage: "list_all2 stage_of calls (rs[i := r])" if "i < length calls" "stage_of (calls ! i) r" for i r
    using that st len by (auto simp: list_all2_conv_all_nth nth_list_update)
  have same: "winners calls (rs[i := r]) = winners calls rs"
    if "i < length calls" "\<And>u. r = Returned u \<Longrightarrow> has_resolution u" "\<not> is_done (rs ! i)" for i r
    using that len by (auto simp: winners_def nth_list_update split: if_splits)
  have new: "winners calls (rs[i := Returned u]) = insert i (winners calls rs)" "i \<notin> winners calls rs"
    if "i < length calls" "calls ! i = FetchOr f" "\<not> has_resolution u" "\<not> is_done (rs ! i)" for i u f
    using that len by (auto simp: winners_def nth_list_update split: if_splits)
  from assms(1) show ?thesis
  proof cases
    case (present i f)
    then have call: "calls ! i = FetchOr f" "has_resolution f"
      using st [of i] ok [of i] len by (auto dest: stage_calls)
    then show ?thesis
      using present ret' [of "Returned v" i] stage [of i "Returned v"] same [of i "Returned v"] card len has_resolution_part [of v f]
      by (simp add: claim_inv_def)
  next
    case (absent i f)
    then have "calls ! i = FetchOr f"
      using st [of i] ok [of i] len by (auto dest: stage_calls)
    then show ?thesis
      using absent ret' [of "Absent f" i] stage [of i "Absent f"] same [of i "Absent f"] card len by (simp add: claim_inv_def)
  next
    case (fetch i f)
    then have call: "calls ! i = FetchOr f" "has_resolution f"
      using st [of i] ok [of i] len by (auto dest: stage_calls)
    show ?thesis
    proof (cases "has_resolution v")
      case True
      then show ?thesis
        using fetch call stage [of i "Returned v"] same [of i "Returned v"] card len
        by (simp add: claim_inv_def has_resolution_or)
    next
      case False
      then show ?thesis
        using fetch call stage [of i "Returned v"] new [of i f v] card len fin
        by (simp add: claim_inv_def has_resolution_or)
    qed
  next
    case (or_assign i f)
    then have call: "calls ! i = OrAssign f" "\<not> has_resolution f"
      using st [of i] ok [of i] len by (auto dest: stage_calls)
    then show ?thesis
      using or_assign ret' [of Finished i] stage [of i Finished] same [of i Finished] card len
      by (simp add: claim_inv_def has_resolution_or)
  next
    case (remove i f)
    then have call: "calls ! i = Remove f" "\<not> has_resolution f"
      using st [of i] ok [of i] len by (auto dest: stage_calls)
    then show ?thesis
      using remove ret' [of Finished i] stage [of i Finished] same [of i Finished] card len
      by (simp add: claim_inv_def has_resolution_remove)
  qed
qed

lemma claim_reaches:
  assumes "reaches (v0, calls) s" "list_all call_ok calls" "\<not> has_resolution v0"
  shows "claim_inv calls s"
  using assms(1)
proof (induction rule: rtranclp_induct)
  case base
  have "list_all2 stage_of calls calls"
    using assms(2) by (auto simp: list_all2_conv_all_nth list_all_length elim!: call_ok.elims(2))
  moreover have "winners calls calls = {}" "Returned r \<notin> set calls" for r
    using assms(2) by (auto simp: winners_def list_all_iff)
  ultimately show ?case
    using assms(3) by (simp add: claim_inv_def)
next
  case (step s t)
  then show ?case
    using claim_step [of "fst s" "snd s" "fst t" "snd t" calls] assms(2) by simp
qed


text \<open>Without removals, the word only grows, and what a request asked for is in it when it is done.\<close>

definition grows_inv :: "value_flags \<Rightarrow> request list \<Rightarrow> shared_flags \<Rightarrow> bool" where
  "grows_inv v0 calls s \<longleftrightarrow> length (snd s) = length calls
     \<and> (\<forall>b. bit v0 b \<longrightarrow> bit (fst s) b) \<and> (\<forall>b. bit (fst s) b \<longrightarrow> bit v0 b \<or> (\<exists>c \<in> set calls. bit (requested c) b))
     \<and> (\<forall>i < length calls. \<not> (\<exists>f. snd s ! i = Remove f)
          \<and> (if is_done (snd s ! i) then \<forall>b. bit (requested (calls ! i)) b \<longrightarrow> bit (fst s) b
             else requested (snd s ! i) = requested (calls ! i)))"

lemma grows_step:
  assumes "flags_step (v, rs) (v', rs')" "grows_inv v0 calls (v, rs)"
  shows "grows_inv v0 calls (v', rs')"
proof -
  have len: "length rs = length calls"
    using assms(2) by (simp add: grows_inv_def)
  have req: "requested (rs ! i) = requested (calls ! i) \<and> calls ! i \<in> set calls"
    if "i < length calls" "\<not> is_done (rs ! i)" for i
    using that assms(2) by (auto simp: grows_inv_def)
  from assms(1) show ?thesis
  proof cases
    case (present i f)
    then have "\<forall>b. bit (requested (calls ! i)) b \<longrightarrow> bit v b"
      using req [of i] len by (metis bit_and_iff is_done.simps(3) requested.simps(1))
    then show ?thesis
      using assms(2) present len by (auto simp: grows_inv_def nth_list_update)
  next
    case (absent i f)
    then show ?thesis
      using assms(2) len req [of i] by (auto simp: grows_inv_def nth_list_update)
  next
    case (fetch i f)
    then have "requested (calls ! i) = f" "calls ! i \<in> set calls"
      using req [of i] len by auto
    then show ?thesis
      using assms(2) fetch len by (auto simp: grows_inv_def nth_list_update bit_or_iff)
  next
    case (or_assign i f)
    then have "requested (calls ! i) = f" "calls ! i \<in> set calls"
      using req [of i] len by auto
    then show ?thesis
      using assms(2) or_assign len by (auto simp: grows_inv_def nth_list_update bit_or_iff)
  next
    case (remove i f)
    then show ?thesis
      using assms(2) len by (auto simp: grows_inv_def)
  qed
qed

fun is_update :: "request \<Rightarrow> bool" where
  "is_update (FetchOr f) = True"
| "is_update (OrAssign f) = True"
| "is_update _ = False"

lemma grows_reaches:
  assumes "reaches (v0, calls) s" "list_all is_update calls"
  shows "grows_inv v0 calls s"
  using assms(1)
proof (induction rule: rtranclp_induct)
  case base
  show ?case
    using assms(2) by (auto simp: grows_inv_def list_all_length elim: is_update.elims(2) is_done.elims(2))
next
  case (step s t)
  then show ?case
    using grows_step [of "fst s" "snd s" "fst t" "snd t"] by simp
qed

lemma fold_or_bit: "bit (fold (OR) fs (v :: value_flags)) b \<longleftrightarrow> bit v b \<or> (\<exists>f \<in> set fs. bit f b)"
  by (induction fs arbitrary: v) (auto simp: bit_or_iff)

section \<open>Properties\<close>


definition demo_calls :: "request list" where
  "demo_calls = [FetchOr DIRECT, OrAssign FUNCTION, FetchOr PLT]"

lemma demo_run: "reaches (0, demo_calls) (0x160, [Returned 0, Finished, Returned 0x60])"
proof -
  have "flags_step (0, demo_calls) (0, [Absent 0x40, OrAssign 0x20, FetchOr 0x100])"
    using flags_step.absent [of 0 demo_calls "0x40" 0] by (simp add: demo_calls_def flag_defs)
  moreover have "flags_step (0, [Absent 0x40, OrAssign 0x20, FetchOr 0x100]) (0x40, [Returned 0, OrAssign 0x20, FetchOr 0x100])"
    using flags_step.fetch [of 0 "[Absent 0x40, OrAssign 0x20, FetchOr 0x100]" "0x40" 0] by simp
  moreover have "flags_step (0x40, [Returned 0, OrAssign 0x20, FetchOr 0x100]) (0x60, [Returned 0, Finished, FetchOr 0x100])"
    using flags_step.or_assign [of 1 "[Returned 0, OrAssign 0x20, FetchOr 0x100]" "0x20" "0x40"] by simp
  moreover have "flags_step (0x60, [Returned 0, Finished, FetchOr 0x100]) (0x60, [Returned 0, Finished, Absent 0x100])"
    using flags_step.absent [of 2 "[Returned 0, Finished, FetchOr 0x100]" "0x100" "0x60"] by simp
  moreover have "flags_step (0x60, [Returned 0, Finished, Absent 0x100]) (0x160, [Returned 0, Finished, Returned 0x60])"
    using flags_step.fetch [of 2 "[Returned 0, Finished, Absent 0x100]" "0x100" "0x60"] by simp
  ultimately show ?thesis
    by (meson converse_rtranclp_into_rtranclp rtranclp.rtrancl_refl)
qed


text \<open>When threads only add flags, the word ends with exactly the flags it had and the ones requested,
  whatever the interleaving.\<close>

theorem flag_updates_add_up:
  assumes "reaches (v0, calls) (v, rs)" "list_all is_done rs" "list_all is_update calls"
  shows "v = fold (OR) (map requested calls) v0"
proof -
  have "grows_inv v0 calls (v, rs)"
    using grows_reaches [OF assms(1,3)] .
  then have "bit v b \<longleftrightarrow> bit v0 b \<or> (\<exists>f \<in> set (map requested calls). bit f b)" for b
    using assms(2) by (auto simp: grows_inv_def list_all_length in_set_conv_nth)
  then show ?thesis
    by (intro bit_eqI) (simp add: fold_or_bit)
qed

theorem flag_updates_add_up_witness: "(0x160 :: value_flags) = fold (OR) (map requested demo_calls) 0"
  using flag_updates_add_up [OF demo_run] by (simp add: demo_calls_def)

text \<open>Every update returns: no run of updates is longer than two steps for each of them, and as long as
  an update has not returned there is a step to take.\<close>

theorem flag_updates_return:
  assumes "(flags_step ^^ n) (v, rs) (v', rs')"
  shows "n \<le> 2 * length rs \<and> (list_all is_done rs' \<or> (\<exists>s. flags_step (v', rs') s))"
proof -
  have "n + sum_list (map steps_left (snd t)) \<le> sum_list (map steps_left (snd s))" if "(flags_step ^^ n) s t" for s t
    using that
  proof (induction n arbitrary: t)
    case (Suc n)
    then obtain u where "(flags_step ^^ n) s u" "flags_step u t"
      by auto
    then show ?case
      using Suc.IH steps_left_decrease by fastforce
  qed simp
  from this [OF assms] have "n \<le> sum_list (map steps_left rs)"
    by simp
  also have "\<dots> \<le> 2 * length rs"
  proof (induction rs)
    case (Cons r rs)
    then show ?case
      by (cases r) auto
  qed simp
  finally show ?thesis
    using not_done_steps by blast
qed

theorem flag_updates_return_witness:
  "(1 :: nat) \<le> 2 * length [OrAssign DIRECT] \<and> (list_all is_done [Finished] \<or> (\<exists>s. flags_step (DIRECT, [Finished]) s))"
proof -
  have "(flags_step ^^ 1) (0, [OrAssign DIRECT]) (DIRECT, [Finished])"
    using flags_step.or_assign [of 0 "[OrAssign DIRECT]" DIRECT 0] by (simp add: relcompp_apply)
  then show ?thesis
    using flag_updates_return by blast
qed

end
