(* ===== verification/Output_Parts.thy ===== *)
theory Output_Parts
  imports Alignment
begin

text \<open>
  Output sections and their parts: the numbering of \<open>part_id.rs\<close> and \<open>output_section_id.rs\<close>, and the
  maps from parts to values of \<open>output_section_part_map.rs\<close>. A generated section is one part; every
  other section is split into one part for each alignment, the largest first. Identifiers are natural
  numbers: the source keeps them in 32 bits, which vectors of that many entries do not exhaust.
\<close>

section \<open>Identifiers\<close>

type_synonym part_id = nat
type_synonym output_section_id = nat

definition NUM_SINGLE_PART_SECTIONS :: nat where
  "NUM_SINGLE_PART_SECTIONS = 47"

definition NUM_ALIGNMENTS :: nat where
  "NUM_ALIGNMENTS = unat MAX_ALIGNMENT_EXPONENT + 1"

definition RELRO_PADDING :: output_section_id where
  "RELRO_PADDING = 28"

definition regular :: "nat \<Rightarrow> output_section_id" where
  "regular offset = NUM_SINGLE_PART_SECTIONS + offset"

definition part_output_section_id :: "part_id \<Rightarrow> output_section_id" where
  "part_output_section_id p =
     (if p < NUM_SINGLE_PART_SECTIONS then p
      else (p - NUM_SINGLE_PART_SECTIONS) div NUM_ALIGNMENTS + NUM_SINGLE_PART_SECTIONS)"

definition section_num_parts :: "output_section_id \<Rightarrow> nat" where
  "section_num_parts s = (if s < NUM_SINGLE_PART_SECTIONS then 1 else NUM_ALIGNMENTS)"

definition base_part_id :: "output_section_id \<Rightarrow> part_id" where
  "base_part_id s =
     (if s < NUM_SINGLE_PART_SECTIONS then s
      else NUM_SINGLE_PART_SECTIONS + (s - NUM_SINGLE_PART_SECTIONS) * NUM_ALIGNMENTS)"

definition part_id_range :: "output_section_id \<Rightarrow> part_id \<times> part_id" where
  "part_id_range s = (base_part_id s, base_part_id s + section_num_parts s)"

text \<open>The \<open>const fn\<close> panics on a section that is not split by alignment.\<close>

definition part_id_with_alignment :: "output_section_id \<Rightarrow> alignment \<Rightarrow> part_id option" where
  "part_id_with_alignment s a =
     (if s < NUM_SINGLE_PART_SECTIONS then None
      else Some (NUM_SINGLE_PART_SECTIONS + (s - NUM_SINGLE_PART_SECTIONS) * NUM_ALIGNMENTS
                   + NUM_ALIGNMENTS - 1 - unat (exponent a)))"

definition regular_alignment :: "part_id \<Rightarrow> alignment option" where
  "regular_alignment p =
     (if p < NUM_SINGLE_PART_SECTIONS then None
      else Some (Alignment (of_nat (NUM_ALIGNMENTS - 1 - (p - NUM_SINGLE_PART_SECTIONS) mod NUM_ALIGNMENTS))))"

text \<open>The sections that are packed without padding: \<open>.eh_frame\<close>, \<open>.init\<close> and \<open>.fini\<close>.\<close>

definition should_pack :: "part_id \<Rightarrow> bool" where
  "should_pack p = (let s = part_output_section_id p in s = 9 \<or> s = regular 5 \<or> s = regular 6)"

section \<open>Output sections\<close>

datatype section_kind = Primary string | Secondary output_section_id

text \<open>
  What the layout asks of the attributes of a section: whether it is allocated, has no bits in the file, is
  thread-local, writable or executable, and whether its type is that of notes or of the RISC-V attributes.
  The order of a secondary section is its priority among the initialisers.
\<close>

record section_output_info =
  kind :: section_kind
  is_alloc :: bool
  is_no_bits :: bool
  is_tls :: bool
  is_note :: bool
  is_riscv_attributes :: bool
  is_write :: bool
  is_exec :: bool
  min_alignment :: alignment
  location :: "u64 option"
  secondary_order :: "u16 option"

record output_sections =
  base_address :: u64
  section_infos :: "section_output_info list"
  output_section_indexes :: "u32 option list"

definition output_info :: "output_sections \<Rightarrow> output_section_id \<Rightarrow> section_output_info option" where
  "output_info os s = nth_opt (section_infos os) s"

definition num_sections :: "output_sections \<Rightarrow> nat" where
  "num_sections os = length (section_infos os)"

definition num_parts :: "output_sections \<Rightarrow> nat" where
  "num_parts os = NUM_SINGLE_PART_SECTIONS + (num_sections os - NUM_SINGLE_PART_SECTIONS) * NUM_ALIGNMENTS"

definition merge_target :: "output_sections \<Rightarrow> output_section_id \<Rightarrow> output_section_id option option" where
  "merge_target os s = do {
     info \<leftarrow> output_info os s;
     Some (case kind info of Primary _ \<Rightarrow> None | Secondary primary_id \<Rightarrow> Some primary_id)
   }"

definition primary_output_section :: "output_sections \<Rightarrow> output_section_id \<Rightarrow> output_section_id option" where
  "primary_output_section os s = do {
     target \<leftarrow> merge_target os s;
     Some (case target of None \<Rightarrow> s | Some primary_id \<Rightarrow> primary_id)
   }"

text \<open>Thread-local sections without contents still take up space in the file.\<close>

definition has_data_in_file :: "section_output_info \<Rightarrow> bool" where
  "has_data_in_file info \<longleftrightarrow> \<not> is_no_bits info \<or> is_tls info"

definition part_alignment :: "output_sections \<Rightarrow> part_id \<Rightarrow> alignment option" where
  "part_alignment os p =
     (case regular_alignment p of
        Some a \<Rightarrow> Some a
      | None \<Rightarrow> map_option min_alignment (output_info os (part_output_section_id p)))"

section \<open>Maps from parts to values\<close>

type_synonym 'a part_map = "'a list"

definition increment :: "u64 part_map \<Rightarrow> part_id \<Rightarrow> u64 \<Rightarrow> u64 part_map option" where
  "increment m p n = do { v \<leftarrow> nth_opt m p; update_opt m p (v + n) }"

text \<open>The assertion that the value does not underflow is a debug assertion; the release build wraps.\<close>

definition decrement :: "u64 part_map \<Rightarrow> part_id \<Rightarrow> u64 \<Rightarrow> u64 part_map option" where
  "decrement m p n = do { v \<leftarrow> nth_opt m p; update_opt m p (v - n) }"

definition part_slice :: "'a part_map \<Rightarrow> part_id \<times> part_id \<Rightarrow> 'a list option" where
  "part_slice m r =
     (if fst r \<le> snd r \<and> snd r \<le> length m then Some (take (snd r - fst r) (drop (fst r) m)) else None)"

primrec position :: "('a \<Rightarrow> bool) \<Rightarrow> 'a list \<Rightarrow> nat option" where
  "position P [] = None"
| "position P (x # xs) = (if P x then Some 0 else map_option Suc (position P xs))"

definition max_alignment :: "output_sections \<Rightarrow> u64 part_map \<Rightarrow> part_id \<times> part_id \<Rightarrow> alignment option" where
  "max_alignment os sizes r = do {
     slice \<leftarrow> part_slice sizes r;
     first \<leftarrow> (case position (\<lambda>v. v \<noteq> 0) slice of
                 None \<Rightarrow> Some (Alignment 0)
               | Some i \<Rightarrow> part_alignment os (fst r + i));
     info \<leftarrow> output_info os (part_output_section_id (fst r));
     Some (max first (min_alignment info))
   }"

definition resize :: "nat \<Rightarrow> u64 part_map \<Rightarrow> u64 part_map" where
  "resize n m = (if n \<le> length m then take n m else m @ replicate (n - length m) 0)"

definition part_merge :: "u64 part_map \<Rightarrow> u64 part_map \<Rightarrow> u64 part_map" where
  "part_merge l r =
     (let l = (if length l < length r then resize (length r) l else l)
      in map2 (+) l r @ drop (length r) l)"

section \<open>The numbering is consistent\<close>

lemma NUM_ALIGNMENTS_17 [simp]: "NUM_ALIGNMENTS = 17"
  by (simp add: NUM_ALIGNMENTS_def MAX_ALIGNMENT_EXPONENT_def)

lemmas section_numbers = part_output_section_id_def base_part_id_def section_num_parts_def
  part_id_range_def NUM_SINGLE_PART_SECTIONS_def

lemma part_in_range_iff:
  "fst (part_id_range s) \<le> p \<and> p < snd (part_id_range s) \<longleftrightarrow> part_output_section_id p = s"
  by (auto simp: section_numbers split: if_splits)

lemma part_range_in_bounds: "s < num_sections os \<Longrightarrow> snd (part_id_range s) \<le> num_parts os"
  by (auto simp: section_numbers num_parts_def)

lemma part_id_range_le: "fst (part_id_range s) \<le> snd (part_id_range s)"
  by (simp add: section_numbers)

lemma unat_u8_of_nat: "k < 2 ^ 8 \<Longrightarrow> unat (of_nat k :: u8) = k"
  by (simp add: unat_of_nat)

lemma regular_alignment_exponent:
  assumes "regular_alignment p = Some a"
  shows "unat (exponent a) = 16 - (p - NUM_SINGLE_PART_SECTIONS) mod 17"
proof -
  have "a = Alignment (of_nat (16 - (p - NUM_SINGLE_PART_SECTIONS) mod 17))"
    using assms by (auto simp: regular_alignment_def simp del: of_nat_diff split: if_splits)
  moreover have "unat (of_nat (16 - (p - NUM_SINGLE_PART_SECTIONS) mod 17) :: u8)
      = 16 - (p - NUM_SINGLE_PART_SECTIONS) mod 17"
    by (rule unat_u8_of_nat) simp
  ultimately show ?thesis
    by (simp only: alignment.sel)
qed

lemma regular_part_exponent:
  assumes "\<not> s < NUM_SINGLE_PART_SECTIONS" "k < 17" "regular_alignment (base_part_id s + k) = Some a"
  shows "unat (exponent a) = 16 - k"
  using regular_alignment_exponent [OF assms(3)] assms(1,2) by (simp add: base_part_id_def)

lemma regular_alignment_ok: "regular_alignment p = Some a \<Longrightarrow> alignment_ok a"
  using regular_alignment_exponent [of p a] by (simp add: alignment_ok_exponent)

lemma max_alignment_ok: "alignment_ok a \<Longrightarrow> alignment_ok b \<Longrightarrow> alignment_ok (max a b)"
  and min_alignment_ok: "alignment_ok a \<Longrightarrow> alignment_ok (min a b)"
  by (auto simp: max_def min_def alignment_ok_def less_eq_alignment_def)

section \<open>Well-formed output sections\<close>

definition section_info_ok :: "output_sections \<Rightarrow> section_output_info \<Rightarrow> bool" where
  "section_info_ok os info \<longleftrightarrow> alignment_ok (min_alignment info)
     \<and> (case kind info of Primary _ \<Rightarrow> True | Secondary s \<Rightarrow> s < num_sections os)"

definition sections_ok :: "output_sections \<Rightarrow> bool" where
  "sections_ok os \<longleftrightarrow> NUM_SINGLE_PART_SECTIONS \<le> num_sections os
     \<and> list_all (section_info_ok os) (section_infos os)"

lemma output_info_total:
  assumes "sections_ok os" "s < num_sections os"
  obtains info where "output_info os s = Some info" "section_info_ok os info"
  using assms by (auto simp: sections_ok_def output_info_def num_sections_def list_all_length)

lemma primary_output_section_total:
  assumes "sections_ok os" "s < num_sections os"
  obtains t info where "primary_output_section os s = Some t" "output_info os t = Some info"
    "section_info_ok os info"
proof -
  obtain i where i: "output_info os s = Some i" "section_info_ok os i"
    using assms by (rule output_info_total)
  obtain t where t: "primary_output_section os s = Some t" "t < num_sections os"
    using i assms(2) by (auto simp: primary_output_section_def merge_target_def section_info_ok_def
        split: section_kind.splits)
  obtain info where "output_info os t = Some info" "section_info_ok os info"
    using assms(1) t(2) by (rule output_info_total)
  with t(1) show thesis
    by (rule that)
qed

lemma part_alignment_total:
  assumes "sections_ok os" "p < num_parts os"
  obtains a where "part_alignment os p = Some a" "alignment_ok a"
proof (cases "regular_alignment p")
  case None
  then have "p < num_sections os" "part_output_section_id p = p"
    using assms(1) by (auto simp: regular_alignment_def section_numbers sections_ok_def split: if_splits)
  then obtain info where "output_info os p = Some info" "section_info_ok os info"
    using output_info_total [OF assms(1)] by metis
  then show thesis
    using that None \<open>part_output_section_id p = p\<close> by (simp add: part_alignment_def section_info_ok_def)
next
  case (Some a)
  then show thesis
    using that regular_alignment_ok by (simp add: part_alignment_def)
qed

lemma position_SomeD: "position P xs = Some i \<Longrightarrow> i < length xs \<and> P (xs ! i) \<and> (\<forall>j < i. \<not> P (xs ! j))"
proof (induction xs arbitrary: i)
  case (Cons x xs)
  then show ?case
    by (auto split: if_splits simp: less_Suc_eq_0_disj)
qed simp

lemma position_NoneD: "position P xs = None \<Longrightarrow> x \<in> set xs \<Longrightarrow> \<not> P x"
  by (induction xs) (auto split: if_splits)

lemma part_slice_total:
  assumes "length m = num_parts os" "s < num_sections os"
  obtains xs where "part_slice m (part_id_range s) = Some xs" "length xs = section_num_parts s"
    "\<forall>i < section_num_parts s. xs ! i = m ! (base_part_id s + i)"
proof -
  have "base_part_id s + section_num_parts s \<le> length m"
    using part_range_in_bounds [OF assms(2)] assms(1) by (simp add: part_id_range_def)
  then show thesis
    using that [of "take (section_num_parts s) (drop (base_part_id s) m)"]
    by (simp add: part_slice_def part_id_range_def)
qed

text \<open>No part that has contents is placed with less than its own alignment.\<close>

lemma max_alignment_total:
  assumes "sections_ok os" "length sizes = num_parts os" "s < num_sections os"
  obtains m where "max_alignment os sizes (part_id_range s) = Some m" "alignment_ok m"
    "\<And>p a. part_output_section_id p = s \<Longrightarrow> sizes ! p \<noteq> 0 \<Longrightarrow> part_alignment os p = Some a \<Longrightarrow> a \<le> m"
proof -
  obtain xs where xs: "part_slice sizes (part_id_range s) = Some xs" "length xs = section_num_parts s"
      "\<forall>i < section_num_parts s. xs ! i = sizes ! (base_part_id s + i)"
    using assms(2,3) by (rule part_slice_total)
  obtain info where info: "output_info os s = Some info" "section_info_ok os info"
    using assms(1,3) by (rule output_info_total)
  have base: "part_output_section_id (base_part_id s) = s"
    by (simp add: section_numbers)
  have member: "p = base_part_id s + (p - base_part_id s) \<and> p - base_part_id s < section_num_parts s"
    if "part_output_section_id p = s" for p
    using part_in_range_iff [of s p] that by (auto simp: part_id_range_def)
  show thesis
  proof (cases "position (\<lambda>v. v \<noteq> 0) xs")
    case None
    have "sizes ! p = 0" if "part_output_section_id p = s" for p
      using position_NoneD [OF None] member [OF that] xs(2,3) nth_mem by metis
    moreover have "max_alignment os sizes (part_id_range s) = Some (max (Alignment 0) (min_alignment info))"
      using xs(1) None info(1) base by (simp add: max_alignment_def part_id_range_def)
    ultimately show thesis
      using that info(2) max_alignment_ok by (simp add: section_info_ok_def alignment_ok_def)
  next
    case (Some i)
    note i = position_SomeD [OF Some]
    have "base_part_id s + i < num_parts os"
      using i xs(2) part_range_in_bounds [OF assms(3)] by (simp add: part_id_range_def)
    then obtain a where a: "part_alignment os (base_part_id s + i) = Some a" "alignment_ok a"
      by (rule part_alignment_total [OF assms(1)])
    let ?m = "max a (min_alignment info)"
    have "b \<le> ?m" if p: "part_output_section_id p = s" "sizes ! p \<noteq> 0" "part_alignment os p = Some b" for p b
    proof (cases "s < NUM_SINGLE_PART_SECTIONS")
      case True
      then have "b = min_alignment info"
        using p info(1) by (auto simp: part_alignment_def regular_alignment_def section_numbers split: if_splits)
      then show ?thesis
        by simp
    next
      case False
      have m: "i \<le> p - base_part_id s"
        using i p(2) member [OF p(1)] xs(2,3) by (metis not_le)
      have reg: "regular_alignment p = Some b" "regular_alignment (base_part_id s + i) = Some a"
        using False p(1,3) a(1)
        by (auto simp: part_alignment_def regular_alignment_def section_numbers split: if_splits)
      have "p = base_part_id s + (p - base_part_id s)" "p - base_part_id s < 17"
        using member [OF p(1)] False by (simp_all add: section_num_parts_def)
      then have "unat (exponent b) = 16 - (p - base_part_id s)" "unat (exponent a) = 16 - i"
        using regular_part_exponent [OF False] reg m by (metis, metis le_less_trans)
      then have "unat (exponent b) \<le> unat (exponent a)"
        using m by simp
      then have "b \<le> a"
        by (simp add: less_eq_alignment_def word_le_nat_alt)
      then show ?thesis
        by (simp add: le_max_iff_disj)
    qed
    moreover have "max_alignment os sizes (part_id_range s) = Some ?m"
      using xs(1) Some info(1) base a(1) by (simp add: max_alignment_def part_id_range_def)
    ultimately show thesis
      using that info(2) a(2) max_alignment_ok by (simp add: section_info_ok_def)
  qed
qed

section \<open>Properties\<close>

text \<open>Part identifiers and the pairs of a section and an alignment determine each other: a part of a
  section that is split by alignment is the one its section and alignment give, and the part of a section
  and an alignment belongs to that section and has that alignment.\<close>

theorem part_id_roundtrip:
  assumes "NUM_SINGLE_PART_SECTIONS \<le> p" "NUM_SINGLE_PART_SECTIONS \<le> s" "alignment_ok a"
  shows "(\<exists>b. regular_alignment p = Some b \<and> part_id_with_alignment (part_output_section_id p) b = Some p)
    \<and> (\<exists>q. part_id_with_alignment s a = Some q \<and> part_output_section_id q = s
          \<and> regular_alignment q = Some a)"
proof (rule conjI)
  obtain b where b: "regular_alignment p = Some b"
    using assms(1) by (simp add: regular_alignment_def)
  define k where "k = p - NUM_SINGLE_PART_SECTIONS"
  have "part_id_with_alignment (part_output_section_id p) b
      = Some (NUM_SINGLE_PART_SECTIONS + k div 17 * 17 + 16 - (16 - k mod 17))"
    using assms(1) regular_alignment_exponent [OF b]
    by (simp add: part_id_with_alignment_def part_output_section_id_def k_def)
  also have "NUM_SINGLE_PART_SECTIONS + k div 17 * 17 + 16 - (16 - k mod 17) = NUM_SINGLE_PART_SECTIONS + k"
    using div_mult_mod_eq [of k 17] mod_less_divisor [of 17 k] by linarith
  also have "\<dots> = p"
    using assms(1) by (simp add: k_def)
  finally show "\<exists>b. regular_alignment p = Some b \<and> part_id_with_alignment (part_output_section_id p) b = Some p"
    using b by blast
next
  define e where "e = 16 - unat (exponent a)"
  have e: "e < 17" "unat (exponent a) = 16 - e"
    using assms(3) by (auto simp: e_def alignment_ok_exponent)
  let ?q = "base_part_id s + e"
  have "part_id_with_alignment s a = Some ?q"
    using assms(2) e by (simp add: part_id_with_alignment_def base_part_id_def)
  moreover have "part_output_section_id ?q = s"
    using part_in_range_iff [of s ?q] assms(2) e(1) by (simp add: part_id_range_def section_num_parts_def)
  moreover obtain b where b: "regular_alignment ?q = Some b"
    using assms(2) by (auto simp: regular_alignment_def base_part_id_def)
  moreover have "b = a"
    using regular_part_exponent [OF _ e(1) b] assms(2) e(2) by (simp add: alignment.expand word_unat_eq_iff)
  ultimately show "\<exists>q. part_id_with_alignment s a = Some q \<and> part_output_section_id q = s
      \<and> regular_alignment q = Some a"
    by blast
qed

theorem part_id_roundtrip_witness:
  "(\<exists>b. regular_alignment 100 = Some b \<and> part_id_with_alignment (part_output_section_id 100) b = Some 100)
    \<and> (\<exists>q. part_id_with_alignment 51 (Alignment 4) = Some q \<and> part_output_section_id q = 51
          \<and> regular_alignment q = Some (Alignment 4))"
  using part_id_roundtrip [of 100 51 "Alignment 4"]
  by (simp add: NUM_SINGLE_PART_SECTIONS_def alignment_ok_exponent)

end
