(* ===== verification/Elf_Sections.thy ===== *)
theory Elf_Sections
  imports Output_Parts
begin

text \<open>
  The built-in output sections of the ELF platform: their identifiers (\<open>output_section_id.rs\<close>), and the
  table \<open>SECTION_DEFINITIONS\<close> of \<open>elf.rs\<close> with the name, flags, type, alignment and segment of each,
  from which the initial description of the output sections is made.
\<close>

section \<open>Identifiers\<close>

definition FILE_HEADER_ID :: output_section_id where "FILE_HEADER_ID = 1"
definition PROGRAM_HEADERS_ID :: output_section_id where "PROGRAM_HEADERS_ID = 2"
definition SECTION_HEADERS_ID :: output_section_id where "SECTION_HEADERS_ID = 3"
definition SHSTRTAB_ID :: output_section_id where "SHSTRTAB_ID = 4"
definition STRTAB_ID :: output_section_id where "STRTAB_ID = 5"
definition GOT_ID :: output_section_id where "GOT_ID = 6"
definition PLT_GOT_ID :: output_section_id where "PLT_GOT_ID = 7"
definition RELA_PLT_ID :: output_section_id where "RELA_PLT_ID = 8"
definition EH_FRAME_ID :: output_section_id where "EH_FRAME_ID = 9"
definition EH_FRAME_HDR_ID :: output_section_id where "EH_FRAME_HDR_ID = 10"
definition SFRAME_ID :: output_section_id where "SFRAME_ID = 11"
definition DYNAMIC_ID :: output_section_id where "DYNAMIC_ID = 12"
definition HASH_ID :: output_section_id where "HASH_ID = 13"
definition GNU_HASH_ID :: output_section_id where "GNU_HASH_ID = 14"
definition DYNSYM_ID :: output_section_id where "DYNSYM_ID = 15"
definition DYNSTR_ID :: output_section_id where "DYNSTR_ID = 16"
definition INTERP_ID :: output_section_id where "INTERP_ID = 17"
definition GNU_VERSION_ID :: output_section_id where "GNU_VERSION_ID = 18"
definition GNU_VERSION_D_ID :: output_section_id where "GNU_VERSION_D_ID = 19"
definition GNU_VERSION_R_ID :: output_section_id where "GNU_VERSION_R_ID = 20"
definition NOTE_GNU_PROPERTY_ID :: output_section_id where "NOTE_GNU_PROPERTY_ID = 21"
definition NOTE_GNU_BUILD_ID_ID :: output_section_id where "NOTE_GNU_BUILD_ID_ID = 22"
definition SYMTAB_LOCAL_ID :: output_section_id where "SYMTAB_LOCAL_ID = 23"
definition SYMTAB_GLOBAL_ID :: output_section_id where "SYMTAB_GLOBAL_ID = 24"
definition RELA_DYN_RELATIVE_ID :: output_section_id where "RELA_DYN_RELATIVE_ID = 25"
definition RELA_DYN_GENERAL_ID :: output_section_id where "RELA_DYN_GENERAL_ID = 26"
definition RISCV_ATTRIBUTES_ID :: output_section_id where "RISCV_ATTRIBUTES_ID = 27"
definition RELRO_PADDING_ID :: output_section_id where "RELRO_PADDING_ID = 28"
definition RELR_DYN_ID :: output_section_id where "RELR_DYN_ID = 29"
definition SYMTAB_SHNDX_LOCAL_ID :: output_section_id where "SYMTAB_SHNDX_LOCAL_ID = 30"
definition SYMTAB_SHNDX_GLOBAL_ID :: output_section_id where "SYMTAB_SHNDX_GLOBAL_ID = 31"
definition RODATA_ID :: output_section_id where "RODATA_ID = regular 0"
definition INIT_ARRAY_ID :: output_section_id where "INIT_ARRAY_ID = regular 1"
definition FINI_ARRAY_ID :: output_section_id where "FINI_ARRAY_ID = regular 2"
definition PREINIT_ARRAY_ID :: output_section_id where "PREINIT_ARRAY_ID = regular 3"
definition TEXT_ID :: output_section_id where "TEXT_ID = regular 4"
definition INIT_ID :: output_section_id where "INIT_ID = regular 5"
definition FINI_ID :: output_section_id where "FINI_ID = regular 6"
definition DATA_ID :: output_section_id where "DATA_ID = regular 7"
definition TDATA_ID :: output_section_id where "TDATA_ID = regular 8"
definition TBSS_ID :: output_section_id where "TBSS_ID = regular 9"
definition BSS_ID :: output_section_id where "BSS_ID = regular 10"
definition COMMENT_ID :: output_section_id where "COMMENT_ID = regular 11"
definition GCC_EXCEPT_TABLE_ID :: output_section_id where "GCC_EXCEPT_TABLE_ID = regular 12"
definition NOTE_ABI_TAG_ID :: output_section_id where "NOTE_ABI_TAG_ID = regular 13"
definition DATA_REL_RO_ID :: output_section_id where "DATA_REL_RO_ID = regular 14"

lemmas section_ids = FILE_HEADER_ID_def PROGRAM_HEADERS_ID_def SECTION_HEADERS_ID_def SHSTRTAB_ID_def STRTAB_ID_def
  GOT_ID_def PLT_GOT_ID_def RELA_PLT_ID_def EH_FRAME_ID_def EH_FRAME_HDR_ID_def
  SFRAME_ID_def DYNAMIC_ID_def HASH_ID_def GNU_HASH_ID_def DYNSYM_ID_def
  DYNSTR_ID_def INTERP_ID_def GNU_VERSION_ID_def GNU_VERSION_D_ID_def GNU_VERSION_R_ID_def
  NOTE_GNU_PROPERTY_ID_def NOTE_GNU_BUILD_ID_ID_def SYMTAB_LOCAL_ID_def SYMTAB_GLOBAL_ID_def RELA_DYN_RELATIVE_ID_def
  RELA_DYN_GENERAL_ID_def RISCV_ATTRIBUTES_ID_def RELRO_PADDING_ID_def RELR_DYN_ID_def SYMTAB_SHNDX_LOCAL_ID_def
  SYMTAB_SHNDX_GLOBAL_ID_def RODATA_ID_def INIT_ARRAY_ID_def FINI_ARRAY_ID_def PREINIT_ARRAY_ID_def
  TEXT_ID_def INIT_ID_def FINI_ID_def DATA_ID_def TDATA_ID_def
  TBSS_ID_def BSS_ID_def COMMENT_ID_def GCC_EXCEPT_TABLE_ID_def NOTE_ABI_TAG_ID_def
  DATA_REL_RO_ID_def
  regular_def NUM_SINGLE_PART_SECTIONS_def

definition NUM_BUILT_IN_REGULAR_SECTIONS :: nat where
  "NUM_BUILT_IN_REGULAR_SECTIONS = 20"

definition NUM_BUILT_IN_SECTIONS :: nat where
  "NUM_BUILT_IN_SECTIONS = NUM_SINGLE_PART_SECTIONS + NUM_BUILT_IN_REGULAR_SECTIONS"

section \<open>Types and flags\<close>

text \<open>The section types, segment types and section flags that the tables name.\<close>

datatype elf_section_type =
  SHT_NULL | SHT_STRTAB | SHT_PROGBITS | SHT_RELA | SHT_GNU_SFRAME | SHT_DYNAMIC
  | SHT_HASH | SHT_GNU_HASH | SHT_DYNSYM | SHT_GNU_VERSYM | SHT_GNU_VERDEF | SHT_GNU_VERNEED
  | SHT_NOTE | SHT_SYMTAB | SHT_RELR | SHT_RISCV_ATTRIBUTES | SHT_NOBITS | SHT_SYMTAB_SHNDX
  | SHT_INIT_ARRAY | SHT_FINI_ARRAY | SHT_PREINIT_ARRAY

datatype segment_type =
  PT_PHDR | PT_INTERP | PT_NOTE | PT_GNU_PROPERTY | PT_LOAD | PT_TLS
  | PT_GNU_EH_FRAME | PT_GNU_SFRAME | PT_DYNAMIC | PT_GNU_RELRO | PT_RISCV_ATTRIBUTES | PT_GNU_STACK

datatype section_flag = SHF_ALLOC | SHF_WRITE | SHF_EXECINSTR | SHF_INFO_LINK | SHF_TLS | SHF_STRINGS | SHF_MERGE

record built_in_section_details =
  bi_kind :: section_kind
  bi_flags :: "section_flag set"
  bi_link :: "output_section_id list"
  bi_min_alignment :: alignment
  bi_element_size :: u64
  bi_ty :: elf_section_type
  bi_is_relro :: bool
  bi_target_segment_type :: "segment_type option"

definition DEFAULT_DEFS :: built_in_section_details where
  "DEFAULT_DEFS = \<lparr>bi_kind = Primary [], bi_flags = {}, bi_link = [], bi_min_alignment = Alignment 0,
     bi_element_size = 0, bi_ty = SHT_NULL, bi_is_relro = False, bi_target_segment_type = None\<rparr>"

section \<open>The table\<close>

text \<open>
  The assignments to the array, in three parts. The sizes of entries are those of the 64-bit ELF
  structures.
\<close>

definition section_definitions_1 :: "(output_section_id \<times> built_in_section_details) list" where
  "section_definitions_1 = [
     (FILE_HEADER_ID, DEFAULT_DEFS\<lparr>bi_kind := Primary '''', bi_flags := {SHF_ALLOC}\<rparr>),
     (PROGRAM_HEADERS_ID, DEFAULT_DEFS\<lparr>bi_kind := Primary ''.phdr'', bi_flags := {SHF_ALLOC},
        bi_min_alignment := Alignment 3, bi_target_segment_type := Some PT_PHDR\<rparr>),
     (SECTION_HEADERS_ID, DEFAULT_DEFS\<lparr>bi_kind := Primary ''.shdr'', bi_flags := {SHF_ALLOC}\<rparr>),
     (SHSTRTAB_ID, DEFAULT_DEFS\<lparr>bi_kind := Primary ''.shstrtab'', bi_ty := SHT_STRTAB\<rparr>),
     (STRTAB_ID, DEFAULT_DEFS\<lparr>bi_kind := Primary ''.strtab'', bi_ty := SHT_STRTAB\<rparr>),
     (GOT_ID, DEFAULT_DEFS\<lparr>bi_kind := Primary ''.got'', bi_flags := {SHF_WRITE, SHF_ALLOC},
        bi_min_alignment := Alignment 3, bi_element_size := 8, bi_ty := SHT_PROGBITS,
        bi_is_relro := True\<rparr>),
     (PLT_GOT_ID, DEFAULT_DEFS\<lparr>bi_kind := Primary ''.plt.got'', bi_flags := {SHF_ALLOC, SHF_EXECINSTR},
        bi_min_alignment := Alignment 4, bi_element_size := 16, bi_ty := SHT_PROGBITS\<rparr>),
     (RELA_PLT_ID, DEFAULT_DEFS\<lparr>bi_kind := Primary ''.rela.plt'',
        bi_flags := {SHF_ALLOC, SHF_INFO_LINK}, bi_link := [DYNSYM_ID, SYMTAB_LOCAL_ID],
        bi_min_alignment := Alignment 3, bi_element_size := 24, bi_ty := SHT_RELA\<rparr>),
     (EH_FRAME_ID, DEFAULT_DEFS\<lparr>bi_kind := Primary ''.eh_frame'', bi_flags := {SHF_ALLOC},
        bi_min_alignment := Alignment 3, bi_ty := SHT_PROGBITS\<rparr>),
     (EH_FRAME_HDR_ID, DEFAULT_DEFS\<lparr>bi_kind := Primary ''.eh_frame_hdr'', bi_flags := {SHF_ALLOC},
        bi_min_alignment := Alignment 2, bi_ty := SHT_PROGBITS,
        bi_target_segment_type := Some PT_GNU_EH_FRAME\<rparr>),
     (SFRAME_ID, DEFAULT_DEFS\<lparr>bi_kind := Primary ''.sframe'', bi_flags := {SHF_ALLOC},
        bi_min_alignment := Alignment 3, bi_ty := SHT_GNU_SFRAME,
        bi_target_segment_type := Some PT_GNU_SFRAME\<rparr>),
     (DYNAMIC_ID, DEFAULT_DEFS\<lparr>bi_kind := Primary ''.dynamic'', bi_flags := {SHF_ALLOC, SHF_WRITE},
        bi_link := [DYNSTR_ID], bi_min_alignment := Alignment 3, bi_element_size := 16, bi_ty := SHT_DYNAMIC,
        bi_is_relro := True, bi_target_segment_type := Some PT_DYNAMIC\<rparr>),
     (HASH_ID, DEFAULT_DEFS\<lparr>bi_kind := Primary ''.hash'', bi_flags := {SHF_ALLOC},
        bi_link := [DYNSYM_ID], bi_min_alignment := Alignment 2, bi_ty := SHT_HASH\<rparr>),
     (GNU_HASH_ID, DEFAULT_DEFS\<lparr>bi_kind := Primary ''.gnu.hash'', bi_flags := {SHF_ALLOC},
        bi_link := [DYNSYM_ID], bi_min_alignment := Alignment 3, bi_ty := SHT_GNU_HASH\<rparr>),
     (DYNSYM_ID, DEFAULT_DEFS\<lparr>bi_kind := Primary ''.dynsym'', bi_flags := {SHF_ALLOC},
        bi_link := [DYNSTR_ID], bi_min_alignment := Alignment 3, bi_element_size := 24,
        bi_ty := SHT_DYNSYM\<rparr>),
     (DYNSTR_ID, DEFAULT_DEFS\<lparr>bi_kind := Primary ''.dynstr'', bi_flags := {SHF_ALLOC},
        bi_min_alignment := Alignment 0, bi_ty := SHT_STRTAB\<rparr>)]"

definition section_definitions_2 :: "(output_section_id \<times> built_in_section_details) list" where
  "section_definitions_2 = [
     (INTERP_ID, DEFAULT_DEFS\<lparr>bi_kind := Primary ''.interp'', bi_flags := {SHF_ALLOC},
        bi_ty := SHT_PROGBITS, bi_target_segment_type := Some PT_INTERP\<rparr>),
     (GNU_VERSION_ID, DEFAULT_DEFS\<lparr>bi_kind := Primary ''.gnu.version'', bi_flags := {SHF_ALLOC},
        bi_link := [DYNSYM_ID], bi_min_alignment := Alignment 1, bi_element_size := 2,
        bi_ty := SHT_GNU_VERSYM\<rparr>),
     (GNU_VERSION_D_ID, DEFAULT_DEFS\<lparr>bi_kind := Primary ''.gnu.version_d'', bi_flags := {SHF_ALLOC},
        bi_link := [DYNSTR_ID], bi_min_alignment := Alignment 3, bi_ty := SHT_GNU_VERDEF\<rparr>),
     (GNU_VERSION_R_ID, DEFAULT_DEFS\<lparr>bi_kind := Primary ''.gnu.version_r'', bi_flags := {SHF_ALLOC},
        bi_link := [DYNSTR_ID], bi_min_alignment := Alignment 3, bi_ty := SHT_GNU_VERNEED\<rparr>),
     (NOTE_GNU_PROPERTY_ID, DEFAULT_DEFS\<lparr>bi_kind := Primary ''.note.gnu.property'',
        bi_flags := {SHF_ALLOC}, bi_min_alignment := Alignment 3, bi_ty := SHT_NOTE,
        bi_target_segment_type := Some PT_GNU_PROPERTY\<rparr>),
     (NOTE_GNU_BUILD_ID_ID, DEFAULT_DEFS\<lparr>bi_kind := Primary ''.note.gnu.build-id'',
        bi_flags := {SHF_ALLOC}, bi_min_alignment := Alignment 2, bi_ty := SHT_NOTE\<rparr>),
     (SYMTAB_LOCAL_ID, DEFAULT_DEFS\<lparr>bi_kind := Primary ''.symtab'', bi_link := [STRTAB_ID],
        bi_min_alignment := Alignment 3, bi_element_size := 24, bi_ty := SHT_SYMTAB\<rparr>),
     (SYMTAB_GLOBAL_ID, DEFAULT_DEFS\<lparr>bi_kind := Secondary SYMTAB_LOCAL_ID\<rparr>),
     (RELA_DYN_RELATIVE_ID, DEFAULT_DEFS\<lparr>bi_kind := Primary ''.rela.dyn'', bi_flags := {SHF_ALLOC},
        bi_link := [DYNSYM_ID], bi_min_alignment := Alignment 3, bi_element_size := 24,
        bi_ty := SHT_RELA\<rparr>),
     (RELA_DYN_GENERAL_ID, DEFAULT_DEFS\<lparr>bi_kind := Secondary RELA_DYN_RELATIVE_ID\<rparr>),
     (RELR_DYN_ID, DEFAULT_DEFS\<lparr>bi_kind := Primary ''.relr.dyn'', bi_flags := {SHF_ALLOC},
        bi_min_alignment := Alignment 3, bi_element_size := 8, bi_ty := SHT_RELR\<rparr>),
     (RISCV_ATTRIBUTES_ID, DEFAULT_DEFS\<lparr>bi_kind := Primary ''.riscv.attributes'',
        bi_ty := SHT_RISCV_ATTRIBUTES, bi_target_segment_type := Some PT_RISCV_ATTRIBUTES\<rparr>),
     (RELRO_PADDING_ID, DEFAULT_DEFS\<lparr>bi_kind := Primary ''.relro_padding'',
        bi_flags := {SHF_ALLOC, SHF_WRITE}, bi_ty := SHT_NOBITS, bi_is_relro := True\<rparr>),
     (SYMTAB_SHNDX_LOCAL_ID, DEFAULT_DEFS\<lparr>bi_kind := Primary ''.symtab_shndx'',
        bi_link := [SYMTAB_LOCAL_ID], bi_min_alignment := Alignment 2, bi_element_size := 4,
        bi_ty := SHT_SYMTAB_SHNDX\<rparr>),
     (SYMTAB_SHNDX_GLOBAL_ID, DEFAULT_DEFS\<lparr>bi_kind := Secondary SYMTAB_SHNDX_LOCAL_ID\<rparr>)]"

definition section_definitions_3 :: "(output_section_id \<times> built_in_section_details) list" where
  "section_definitions_3 = [
     (RODATA_ID, DEFAULT_DEFS\<lparr>bi_kind := Primary ''.rodata'', bi_flags := {SHF_ALLOC},
        bi_ty := SHT_PROGBITS\<rparr>),
     (INIT_ARRAY_ID, DEFAULT_DEFS\<lparr>bi_kind := Primary ''.init_array'',
        bi_flags := {SHF_ALLOC, SHF_WRITE}, bi_min_alignment := Alignment 3, bi_element_size := 8,
        bi_ty := SHT_INIT_ARRAY, bi_is_relro := True\<rparr>),
     (FINI_ARRAY_ID, DEFAULT_DEFS\<lparr>bi_kind := Primary ''.fini_array'',
        bi_flags := {SHF_ALLOC, SHF_WRITE}, bi_min_alignment := Alignment 3, bi_element_size := 8,
        bi_ty := SHT_FINI_ARRAY, bi_is_relro := True\<rparr>),
     (PREINIT_ARRAY_ID, DEFAULT_DEFS\<lparr>bi_kind := Primary ''.preinit_array'',
        bi_flags := {SHF_ALLOC, SHF_WRITE}, bi_ty := SHT_PREINIT_ARRAY, bi_is_relro := True\<rparr>),
     (TEXT_ID, DEFAULT_DEFS\<lparr>bi_kind := Primary ''.text'', bi_flags := {SHF_ALLOC, SHF_EXECINSTR},
        bi_ty := SHT_PROGBITS\<rparr>),
     (INIT_ID, DEFAULT_DEFS\<lparr>bi_kind := Primary ''.init'', bi_flags := {SHF_ALLOC, SHF_EXECINSTR},
        bi_ty := SHT_PROGBITS\<rparr>),
     (FINI_ID, DEFAULT_DEFS\<lparr>bi_kind := Primary ''.fini'', bi_flags := {SHF_ALLOC, SHF_EXECINSTR},
        bi_ty := SHT_PROGBITS\<rparr>),
     (DATA_ID, DEFAULT_DEFS\<lparr>bi_kind := Primary ''.data'', bi_flags := {SHF_ALLOC, SHF_WRITE},
        bi_ty := SHT_PROGBITS\<rparr>),
     (TDATA_ID, DEFAULT_DEFS\<lparr>bi_kind := Primary ''.tdata'', bi_flags := {SHF_WRITE, SHF_ALLOC, SHF_TLS},
        bi_ty := SHT_PROGBITS\<rparr>),
     (TBSS_ID, DEFAULT_DEFS\<lparr>bi_kind := Primary ''.tbss'', bi_flags := {SHF_WRITE, SHF_ALLOC, SHF_TLS},
        bi_ty := SHT_NOBITS\<rparr>),
     (BSS_ID, DEFAULT_DEFS\<lparr>bi_kind := Primary ''.bss'', bi_flags := {SHF_ALLOC, SHF_WRITE},
        bi_ty := SHT_NOBITS\<rparr>),
     (COMMENT_ID, DEFAULT_DEFS\<lparr>bi_kind := Primary ''.comment'', bi_flags := {SHF_STRINGS, SHF_MERGE},
        bi_element_size := 1, bi_ty := SHT_PROGBITS\<rparr>),
     (GCC_EXCEPT_TABLE_ID, DEFAULT_DEFS\<lparr>bi_kind := Primary ''.gcc_except_table'',
        bi_flags := {SHF_ALLOC}, bi_ty := SHT_PROGBITS\<rparr>),
     (NOTE_ABI_TAG_ID, DEFAULT_DEFS\<lparr>bi_kind := Primary ''.note.ABI-tag'', bi_flags := {SHF_ALLOC},
        bi_ty := SHT_NOTE\<rparr>),
     (DATA_REL_RO_ID, DEFAULT_DEFS\<lparr>bi_kind := Primary ''.data.rel.ro'',
        bi_flags := {SHF_ALLOC, SHF_WRITE}, bi_ty := SHT_PROGBITS, bi_is_relro := True\<rparr>)]"

definition SECTION_DEFINITIONS :: "built_in_section_details list" where
  "SECTION_DEFINITIONS = fold (\<lambda>(i, d) defs. defs[i := d])
     (section_definitions_1 @ section_definitions_2 @ section_definitions_3)
     (replicate NUM_BUILT_IN_SECTIONS DEFAULT_DEFS)"

definition opt_built_in_details :: "output_section_id \<Rightarrow> built_in_section_details option" where
  "opt_built_in_details s = nth_opt SECTION_DEFINITIONS s"

text \<open>The attributes that the layout reads, from the flags and the type.\<close>

definition info_of_details :: "built_in_section_details \<Rightarrow> section_output_info" where
  "info_of_details d =
     \<lparr>kind = bi_kind d, is_alloc = (SHF_ALLOC \<in> bi_flags d), is_no_bits = (bi_ty d = SHT_NOBITS),
      is_tls = (SHF_TLS \<in> bi_flags d), is_note = (bi_ty d = SHT_NOTE),
      is_riscv_attributes = (bi_ty d = SHT_RISCV_ATTRIBUTES), is_write = (SHF_WRITE \<in> bi_flags d),
      is_exec = (SHF_EXECINSTR \<in> bi_flags d), min_alignment = bi_min_alignment d, location = None,
      secondary_order = None\<rparr>"

definition built_in_section_infos :: "section_output_info list" where
  "built_in_section_infos = map info_of_details SECTION_DEFINITIONS"

section \<open>Lemmas\<close>

lemma length_fold_update: "length (fold (\<lambda>(i, d) defs. defs[i := d]) us ds) = length ds"
  by (induction us arbitrary: ds) auto

lemma length_SECTION_DEFINITIONS [simp]: "length SECTION_DEFINITIONS = 67"
  by (simp add: SECTION_DEFINITIONS_def length_fold_update NUM_BUILT_IN_SECTIONS_def
      NUM_BUILT_IN_REGULAR_SECTIONS_def NUM_SINGLE_PART_SECTIONS_def)

text \<open>An entry of the table is what was assigned to it.\<close>

lemma fold_update_nth:
  assumes "distinct (map fst us)" "(i, d) \<in> set us" "i < length ds"
  shows "fold (\<lambda>(i, d) defs. defs[i := d]) us ds ! i = d"
proof -
  have keep: "fold (\<lambda>(i, d) defs. defs[i := d]) us ds ! i = ds ! i" if "i \<notin> fst ` set us" for us ds
    using that by (induction us arbitrary: ds) auto
  show ?thesis
    using assms
  proof (induction us arbitrary: ds)
    case (Cons u us)
    then show ?case
      by (cases "u = (i, d)") (auto simp: keep split: prod.splits)
  qed simp
qed

end
