(* ===== verification/Output_Kind.thy ===== *)
theory Output_Kind
  imports Main
begin

text \<open>
  The kinds of output, \<open>output_kind.rs\<close>: a static or a dynamic executable, each position dependent or
  not, a shared object or a partial object. What the command line and the loaded files decide is an
  argument of \<open>output_kind_new\<close>.
\<close>

datatype relocation_model = NonRelocatable | Relocatable

datatype output_kind =
  StaticExecutable relocation_model
| DynamicExecutable relocation_model
| SharedObject
| RelocatableObject

definition output_kind_new :: "relocation_model \<Rightarrow> bool \<Rightarrow> bool \<Rightarrow> bool \<Rightarrow> bool \<Rightarrow> output_kind" where
  "output_kind_new model should_output_executable should_output_partial_object
     has_dynamic_linker has_dynamic =
     (if \<not> should_output_executable then
        if should_output_partial_object then RelocatableObject else SharedObject
      else if has_dynamic_linker \<and> model = Relocatable then DynamicExecutable model
      else if has_dynamic then DynamicExecutable model
      else StaticExecutable model)"

fun is_executable :: "output_kind \<Rightarrow> bool" where
  "is_executable SharedObject = False"
| "is_executable RelocatableObject = False"
| "is_executable _ = True"

fun is_shared_object :: "output_kind \<Rightarrow> bool" where
  "is_shared_object SharedObject = True"
| "is_shared_object _ = False"

fun is_partial_object :: "output_kind \<Rightarrow> bool" where
  "is_partial_object RelocatableObject = True"
| "is_partial_object _ = False"

fun is_dynamic_executable :: "output_kind \<Rightarrow> bool" where
  "is_dynamic_executable (DynamicExecutable _) = True"
| "is_dynamic_executable _ = False"

fun is_static_executable :: "output_kind \<Rightarrow> bool" where
  "is_static_executable (StaticExecutable _) = True"
| "is_static_executable _ = False"

fun is_relocatable :: "output_kind \<Rightarrow> bool" where
  "is_relocatable (StaticExecutable Relocatable) = True"
| "is_relocatable (DynamicExecutable Relocatable) = True"
| "is_relocatable SharedObject = True"
| "is_relocatable RelocatableObject = True"
| "is_relocatable _ = False"

fun needs_dynsym :: "output_kind \<Rightarrow> bool" where
  "needs_dynsym (DynamicExecutable _) = True"
| "needs_dynsym SharedObject = True"
| "needs_dynsym (StaticExecutable Relocatable) = True"
| "needs_dynsym _ = False"

fun needs_dynamic :: "output_kind \<Rightarrow> bool" where
  "needs_dynamic (StaticExecutable NonRelocatable) = False"
| "needs_dynamic RelocatableObject = False"
| "needs_dynamic _ = True"

fun should_output_symbol_versions :: "output_kind \<Rightarrow> bool" where
  "should_output_symbol_versions (DynamicExecutable _) = True"
| "should_output_symbol_versions SharedObject = True"
| "should_output_symbol_versions _ = False"

text \<open>The tests fit together: everything but a partial object that is loaded at an address of the
  loader's choice has dynamic symbols and a dynamic section, and so has every output that lists
  symbol versions.\<close>

lemma needs_dynamic_iff:
  "needs_dynamic k \<longleftrightarrow> needs_dynsym k"
  by (cases k; cases "case k of StaticExecutable m \<Rightarrow> m | DynamicExecutable m \<Rightarrow> m | _ \<Rightarrow> Relocatable") auto

lemma relocatable_needs_dynamic: "is_relocatable k \<Longrightarrow> \<not> is_partial_object k \<Longrightarrow> needs_dynamic k"
  by (cases k rule: is_relocatable.cases) auto

lemma versions_need_dynamic: "should_output_symbol_versions k \<Longrightarrow> needs_dynamic k"
  by (cases k) auto

text \<open>A shared library among the inputs never ends in a static executable.\<close>

lemma output_kind_new_dynamic:
  "has_dynamic \<Longrightarrow> \<not> is_static_executable (output_kind_new model exec partial interp has_dynamic)"
  by (simp add: output_kind_new_def)

end
