(* ===== verification/Relax_Choice.thy ===== *)
theory Relax_Choice
  imports Reloc_Tables X86_Relax Aarch64_Relax Riscv_Scan Loongarch_Insn Value_Flags Elf_Sections Output_Kind
begin

text \<open>
  Which relaxation is applied to a relocation: \<open>new_relaxation\<close> of the four ELF back ends
  (\<open>elf_x86_64.rs\<close>, \<open>elf_aarch64.rs\<close>, \<open>elf_riscv64.rs\<close>, \<open>elf_loongarch64.rs\<close>), and its two callers. While
  symbols are resolved, \<open>process_relocation\<close> of \<open>elf.rs\<close> asks which relocation will be written and
  reserves what it needs; \<open>apply_relocation\<close> of \<open>elf_writer.rs\<close> asks again on the output bytes, rewrites
  the instruction and computes the value. The outer \<open>option\<close> of a choice is the panic; the code is
  taken as built for release, where \<open>debug_assert!\<close> is empty and integers wrap.
\<close>

section \<open>The interface of a back end\<close>

record 'k relaxation =
  rx_kind :: 'k
  rx_rel_info :: relocation_kind_info
  rx_mandatory :: bool

text \<open>The part of the trait \<open>Arch\<close> the two callers use.\<close>

type_synonym 'k chooser =
  "u32 \<Rightarrow> u8 list \<Rightarrow> u64 \<Rightarrow> value_flags \<Rightarrow> output_kind \<Rightarrow> section_flag set \<Rightarrow> bool
     \<Rightarrow> section_relax_deltas option \<Rightarrow> 'k relaxation option option"

record 'k arch =
  new_relaxation :: "'k chooser"
  relax_apply :: "'k \<Rightarrow> relax_site \<Rightarrow> relax_site option"
  next_modifier :: "'k \<Rightarrow> relocation_modifier"
  relocation_from_raw :: "u32 \<Rightarrow> relocation_kind_info option"

text \<open>\<open>Some(Relaxation { kind, rel_info: rel_info_from_type!(name), mandatory })\<close>: the look-up is done
  when the linker is compiled, and a failure would be a compile-time panic.\<close>

definition relaxed_to :: "(u32 \<Rightarrow> relocation_kind_info option) \<Rightarrow> u32 \<Rightarrow> 'k \<Rightarrow> bool \<Rightarrow> 'k relaxation option option" where
  "relaxed_to from_raw r k mandatory = do {
     info \<leftarrow> from_raw r;
     Some (Some \<lparr>rx_kind = k, rx_rel_info = info, rx_mandatory = mandatory\<rparr>)
   }"

section \<open>x86-64\<close>

datatype tls_gd_form = TlsGdRegular | TlsGdLarge

definition tls_gd_identify :: "u8 list \<Rightarrow> u64 \<Rightarrow> tls_gd_form option" where
  "tls_gd_identify bytes offset =
     (if slice bytes (offset - 4) offset = Some [0x66, 0x48, 0x8d, 0x3d]
         \<and> slice bytes (offset + 4) (offset + 8) = Some [0x66, 0x66, 0x48, 0xe8]
      then Some TlsGdRegular
      else if slice bytes (offset - 3) offset = Some [0x48, 0x8d, 0x3d]
         \<and> slice bytes (offset + 4) (offset + 6) = Some [0x48, 0xb8]
         \<and> slice bytes (offset + 14) (offset + 19) = Some [0x48, 0x01, 0xd8, 0xff, 0xd0]
      then Some TlsGdLarge
      else None)"

text \<open>The guard that several arms share; \<open>code_4\<close> is the test for the \<open>CODE_4\<close> relocation type.\<close>

definition code_4_guard :: "bool \<Rightarrow> u8 list \<Rightarrow> u64 \<Rightarrow> bool option" where
  "code_4_guard code_4 bytes offset = do {
     prefixed \<leftarrow> (if code_4 \<and> 4 \<le> offset
       then do { b \<leftarrow> get_byte bytes (offset - 4); Some (b = 0xd5) } else Some False);
     Some (prefixed \<or> 3 \<le> offset)
   }"

definition x86_rex_gotpcrelx :: "elf_constants \<Rightarrow> u32 \<Rightarrow> u8 list \<Rightarrow> u64 \<Rightarrow> bool \<Rightarrow> bool \<Rightarrow> bool
    \<Rightarrow> x86_relaxation relaxation option option" where
  "x86_rex_gotpcrelx elf r bytes offset absolute interposable static = do {
     b1 \<leftarrow> get_byte bytes (offset - 2);
     rex \<leftarrow> get_byte bytes (offset - 3);
     let relaxed = (\<lambda>name k. relaxed_to (x86_64_relocation_from_raw elf) (elf name) k static);
     let inst_offset = (if r = elf ''R_X86_64_REX_GOTPCRELX'' then 3 else 4);
     if rex \<noteq> 0x48 \<and> rex \<noteq> 0x4c then Some None
     else if absolute then
       (if b1 = 0x8b then relaxed ''R_X86_64_32'' (XR_RexMovIndirectToAbsolute inst_offset)
        else if b1 = 0x2b then relaxed ''R_X86_64_32'' (XR_RexSubIndirectToAbsolute inst_offset)
        else if b1 = 0x3b then relaxed ''R_X86_64_32'' (XR_RexCmpIndirectToAbsolute inst_offset)
        else Some None)
     else if \<not> interposable then
       (if b1 = 0x8b then relaxed ''R_X86_64_PC32'' XR_MovIndirectToLea else Some None)
     else Some None
   }"

definition x86_gotpcrelx :: "elf_constants \<Rightarrow> u8 list \<Rightarrow> u64 \<Rightarrow> bool \<Rightarrow> bool \<Rightarrow> bool
    \<Rightarrow> x86_relaxation relaxation option option" where
  "x86_gotpcrelx elf bytes offset absolute interposable static =
     (let relaxed = (\<lambda>name k. relaxed_to (x86_64_relocation_from_raw elf) (elf name) k static)
      in case get_byte bytes (offset - 2) of
           None \<Rightarrow> Some None
         | Some b \<Rightarrow>
             if b = 0x8b \<and> absolute then relaxed ''R_X86_64_32'' XR_MovIndirectToAbsolute
             else if b = 0x8b \<and> \<not> interposable then relaxed ''R_X86_64_PC32'' XR_MovIndirectToLea
             else if \<not> interposable then
               (case slice bytes (offset - 2) offset of
                  None \<Rightarrow> Some None
                | Some op \<Rightarrow>
                    if op = [0xff, 0x15] then relaxed ''R_X86_64_PC32'' XR_CallIndirectToRelative
                    else if op = [0xff, 0x25] then relaxed ''R_X86_64_PC32'' XR_JmpIndirectToRelative
                    else Some None)
             else Some None)"

definition x86_gotpcrel :: "elf_constants \<Rightarrow> u8 list \<Rightarrow> u64 \<Rightarrow> x86_relaxation relaxation option option" where
  "x86_gotpcrel elf bytes offset =
     (case get_byte bytes (offset - 2) of
        None \<Rightarrow> Some None
      | Some b \<Rightarrow>
          if b = 0x8b then
            relaxed_to (x86_64_relocation_from_raw elf) (elf ''R_X86_64_PC32'') XR_MovIndirectToLea False
          else Some None)"

definition x86_gottpoff :: "elf_constants \<Rightarrow> u32 \<Rightarrow> u8 list \<Rightarrow> u64 \<Rightarrow> x86_relaxation relaxation option option" where
  "x86_gottpoff elf r bytes offset =
     (let inst_offset = (if r = elf ''R_X86_64_GOTTPOFF'' then 3 else 4);
          relaxed = (\<lambda>k. relaxed_to (x86_64_relocation_from_raw elf) (elf ''R_X86_64_TPOFF32'') k False)
      in case slice bytes (offset - 3) (offset - 1) of
           None \<Rightarrow> Some None
         | Some op \<Rightarrow>
             if op = [0x48, 0x8b] \<or> op = [0x4c, 0x8b] then relaxed (XR_RexMovIndirectToAbsolute inst_offset)
             else if op = [0x48, 0x03] \<or> op = [0x4c, 0x03] then relaxed (XR_RexAddIndirectToAbsolute inst_offset)
             else Some None)"

text \<open>The pattern \<open>[0x62, l5, l4, l3, 0x1 | 0x3]\<close> with its guard: an EVEX prefix before an add.\<close>

fun evex_add :: "u8 list \<Rightarrow> bool" where
  "evex_add [b, l5, l4, l3, op] =
     (b = 0x62 \<and> (op = 0x1 \<or> op = 0x3)
      \<and> l5 AND 0x47 = 0x44 \<and> l4 AND 0x87 = 0x84 \<and> l3 AND 0x14 \<noteq> 0)"
| "evex_add _ = False"

definition x86_code_6_gottpoff :: "elf_constants \<Rightarrow> u8 list \<Rightarrow> u64 \<Rightarrow> bool \<Rightarrow> x86_relaxation relaxation option option" where
  "x86_code_6_gottpoff elf bytes offset static =
     (case slice bytes (offset - 6) (offset - 1) of
        None \<Rightarrow> Some None
      | Some op \<Rightarrow>
          if evex_add op then
            relaxed_to (x86_64_relocation_from_raw elf) (elf ''R_X86_64_TPOFF32'')
              (XR_RexAddIndirectToAbsolute 6) static
          else Some None)"

definition x86_tlsgd :: "elf_constants \<Rightarrow> u8 list \<Rightarrow> u64 \<Rightarrow> bool \<Rightarrow> bool \<Rightarrow> x86_relaxation relaxation option option" where
  "x86_tlsgd elf bytes offset interposable static =
     (case tls_gd_identify bytes offset of
        None \<Rightarrow> Some None
      | Some form \<Rightarrow>
          if \<not> interposable then
            relaxed_to (x86_64_relocation_from_raw elf) (elf ''R_X86_64_TPOFF32'')
              (case form of TlsGdRegular \<Rightarrow> XR_TlsGdToLocalExec | TlsGdLarge \<Rightarrow> XR_TlsGdToLocalExecLarge)
              static
          else (case form of
              TlsGdRegular \<Rightarrow>
                relaxed_to (x86_64_relocation_from_raw elf) (elf ''R_X86_64_GOTTPOFF'')
                  XR_TlsGdToInitialExec False
            | TlsGdLarge \<Rightarrow> Some None))"

definition x86_tlsld :: "elf_constants \<Rightarrow> u8 list \<Rightarrow> u64 \<Rightarrow> bool \<Rightarrow> x86_relaxation relaxation option option" where
  "x86_tlsld elf bytes offset static =
     (let relaxed = relaxed_to (x86_64_relocation_from_raw elf) (elf ''R_X86_64_NONE'')
      in case slice bytes (offset - 3) offset of
           None \<Rightarrow> Some None
         | Some op \<Rightarrow>
             if op = [0x48, 0x8d, 0x3d] then
               (case slice bytes (offset + 4) (offset + 6) of
                  Some [b, c] \<Rightarrow>
                    if b = 0xe8 then relaxed XR_TlsLdToLocalExec static
                    else if b = 0x48 \<and> c = 0xb8 then relaxed XR_TlsLdToLocalExec64 False
                    else if b = 0xff \<and> c = 0x15 then relaxed XR_TlsLdToLocalExecNoPlt static
                    else Some None
                | _ \<Rightarrow> Some None)
             else Some None)"

definition lea_before :: "u8 list \<Rightarrow> u64 \<Rightarrow> bool" where
  "lea_before bytes offset \<longleftrightarrow> slice bytes (offset - 3) (offset - 1) = Some [0x48, 0x8d]
     \<or> slice bytes (offset - 3) (offset - 1) = Some [0x4c, 0x8d]"

definition x86_tlsdesc :: "elf_constants \<Rightarrow> u32 \<Rightarrow> u8 list \<Rightarrow> u64 \<Rightarrow> bool \<Rightarrow> bool
    \<Rightarrow> x86_relaxation relaxation option option" where
  "x86_tlsdesc elf r bytes offset interposable static = do {
     let relaxed = (\<lambda>name k. relaxed_to (x86_64_relocation_from_raw elf) (elf name) k static);
     let plain = (r = elf ''R_X86_64_GOTPC32_TLSDESC'');
     local \<leftarrow> (if \<not> interposable
       then code_4_guard (r = elf ''R_X86_64_CODE_4_GOTPC32_TLSDESC'') bytes offset else Some False);
     if local then
       (if lea_before bytes offset
        then relaxed ''R_X86_64_TPOFF32'' (XR_TlsDescToLocalExec (if plain then 3 else 4)) else Some None)
     else if plain then
       (if lea_before bytes offset then relaxed ''R_X86_64_GOTTPOFF'' XR_TlsDescToInitialExec else Some None)
     else Some None
   }"

text \<open>The arms of \<open>match relocation_kind\<close> in their order; the type numbers are distinct, so that an arm
  whose guard fails has no later arm but the ones written here.\<close>

definition x86_arms :: "elf_constants \<Rightarrow> u32 \<Rightarrow> u8 list \<Rightarrow> u64 \<Rightarrow> bool \<Rightarrow> bool \<Rightarrow> output_kind
    \<Rightarrow> x86_relaxation relaxation option option" where
  "x86_arms elf r bytes offset absolute interposable output =
     (let static = is_static_executable output;
          exec = is_executable output;
          relaxed = (\<lambda>name k. relaxed_to (x86_64_relocation_from_raw elf) (elf name) k static)
      in if r = elf ''R_X86_64_REX_GOTPCRELX'' \<or> r = elf ''R_X86_64_CODE_4_GOTPCRELX'' then do {
           guard \<leftarrow> code_4_guard (r = elf ''R_X86_64_CODE_4_GOTPCRELX'') bytes offset;
           if guard then x86_rex_gotpcrelx elf r bytes offset absolute interposable static else Some None
         }
         else if r = elf ''R_X86_64_GOTPCRELX'' then
           x86_gotpcrelx elf bytes offset absolute interposable static
         else if r = elf ''R_X86_64_GOTPCREL'' then
           (if \<not> interposable \<and> 2 \<le> offset then x86_gotpcrel elf bytes offset else Some None)
         else if r = elf ''R_X86_64_GOTTPOFF'' \<or> r = elf ''R_X86_64_CODE_4_GOTTPOFF'' then do {
           guard \<leftarrow> (if exec \<and> \<not> interposable
             then code_4_guard (r = elf ''R_X86_64_CODE_4_GOTTPOFF'') bytes offset else Some False);
           if guard then x86_gottpoff elf r bytes offset else Some None
         }
         else if r = elf ''R_X86_64_CODE_6_GOTTPOFF'' then
           (if exec \<and> \<not> interposable \<and> 6 \<le> offset
            then x86_code_6_gottpoff elf bytes offset static else Some None)
         else if r = elf ''R_X86_64_PLT32'' then
           (if \<not> interposable then relaxed ''R_X86_64_PC32'' XR_NoOp else Some None)
         else if r = elf ''R_X86_64_PLTOFF64'' then
           (if \<not> interposable then relaxed ''R_X86_64_GOTOFF64'' XR_NoOp else Some None)
         else if r = elf ''R_X86_64_TLSGD'' then
           (if exec then x86_tlsgd elf bytes offset interposable static else Some None)
         else if r = elf ''R_X86_64_TLSLD'' then
           (if exec then x86_tlsld elf bytes offset static else Some None)
         else if r = elf ''R_X86_64_GOTPC32_TLSDESC'' \<or> r = elf ''R_X86_64_CODE_4_GOTPC32_TLSDESC'' then
           (if exec then x86_tlsdesc elf r bytes offset interposable static else Some None)
         else if r = elf ''R_X86_64_TLSDESC_CALL'' then
           (if exec then relaxed ''R_X86_64_NONE'' XR_SkipTlsDescCall else Some None)
         else Some None)"

definition x86_new_relaxation :: "elf_constants \<Rightarrow> x86_relaxation chooser" where
  "x86_new_relaxation elf r bytes offset flags output section_flags non_zero_address ds =
     (let is_known_address = is_address flags;
          is_absolute = (contains flags ABSOLUTE \<and> \<not> contains flags DYNAMIC);
          non_relocatable = (\<not> is_relocatable output);
          is_absolute_address = (is_known_address \<and> non_relocatable);
          interposable = flags_is_interposable flags
      in if contains flags IFUNC then
           (if r = elf ''R_X86_64_PC32'' then
              relaxed_to (x86_64_relocation_from_raw elf) (elf ''R_X86_64_PLT32'') XR_NoOp True
            else Some None)
         else if SHF_EXECINSTR \<notin> section_flags then Some None
         else x86_arms elf r bytes offset (is_absolute \<or> is_absolute_address) interposable output)"

section \<open>AArch64\<close>

definition aarch64_new_relaxation :: "elf_constants \<Rightarrow> aarch64_relaxation chooser" where
  "aarch64_new_relaxation elf r bytes offset flags output section_flags non_zero_address ds = do {
     relocation \<leftarrow> aarch64_relocation_type_from_raw elf r;
     let interposable = flags_is_interposable flags;
     let static = is_static_executable output;
     let exec = is_executable output;
     let relaxed = (\<lambda>name k. relaxed_to (aarch64_relocation_type_from_raw elf) (elf name) k static);
     let branch = (r = elf ''R_AARCH64_CALL26'' \<or> r = elf ''R_AARCH64_JUMP26'');
     if contains flags IFUNC then
       (if branch then
          Some (Some \<lparr>rx_kind = AR_NoOp, rx_rel_info = relocation\<lparr>rki_kind := RK_PltRelative\<rparr>,
                      rx_mandatory = True\<rparr>)
        else Some None)
     else if SHF_EXECINSTR \<notin> section_flags then Some None
     else if branch \<and> \<not> interposable then
       Some (Some \<lparr>rx_kind = AR_NoOp, rx_rel_info = relocation\<lparr>rki_kind := RK_Relative\<rparr>,
                   rx_mandatory = static\<rparr>)
     else if \<not> exec then Some None
     else if r = elf ''R_AARCH64_TLSDESC_ADR_PAGE21'' then relaxed ''R_AARCH64_NONE'' AR_ReplaceWithNop
     else if r = elf ''R_AARCH64_TLSDESC_LD64_LO12'' then relaxed ''R_AARCH64_NONE'' AR_ReplaceWithNop
     else if r = elf ''R_AARCH64_TLSDESC_ADD_LO12'' then
       (if \<not> interposable then relaxed ''R_AARCH64_TLSLE_MOVW_TPREL_G1'' AR_MovzX0Lsl16
        else relaxed ''R_AARCH64_TLSIE_ADR_GOTTPREL_PAGE21'' AR_AdrpX0)
     else if r = elf ''R_AARCH64_TLSDESC_CALL'' then
       (if \<not> interposable then relaxed ''R_AARCH64_TLSLE_MOVW_TPREL_G0_NC'' AR_MovkX0
        else relaxed ''R_AARCH64_TLSIE_LD64_GOTTPREL_LO12_NC'' AR_LdrX0)
     else if r = elf ''R_AARCH64_TLSIE_ADR_GOTTPREL_PAGE21'' \<and> \<not> interposable then
       relaxed_to (aarch64_relocation_type_from_raw elf) (elf ''R_AARCH64_TLSLE_MOVW_TPREL_G1'')
         AR_MovzXnLsl16 False
     else if r = elf ''R_AARCH64_TLSIE_LD64_GOTTPREL_LO12_NC'' \<and> \<not> interposable then
       relaxed_to (aarch64_relocation_type_from_raw elf) (elf ''R_AARCH64_TLSLE_MOVW_TPREL_G0_NC'')
         AR_MovkXn False
     else Some None
   }"

section \<open>RISC-V\<close>

definition is_jalr_deleted :: "u8 list \<Rightarrow> u64 \<Rightarrow> bool option" where
  "is_jalr_deleted bytes offset =
     (if length bytes < unat (offset + 8) then Some True
      else do {
        window \<leftarrow> slice bytes offset (offset + 4);
        let auipc_word = (from_le_bytes window :: u32);
        let auipc_rd = shr auipc_word 7 AND 0x1f;
        window \<leftarrow> slice bytes (offset + 4) (offset + 8);
        let next_word = (from_le_bytes window :: u32);
        let is_jalr_with_matching_rs1 =
          (next_word AND 0x7f = 0x67 \<and> shr next_word 15 AND 0x1f = auipc_rd);
        Some (\<not> is_jalr_with_matching_rs1)
      })"

definition riscv64_relax_hi20 :: "elf_constants \<Rightarrow> u64 \<Rightarrow> section_relax_deltas
    \<Rightarrow> riscv_relaxation relaxation option option" where
  "riscv64_relax_hi20 elf offset ds = do {
     in_offset \<leftarrow> output_to_input_offset ds offset;
     deleted \<leftarrow> has_delta_at ds in_offset;
     if deleted then relaxed_to (riscv64_relocation_type_from_raw elf) (elf ''R_RISCV_NONE'') RVR_Hi20Delete False
     else do {
       shortened \<leftarrow> has_delta_at ds (in_offset + 2);
       Some (if shortened
         then Some \<lparr>rx_kind = RVR_Hi20ToCLui, rx_rel_info = clui_rel_info, rx_mandatory = False\<rparr>
         else None)
     }
   }"

definition riscv64_relax_lo12 :: "elf_constants \<Rightarrow> u32 \<Rightarrow> u8 list \<Rightarrow> u64 \<Rightarrow> section_relax_deltas
    \<Rightarrow> riscv_relaxation relaxation option option" where
  "riscv64_relax_lo12 elf r bytes offset ds = do {
     in_offset \<leftarrow> output_to_input_offset ds offset;
     lui_deleted \<leftarrow> (if 4 \<le> in_offset
       then do { n \<leftarrow> delta_bytes_at ds (in_offset - 4); Some (n = 4) } else Some False);
     if lui_deleted \<and> unat (offset + 4) \<le> length bytes then do {
       window \<leftarrow> slice bytes offset (offset + 4);
       let word = (from_le_bytes window :: u32);
       let rd = shr word 7 AND 0x1f;
       let rs1 = shr word 15 AND 0x1f;
       if rd = rs1 then relaxed_to (riscv64_relocation_type_from_raw elf) r RVR_Lo12Rs1ToZero False
       else Some None
     } else Some None
   }"

definition riscv64_new_relaxation :: "elf_constants \<Rightarrow> riscv_relaxation chooser" where
  "riscv64_new_relaxation elf r bytes offset flags output section_flags non_zero_address ds = do {
     relocation \<leftarrow> riscv64_relocation_type_from_raw elf r;
     let interposable = flags_is_interposable flags;
     let static = is_static_executable output;
     let relaxed = (\<lambda>name k. relaxed_to (riscv64_relocation_type_from_raw elf) (elf name) k static);
     if SHF_EXECINSTR \<notin> section_flags then Some None
     else if (r = elf ''R_RISCV_CALL'' \<or> r = elf ''R_RISCV_CALL_PLT'') \<and> \<not> interposable then
       (if non_zero_address then do {
          deleted \<leftarrow> is_jalr_deleted bytes offset;
          if deleted then relaxed ''R_RISCV_JAL'' RVR_CallToJal
          else Some (Some \<lparr>rx_kind = RVR_NoOp, rx_rel_info = relocation\<lparr>rki_kind := RK_Relative\<rparr>,
                           rx_mandatory = static\<rparr>)
        }
        else relaxed ''R_RISCV_NONE'' RVR_ReplaceWithNop)
     else (case ds of
         None \<Rightarrow> Some None
       | Some ds \<Rightarrow>
           if r = elf ''R_RISCV_HI20'' then riscv64_relax_hi20 elf offset ds
           else if r = elf ''R_RISCV_LO12_I'' \<or> r = elf ''R_RISCV_LO12_S'' then
             riscv64_relax_lo12 elf r bytes offset ds
           else Some None)
   }"

section \<open>LoongArch64\<close>

definition loongarch64_new_relaxation :: "elf_constants \<Rightarrow> loongarch64_relaxation chooser" where
  "loongarch64_new_relaxation elf r bytes offset flags output section_flags non_zero_address ds = do {
     relocation \<leftarrow> loongarch64_relocation_type_from_raw elf r;
     if SHF_EXECINSTR \<notin> section_flags then Some None
     else if r = elf ''R_LARCH_B26'' \<and> \<not> flags_is_interposable flags then
       Some (Some \<lparr>rx_kind = LAR_NoOp, rx_rel_info = relocation\<lparr>rki_kind := RK_Relative\<rparr>,
                   rx_mandatory = True\<rparr>)
     else Some None
   }"

section \<open>What a relocation needs of its symbol\<close>

text \<open>\<open>resolution_flags\<close> of \<open>layout.rs\<close>.\<close>

definition kind_resolution_flags :: "relocation_kind \<Rightarrow> value_flags" where
  "kind_resolution_flags rel_kind =
     (case rel_kind of
        RK_PltRelative \<Rightarrow> PLT OR GOT
      | RK_PltRelGotBase \<Rightarrow> PLT OR GOT
      | RK_Got \<Rightarrow> GOT
      | RK_GotRelGotBase \<Rightarrow> GOT
      | RK_GotRelative \<Rightarrow> GOT
      | RK_GotRelativeLoongArch64 \<Rightarrow> GOT
      | RK_GotTpOff \<Rightarrow> GOT_TLS_OFFSET
      | RK_GotTpOffLoongArch64 \<Rightarrow> GOT_TLS_OFFSET
      | RK_GotTpOffGot \<Rightarrow> GOT_TLS_OFFSET
      | RK_GotTpOffGotBase \<Rightarrow> GOT_TLS_OFFSET
      | RK_TlsGd \<Rightarrow> GOT_TLS_MODULE
      | RK_TlsGdGot \<Rightarrow> GOT_TLS_MODULE
      | RK_TlsGdGotBase \<Rightarrow> GOT_TLS_MODULE
      | RK_TlsDesc \<Rightarrow> GOT_TLS_DESCRIPTOR
      | RK_TlsDescLoongArch64 \<Rightarrow> GOT_TLS_DESCRIPTOR
      | RK_TlsDescGot \<Rightarrow> GOT_TLS_DESCRIPTOR
      | RK_TlsDescGotBase \<Rightarrow> GOT_TLS_DESCRIPTOR
      | RK_TlsDescCall \<Rightarrow> GOT_TLS_DESCRIPTOR
      | RK_TlsLd \<Rightarrow> 0
      | RK_TlsLdGot \<Rightarrow> 0
      | RK_TlsLdGotBase \<Rightarrow> 0
      | RK_Absolute \<Rightarrow> DIRECT
      | RK_AbsoluteSet \<Rightarrow> DIRECT
      | RK_AbsoluteSetWord6 \<Rightarrow> DIRECT
      | RK_AbsoluteAddition \<Rightarrow> DIRECT
      | RK_AbsoluteAdditionWord6 \<Rightarrow> DIRECT
      | RK_AbsoluteSubtraction \<Rightarrow> DIRECT
      | RK_AbsoluteSubtractionWord6 \<Rightarrow> DIRECT
      | RK_Relative \<Rightarrow> DIRECT
      | RK_RelativeRiscVLow12 \<Rightarrow> DIRECT
      | RK_RelativeLoongArchHigh \<Rightarrow> DIRECT
      | RK_DtpOff \<Rightarrow> DIRECT
      | RK_TpOff \<Rightarrow> DIRECT
      | RK_SymRelGotBase \<Rightarrow> DIRECT
      | RK_PairSubtractionULEB128 _ \<Rightarrow> DIRECT
      | RK_None \<Rightarrow> 0
      | RK_AbsoluteLowPart \<Rightarrow> 0
      | RK_Alignment \<Rightarrow> 0)"

section \<open>The two callers\<close>

datatype choice_error = UnsupportedRelocation u32

text \<open>\<open>.filter(|relaxation| args.should_relax() || relaxation.is_mandatory())\<close>.\<close>

fun enabled :: "bool \<Rightarrow> 'k relaxation option \<Rightarrow> 'k relaxation option" where
  "enabled relax None = None"
| "enabled relax (Some x) = (if relax \<or> rx_mandatory x then Some x else None)"

text \<open>While the layout is computed: the relocation that will be written and the modifier for the next
  one. The section is as it is in the input, nothing is known of the address and there are no
  deltas.\<close>

definition layout_relocation :: "'k arch \<Rightarrow> bool \<Rightarrow> u32 \<Rightarrow> u8 list \<Rightarrow> u64 \<Rightarrow> value_flags \<Rightarrow> output_kind
    \<Rightarrow> section_flag set \<Rightarrow> (choice_error + relocation_kind_info \<times> relocation_modifier) option" where
  "layout_relocation A relax r bytes offset flags output section_flags = do {
     relaxation \<leftarrow> new_relaxation A r bytes offset flags output section_flags True None;
     Some (case enabled relax relaxation of
         Some x \<Rightarrow> Inr (rx_rel_info x, next_modifier A (rx_kind x))
       | None \<Rightarrow> (case relocation_from_raw A r of
             None \<Rightarrow> Inl (UnsupportedRelocation r)
           | Some info \<Rightarrow> Inr (info, Normal)))
   }"

text \<open>While the output is written: the choice is made on the output bytes, and the relaxation is
  applied to them.\<close>

definition write_relaxation :: "'k arch \<Rightarrow> bool \<Rightarrow> u32 \<Rightarrow> relax_site \<Rightarrow> value_flags \<Rightarrow> output_kind
    \<Rightarrow> section_flag set \<Rightarrow> bool \<Rightarrow> section_relax_deltas option
    \<Rightarrow> (choice_error + relocation_kind_info \<times> relocation_modifier \<times> relax_site) option" where
  "write_relaxation A relax r site flags output section_flags non_zero_address ds = do {
     relaxation \<leftarrow> new_relaxation A r (section_bytes site) (offset_in_section site) flags output
       section_flags non_zero_address ds;
     (case enabled relax relaxation of
         Some x \<Rightarrow> do {
           site \<leftarrow> relax_apply A (rx_kind x) site;
           Some (Inr (rx_rel_info x, next_modifier A (rx_kind x), site))
         }
       | None \<Rightarrow> Some (case relocation_from_raw A r of
             None \<Rightarrow> Inl (UnsupportedRelocation r)
           | Some info \<Rightarrow> Inr (info, Normal, site)))
   }"

section \<open>The back ends\<close>

definition x86_64_arch :: "elf_constants \<Rightarrow> x86_relaxation arch" where
  "x86_64_arch elf = \<lparr>new_relaxation = x86_new_relaxation elf, relax_apply = x86_relax_apply,
     next_modifier = x86_next_modifier, relocation_from_raw = x86_64_relocation_from_raw elf\<rparr>"

definition aarch64_arch :: "elf_constants \<Rightarrow> aarch64_relaxation arch" where
  "aarch64_arch elf = \<lparr>new_relaxation = aarch64_new_relaxation elf, relax_apply = aarch64_relax_apply,
     next_modifier = aarch64_next_modifier, relocation_from_raw = aarch64_relocation_type_from_raw elf\<rparr>"

definition riscv64_arch :: "elf_constants \<Rightarrow> riscv_relaxation arch" where
  "riscv64_arch elf = \<lparr>new_relaxation = riscv64_new_relaxation elf, relax_apply = riscv_relax_apply,
     next_modifier = riscv_next_modifier, relocation_from_raw = riscv64_relocation_type_from_raw elf\<rparr>"

definition loongarch64_arch :: "elf_constants \<Rightarrow> loongarch64_relaxation arch" where
  "loongarch64_arch elf = \<lparr>new_relaxation = loongarch64_new_relaxation elf, relax_apply = loongarch64_relax_apply,
     next_modifier = loongarch64_next_modifier, relocation_from_raw = loongarch64_relocation_type_from_raw elf\<rparr>"

lemmas arch_defs = x86_64_arch_def aarch64_arch_def riscv64_arch_def loongarch64_arch_def

end
