(* ===== verification/Relax_Choice_Spec.thy ===== *)
theory Relax_Choice_Spec
  imports Relax_Choice
begin

text \<open>
  What the layout and the writer rely on when both ask a back end for the relaxation of a relocation.
  The locale states it: a choice looks only at what kind of symbol is referred to, what is written
  never needs more of the symbol than the layout reserved, and no relaxation refers directly to a
  symbol that a shared object defines. It is interpreted on the four back ends.
\<close>

section \<open>Looking up a constant by its name\<close>

lemma match_const_inj:
  assumes "inj_on elf (insert c (fst ` set arms))"
  shows "match_const elf (elf c) arms = map_of arms c"
  using assms
  by (induction arms) (auto simp: match_const_Cons inj_on_def)

section \<open>The contract\<close>

definition symbol_kind_bits :: value_flags where
  "symbol_kind_bits = ABSOLUTE OR DYNAMIC OR IFUNC OR NON_INTERPOSABLE"

definition same_symbol_kind :: "value_flags \<Rightarrow> value_flags \<Rightarrow> bool" where
  "same_symbol_kind f g \<longleftrightarrow> f AND symbol_kind_bits = g AND symbol_kind_bits"

definition needs :: "'k arch \<Rightarrow> bool \<Rightarrow> u32 \<Rightarrow> 'k relaxation option \<Rightarrow> value_flags" where
  "needs A relax r c =
     (case enabled relax c of
        Some x \<Rightarrow> kind_resolution_flags (rki_kind (rx_rel_info x))
      | None \<Rightarrow> (case relocation_from_raw A r of
            None \<Rightarrow> 0
          | Some info \<Rightarrow> kind_resolution_flags (rki_kind info)))"

locale relaxing_arch =
  fixes A :: "elf_constants \<Rightarrow> 'k arch"
    and numbered :: "elf_constants \<Rightarrow> bool"
    and looks_like :: "relax_site \<Rightarrow> u8 list \<Rightarrow> u64 \<Rightarrow> bool"
  assumes uses_symbol_kind: "same_symbol_kind f g \<Longrightarrow>
      new_relaxation (A elf) r bs off f out sf nz ds = new_relaxation (A elf) r bs off g out sf nz ds"
    and needs_reserved: "numbered elf \<Longrightarrow> looks_like s bs off \<Longrightarrow>
      new_relaxation (A elf) r (section_bytes s) (offset_in_section s) f out sf nz ds = Some w \<Longrightarrow>
      new_relaxation (A elf) r bs off f out sf True None = Some l \<Longrightarrow>
      contains (needs (A elf) relax r l) (needs (A elf) relax r w)"
    and dynamic_stays_indirect: "numbered elf \<Longrightarrow> contains f DYNAMIC \<Longrightarrow> flags_is_interposable f \<Longrightarrow>
      new_relaxation (A elf) r bs off f out sf nz ds = Some (Some x) \<Longrightarrow>
      relocation_from_raw (A elf) r = Some info \<Longrightarrow>
      contains (kind_resolution_flags (rki_kind (rx_rel_info x))) DIRECT \<Longrightarrow>
      contains (kind_resolution_flags (rki_kind info)) DIRECT"
begin

text \<open>What the layout reserved for a reference covers what the writer asks for.\<close>

lemma write_covered:
  assumes "numbered elf" "looks_like s bs off" "same_symbol_kind f g"
    and "layout_relocation (A elf) relax r bs off f out sf = Some (Inr (info, m))"
    and "write_relaxation (A elf) relax r s g out sf nz ds = Some (Inr (info', m', s'))"
  shows "contains (kind_resolution_flags (rki_kind info)) (kind_resolution_flags (rki_kind info'))"
proof -
  obtain l where l: "new_relaxation (A elf) r bs off f out sf True None = Some l"
    and "kind_resolution_flags (rki_kind info) = needs (A elf) relax r l"
    using assms(4)
    by (auto simp: layout_relocation_def needs_def split: bind_splits option.splits)
  moreover obtain w where w: "new_relaxation (A elf) r (section_bytes s) (offset_in_section s) f out sf nz ds = Some w"
    and "kind_resolution_flags (rki_kind info') = needs (A elf) relax r w"
    using assms(5) uses_symbol_kind [OF assms(3)]
    by (auto simp: write_relaxation_def needs_def split: bind_splits option.splits)
  ultimately show ?thesis
    using needs_reserved [OF assms(1,2) w l] by simp
qed

text \<open>A reference that has no need of the symbol's own address gets none by relaxation.\<close>

lemma dynamic_symbol_indirect:
  assumes "numbered elf" "contains g DYNAMIC" "flags_is_interposable g"
    and "write_relaxation (A elf) relax r s g out sf nz ds = Some (Inr (info', m', s'))"
    and "relocation_from_raw (A elf) r = Some info"
    and "\<not> contains (kind_resolution_flags (rki_kind info)) DIRECT"
  shows "\<not> contains (kind_resolution_flags (rki_kind info')) DIRECT"
proof -
  obtain w where w: "new_relaxation (A elf) r (section_bytes s) (offset_in_section s) g out sf nz ds = Some w"
    and "case enabled relax w of Some x \<Rightarrow> info' = rx_rel_info x \<and> w = Some x | None \<Rightarrow> info' = info"
    using assms(4,5)
    by (auto simp: write_relaxation_def split: bind_splits option.splits if_splits elim!: enabled.elims)
  then show ?thesis
    using dynamic_stays_indirect [OF assms(1-3) _ assms(5)] assms(6)
    by (auto split: option.splits)
qed

end

section \<open>What the choices look at\<close>

lemma contains_same_symbol:
  assumes "same_symbol_kind f g" "b AND symbol_kind_bits = b"
  shows "contains f b = contains g b"
proof -
  have "x AND b = (x AND symbol_kind_bits) AND b" for x
    using assms(2) by (metis and.assoc and.commute)
  with assms(1) show ?thesis
    by (metis same_symbol_kind_def contains_def)
qed

lemma symbol_kind_cong:
  assumes "same_symbol_kind f g"
  shows "contains f ABSOLUTE = contains g ABSOLUTE" "contains f DYNAMIC = contains g DYNAMIC"
    "contains f IFUNC = contains g IFUNC" "is_address f = is_address g"
    "flags_is_interposable f = flags_is_interposable g"
  using contains_same_symbol [OF assms]
  by (simp_all add: is_address_def flags_is_interposable_def symbol_kind_bits_def flag_defs)

lemma choice_uses_symbol_kind:
  assumes "same_symbol_kind f g"
  shows "x86_new_relaxation elf r bs off f out sf nz ds = x86_new_relaxation elf r bs off g out sf nz ds"
    "aarch64_new_relaxation elf r bs off f out sf nz ds = aarch64_new_relaxation elf r bs off g out sf nz ds"
    "riscv64_new_relaxation elf r bs off f out sf nz ds = riscv64_new_relaxation elf r bs off g out sf nz ds"
    "loongarch64_new_relaxation elf r bs off f out sf nz ds = loongarch64_new_relaxation elf r bs off g out sf nz ds"
  by (simp_all only: x86_new_relaxation_def aarch64_new_relaxation_def riscv64_new_relaxation_def
      loongarch64_new_relaxation_def symbol_kind_cong [OF assms])

lemma contains_refl [simp]: "contains f f"
  by (simp add: contains_def)

lemma contains_zero [simp]: "contains f 0"
  by (simp add: contains_def)

section \<open>Rows of the tables\<close>

text \<open>The constants of the \<open>object\<close> crate that a table distinguishes are different numbers.\<close>

definition x86_64_numbered :: "elf_constants \<Rightarrow> bool" where
  "x86_64_numbered elf \<longleftrightarrow> inj_on elf (fst ` set x86_64_arms)"

definition aarch64_numbered :: "elf_constants \<Rightarrow> bool" where
  "aarch64_numbered elf \<longleftrightarrow> inj_on elf (fst ` set (aarch64_arms elf))"

definition riscv64_numbered :: "elf_constants \<Rightarrow> bool" where
  "riscv64_numbered elf \<longleftrightarrow> inj_on elf (fst ` set (riscv64_arms elf))"

definition loongarch64_numbered :: "elf_constants \<Rightarrow> bool" where
  "loongarch64_numbered elf \<longleftrightarrow> inj_on elf (fst ` set (loongarch64_arms elf))"

lemmas numbered_defs = x86_64_numbered_def aarch64_numbered_def riscv64_numbered_def loongarch64_numbered_def

lemma in_arms: "map_of arms c = Some a \<Longrightarrow> insert c (fst ` set arms) = fst ` set arms"
  by (force dest: map_of_SomeD)

lemma match_const_row:
  assumes "inj_on elf (fst ` set arms)" "map_of arms c = Some a"
  shows "match_const elf (elf c) arms = Some a"
  using match_const_inj [of elf c arms] assms in_arms [OF assms(2)] by simp

lemma x86_64_kind:
  assumes "x86_64_numbered elf" "x86_64_relocation_from_raw elf (elf c) = Some info"
    and "map_option fst (map_of x86_64_arms c) = Some k"
  shows "rki_kind info = k"
  using match_const_row [of elf x86_64_arms c] assms
  by (auto simp: x86_64_relocation_from_raw_def x86_64_numbered_def arm_info_def split: prod.splits)

lemma aarch64_kind:
  assumes "aarch64_numbered elf" "aarch64_relocation_type_from_raw elf (elf c) = Some info"
    and "map_option (map_option fst) (map_of (aarch64_arms elf) c) = Some (Some k)"
  shows "rki_kind info = k"
  using match_const_row [of elf "aarch64_arms elf" c] assms
  by (auto simp: aarch64_relocation_type_from_raw_def aarch64_numbered_def arm_info_def split: prod.splits)

lemma riscv64_kind:
  assumes "riscv64_numbered elf" "riscv64_relocation_type_from_raw elf (elf c) = Some info"
    and "map_option (map_option fst) (map_of (riscv64_arms elf) c) = Some (Some k)"
  shows "rki_kind info = k"
  using match_const_row [of elf "riscv64_arms elf" c] assms
  by (auto simp: riscv64_relocation_type_from_raw_def riscv64_numbered_def arm_info_def split: prod.splits)

lemma x86_64_kinds:
  assumes "x86_64_numbered elf"
  shows "x86_64_relocation_from_raw elf (elf ''R_X86_64_PLT32'') = Some info \<Longrightarrow> rki_kind info = RK_PltRelative"
    "x86_64_relocation_from_raw elf (elf ''R_X86_64_GOTTPOFF'') = Some info \<Longrightarrow> rki_kind info = RK_GotTpOff"
    "x86_64_relocation_from_raw elf (elf ''R_X86_64_NONE'') = Some info \<Longrightarrow> rki_kind info = RK_None"
  by (erule x86_64_kind [OF assms]; simp add: x86_64_arms_def)+

lemma aarch64_kinds:
  assumes "aarch64_numbered elf"
  shows "aarch64_relocation_type_from_raw elf (elf ''R_AARCH64_NONE'') = Some info \<Longrightarrow> rki_kind info = RK_None"
    "aarch64_relocation_type_from_raw elf (elf ''R_AARCH64_TLSIE_ADR_GOTTPREL_PAGE21'') = Some info \<Longrightarrow> rki_kind info = RK_GotTpOff"
    "aarch64_relocation_type_from_raw elf (elf ''R_AARCH64_TLSIE_LD64_GOTTPREL_LO12_NC'') = Some info \<Longrightarrow> rki_kind info = RK_GotTpOffGot"
  by (erule aarch64_kind [OF assms]; simp add: aarch64_arms_defs)+

lemma riscv64_kinds:
  assumes "riscv64_numbered elf"
  shows "riscv64_relocation_type_from_raw elf (elf ''R_RISCV_NONE'') = Some info \<Longrightarrow> rki_kind info = RK_None"
    "riscv64_relocation_type_from_raw elf (elf ''R_RISCV_JAL'') = Some info \<Longrightarrow> rki_kind info = RK_Relative"
    "riscv64_relocation_type_from_raw elf (elf ''R_RISCV_HI20'') = Some info \<Longrightarrow> rki_kind info = RK_Absolute"
  by (erule riscv64_kind [OF assms]; simp add: riscv64_arms_defs)+

section \<open>The back ends keep the contract\<close>

lemma relaxed_to_SomeD:
  "relaxed_to from_raw r k m = Some (Some x) \<Longrightarrow>
     from_raw r = Some (rx_rel_info x) \<and> rx_kind x = k \<and> rx_mandatory x = m"
  by (auto simp: relaxed_to_def split: bind_splits)

lemma relaxed_to_not_None [simp]: "relaxed_to from_raw r k m \<noteq> Some None"
  by (auto simp: relaxed_to_def split: bind_splits)

definition direct_kind :: "relocation_kind \<Rightarrow> bool" where
  "direct_kind k \<longleftrightarrow> contains (kind_resolution_flags k) DIRECT"

lemma direct_kind_simps [simp]:
  "\<not> direct_kind RK_None" "\<not> direct_kind RK_PltRelative" "\<not> direct_kind RK_GotTpOff"
  "\<not> direct_kind RK_GotTpOffGot" "direct_kind RK_Absolute" "direct_kind RK_Relative"
  by (simp_all add: direct_kind_def kind_resolution_flags_def contains_def flag_defs)

lemmas x86_arm_defs = x86_rex_gotpcrelx_def x86_gotpcrelx_def x86_gotpcrel_def x86_gottpoff_def
  x86_code_6_gottpoff_def x86_tlsgd_def x86_tlsld_def x86_tlsdesc_def

text \<open>A property of the relaxation a choice returns, if it returns one; it is pushed through the way
  the choices are put together.\<close>

definition on_choice :: "('k relaxation \<Rightarrow> bool) \<Rightarrow> 'k relaxation option option \<Rightarrow> bool" where
  "on_choice P c \<longleftrightarrow> (\<forall>x. c = Some (Some x) \<longrightarrow> P x)"

lemma on_choice_simps [simp]:
  "on_choice P None" "on_choice P (Some None)" "on_choice P (Some (Some x)) = P x"
  "on_choice P (relaxed_to from_raw r k m) =
     (\<forall>info. from_raw r = Some info \<longrightarrow> P \<lparr>rx_kind = k, rx_rel_info = info, rx_mandatory = m\<rparr>)"
  by (auto simp: on_choice_def relaxed_to_def split: bind_splits)

lemma on_choice_True [simp]: "on_choice (\<lambda>x. True) c"
  by (simp add: on_choice_def)

lemma on_choice_if: "on_choice P (if b then c else d) = ((b \<longrightarrow> on_choice P c) \<and> (\<not> b \<longrightarrow> on_choice P d))"
  by simp

lemma on_choice_bind: "on_choice P (Option.bind y f) = (\<forall>v. y = Some v \<longrightarrow> on_choice P (f v))"
  by (cases y) simp_all

lemma on_choice_option:
  "on_choice P (case y of None \<Rightarrow> c | Some v \<Rightarrow> d v) =
     ((y = None \<longrightarrow> on_choice P c) \<and> (\<forall>v. y = Some v \<longrightarrow> on_choice P (d v)))"
  by (cases y) simp_all

lemmas on_choice_rules = on_choice_if on_choice_bind on_choice_option Let_def

lemma on_choice_mono: "on_choice P c \<Longrightarrow> (\<And>x. P x \<Longrightarrow> Q x) \<Longrightarrow> on_choice Q c"
  by (simp add: on_choice_def)

text \<open>For an interposable symbol that has no known address the x86-64 back end offers only the
  relaxations of thread-local accesses that go through the GOT or refer to nothing.\<close>

definition indirect :: "'k relaxation \<Rightarrow> bool" where
  "indirect x \<longleftrightarrow> \<not> direct_kind (rki_kind (rx_rel_info x))"

lemma x86_interposable_arms:
  assumes "x86_64_numbered elf"
  shows "on_choice indirect (x86_rex_gotpcrelx elf r bs off False True static)"
    "on_choice indirect (x86_gotpcrelx elf bs off False True static)"
    "on_choice indirect (x86_tlsgd elf bs off True static)"
    "on_choice indirect (x86_tlsld elf bs off static)"
    "on_choice indirect (x86_tlsdesc elf r bs off True static)"
  using x86_64_kinds [OF assms]
  by (simp_all add: x86_arm_defs on_choice_rules indirect_def split: tls_gd_form.split list.split)

lemma x86_interposable_choice:
  assumes "x86_64_numbered elf"
  shows "on_choice indirect (x86_arms elf r bs off False True out)"
  using x86_64_kinds [OF assms] x86_interposable_arms [OF assms]
  by (simp add: x86_arms_def on_choice_rules) (simp add: indirect_def)

lemma x86_dynamic_indirect:
  assumes "x86_64_numbered elf" "contains f DYNAMIC" "flags_is_interposable f"
  shows "on_choice indirect (x86_new_relaxation elf r bs off f out sf nz ds)"
  using assms(2,3) x86_64_kinds [OF assms(1)] x86_interposable_choice [OF assms(1)]
  by (simp add: x86_new_relaxation_def on_choice_rules is_address_def) (simp add: indirect_def)

lemma aarch64_dynamic_indirect:
  assumes "aarch64_numbered elf" "flags_is_interposable f"
  shows "on_choice indirect (aarch64_new_relaxation elf r bs off f out sf nz ds)"
  using assms(2) aarch64_kinds [OF assms(1)]
  by (simp add: aarch64_new_relaxation_def on_choice_rules) (simp add: indirect_def)

lemma riscv64_interposable_choice:
  assumes "flags_is_interposable f"
  shows "on_choice (\<lambda>x. r = elf ''R_RISCV_HI20'' \<or> riscv64_relocation_type_from_raw elf r = Some (rx_rel_info x))
    (riscv64_new_relaxation elf r bs off f out sf nz ds)"
  using assms
  by (simp add: riscv64_new_relaxation_def riscv64_relax_lo12_def on_choice_rules)

lemma loongarch64_interposable_choice:
  assumes "flags_is_interposable f"
  shows "on_choice indirect (loongarch64_new_relaxation elf r bs off f out sf nz ds)"
  using assms by (simp add: loongarch64_new_relaxation_def on_choice_rules)

interpretation x86_64: relaxing_arch x86_64_arch x86_64_numbered
  "\<lambda>s bs off. section_bytes s = bs \<and> offset_in_section s = off"
proof
  fix f g elf r bs off out sf nz ds
  assume "same_symbol_kind f g"
  then show "new_relaxation (x86_64_arch elf) r bs off f out sf nz ds
      = new_relaxation (x86_64_arch elf) r bs off g out sf nz ds"
    by (simp add: x86_64_arch_def choice_uses_symbol_kind)
next
  fix elf s bs off r f out sf nz ds w l relax
  assume "section_bytes s = bs \<and> offset_in_section s = off"
    and "new_relaxation (x86_64_arch elf) r (section_bytes s) (offset_in_section s) f out sf nz ds = Some w"
    and "new_relaxation (x86_64_arch elf) r bs off f out sf True None = Some l"
  then have "w = l"
    by (simp add: x86_64_arch_def x86_new_relaxation_def)
  then show "contains (needs (x86_64_arch elf) relax r l) (needs (x86_64_arch elf) relax r w)"
    by simp
next
  fix elf f r bs off out sf nz ds x info
  assume "x86_64_numbered elf" "contains f DYNAMIC" "flags_is_interposable f"
    and "new_relaxation (x86_64_arch elf) r bs off f out sf nz ds = Some (Some x)"
    and "contains (kind_resolution_flags (rki_kind (rx_rel_info x))) DIRECT"
  then show "contains (kind_resolution_flags (rki_kind info)) DIRECT"
    using x86_dynamic_indirect by (force simp: x86_64_arch_def on_choice_def indirect_def direct_kind_def)
qed

text \<open>A RISC-V relocation that the writer relaxes away from what the layout saw is a call, whose needs
  are those of a direct reference at most, or a \<open>lui\<close>.\<close>

lemma riscv64_needs:
  assumes "riscv64_numbered elf"
    and w: "riscv64_new_relaxation elf r bs off f out sf nz ds = Some w"
    and l: "riscv64_new_relaxation elf r bs' off' f out sf True None = Some l"
  shows "contains (needs (riscv64_arch elf) relax r l) (needs (riscv64_arch elf) relax r w)"
proof -
  obtain info where info: "riscv64_relocation_type_from_raw elf r = Some info"
    using w by (auto simp: riscv64_new_relaxation_def split: bind_splits)
  note choice = riscv64_new_relaxation_def info relaxed_to_def Let_def
  consider "SHF_EXECINSTR \<notin> sf"
    | (call) "SHF_EXECINSTR \<in> sf" "r = elf ''R_RISCV_CALL'' \<or> r = elf ''R_RISCV_CALL_PLT''"
        "\<not> flags_is_interposable f"
    | (other) "SHF_EXECINSTR \<in> sf"
        "\<not> ((r = elf ''R_RISCV_CALL'' \<or> r = elf ''R_RISCV_CALL_PLT'') \<and> \<not> flags_is_interposable f)"
    by blast
  then show ?thesis
  proof cases
    case call
    have "\<exists>x. l = Some x \<and> rx_mandatory x = is_static_executable out \<and> rki_kind (rx_rel_info x) = RK_Relative"
      using l call riscv64_kinds [OF assms(1)]
      by (auto simp: choice split: bind_splits if_splits)
    moreover have "\<exists>x. w = Some x \<and> rx_mandatory x = is_static_executable out
        \<and> rki_kind (rx_rel_info x) \<in> {RK_Relative, RK_None}"
      using w call riscv64_kinds [OF assms(1)]
      by (auto simp: choice split: bind_splits if_splits)
    ultimately show ?thesis
      by (auto simp: needs_def riscv64_arch_def kind_resolution_flags_def info)
  next
    case other
    then have "l = None"
      using l by (simp add: choice split: if_splits)
    moreover have "contains (kind_resolution_flags (rki_kind info)) (kind_resolution_flags (rki_kind (rx_rel_info x)))"
      if x: "w = Some x" for x
    proof (cases "r = elf ''R_RISCV_HI20''")
      case True
      then have "rki_kind info = RK_Absolute"
        using riscv64_kinds(3) [OF assms(1)] info by simp
      moreover have "on_choice (\<lambda>x. rki_kind (rx_rel_info x) \<in> {RK_None, RK_Absolute})
          (riscv64_relax_hi20 elf off d)" for d
        using riscv64_kinds(1) [OF assms(1)]
        by (simp add: riscv64_relax_hi20_def on_choice_rules clui_rel_info_def)
      moreover obtain d where "riscv64_relax_hi20 elf off d = Some (Some x)"
        using w x other True info
        by (cases ds) (auto simp: riscv64_new_relaxation_def Let_def split: if_splits)
      ultimately have "rki_kind (rx_rel_info x) \<in> {RK_None, RK_Absolute}"
        unfolding on_choice_def by blast
      with \<open>rki_kind info = RK_Absolute\<close> show ?thesis
        by (auto simp: kind_resolution_flags_def)
    next
      case False
      with w x other info have "rx_rel_info x = info"
        by (auto simp: choice riscv64_relax_lo12_def split: if_splits bind_splits option.splits)
      then show ?thesis by simp
    qed
    ultimately show ?thesis
      by (cases w) (auto simp: needs_def riscv64_arch_def info)
  qed (use w l in \<open>simp add: choice\<close>)
qed

interpretation aarch64: relaxing_arch aarch64_arch aarch64_numbered "\<lambda>_ _ _. True"
proof
  fix f g elf r bs off out sf nz ds
  assume "same_symbol_kind f g"
  then show "new_relaxation (aarch64_arch elf) r bs off f out sf nz ds
      = new_relaxation (aarch64_arch elf) r bs off g out sf nz ds"
    by (simp add: aarch64_arch_def choice_uses_symbol_kind)
next
  fix elf s bs off r f out sf nz ds w l relax
  assume "aarch64_numbered elf"
    and "new_relaxation (aarch64_arch elf) r (section_bytes s) (offset_in_section s) f out sf nz ds = Some w"
    and "new_relaxation (aarch64_arch elf) r bs off f out sf True None = Some l"
  then show "contains (needs (aarch64_arch elf) relax r l) (needs (aarch64_arch elf) relax r w)"
    by (simp add: aarch64_arch_def aarch64_new_relaxation_def)
next
  fix elf f r bs off out sf nz ds x info
  assume "aarch64_numbered elf" "flags_is_interposable f"
    and "new_relaxation (aarch64_arch elf) r bs off f out sf nz ds = Some (Some x)"
    and "relocation_from_raw (aarch64_arch elf) r = Some info"
    and "contains (kind_resolution_flags (rki_kind (rx_rel_info x))) DIRECT"
  then show "contains (kind_resolution_flags (rki_kind info)) DIRECT"
    using aarch64_dynamic_indirect by (force simp: aarch64_arch_def on_choice_def indirect_def direct_kind_def)
qed

interpretation loongarch64: relaxing_arch loongarch64_arch loongarch64_numbered "\<lambda>_ _ _. True"
proof
  fix f g elf r bs off out sf nz ds
  assume "same_symbol_kind f g"
  then show "new_relaxation (loongarch64_arch elf) r bs off f out sf nz ds
      = new_relaxation (loongarch64_arch elf) r bs off g out sf nz ds"
    by (simp add: loongarch64_arch_def choice_uses_symbol_kind)
next
  fix elf s bs off r f out sf nz ds w l relax
  assume "loongarch64_numbered elf"
    and "new_relaxation (loongarch64_arch elf) r (section_bytes s) (offset_in_section s) f out sf nz ds = Some w"
    and "new_relaxation (loongarch64_arch elf) r bs off f out sf True None = Some l"
  then show "contains (needs (loongarch64_arch elf) relax r l) (needs (loongarch64_arch elf) relax r w)"
    by (simp add: loongarch64_arch_def loongarch64_new_relaxation_def)
next
  fix elf f r bs off out sf nz ds x info
  assume "loongarch64_numbered elf" "flags_is_interposable f"
    and "new_relaxation (loongarch64_arch elf) r bs off f out sf nz ds = Some (Some x)"
    and "relocation_from_raw (loongarch64_arch elf) r = Some info"
    and "contains (kind_resolution_flags (rki_kind (rx_rel_info x))) DIRECT"
  then show "contains (kind_resolution_flags (rki_kind info)) DIRECT"
    using loongarch64_interposable_choice by (force simp: loongarch64_arch_def on_choice_def indirect_def direct_kind_def)
qed

interpretation riscv64: relaxing_arch riscv64_arch riscv64_numbered "\<lambda>_ _ _. True"
proof
  fix f g elf r bs off out sf nz ds
  assume "same_symbol_kind f g"
  then show "new_relaxation (riscv64_arch elf) r bs off f out sf nz ds
      = new_relaxation (riscv64_arch elf) r bs off g out sf nz ds"
    by (simp add: riscv64_arch_def choice_uses_symbol_kind)
next
  fix elf s bs off r f out sf nz ds w l relax
  assume "riscv64_numbered elf"
    and "new_relaxation (riscv64_arch elf) r (section_bytes s) (offset_in_section s) f out sf nz ds = Some w"
    and "new_relaxation (riscv64_arch elf) r bs off f out sf True None = Some l"
  then show "contains (needs (riscv64_arch elf) relax r l) (needs (riscv64_arch elf) relax r w)"
    using riscv64_needs [of elf r _ _ f out sf nz ds w] by (simp add: riscv64_arch_def)
next
  fix elf f r bs off out sf nz ds x info
  assume "riscv64_numbered elf" "flags_is_interposable f"
    and "new_relaxation (riscv64_arch elf) r bs off f out sf nz ds = Some (Some x)"
    and "relocation_from_raw (riscv64_arch elf) r = Some info"
    and "contains (kind_resolution_flags (rki_kind (rx_rel_info x))) DIRECT"
  then show "contains (kind_resolution_flags (rki_kind info)) DIRECT"
    using riscv64_interposable_choice [of f r elf bs off out sf nz ds] riscv64_kinds(3) [of elf info]
    by (force simp: riscv64_arch_def on_choice_def kind_resolution_flags_def)
qed

section \<open>What the layout reserves is enough\<close>

text \<open>C19: the RISC-V writer never needs more of a symbol than the layout reserved for the reference.
  Between the two the section may have been shortened, the relocation moved and the address of the
  symbol found out to be zero, so that the two choose different relaxations; the flags of the symbol may
  have gained what other references need. Still the resolution flags of the relocation that is written
  are among those of the relocation the layout counted, whether or not relaxation is enabled.\<close>

theorem riscv64_write_needs_reserved:
  assumes "riscv64_numbered elf" "same_symbol_kind f g"
    and "layout_relocation (riscv64_arch elf) relax r bs off f out sf = Some (Inr (info, m))"
    and "write_relaxation (riscv64_arch elf) relax r s g out sf nz ds = Some (Inr (info', m', s'))"
  shows "contains (kind_resolution_flags (rki_kind info)) (kind_resolution_flags (rki_kind info'))"
  using riscv64.write_covered [OF assms(1) TrueI assms(2-4)] .

text \<open>Numbers for the constants of a table, for examples: the position in the table.\<close>

definition position_in :: "string list \<Rightarrow> elf_constants" where
  "position_in names c = of_nat (length (takeWhile (\<lambda>n. n \<noteq> c) names))"

lemma position_in_inj:
  assumes "length names < 2 ^ 32"
  shows "inj_on (position_in names) (set names)"
proof (rule inj_onI)
  fix a b assume a: "a \<in> set names" and b: "b \<in> set names" and eq: "position_in names a = position_in names b"
  have bound: "length (takeWhile (\<lambda>n. n \<noteq> c) names) < 2 ^ 32" for c
    using length_takeWhile_le [of "\<lambda>n. n \<noteq> c" names] assms by linarith
  have "length (takeWhile (\<lambda>n. n \<noteq> a) names) = length (takeWhile (\<lambda>n. n \<noteq> b) names)"
    using arg_cong [OF eq, of unat] bound by (simp add: position_in_def unat_of_nat)
  moreover have "names ! length (takeWhile (\<lambda>n. n \<noteq> c) names) = c" if "c \<in> set names" for c
    using that by (induction names) auto
  ultimately show "a = b"
    using a b by metis
qed

definition riscv64_demo :: elf_constants where
  "riscv64_demo = position_in (map fst (riscv64_arms (\<lambda>_. 0)))"

lemma riscv64_names: "map fst (riscv64_arms elf) = map fst (riscv64_arms (\<lambda>_. 0))"
  by (simp add: riscv64_arms_defs)

lemma riscv64_demo_numbered: "riscv64_numbered riscv64_demo"
proof -
  have "length (riscv64_arms (\<lambda>_. 0)) < 2 ^ 32"
    by (simp add: riscv64_arms_defs)
  then have "inj_on riscv64_demo (set (map fst (riscv64_arms (\<lambda>_. 0))))"
    unfolding riscv64_demo_def by (intro position_in_inj) simp
  then show ?thesis
    unfolding riscv64_numbered_def
    using riscv64_names [of riscv64_demo] by (metis list.set_map)
qed

lemma riscv64_demo_row:
  assumes "map_of (riscv64_arms riscv64_demo) c = Some (Some arm)"
  shows "riscv64_relocation_type_from_raw riscv64_demo (riscv64_demo c) = Some (arm_info False arm)"
  using match_const_row [OF riscv64_demo_numbered [unfolded riscv64_numbered_def] assms]
  by (simp add: riscv64_relocation_type_from_raw_def)

lemma riscv64_demo_rows:
  "riscv64_relocation_type_from_raw riscv64_demo (riscv64_demo ''R_RISCV_CALL'') =
     Some (arm_info False (RK_PltRelative, bit_mask_riscv 0 64 RV_UiType, None, range_new (- (2 ^ 31)) (2 ^ 32), 1, 0))"
  "riscv64_relocation_type_from_raw riscv64_demo (riscv64_demo ''R_RISCV_JAL'') =
     Some (arm_info False (RK_Relative, bit_mask_riscv 0 32 RV_JType, None, range_new (- (2 ^ 20)) (2 ^ 20 - 1), 2, 0))"
  by (rule riscv64_demo_row, simp add: riscv64_arms_defs)+

text \<open>A call whose \<open>jalr\<close> was deleted between the layout and the write.\<close>

theorem riscv64_write_needs_reserved_witness:
  "\<exists>info m info' m' s'.
     layout_relocation (riscv64_arch riscv64_demo) True (riscv64_demo ''R_RISCV_CALL'')
       [0x97, 0, 0, 0, 0xe7, 0x80, 0, 0, 0x13, 0, 0, 0] 0 NON_INTERPOSABLE SharedObject {SHF_EXECINSTR}
       = Some (Inr (info, m))
   \<and> write_relaxation (riscv64_arch riscv64_demo) True (riscv64_demo ''R_RISCV_CALL'')
       \<lparr>section_bytes = [0x97, 0, 0, 0, 0x13, 0, 0, 0], offset_in_section = 0, addend = 0\<rparr>
       (NON_INTERPOSABLE OR DIRECT) SharedObject {SHF_EXECINSTR} True None = Some (Inr (info', m', s'))
   \<and> rki_kind info' = RK_Relative \<and> m' = SkipNextRelocation \<and> section_bytes s' = [0xef, 0, 0, 0, 0x13, 0, 0, 0]
   \<and> contains (kind_resolution_flags (rki_kind info)) (kind_resolution_flags (rki_kind info'))"
proof -
  let ?bs = "[0x97, 0, 0, 0, 0xe7, 0x80, 0, 0, 0x13, 0, 0, 0] :: u8 list"
  let ?site = "\<lparr>section_bytes = [0x97, 0, 0, 0, 0x13, 0, 0, 0], offset_in_section = 0, addend = 0\<rparr>"
  let ?out = "\<lparr>section_bytes = [0xef, 0, 0, 0, 0x13, 0, 0, 0], offset_in_section = 0, addend = 0\<rparr>"
  let ?g = "NON_INTERPOSABLE OR DIRECT"
  have flags: "\<not> flags_is_interposable NON_INTERPOSABLE" "\<not> flags_is_interposable ?g"
    "same_symbol_kind NON_INTERPOSABLE ?g"
    by code_simp+
  have kept: "is_jalr_deleted ?bs 0 = Some False" and gone: "is_jalr_deleted (section_bytes ?site) 0 = Some True"
    by code_simp+
  have jal: "riscv_relax_apply RVR_CallToJal ?site = Some ?out"
    by code_simp
  have l: "\<exists>info. layout_relocation (riscv64_arch riscv64_demo) True (riscv64_demo ''R_RISCV_CALL'') ?bs 0
      NON_INTERPOSABLE SharedObject {SHF_EXECINSTR} = Some (Inr (info, Normal))"
    using flags kept
    by (simp add: layout_relocation_def riscv64_arch_def riscv64_new_relaxation_def riscv64_demo_rows)
  have w: "\<exists>info'. rki_kind info' = RK_Relative \<and>
      write_relaxation (riscv64_arch riscv64_demo) True (riscv64_demo ''R_RISCV_CALL'') ?site
      ?g SharedObject {SHF_EXECINSTR} True None = Some (Inr (info', SkipNextRelocation, ?out))"
    using flags gone jal
    by (simp add: write_relaxation_def riscv64_arch_def riscv64_new_relaxation_def riscv64_demo_rows
      relaxed_to_def arm_info_def)
  from l w show ?thesis
    using riscv64_write_needs_reserved [OF riscv64_demo_numbered flags(3)]
    by fastforce
qed

section \<open>Where the scan and the writer part\<close>

text \<open>
  The scan deletes a \<open>lui\<close> whose upper part is zero without a look at the instruction that uses the
  register. The writer makes that instruction use \<open>x0\<close> only when it reads and writes the same register:
  a load into another register keeps the base register that nothing sets any more.
\<close>

definition lo12_demo :: elf_constants where
  "lo12_demo s = (if s = ''R_RISCV_HI20'' then 26 else if s = ''R_RISCV_LO12_I'' then 27
     else if s = ''R_RISCV_RELAX'' then 51 else if s = ''R_RISCV_CALL'' then 18
     else if s = ''R_RISCV_CALL_PLT'' then 19 else if s = ''R_RISCV_LO12_S'' then 28
     else if s = ''R_RISCV_ALIGN'' then 43 else 0)"

theorem lui_deleted_base_kept:
  "collect_relaxation_deltas lo12_demo 0x1000 [0xb7, 0x07, 0, 0, 0x03, 0xa5, 0x07, 0]
      [\<lparr>raw_type = lo12_demo ''R_RISCV_HI20'', rel_offset = 0, rel_addend = 0, rel_symbol = Some 1\<rparr>,
       \<lparr>raw_type = lo12_demo ''R_RISCV_RELAX'', rel_offset = 0, rel_addend = 0, rel_symbol = None\<rparr>,
       \<lparr>raw_type = lo12_demo ''R_RISCV_LO12_I'', rel_offset = 4, rel_addend = 0, rel_symbol = Some 1\<rparr>]
      None (\<lambda>_. Some (Some \<lparr>output_address = 0x10, is_interposable = False\<rparr>)) = Some ([(0, 4)], None)
   \<and> riscv64_new_relaxation lo12_demo (lo12_demo ''R_RISCV_LO12_I'') [0x03, 0xa5, 0x07, 0] 0
      NON_INTERPOSABLE (StaticExecutable NonRelocatable) {SHF_EXECINSTR} True (Some (deltas_new [(0, 4)]))
      = Some None"
  by code_simp

text \<open>Whether the \<open>jalr\<close> of a call was deleted is read off the bytes that follow the \<open>auipc\<close>. When the
  next instruction is itself a \<open>jalr\<close> through the same register, such as the \<open>ret\<close> of the next function
  after a call that does not return, the pair is taken to be complete and the \<open>ret\<close> is overwritten.\<close>

theorem deleted_jalr_mistaken:
  "is_jalr_deleted [0x97, 0, 0, 0, 0x67, 0x80, 0, 0] 0 = Some False
   \<and> riscv64_new_relaxation lo12_demo (lo12_demo ''R_RISCV_CALL'') [0x97, 0, 0, 0, 0x67, 0x80, 0, 0] 0
      NON_INTERPOSABLE (StaticExecutable NonRelocatable) {SHF_EXECINSTR} True (Some (deltas_new [(4, 4)]))
      = Some (Some \<lparr>rx_kind = RVR_NoOp, rx_rel_info = (the (riscv64_relocation_type_from_raw lo12_demo 18))
          \<lparr>rki_kind := RK_Relative\<rparr>, rx_mandatory = True\<rparr>)"
  by code_simp

section \<open>Symbols of shared objects\<close>


definition x86_64_demo :: elf_constants where
  "x86_64_demo = position_in (map fst x86_64_arms)"

lemma x86_64_demo_numbered: "x86_64_numbered x86_64_demo"
proof -
  have "length (map fst x86_64_arms) < 2 ^ 32"
    by (simp add: x86_64_arms_def)
  from position_in_inj [OF this] show ?thesis
    by (simp add: x86_64_numbered_def x86_64_demo_def)
qed

text \<open>A general-dynamic access to a variable of a shared object becomes an initial-exec one.\<close>

definition tlsgd_demo :: relax_site where
  "tlsgd_demo = \<lparr>section_bytes = [0x66, 0x48, 0x8d, 0x3d, 0, 0, 0, 0, 0x66, 0x66, 0x48, 0xe8, 0, 0, 0, 0],
     offset_in_section = 4, addend = - 4\<rparr>"

lemma x86_64_demo_eq:
  assumes "map_of x86_64_arms c \<noteq> None" "map_of x86_64_arms d \<noteq> None"
  shows "x86_64_demo c = x86_64_demo d \<longleftrightarrow> c = d"
  using x86_64_demo_numbered assms
  by (auto simp: x86_64_numbered_def map_of_eq_None_iff dest: inj_onD)

lemma x86_64_demo_row:
  assumes "map_of x86_64_arms c = Some (k, sz, allowed)"
  shows "x86_64_relocation_from_raw x86_64_demo (x86_64_demo c) = Some (arm_info False (k, sz, None, allowed, 1, 0))"
  using match_const_row [OF x86_64_demo_numbered [unfolded x86_64_numbered_def] assms]
  by (simp add: x86_64_relocation_from_raw_def)

lemma tlsgd_demo_choice:
  "x86_arms x86_64_demo (x86_64_demo ''R_X86_64_TLSGD'') (section_bytes tlsgd_demo) (offset_in_section tlsgd_demo)
      False True (DynamicExecutable Relocatable) =
    relaxed_to (x86_64_relocation_from_raw x86_64_demo) (x86_64_demo ''R_X86_64_GOTTPOFF'')
      XR_TlsGdToInitialExec False"
proof -
  have "tls_gd_identify (section_bytes tlsgd_demo) (offset_in_section tlsgd_demo) = Some TlsGdRegular"
    by code_simp
  then show ?thesis
    by (simp add: x86_arms_def x86_64_demo_eq x86_64_arms_def x86_tlsgd_def)
qed


end
