(* ===== verification/X86_Choice_Spec.thy ===== *)
theory X86_Choice_Spec
  imports Relax_Choice_Spec
begin

text \<open>
  The x86-64 choice and the rewrite it leads to, put together: what \<open>new_relaxation\<close> has checked of the
  bytes before a relocation is what \<open>RelaxationKind::apply\<close> needs, and the instruction that results does
  with the address what the original did with the GOT entry.
\<close>

section \<open>Rewrites that have room\<close>

text \<open>The bytes before the relocation that a rewrite reads or writes.\<close>

fun x86_before :: "x86_relaxation \<Rightarrow> nat" where
  "x86_before (XR_RexAddIndirectToAbsolute n) = (if n = 6 then 5 else 3)"
| "x86_before k = fst (x86_reach k)"

lemma unat_minus_small:
  fixes off :: u64
  assumes "k \<le> unat off"
  shows "unat (off - of_nat k) = unat off - k"
  using assms unat_u64_less [of off]
  by (subst unat_sub) (simp_all add: word_le_nat_alt unat_of_nat)

lemma site_set_room:
  assumes "k \<le> unat off" "0 < k" "unat off \<le> length (section_bytes s)"
  shows "site_set s (off - of_nat k) b = Some (s\<lparr>section_bytes := (section_bytes s)[unat off - k := b]\<rparr>)"
  using assms by (simp add: site_set_def set_byte_def unat_minus_small)

lemma get_byte_room:
  assumes "k \<le> unat off" "0 < k" "unat off \<le> length xs"
  shows "get_byte xs (off - of_nat k) = Some (xs ! (unat off - k))"
  using assms by (simp add: get_byte_def unat_minus_small)

lemma site_copy_room:
  assumes "pre \<le> unat (offset_in_section s)" "length bs = pre + post"
    and "unat (offset_in_section s) + post \<le> length (section_bytes s)" "length (section_bytes s) < 2 ^ 63"
  shows "site_copy s (offset_in_section s - of_nat pre) (offset_in_section s + of_nat post) bs =
    Some (s\<lparr>section_bytes := splice (unat (offset_in_section s) - pre) bs (section_bytes s)\<rparr>)"
  using assms unat_offset_add [of "offset_in_section s" post "length (section_bytes s)"]
  by (simp add: site_copy_def copy_from_slice_def unat_minus_small)

lemmas room_1 = site_set_room [of 1, simplified] get_byte_room [of 1, simplified]
lemmas room_2 = site_set_room [of 2, simplified] get_byte_room [of 2, simplified]
lemmas room_3 = site_set_room [of 3, simplified] get_byte_room [of 3, simplified]
lemmas room_5 = site_set_room [of 5, simplified] get_byte_room [of 5, simplified]

lemmas rewrite_room = room_1 room_2 room_3 room_5

lemmas copy_room =
  site_copy_room [where pre = 2 and post = 0, simplified]
  site_copy_room [where pre = 2 and post = 4, simplified]
  site_copy_room [where pre = 4 and post = 8, simplified]
  site_copy_room [where pre = 3 and post = 19, simplified]
  site_copy_room [where pre = 3 and post = 9, simplified]
  site_copy_room [where pre = 3 and post = 10, simplified]
  site_copy_room [where pre = 3 and post = 4, simplified]
  site_copy_room [where pre = 0 and post = 2, simplified]

lemma x86_relax_apply_room:
  assumes "x86_before k \<le> unat (offset_in_section s)" "length (section_bytes s) < 2 ^ 63"
    and "unat (offset_in_section s) + snd (x86_reach k) \<le> length (section_bytes s)"
  shows "\<exists>t. x86_relax_apply k s = Some t"
proof (cases k)
  case (XR_RexAddIndirectToAbsolute n)
  with assms show ?thesis
    by (simp add: rex_add_to_absolute_def rewrite_rex_def rewrite_mod_rm_def rewrite_room Let_def split: if_splits)
qed (use assms in \<open>simp_all add: rex_to_absolute_def rewrite_rex_def rewrite_mod_rm_def
      tlsdesc_to_local_exec_def tlsdesc_to_initial_exec_def rewrite_room copy_room Let_def\<close>)

section \<open>The choice has looked at the bytes before the relocation\<close>

lemma slice_starts_before:
  assumes "slice xs (off - of_nat k) hi = Some ys" "length xs < 2 ^ 63" "k < 2 ^ 62"
  shows "k \<le> unat off"
  using assms unat_sub_index [of off k "2 ^ 63"]
  by (auto simp: slice_def split: if_splits)

lemma code_4_guard_offset:
  assumes "code_4_guard c xs off = Some True"
  shows "3 \<le> unat off"
  using assms by (auto simp: code_4_guard_def word_le_nat_alt split: bind_splits if_splits)

lemma tls_gd_identify_before:
  assumes "tls_gd_identify xs off = Some form" "length xs < 2 ^ 63"
  shows "(if form = TlsGdRegular then 4 else 3) \<le> unat off"
  using assms slice_starts_before [of xs off 4 off] slice_starts_before [of xs off 3 off]
  by (auto simp: tls_gd_identify_def split: if_splits)

text \<open>A relaxation that is offered at \<open>off\<close> has the bytes it rewrites before the relocation.\<close>

definition reaches_back :: "u64 \<Rightarrow> x86_relaxation relaxation \<Rightarrow> bool" where
  "reaches_back off x \<longleftrightarrow> x86_before (rx_kind x) \<le> unat off"

lemma x86_arms_reach_back:
  assumes "length bs < 2 ^ 63"
  shows "3 \<le> unat off \<Longrightarrow> on_choice (reaches_back off) (x86_rex_gotpcrelx elf r bs off absolute interposable static)"
    "on_choice (reaches_back off) (x86_gotpcrelx elf bs off absolute interposable static)"
    "2 \<le> unat off \<Longrightarrow> on_choice (reaches_back off) (x86_gotpcrel elf bs off)"
    "3 \<le> unat off \<Longrightarrow> on_choice (reaches_back off) (x86_gottpoff elf r bs off)"
    "6 \<le> unat off \<Longrightarrow> on_choice (reaches_back off) (x86_code_6_gottpoff elf bs off static)"
    "on_choice (reaches_back off) (x86_tlsgd elf bs off interposable static)"
    "on_choice (reaches_back off) (x86_tlsld elf bs off static)"
    "on_choice (reaches_back off) (x86_tlsdesc elf r bs off interposable static)"
proof -
  have two: "get_byte bs (off - 2) = Some b \<Longrightarrow> 2 \<le> unat off" for b
    using get_byte_before [of bs off 2 b] assms by simp
  have three: "slice bs (off - 3) hi = Some ys \<Longrightarrow> 3 \<le> unat off" for hi ys
    using slice_starts_before [of bs off 3 hi ys] assms by simp
  have gd: "tls_gd_identify bs off = Some form \<Longrightarrow> (if form = TlsGdRegular then 4 else 3) \<le> unat off" for form
    by (rule tls_gd_identify_before [OF _ assms])
  have lea: "lea_before bs off \<Longrightarrow> 3 \<le> unat off"
    using three by (auto simp: lea_before_def)
  show "on_choice (reaches_back off) (x86_gotpcrelx elf bs off absolute interposable static)"
    using two by (simp add: x86_gotpcrelx_def on_choice_rules reaches_back_def)
  show "on_choice (reaches_back off) (x86_tlsgd elf bs off interposable static)"
    using gd by (auto simp: x86_tlsgd_def on_choice_rules reaches_back_def split: tls_gd_form.split)
  show "on_choice (reaches_back off) (x86_tlsld elf bs off static)"
    using three by (simp add: x86_tlsld_def on_choice_rules reaches_back_def split: list.split)
  show "on_choice (reaches_back off) (x86_tlsdesc elf r bs off interposable static)"
    using lea by (simp add: x86_tlsdesc_def on_choice_rules reaches_back_def)
qed (simp_all add: x86_rex_gotpcrelx_def x86_gotpcrel_def x86_gottpoff_def x86_code_6_gottpoff_def
    on_choice_rules reaches_back_def)

lemma on_choice_guard:
  "on_choice P (Option.bind g (\<lambda>b. if b then c else Some None)) = (g = Some True \<longrightarrow> on_choice P c)"
  by (cases g) auto

lemma x86_choice_reaches_back:
  assumes "length bs < 2 ^ 63"
  shows "on_choice (reaches_back off) (x86_new_relaxation elf r bs off f out sf nz ds)"
proof -
  have none: "reaches_back off \<lparr>rx_kind = XR_NoOp, rx_rel_info = i, rx_mandatory = m\<rparr>"
    "reaches_back off \<lparr>rx_kind = XR_SkipTlsDescCall, rx_rel_info = i, rx_mandatory = m\<rparr>" for i m
    by (simp_all add: reaches_back_def)
  note reach = x86_arms_reach_back [OF assms]
  have "on_choice (reaches_back off) (x86_arms elf r bs off absolute interposable out)" for absolute interposable
    unfolding x86_arms_def Let_def on_choice_guard on_choice_if
    by (auto simp: reach none word_le_nat_alt intro: reach(1) [OF code_4_guard_offset] reach(4) [OF code_4_guard_offset])
  then show ?thesis
    by (simp add: x86_new_relaxation_def on_choice_rules none)
qed

section \<open>The rewrite that follows a choice\<close>


definition rex_demo :: relax_site where
  "rex_demo = \<lparr>section_bytes = [0x4c, 0x8b, 0x15, 1, 2, 3, 4], offset_in_section = 3, addend = - 4\<rparr>"

lemma rex_demo_choice:
  "\<exists>info. x86_new_relaxation x86_64_demo (x86_64_demo ''R_X86_64_REX_GOTPCRELX'') (section_bytes rex_demo)
      (offset_in_section rex_demo) NON_INTERPOSABLE (StaticExecutable NonRelocatable) {SHF_EXECINSTR} True None =
    Some (Some \<lparr>rx_kind = XR_RexMovIndirectToAbsolute 3, rx_rel_info = info, rx_mandatory = True\<rparr>)"
proof -
  have flags: "\<not> contains NON_INTERPOSABLE IFUNC" "is_address NON_INTERPOSABLE"
    by code_simp+
  have bytes: "get_byte (section_bytes rex_demo) (offset_in_section rex_demo - 2) = Some 0x8b"
    "get_byte (section_bytes rex_demo) (offset_in_section rex_demo - 3) = Some 0x4c"
    "code_4_guard c (section_bytes rex_demo) (offset_in_section rex_demo) = Some True" for c
    by (simp_all add: rex_demo_def get_byte_def code_4_guard_def)
  have "x86_64_relocation_from_raw x86_64_demo (x86_64_demo ''R_X86_64_32'') =
      Some (arm_info False (RK_Absolute, fst RELOC_4_BYTE_UNSIGNED, None, snd RELOC_4_BYTE_UNSIGNED, 1, 0))"
    by (rule x86_64_demo_row, simp add: x86_64_arms_def)
  with flags bytes show ?thesis
    by (simp add: x86_new_relaxation_def x86_arms_def x86_rex_gotpcrelx_def relaxed_to_def)
qed


section \<open>Instructions that used a GOT entry\<close>

lemma rex_gotpcrelx_choice:
  assumes "x86_new_relaxation elf (elf ''R_X86_64_REX_GOTPCRELX'') bs off f out sf nz ds = Some (Some x)"
    and "\<not> contains f IFUNC" "length bs < 2 ^ 63"
  shows "3 \<le> unat off \<and> bs ! (unat off - 3) \<in> {0x48, 0x4c}
    \<and> (bs ! (unat off - 2), rx_kind x) \<in> {(0x8b, XR_MovIndirectToLea), (0x8b, XR_RexMovIndirectToAbsolute 3),
        (0x2b, XR_RexSubIndirectToAbsolute 3), (0x3b, XR_RexCmpIndirectToAbsolute 3)}"
proof -
  obtain absolute interposable static where guard: "\<exists>c. code_4_guard c bs off = Some True"
    and choice: "x86_rex_gotpcrelx elf (elf ''R_X86_64_REX_GOTPCRELX'') bs off absolute interposable static
      = Some (Some x)"
    using assms(1,2)
    by (auto simp: x86_new_relaxation_def x86_arms_def Let_def split: if_splits bind_splits)
  then obtain b1 rex where b1: "get_byte bs (off - 2) = Some b1" and rex: "get_byte bs (off - 3) = Some rex"
    by (auto simp: x86_rex_gotpcrelx_def split: bind_splits)
  then have "on_choice (\<lambda>x. rex \<in> {0x48, 0x4c} \<and> (b1, rx_kind x) \<in> {(0x8b, XR_MovIndirectToLea),
      (0x8b, XR_RexMovIndirectToAbsolute 3), (0x2b, XR_RexSubIndirectToAbsolute 3),
      (0x3b, XR_RexCmpIndirectToAbsolute 3)})
      (x86_rex_gotpcrelx elf (elf ''R_X86_64_REX_GOTPCRELX'') bs off absolute interposable static)"
    by (simp add: x86_rex_gotpcrelx_def on_choice_rules)
  with choice guard show ?thesis
    using code_4_guard_offset get_byte_before [of bs off 2 b1] get_byte_before [of bs off 3 rex] b1 rex assms(3)
    by (auto simp: on_choice_def)
qed



text \<open>The immediate of these instructions is sign extended, and the relocation that is written for it,
  \<open>R_X86_64_32\<close>, allows every unsigned 32-bit value: an address in the upper half is accepted and the
  instruction computes another one.\<close>

theorem absolute_immediate_not_sign_checked:
  "x86_64_relocation_from_raw x86_64_demo (x86_64_demo ''R_X86_64_32'') = Some info \<Longrightarrow>
     verify info 0x80000000 = Inr () \<and> scast (ucast (0x80000000 :: u64) :: u32) \<noteq> (0x80000000 :: u64)"
proof -
  have "x86_64_relocation_from_raw x86_64_demo (x86_64_demo ''R_X86_64_32'') =
      Some (arm_info False (RK_Absolute, fst RELOC_4_BYTE_UNSIGNED, None, snd RELOC_4_BYTE_UNSIGNED, 1, 0))"
    by (rule x86_64_demo_row, simp add: x86_64_arms_def)
  moreover have "verify (arm_info False (RK_Absolute, fst RELOC_4_BYTE_UNSIGNED, None,
      snd RELOC_4_BYTE_UNSIGNED, 1, 0)) 0x80000000 = Inr ()"
    "scast (ucast (0x80000000 :: u64) :: u32) \<noteq> (0x80000000 :: u64)"
    by (simp_all add: verify_def arm_info_def RELOC_4_BYTE_UNSIGNED_def from_byte_size_def from_bit_size_def
        range_contains_def range_new_def)
  ultimately show "x86_64_relocation_from_raw x86_64_demo (x86_64_demo ''R_X86_64_32'') = Some info \<Longrightarrow>
     verify info 0x80000000 = Inr () \<and> scast (ucast (0x80000000 :: u64) :: u32) \<noteq> (0x80000000 :: u64)"
    by simp
qed

text \<open>The test for the REX2 prefix of the \<open>CODE_4\<close> relocations is or-ed with the test of the offset, so
  it never decides: an instruction without the prefix is rewritten as one that has it.\<close>

theorem code_4_prefix_not_required:
  "code_4_guard True [0x90, 0x4c, 0x8b, 0x15] 4 = Some True"
  "3 \<le> off \<Longrightarrow> unat off \<le> length bs \<Longrightarrow> code_4_guard True bs off = Some True"
proof -
  show "code_4_guard True [0x90, 0x4c, 0x8b, 0x15] 4 = Some True"
    by code_simp
  show "3 \<le> off \<Longrightarrow> unat off \<le> length bs \<Longrightarrow> code_4_guard True bs off = Some True"
    using get_byte_room [of 4 off bs] by (auto simp: code_4_guard_def word_le_nat_alt)
qed

end
