(* ===== verification/Plt_Stubs.thy ===== *)
theory Plt_Stubs
  imports Reloc_Apply "HOL-Library.Signed_Division"
begin

text \<open>
  The code the linker generates itself: the entries of the PLT (\<open>write_plt_entry\<close> of \<open>elf_x86_64.rs\<close>,
  \<open>elf_aarch64.rs\<close>, \<open>elf_riscv64.rs\<close> and \<open>elf_loongarch64.rs\<close>), each of which jumps through an entry of the
  GOT, and the range-extension thunks of AArch64 (\<open>write_thunk\<close>). The locale states what the table writer
  relies on: a stub that is written loads from the GOT entry it was written for.
\<close>

datatype stub_error = PltTooFarFromGot

section \<open>Writing the stubs\<close>

text \<open>\<open>entry.copy_from_slice(template)\<close>: different lengths panic.\<close>

definition fill :: "u8 list \<Rightarrow> u8 list \<Rightarrow> u8 list option" where
  "fill entry template = (if length entry = length template then Some template else None)"

text \<open>A write to \<open>entry[lo..hi]\<close> by a function on the slice.\<close>

definition in_window :: "u8 list \<Rightarrow> u64 \<Rightarrow> u64 \<Rightarrow> (u8 list \<Rightarrow> u8 list option) \<Rightarrow> u8 list option" where
  "in_window entry lo hi f = do {
     window \<leftarrow> slice entry lo hi;
     out \<leftarrow> f window;
     copy_from_slice entry lo hi out
   }"

definition x86_64_plt_template :: "u8 list" where
  "x86_64_plt_template = [0xf3, 0x0f, 0x1e, 0xfa, 0xf2, 0xff, 0x25, 0, 0, 0, 0, 0x0f, 0x1f, 0x44, 0, 0]"

definition x86_64_write_plt_entry :: "u8 list \<Rightarrow> u64 \<Rightarrow> u64 \<Rightarrow> (stub_error + u8 list) option" where
  "x86_64_write_plt_entry plt_entry got_address plt_address = do {
     plt_entry \<leftarrow> fill plt_entry x86_64_plt_template;
     let offset = got_address - (plt_address + 0xb);
     if \<not> (- (2 ^ 31) \<le> sint offset \<and> sint offset < 2 ^ 31) then Some (Inl PltTooFarFromGot)
     else do {
       plt_entry \<leftarrow> copy_from_slice plt_entry 7 11 (to_le_bytes 4 (scast offset :: u32));
       Some (Inr plt_entry)
     }
   }"

definition aarch64_plt_template :: "u8 list" where
  "aarch64_plt_template = [0x10, 0, 0, 0x90, 0x11, 0x02, 0x40, 0xf9, 0x20, 0x02, 0x1f, 0xd6, 0x1f, 0x20, 0x03, 0xd5]"

definition aarch64_write_plt_entry :: "u8 list \<Rightarrow> u64 \<Rightarrow> u64 \<Rightarrow> (stub_error + u8 list) option" where
  "aarch64_write_plt_entry plt_entry got_address plt_address = do {
     plt_entry \<leftarrow> fill plt_entry aarch64_plt_template;
     let plt_page_address = plt_address AND NOT PAGE_MASK_4KB;
     let offset = got_address - plt_page_address;
     if \<not> offset < 2 ^ 32 then Some (Inl PltTooFarFromGot)
     else do {
       plt_entry \<leftarrow> in_window plt_entry 0 4 (aarch64_write_to_value A64_Adr (offset div SIZE_4KB) False);
       plt_entry \<leftarrow> in_window plt_entry 4 8
         (aarch64_write_to_value A64_LdrRegister ((offset AND PAGE_MASK_4KB) div 8) False);
       Some (Inr plt_entry)
     }
   }"

definition thunk_template :: "u8 list" where
  "thunk_template = [0x10, 0, 0, 0x90, 0x10, 0x02, 0, 0x91, 0, 0x02, 0x1f, 0xd6]"

definition aarch64_write_thunk :: "u64 \<Rightarrow> u64 \<Rightarrow> u8 list \<Rightarrow> u8 list option" where
  "aarch64_write_thunk thunk_address target_address buf = do {
     buf \<leftarrow> fill buf thunk_template;
     let thunk_page = thunk_address AND NOT PAGE_MASK_4KB;
     let target_page = target_address AND NOT PAGE_MASK_4KB;
     let page_diff = target_page - thunk_page;
     let page_count = word_of_int (sint page_diff sdiv 4096) AND 0x1fffff;
     buf \<leftarrow> in_window buf 0 4 (aarch64_write_to_value A64_Adr page_count False);
     in_window buf 4 8 (aarch64_write_to_value A64_Add (target_address AND PAGE_MASK_4KB) False)
   }"

definition riscv64_plt_template :: "u8 list" where
  "riscv64_plt_template = [0x17, 0x0e, 0, 0, 0x03, 0x3e, 0x0e, 0, 0x67, 0x03, 0x0e, 0, 0x73, 0, 0x10, 0]"

definition riscv64_write_plt_entry :: "u8 list \<Rightarrow> u64 \<Rightarrow> u64 \<Rightarrow> (stub_error + u8 list) option" where
  "riscv64_write_plt_entry plt_entry got_address plt_address = do {
     plt_entry \<leftarrow> fill plt_entry riscv64_plt_template;
     plt_entry \<leftarrow> in_window plt_entry 0 8
       (riscv_write_to_value RV_UiType (got_address - plt_address) False);
     Some (Inr plt_entry)
   }"

definition loongarch64_plt_template :: "u8 list" where
  "loongarch64_plt_template = [0x0f, 0, 0, 0x1a, 0xef, 0x01, 0xc0, 0x28, 0xed, 0x01, 0, 0x4c, 0, 0, 0x2a, 0]"

definition loongarch64_write_plt_entry :: "u8 list \<Rightarrow> u64 \<Rightarrow> u64 \<Rightarrow> (stub_error + u8 list) option" where
  "loongarch64_write_plt_entry plt_entry got_address plt_address = do {
     plt_entry \<leftarrow> fill plt_entry loongarch64_plt_template;
     let pcala_hi20 = shl (shr (((got_address + SIZE_2KB) AND NOT PAGE_MASK_4KB)
       - (plt_address AND NOT PAGE_MASK_4KB)) 12) 5;
     let pcala_lo12 = shl (got_address AND 0xfff) 10;
     plt_entry \<leftarrow> in_window plt_entry 0 4 (\<lambda>w. or_from_slice w (to_le_bytes 4 (ucast pcala_hi20 :: u32)));
     plt_entry \<leftarrow> in_window plt_entry 4 8 (\<lambda>w. or_from_slice w (to_le_bytes 4 (ucast pcala_lo12 :: u32)));
     Some (Inr plt_entry)
   }"

section \<open>What the stubs do\<close>

text \<open>
  The address a stub at \<open>pc\<close> loads its target from, as the processor computes it: \<open>jmp *disp(%rip)\<close> adds the
  sign-extended displacement to the address of the next instruction; \<open>adrp\<close> adds its immediate in pages
  to the page of the program counter and \<open>ldr\<close> adds eight times its own; \<open>auipc\<close> and \<open>ld\<close> add their
  immediates to the program counter; \<open>pcalau12i\<close> adds its immediate in pages to the program counter and
  clears the low bits, and \<open>ld.d\<close> adds its sign-extended immediate.
\<close>

definition word_at :: "u8 list \<Rightarrow> nat \<Rightarrow> u32" where
  "word_at bs i = from_le_bytes (take 4 (drop i bs))"

definition x86_64_stub_loads :: "u8 list \<Rightarrow> u64 \<Rightarrow> u64" where
  "x86_64_stub_loads bs pc = pc + 11 + scast (word_at bs 7)"

definition aarch64_stub_loads :: "u8 list \<Rightarrow> u64 \<Rightarrow> u64" where
  "aarch64_stub_loads bs pc = (pc AND NOT (mask 12)) + push_bit 12 (a64_decode A64_Adr (word_at bs 0))
     + push_bit 3 (a64_decode A64_LdrRegister (word_at bs 4))"

definition aarch64_thunk_jumps :: "u8 list \<Rightarrow> u64 \<Rightarrow> u64" where
  "aarch64_thunk_jumps bs pc = (pc AND NOT (mask 12)) + push_bit 12 (a64_decode A64_Adr (word_at bs 0))
     + a64_decode A64_Add (word_at bs 4)"

definition riscv64_stub_loads :: "u8 list \<Rightarrow> u64 \<Rightarrow> u64" where
  "riscv64_stub_loads bs pc = pc + rv_upper (word_at bs 0) + rv_lower RV_IType (word_at bs 4)"

definition loongarch64_stub_loads :: "u8 list \<Rightarrow> u64 \<Rightarrow> u64" where
  "loongarch64_stub_loads bs pc =
     ((pc + push_bit 12 (signed_take_bit 19 (take_bit 20 (drop_bit 5 (ucast (word_at bs 0)))))) AND NOT (mask 12))
     + signed_take_bit 11 (take_bit 12 (drop_bit 10 (ucast (word_at bs 4))))"

section \<open>Windows of a stub\<close>

lemma word_at_stub [simp]:
  "word_at (to_le_bytes 4 w @ to_le_bytes 4 v @ rest) 0 = w"
  "word_at (to_le_bytes 4 w @ to_le_bytes 4 v @ rest) 4 = v"
  by (simp_all add: word_at_def)

lemma in_window_first:
  assumes "4 \<le> length e" "f (take 4 e) = Some (to_le_bytes 4 (w :: u32))"
  shows "in_window e 0 4 f = Some (to_le_bytes 4 w @ drop 4 e)"
  using assms by (simp add: in_window_def slice_def copy_from_slice_def splice_def)

lemma in_window_second:
  assumes "4 \<le> length e" "f (take 4 e) = Some (to_le_bytes 4 (v :: u32))"
  shows "in_window (to_le_bytes 4 (w :: u32) @ e) 4 8 f = Some (to_le_bytes 4 w @ to_le_bytes 4 v @ drop 4 e)"
  using assms by (simp add: in_window_def slice_def copy_from_slice_def splice_def)

text \<open>Two encoders one after the other, on the first two words of a buffer.\<close>

lemma two_windows:
  fixes w v :: u32
  assumes "8 \<le> length e" "f (take 4 e) = Some (to_le_bytes 4 w)" "g (take 4 (drop 4 e)) = Some (to_le_bytes 4 v)"
  shows "Option.bind (in_window e 0 4 f) (\<lambda>e. in_window e 4 8 g) =
    Some (to_le_bytes 4 w @ to_le_bytes 4 v @ drop 8 e)"
  using in_window_first [of e f w] in_window_second [of "drop 4 e" g v w] assms by simp

lemma a64_write_window:
  "length e = 4 \<Longrightarrow> aarch64_write_to_value insn v neg e =
     Some (to_le_bytes 4 (a64_insn_word insn v neg (from_le_bytes e)))"
  by (simp add: aarch64_write_word)

section \<open>Immediates as the processor reads them\<close>

lemma adr_signed: "a64_decode A64_Adr w = signed_take_bit 20 (a64_decode A64_Adr w)"
proof (rule bit_word_eqI)
  fix i assume i: "i < LENGTH(64)"
  show "bit (a64_decode A64_Adr w) i = bit (signed_take_bit 20 (a64_decode A64_Adr w)) i"
    using i by (cases "i < 20") (auto simp: a64_decode_def bit_simps min_def)
qed

lemma adr_decoded:
  assumes "take_bit 21 v = (v :: u64)" "w AND a64_field A64_Adr = 0"
  shows "a64_decode A64_Adr (a64_insn_word A64_Adr v neg w) = signed_take_bit 20 v"
proof -
  let ?d = "a64_decode A64_Adr (a64_insn_word A64_Adr v neg w)"
  have "signed_take_bit 20 ?d = signed_take_bit 20 (take_bit 21 ?d)"
    by (simp add: signed_take_bit_take_bit)
  then show ?thesis
    using adr_signed [of "a64_insn_word A64_Adr v neg w"] adr_roundtrip [OF assms] by simp
qed

lemma a64_low_decoded:
  assumes "take_bit 12 v = (v :: u64)" "w AND push_bit 10 (mask 12) = 0"
  shows "a64_decode A64_LdrRegister (a64_insn_word A64_LdrRegister v neg w) = v"
    "a64_decode A64_Add (a64_insn_word A64_Add v neg w) = v"
  using field_roundtrip [OF assms(2,1)] by (simp_all add: a64_decode_def)

lemma page_mask: "PAGE_MASK_4KB = mask 12" "SIZE_4KB = 2 ^ 12"
  by (simp_all add: PAGE_MASK_4KB_def SIZE_4KB_def mask_eq_exp_minus_1)

lemma take_bit_page: "take_bit 12 (x AND NOT (mask 12)) = (0 :: u64)"
  by (intro bit_word_eqI) (auto simp: bit_simps)

lemma take_bit_diff_pages:
  "take_bit 12 ((x AND NOT (mask 12)) - (y AND NOT (mask 12))) = (0 :: u64)"
proof -
  let ?x = "x AND NOT (mask 12)" and ?y = "y AND NOT (mask 12)"
  have "take_bit 12 (?x - ?y) = take_bit 12 (take_bit 12 ?y + (?x - ?y))"
    unfolding take_bit_page by (simp only: add_0_left)
  also have "\<dots> = take_bit 12 ?x"
    by (subst take_bit_add_left) simp_all
  finally show ?thesis
    by (simp only: take_bit_page)
qed

lemma page_add:
  assumes "take_bit 12 d = (0 :: u64)"
  shows "(x + d) AND NOT (mask 12) = (x AND NOT (mask 12)) + d"
proof -
  have "take_bit 12 (x + d) = take_bit 12 (take_bit 12 d + x)"
    by (subst take_bit_add_left) (simp_all add: add.commute)
  with assms show ?thesis
    by (simp add: and_not_mask_minus)
qed

lemma sdiv_exact: "l dvd k \<Longrightarrow> (k :: int) sdiv l = k div l"
  by (auto simp: signed_divide_int_def abs_if sgn_if dvd_neg_div dvd_div_neg)

lemma page_count_bits:
  fixes d :: u64
  assumes "take_bit 12 d = 0"
  shows "take_bit 21 (word_of_int (sint d sdiv 4096)) = take_bit 21 (drop_bit 12 d)"
proof -
  have "take_bit 12 (sint d) = 0"
  proof (rule bit_eqI)
    fix i
    show "bit (take_bit 12 (sint d)) i = bit 0 i"
      using bit_take_bit_word [of 12 d i] assms by (simp add: bit_take_bit_iff bit_sint_iff)
  qed
  then have "sint d sdiv 4096 = drop_bit 12 (sint d)"
    using sdiv_exact [of 4096 "sint d"] by (simp add: take_bit_eq_mod drop_bit_eq_div dvd_eq_mod_eq_0)
  then show ?thesis
    by (intro bit_word_eqI) (auto simp: bit_simps)
qed

lemma push_drop_low:
  fixes x :: u64
  assumes "take_bit 3 x = 0"
  shows "push_bit 3 (drop_bit 3 (take_bit 12 x)) = take_bit 12 x"
proof (rule bit_word_eqI)
  fix i assume "i < LENGTH(64)"
  moreover have "i < 3 \<Longrightarrow> \<not> bit x i"
    using bit_take_bit_word [of 3 x i] assms by simp
  ultimately show "bit (push_bit 3 (drop_bit 3 (take_bit 12 x))) i = bit (take_bit 12 x) i"
    by (cases "i < 3") (auto simp: bit_simps)
qed

lemma push_drop_page: "push_bit 12 (drop_bit 12 x) = x - take_bit 12 (x :: u64)"
  unfolding and_not_mask_minus [symmetric] by (intro bit_word_eqI) (auto simp: bit_simps)

lemma small_signed:
  fixes x :: u64
  assumes "uint x < 2 ^ n" "n < 63"
  shows "take_bit (Suc n) x = x" "signed_take_bit n x = x"
proof -
  have "(2 :: int) ^ n \<le> 2 ^ Suc n"
    by simp
  with assms(1) have "uint x < 2 ^ Suc n"
    by (rule less_le_trans)
  then show "take_bit (Suc n) x = x"
    by (simp only: take_bit_word_eq_iff)
  have "take_bit n x = x"
    using assms(1) by (simp add: take_bit_word_eq_iff)
  then have low: "bit x i \<Longrightarrow> i < n" for i
    by (metis bit_take_bit_iff)
  show "signed_take_bit n x = x"
    using assms(2) low by (intro bit_word_eqI) (auto simp: bit_signed_take_bit_word min_def dest: low)
qed

section \<open>Each stub loads from its GOT entry\<close>

definition x86_64_got_in_reach :: "u64 \<Rightarrow> u64 \<Rightarrow> bool" where
  "x86_64_got_in_reach got plt \<longleftrightarrow> - (2 ^ 31) \<le> sint (got - (plt + 11)) \<and> sint (got - (plt + 11)) < 2 ^ 31"

definition aarch64_got_in_reach :: "u64 \<Rightarrow> u64 \<Rightarrow> bool" where
  "aarch64_got_in_reach got plt \<longleftrightarrow> got - (plt AND NOT (mask 12)) < 2 ^ 32 \<and> 8 dvd unat got"

definition riscv64_got_in_reach :: "u64 \<Rightarrow> u64 \<Rightarrow> bool" where
  "riscv64_got_in_reach got plt \<longleftrightarrow> - (2 ^ 31) \<le> sint (got - plt + 0x800) \<and> sint (got - plt + 0x800) < 2 ^ 31"

definition loongarch64_got_in_reach :: "u64 \<Rightarrow> u64 \<Rightarrow> bool" where
  "loongarch64_got_in_reach got plt \<longleftrightarrow>
     ((got + 0x800) AND NOT (mask 12)) - (plt AND NOT (mask 12)) < 2 ^ 31"

lemma x86_64_stub:
  assumes "length e = 16"
  shows "x86_64_write_plt_entry e got plt =
    (if x86_64_got_in_reach got plt
     then Some (Inr ([0xf3, 0x0f, 0x1e, 0xfa, 0xf2, 0xff, 0x25] @ to_le_bytes 4 (scast (got - (plt + 11)) :: u32)
       @ [0x0f, 0x1f, 0x44, 0, 0]))
     else Some (Inl PltTooFarFromGot))"
  using assms
  by (simp add: x86_64_write_plt_entry_def fill_def x86_64_plt_template_def x86_64_got_in_reach_def
      copy_from_slice_def splice_def Let_def)

lemma scast_scast_fits:
  fixes x :: u64
  assumes "- (2 ^ 31) \<le> sint x" "sint x < 2 ^ 31"
  shows "scast (scast x :: u32) = x"
proof -
  have "signed_take_bit 31 x = x"
    using assms by (simp add: signed_take_bit_word_eq_iff)
  moreover have "(scast x :: u32) = ucast x"
    by (intro bit_word_eqI) (simp add: bit_simps)
  ultimately show ?thesis
    using scast_u32_id by simp
qed

lemma x86_64_stub_loads_got:
  assumes "x86_64_write_plt_entry e got plt = Some (Inr out)" "length e = 16"
  shows "length out = 16 \<and> x86_64_stub_loads out plt = got"
proof -
  have reach: "x86_64_got_in_reach got plt" and out: "out = [0xf3, 0x0f, 0x1e, 0xfa, 0xf2, 0xff, 0x25]
      @ to_le_bytes 4 (scast (got - (plt + 11)) :: u32) @ [0x0f, 0x1f, 0x44, 0, 0]"
    using assms x86_64_stub [OF assms(2), of got plt] by (auto split: if_splits)
  have "word_at out 7 = scast (got - (plt + 11))"
    by (simp add: out word_at_def)
  with out reach scast_scast_fits [of "got - (plt + 11)"] show ?thesis
    by (simp add: x86_64_stub_loads_def x86_64_got_in_reach_def)
qed

lemma aarch64_stub_loads_got:
  assumes "length e = 16" "aarch64_got_in_reach got plt"
  shows "\<exists>out. aarch64_write_plt_entry e got plt = Some (Inr out) \<and> length out = 16
    \<and> aarch64_stub_loads out plt = got"
proof -
  let ?page = "plt AND NOT (mask 12)" and ?t = aarch64_plt_template
  define off where "off = got - ?page"
  have small: "off < 2 ^ 32"
    using assms(2) by (simp add: aarch64_got_in_reach_def off_def)
  define pages where "pages = drop_bit 12 off"
  define low where "low = drop_bit 3 (take_bit 12 off)"
  have parts: "got - (plt AND NOT PAGE_MASK_4KB) = off" "off div SIZE_4KB = pages"
    "(off AND PAGE_MASK_4KB) div 8 = low"
    unfolding pages_def low_def page_mask
    using drop_bit_eq_div [of 12 off] drop_bit_eq_div [of 3 "take_bit 12 off"]
    by (simp_all add: take_bit_eq_mask off_def)
  have "uint off < 2 ^ 32"
    using small by (simp add: word_less_def)
  then have "uint pages < 2 ^ 20"
    by (simp add: pages_def drop_bit_eq_div uint_div div_less_iff_less_mult)
  then have pages: "take_bit 21 pages = pages" "signed_take_bit 20 pages = pages"
    using small_signed [of pages 20] by simp_all
  have low: "take_bit 12 low = low"
    unfolding low_def by (intro bit_word_eqI) (auto simp: bit_simps)
  let ?w0 = "a64_insn_word A64_Adr pages False 0x90000010"
  let ?w1 = "a64_insn_word A64_LdrRegister low False 0xf9400211"
  have words: "(from_le_bytes (take 4 ?t) :: u32) = 0x90000010"
    "(from_le_bytes (take 4 (drop 4 ?t)) :: u32) = 0xf9400211"
    by (simp_all add: aarch64_plt_template_def)
  have "Option.bind (in_window ?t 0 4 (aarch64_write_to_value A64_Adr pages False))
      (\<lambda>e. in_window e 4 8 (aarch64_write_to_value A64_LdrRegister low False)) =
    Some (to_le_bytes 4 ?w0 @ to_le_bytes 4 ?w1 @ drop 8 ?t)"
    by (rule two_windows)
      (simp_all add: a64_write_window words aarch64_plt_template_def del: a64_insn_word.simps)
  then have "aarch64_write_plt_entry e got plt =
      Some (Inr (to_le_bytes 4 ?w0 @ to_le_bytes 4 ?w1 @ drop 8 ?t))"
    using assms(1) small
    by (simp add: aarch64_write_plt_entry_def fill_def parts aarch64_plt_template_def not_le
        bind_eq_Some_conv del: a64_insn_word.simps)
  moreover have "a64_decode A64_Adr ?w0 = pages"
    using adr_decoded [OF pages(1)] pages(2) by (simp add: mask_eq_exp_minus_1 del: a64_insn_word.simps)
  moreover have "a64_decode A64_LdrRegister ?w1 = low"
    by (rule a64_low_decoded [OF low]) (simp add: mask_eq_exp_minus_1)
  moreover have "push_bit 12 pages = off - take_bit 12 off"
    unfolding pages_def by (rule push_drop_page)
  moreover have "take_bit 3 off = 0"
  proof -
    have "take_bit 3 ?page = 0"
      by (intro bit_word_eqI) (auto simp: bit_simps)
    then have "take_bit 3 off = take_bit 3 (take_bit 3 ?page + off)"
      by simp
    also have "\<dots> = take_bit 3 got"
      by (subst take_bit_add_left) (simp_all add: off_def)
    finally show ?thesis
      using assms(2) take_bit_zero_of_dvd [of 3 got] by (simp add: aarch64_got_in_reach_def)
  qed
  then have "push_bit 3 low = take_bit 12 off"
    unfolding low_def by (rule push_drop_low)
  ultimately show ?thesis
    by (simp add: aarch64_stub_loads_def off_def aarch64_plt_template_def del: a64_insn_word.simps)
qed

lemma riscv64_stub_loads_got:
  assumes "length e = 16" "riscv64_got_in_reach got plt"
  shows "\<exists>out. riscv64_write_plt_entry e got plt = Some (Inr out) \<and> length out = 16
    \<and> riscv64_stub_loads out plt = got"
proof -
  let ?t = riscv64_plt_template
  let ?hi = "rv_insn_word RV_UType (got - plt) (from_le_bytes (take 4 ?t))"
  let ?lo = "rv_insn_word RV_IType (got - plt) (from_le_bytes (take 4 (drop 4 ?t)))"
  have "length ?t = 16"
    by (simp add: riscv64_plt_template_def)
  then have "in_window ?t 0 8 (riscv_write_to_value RV_UiType (got - plt) False) =
      Some (to_le_bytes 4 ?hi @ to_le_bytes 4 ?lo @ drop 8 ?t)"
    using riscv_write_ui [of "take 8 ?t" "got - plt" False]
    by (simp add: in_window_def slice_def copy_from_slice_def splice_def drop_take
        del: riscv_write_to_value.simps)
  moreover have "rv_upper ?hi + rv_lower RV_IType ?lo = got - plt"
    using assms(2) by (intro rv_pair_sum) (simp_all add: riscv64_got_in_reach_def signed_take_bit_word_eq_iff)
  ultimately show ?thesis
    using assms(1) \<open>length ?t = 16\<close>
    by (simp add: riscv64_write_plt_entry_def fill_def riscv64_stub_loads_def add.assoc)
qed

lemma loongarch64_stub_loads_got:
  assumes "length e = 16" "loongarch64_got_in_reach got plt"
  shows "\<exists>out. loongarch64_write_plt_entry e got plt = Some (Inr out) \<and> length out = 16
    \<and> loongarch64_stub_loads out plt = got"
proof -
  let ?t = loongarch64_plt_template
  define d where "d = ((got + SIZE_2KB) AND NOT PAGE_MASK_4KB) - (plt AND NOT PAGE_MASK_4KB)"
  define l where "l = got AND 0xfff"
  have d_eq: "d = ((got + 0x800) AND NOT (mask 12)) - (plt AND NOT (mask 12))"
    by (simp only: d_def page_mask) (simp add: SIZE_2KB_def)
  have l: "l = take_bit 12 got"
    by (simp add: l_def take_bit_eq_mask mask_eq_exp_minus_1)
  define i where "i = drop_bit 12 d"
  have "uint d < 2 ^ 31"
    using assms(2) by (simp add: loongarch64_got_in_reach_def d_eq [symmetric] word_less_def)
  then have small: "uint i < 2 ^ 19"
    by (simp add: i_def drop_bit_eq_div uint_div div_less_iff_less_mult)
  then have i: "take_bit 20 i = i" "signed_take_bit 19 i = i"
    using small_signed [of i 19] by simp_all
  let ?hi = "0x1a00000f OR ucast (push_bit 5 i) :: u32"
  let ?lo = "0x28c001ef OR ucast (push_bit 10 l) :: u32"
  have words: "(from_le_bytes (take 4 ?t) :: u32) = 0x1a00000f"
    "(from_le_bytes (take 4 (drop 4 ?t)) :: u32) = 0x28c001ef"
    by (simp_all add: loongarch64_plt_template_def)
  have "Option.bind (in_window ?t 0 4 (\<lambda>w. or_from_slice w (to_le_bytes 4 (ucast (push_bit 5 i) :: u32))))
      (\<lambda>e. in_window e 4 8 (\<lambda>w. or_from_slice w (to_le_bytes 4 (ucast (push_bit 10 l) :: u32)))) =
    Some (to_le_bytes 4 ?hi @ to_le_bytes 4 ?lo @ drop 8 ?t)"
    by (rule two_windows) (simp_all add: or_from_slice_word words loongarch64_plt_template_def)
  then have out: "loongarch64_write_plt_entry e got plt =
      Some (Inr (to_le_bytes 4 ?hi @ to_le_bytes 4 ?lo @ drop 8 ?t))"
    using assms(1)
    by (simp add: loongarch64_write_plt_entry_def fill_def d_def [symmetric] i_def [symmetric]
        l_def [symmetric] bind_eq_Some_conv loongarch64_plt_template_def)
  have hi: "take_bit 20 (drop_bit 5 (ucast ?hi)) = i"
  proof (rule bit_word_eqI)
    fix j assume "j < LENGTH(64)"
    then show "bit (take_bit 20 (drop_bit 5 (ucast ?hi :: u64))) j = bit i j"
      using field_clear_bits [of "0x1a00000f" 5 20 "5 + j"] low_value_bits [OF i(1), of j]
      by (auto simp: bit_simps mask_eq_exp_minus_1)
  qed
  have lo: "take_bit 12 (drop_bit 10 (ucast ?lo)) = take_bit 12 got"
  proof (rule bit_word_eqI)
    fix j assume "j < LENGTH(64)"
    then show "bit (take_bit 12 (drop_bit 10 (ucast ?lo :: u64))) j = bit (take_bit 12 got) j"
      unfolding l using field_clear_bits [of "0x28c001ef" 10 12 "10 + j"]
      by (auto simp: bit_simps mask_eq_exp_minus_1)
  qed
  have d: "take_bit 12 d = 0"
    unfolding d_eq by (rule take_bit_diff_pages)
  then have "push_bit 12 i = d"
    unfolding i_def push_drop_page by simp
  moreover have "signed_take_bit 11 (take_bit 12 got) = take_bit 12 (got + 0x800) - 0x800"
    using signed_take_bit_u64_shift [of 11 got] by (simp add: signed_take_bit_take_bit)
  moreover have "(plt + d) AND NOT (mask 12) = (got + 0x800) - take_bit 12 (got + 0x800)"
    unfolding page_add [OF d] by (simp add: d_eq and_not_mask_minus)
  ultimately show ?thesis
    using out hi lo i(2) by (simp add: loongarch64_stub_loads_def loongarch64_plt_template_def)
qed

section \<open>Thunks\<close>

definition aarch64_thunk_in_reach :: "u64 \<Rightarrow> u64 \<Rightarrow> bool" where
  "aarch64_thunk_in_reach thunk target \<longleftrightarrow>
     (let d = sint ((target AND NOT (mask 12)) - (thunk AND NOT (mask 12))) in - (2 ^ 32) \<le> d \<and> d < 2 ^ 32)"

lemma aarch64_thunk_lands:
  assumes "length buf = 12" "aarch64_thunk_in_reach thunk target"
  shows "\<exists>out. aarch64_write_thunk thunk target buf = Some out \<and> length out = 12
    \<and> aarch64_thunk_jumps out thunk = target"
proof -
  let ?t = thunk_template
  define d where "d = (target AND NOT PAGE_MASK_4KB) - (thunk AND NOT PAGE_MASK_4KB)"
  define c where "c = word_of_int (sint d sdiv 4096) AND (0x1fffff :: u64)"
  define l where "l = target AND PAGE_MASK_4KB"
  have d: "d = (target AND NOT (mask 12)) - (thunk AND NOT (mask 12))"
    by (simp only: d_def page_mask)
  then have d0: "take_bit 12 d = 0"
    by (simp only: take_bit_diff_pages)
  have "c = take_bit 21 (word_of_int (sint d sdiv 4096))"
    by (simp add: c_def take_bit_eq_mask mask_eq_exp_minus_1)
  then have c: "c = take_bit 21 (drop_bit 12 d)"
    by (simp only: page_count_bits [OF d0])
  have l: "l = take_bit 12 target"
    by (simp only: l_def page_mask take_bit_eq_mask)
  let ?w0 = "a64_insn_word A64_Adr c False 0x90000010"
  let ?w1 = "a64_insn_word A64_Add l False 0x91000210"
  have words: "(from_le_bytes (take 4 ?t) :: u32) = 0x90000010"
    "(from_le_bytes (take 4 (drop 4 ?t)) :: u32) = 0x91000210"
    by (simp_all add: thunk_template_def)
  have "Option.bind (in_window ?t 0 4 (aarch64_write_to_value A64_Adr c False))
      (\<lambda>e. in_window e 4 8 (aarch64_write_to_value A64_Add l False)) =
    Some (to_le_bytes 4 ?w0 @ to_le_bytes 4 ?w1 @ drop 8 ?t)"
    by (rule two_windows)
      (simp_all add: a64_write_window words thunk_template_def del: a64_insn_word.simps)
  then have "aarch64_write_thunk thunk target buf =
      Some (to_le_bytes 4 ?w0 @ to_le_bytes 4 ?w1 @ drop 8 ?t)"
    using assms(1)
    by (simp add: aarch64_write_thunk_def fill_def thunk_template_def d_def [symmetric] c_def [symmetric]
        l_def [symmetric] bind_eq_Some_conv del: a64_insn_word.simps)
  moreover have "a64_decode A64_Adr ?w0 = signed_take_bit 20 (drop_bit 12 d)"
    using adr_decoded [of c "0x90000010" False]
    by (simp add: c mask_eq_exp_minus_1 signed_take_bit_take_bit del: a64_insn_word.simps)
  moreover have "push_bit 12 (signed_take_bit 20 (drop_bit 12 d)) = d"
    using assms(2) d0
    by (intro push_drop_signed)
      (simp_all add: aarch64_thunk_in_reach_def d [symmetric] signed_take_bit_word_eq_iff Let_def)
  moreover have "a64_decode A64_Add ?w1 = l"
    by (rule a64_low_decoded) (simp_all add: l mask_eq_exp_minus_1)
  ultimately show ?thesis
    by (simp add: aarch64_thunk_jumps_def thunk_template_def d l and_not_mask_minus del: a64_insn_word.simps)
qed

section \<open>The contract of a PLT writer\<close>

locale plt_writer =
  fixes write_plt_entry :: "u8 list \<Rightarrow> u64 \<Rightarrow> u64 \<Rightarrow> (stub_error + u8 list) option"
    and stub_loads :: "u8 list \<Rightarrow> u64 \<Rightarrow> u64"
    and got_in_reach :: "u64 \<Rightarrow> u64 \<Rightarrow> bool"
  assumes stub_written: "length e = 16 \<Longrightarrow> got_in_reach got plt \<Longrightarrow>
      \<exists>out. write_plt_entry e got plt = Some (Inr out) \<and> length out = 16 \<and> stub_loads out plt = got"
begin

lemma stub_loads_got:
  assumes "write_plt_entry e got plt = Some (Inr out)" "length e = 16" "got_in_reach got plt"
  shows "stub_loads out plt = got"
  using stub_written [OF assms(2,3)] assms(1) by auto

end

interpretation x86_64_plt: plt_writer x86_64_write_plt_entry x86_64_stub_loads x86_64_got_in_reach
proof
  fix e :: "u8 list" and got plt
  assume "length e = 16" "x86_64_got_in_reach got plt"
  then show "\<exists>out. x86_64_write_plt_entry e got plt = Some (Inr out) \<and> length out = 16
      \<and> x86_64_stub_loads out plt = got"
    using x86_64_stub x86_64_stub_loads_got by simp
qed

interpretation aarch64_plt: plt_writer aarch64_write_plt_entry aarch64_stub_loads aarch64_got_in_reach
  by unfold_locales (rule aarch64_stub_loads_got)

interpretation riscv64_plt: plt_writer riscv64_write_plt_entry riscv64_stub_loads riscv64_got_in_reach
  by unfold_locales (rule riscv64_stub_loads_got)

interpretation loongarch64_plt: plt_writer loongarch64_write_plt_entry loongarch64_stub_loads loongarch64_got_in_reach
  by unfold_locales (rule loongarch64_stub_loads_got)

section \<open>Properties\<close>

text \<open>C23: A range-extension thunk jumps to its target. Whenever the pages of the thunk and of the target
  are less than 4 GiB apart, in either direction, \<open>write_thunk\<close> fills the twelve bytes of the thunk with
  instructions that compute the target address from the address of the thunk and branch to it.\<close>

theorem aarch64_thunk_reaches_target:
  assumes "length buf = 12" "aarch64_thunk_in_reach thunk target"
  shows "\<exists>out. aarch64_write_thunk thunk target buf = Some out \<and> length out = 12
    \<and> aarch64_thunk_jumps out thunk = target \<and> drop 8 out = [0, 0x02, 0x1f, 0xd6]"
proof -
  obtain out where out: "aarch64_write_thunk thunk target buf = Some out" "length out = 12"
    "aarch64_thunk_jumps out thunk = target"
    using aarch64_thunk_lands [OF assms] by blast
  moreover have "drop 8 out = [0, 0x02, 0x1f, 0xd6]"
    using out(1) assms(1)
    by (auto simp: aarch64_write_thunk_def fill_def thunk_template_def in_window_def slice_def
        copy_from_slice_def splice_def Let_def split: bind_splits if_splits)
  ultimately show ?thesis by blast
qed

theorem aarch64_thunk_reaches_target_witness:
  "\<exists>out. aarch64_write_thunk 0x20001010 0x10123 (replicate 12 0) = Some out
    \<and> aarch64_thunk_jumps out 0x20001010 = 0x10123"
  using aarch64_thunk_reaches_target [of "replicate 12 0" "0x20001010" "0x10123"]
  by (auto simp: aarch64_thunk_in_reach_def mask_eq_exp_minus_1)



text \<open>Out of reach the RISC-V and LoongArch64 writers and the thunk writer report no error: what they
  write refers to another address, and a LoongArch64 entry may not even be the same instructions.\<close>

theorem far_stubs_are_written_wrong:
  "(case riscv64_write_plt_entry (replicate 16 0) 0x80001000 0x1000 of
      Some (Inr out) \<Rightarrow> riscv64_stub_loads out 0x1000 \<noteq> 0x80001000 | _ \<Rightarrow> False)"
  "(case loongarch64_write_plt_entry (replicate 16 0) 0x200001000 0x1000 of
      Some (Inr out) \<Rightarrow> loongarch64_stub_loads out 0x1000 \<noteq> 0x200001000 \<and> out ! 3 \<noteq> 0x1a | _ \<Rightarrow> False)"
  "(case aarch64_write_thunk 0x1000 0x100001000 (replicate 12 0) of
      Some out \<Rightarrow> aarch64_thunk_jumps out 0x1000 \<noteq> 0x100001000 | _ \<Rightarrow> False)"
  by code_simp+

end
