(* ===== verification/Got_Tables.thy ===== *)
theory Got_Tables
  imports Plt_Stubs Value_Flags Output_Parts Output_Kind
begin

text \<open>
  The GOT, the PLT and the dynamic relocations of the symbols. The layout adds up what each symbol needs
  (\<open>Elf::allocate_resolution\<close>), gives its GOT and PLT entries addresses (\<open>Elf::create_resolution\<close>), and the
  writer fills the tables (\<open>TableWriter::process_resolution\<close> of \<open>elf_writer.rs\<close>), taking one entry after
  another; at the end \<open>validate_empty\<close> wants them all used. The outer \<open>option\<close> of a result is a panic, the
  sum an error. \<open>debug_assert_bail!\<close> is empty in the release build the model takes.
\<close>

section \<open>Flags and parts\<close>

definition has_dynamic_symbol :: "value_flags \<Rightarrow> bool" where
  "has_dynamic_symbol flags \<longleftrightarrow>
     contains flags DYNAMIC \<or> (contains flags EXPORT_DYNAMIC \<and> flags_is_interposable flags)"

definition PART_GOT :: part_id where "PART_GOT = 6"
definition PART_PLT_GOT :: part_id where "PART_PLT_GOT = 7"
definition PART_RELA_PLT :: part_id where "PART_RELA_PLT = 8"
definition PART_RELA_DYN_RELATIVE :: part_id where "PART_RELA_DYN_RELATIVE = 25"
definition PART_RELA_DYN_GENERAL :: part_id where "PART_RELA_DYN_GENERAL = 26"
definition PART_RELR_DYN :: part_id where "PART_RELR_DYN = 29"

lemmas part_defs = PART_GOT_def PART_PLT_GOT_def PART_RELA_PLT_def PART_RELA_DYN_RELATIVE_def
  PART_RELA_DYN_GENERAL_def PART_RELR_DYN_def

definition GOT_ENTRY_SIZE :: u64 where "GOT_ENTRY_SIZE = 8"
definition PLT_ENTRY_SIZE :: u64 where "PLT_ENTRY_SIZE = 16"
definition RELA_ENTRY_SIZE :: u64 where "RELA_ENTRY_SIZE = 24"
definition RELR_ENTRY_SIZE :: u64 where "RELR_ENTRY_SIZE = 8"

lemmas entry_sizes = GOT_ENTRY_SIZE_def PLT_ENTRY_SIZE_def RELA_ENTRY_SIZE_def RELR_ENTRY_SIZE_def

section \<open>What a symbol needs\<close>

definition allocate_address_relocation :: "bool \<Rightarrow> u64 part_map \<Rightarrow> u64 part_map option" where
  "allocate_address_relocation relr sizes =
     (if relr then increment sizes PART_RELR_DYN RELR_ENTRY_SIZE
      else increment sizes PART_RELA_DYN_RELATIVE RELA_ENTRY_SIZE)"

definition allocate_resolution :: "value_flags \<Rightarrow> u64 part_map \<Rightarrow> output_kind \<Rightarrow> bool \<Rightarrow> u64 part_map option" where
  "allocate_resolution flags sizes output relr = do {
     sizes \<leftarrow> (if contains flags GOT \<and> \<not> flags_is_tls flags then do {
         sizes \<leftarrow> increment sizes PART_GOT GOT_ENTRY_SIZE;
         sizes \<leftarrow> (if contains flags PLT then increment sizes PART_PLT_GOT PLT_ENTRY_SIZE else Some sizes);
         if contains flags IFUNC then increment sizes PART_RELA_PLT RELA_ENTRY_SIZE
         else if has_dynamic_symbol flags then increment sizes PART_RELA_DYN_GENERAL RELA_ENTRY_SIZE
         else if is_address flags \<and> is_relocatable output then allocate_address_relocation relr sizes
         else Some sizes
       } else Some sizes);
     sizes \<leftarrow> (if contains flags IFUNC_GOT_FOR_ADDRESS then do {
         sizes \<leftarrow> increment sizes PART_GOT GOT_ENTRY_SIZE;
         if is_relocatable output then allocate_address_relocation relr sizes else Some sizes
       } else Some sizes);
     sizes \<leftarrow> (if contains flags GOT_TLS_OFFSET then do {
         sizes \<leftarrow> increment sizes PART_GOT GOT_ENTRY_SIZE;
         if flags_is_interposable flags \<or> is_shared_object output
         then increment sizes PART_RELA_DYN_GENERAL RELA_ENTRY_SIZE else Some sizes
       } else Some sizes);
     sizes \<leftarrow> (if contains flags GOT_TLS_MODULE then do {
         sizes \<leftarrow> increment sizes PART_GOT (GOT_ENTRY_SIZE * 2);
         sizes \<leftarrow> (if \<not> is_executable output \<or> contains flags DYNAMIC
           then increment sizes PART_RELA_DYN_GENERAL RELA_ENTRY_SIZE else Some sizes);
         if has_dynamic_symbol flags then increment sizes PART_RELA_DYN_GENERAL RELA_ENTRY_SIZE
         else Some sizes
       } else Some sizes);
     if contains flags GOT_TLS_DESCRIPTOR then do {
       sizes \<leftarrow> increment sizes PART_GOT (GOT_ENTRY_SIZE * 2);
       increment sizes PART_RELA_DYN_GENERAL RELA_ENTRY_SIZE
     } else Some sizes
   }"

section \<open>Addresses of the entries\<close>

record elf_resolution =
  res_raw_value :: u64
  res_dynamic_symbol_index :: "u32 option"
  res_flags :: value_flags
  res_got_address :: "u64 option"
  res_plt_address :: "u64 option"

text \<open>\<open>NonZeroU64::new(..).unwrap()\<close> panics at zero.\<close>

definition allocate_got :: "u64 \<Rightarrow> u64 part_map \<Rightarrow> (u64 \<times> u64 part_map) option" where
  "allocate_got num_entries offsets = do {
     got_address \<leftarrow> nth_opt offsets PART_GOT;
     if got_address = 0 then None
     else do {
       offsets \<leftarrow> increment offsets PART_GOT (GOT_ENTRY_SIZE * num_entries);
       Some (got_address, offsets)
     }
   }"

definition allocate_plt :: "u64 part_map \<Rightarrow> (u64 \<times> u64 part_map) option" where
  "allocate_plt offsets = do {
     plt_address \<leftarrow> nth_opt offsets PART_PLT_GOT;
     if plt_address = 0 then None
     else do {
       offsets \<leftarrow> increment offsets PART_PLT_GOT PLT_ENTRY_SIZE;
       Some (plt_address, offsets)
     }
   }"

definition num_got_slots :: "value_flags \<Rightarrow> u64" where
  "num_got_slots flags =
     (if contains flags GOT_TLS_OFFSET then 1 else 0) + (if contains flags GOT_TLS_MODULE then 2 else 0)
     + (if contains flags GOT_TLS_DESCRIPTOR then 2 else 0)"

definition create_resolution :: "value_flags \<Rightarrow> u64 \<Rightarrow> u32 option \<Rightarrow> u64 part_map
    \<Rightarrow> (elf_resolution \<times> u64 part_map) option" where
  "create_resolution flags raw_value dynamic_symbol_index offsets =
     (let resolution = \<lparr>res_raw_value = raw_value, res_dynamic_symbol_index = dynamic_symbol_index,
        res_flags = flags, res_got_address = None, res_plt_address = None\<rparr>
      in if contains flags PLT then do {
           (plt_address, offsets) \<leftarrow> allocate_plt offsets;
           let resolution = resolution\<lparr>res_plt_address := Some plt_address,
             res_raw_value := (if contains flags DYNAMIC then plt_address else raw_value)\<rparr>;
           let num_got_entries = (if contains flags IFUNC_GOT_FOR_ADDRESS then 2 else 1);
           (got_address, offsets) \<leftarrow> allocate_got num_got_entries offsets;
           Some (resolution\<lparr>res_got_address := Some got_address\<rparr>, offsets)
         }
         else if flags_is_tls flags then do {
           (got_address, offsets) \<leftarrow> allocate_got (num_got_slots flags) offsets;
           Some (resolution\<lparr>res_got_address := Some got_address\<rparr>, offsets)
         }
         else if contains flags GOT then do {
           (got_address, offsets) \<leftarrow> allocate_got 1 offsets;
           Some (resolution\<lparr>res_got_address := Some got_address\<rparr>, offsets)
         }
         else Some (resolution, offsets))"

section \<open>The table writer\<close>

datatype table_error =
    InsufficientAllocation string
  | ExcessiveAllocation string
  | MissingDynamicSymbolIndex
  | MissingGotAddress
  | MissingPltAddress
  | MissingLayout
  | NotAnAddress
  | NotInTlsSegment u64
  | TlsDescInStaticExecutable
  | StubError stub_error

type_synonym 'a result = "(table_error + 'a) option"

definition ok :: "'a \<Rightarrow> 'a result" where
  "ok x = Some (Inr x)"

definition err :: "table_error \<Rightarrow> 'a result" where
  "err e = Some (Inl e)"

text \<open>The operator \<open>?\<close>.\<close>

definition try_then :: "'a result \<Rightarrow> ('a \<Rightarrow> 'b result) \<Rightarrow> 'b result" where
  "try_then m f = (case m of None \<Rightarrow> None | Some (Inl e) \<Rightarrow> Some (Inl e) | Some (Inr x) \<Rightarrow> f x)"

definition or_err :: "'a option \<Rightarrow> table_error \<Rightarrow> 'a result" where
  "or_err x e = (case x of None \<Rightarrow> err e | Some y \<Rightarrow> ok y)"

record rela =
  r_offset :: u64
  r_sym :: u32
  r_rel_type :: u32
  r_addend :: u64

text \<open>
  A table is the number of its entries that are still free and the entries written so far; the PLT is
  counted in bytes. An entry of the GOT that is taken and not assigned keeps what the output file has
  there, and is \<open>None\<close>.
\<close>

record table_writer =
  tw_output :: output_kind
  tls_range :: "u64 \<times> u64"
  got_free :: nat
  got_out :: "u64 option list"
  plt_free :: nat
  plt_out :: "u8 list list"
  rela_plt_free :: nat
  rela_plt_out :: "rela list"
  rela_relative_free :: nat
  rela_relative_out :: "rela list"
  rela_general_free :: nat
  rela_general_out :: "rela list"
  relr_free :: "nat option"
  relr_out :: "u64 list"

text \<open>What the writer uses of the architecture: the PLT stub, the numbers of the dynamic relocations and
  the offset of the thread's vector.\<close>

record table_arch =
  arch_write_plt_entry :: "u8 list \<Rightarrow> u64 \<Rightarrow> u64 \<Rightarrow> (stub_error + u8 list) option"
  arch_dynamic_type :: "dynamic_relocation_kind \<Rightarrow> u32"
  arch_dtv_offset :: u64

text \<open>Reinterpreting a buffer as entries of a size panics when the size does not divide its length.\<close>

definition entries_of :: "u64 part_map \<Rightarrow> part_id \<Rightarrow> u64 \<Rightarrow> nat option" where
  "entries_of sizes p entry_size = do {
     bytes \<leftarrow> nth_opt sizes p;
     if unat entry_size dvd unat bytes then Some (unat bytes div unat entry_size) else None
   }"

definition table_writer_new :: "output_kind \<Rightarrow> u64 \<times> u64 \<Rightarrow> u64 part_map \<Rightarrow> bool \<Rightarrow> table_writer option" where
  "table_writer_new output tls sizes pack_relative_relocs = do {
     got \<leftarrow> entries_of sizes PART_GOT GOT_ENTRY_SIZE;
     plt \<leftarrow> nth_opt sizes PART_PLT_GOT;
     plt_rela \<leftarrow> entries_of sizes PART_RELA_PLT RELA_ENTRY_SIZE;
     relative \<leftarrow> entries_of sizes PART_RELA_DYN_RELATIVE RELA_ENTRY_SIZE;
     general \<leftarrow> entries_of sizes PART_RELA_DYN_GENERAL RELA_ENTRY_SIZE;
     relr \<leftarrow> (if pack_relative_relocs then do {
         n \<leftarrow> entries_of sizes PART_RELR_DYN RELR_ENTRY_SIZE;
         Some (if n = 0 then None else Some n)
       } else Some None);
     Some \<lparr>tw_output = output, tls_range = tls, got_free = got, got_out = [], plt_free = unat plt,
       plt_out = [], rela_plt_free = plt_rela, rela_plt_out = [], rela_relative_free = relative,
       rela_relative_out = [], rela_general_free = general, rela_general_out = [], relr_free = relr,
       relr_out = []\<rparr>
   }"

definition take_next_got_entry :: "table_writer \<Rightarrow> table_writer result" where
  "take_next_got_entry w =
     (if got_free w = 0 then err (InsufficientAllocation ''.got'') else ok (w\<lparr>got_free := got_free w - 1\<rparr>))"

text \<open>\<open>*got_entry = value\<close>.\<close>

definition fill_got :: "u64 \<Rightarrow> table_writer \<Rightarrow> table_writer" where
  "fill_got v w = w\<lparr>got_out := got_out w @ [Some v]\<rparr>"

definition leave_got :: "table_writer \<Rightarrow> table_writer" where
  "leave_got w = w\<lparr>got_out := got_out w @ [None]\<rparr>"

definition write_rela_dyn_general :: "u64 \<Rightarrow> u32 \<Rightarrow> u32 \<Rightarrow> u64 \<Rightarrow> table_writer \<Rightarrow> table_writer result" where
  "write_rela_dyn_general place sym_index r_type add w =
     (if rela_general_free w = 0 then err (InsufficientAllocation ''.rela.dyn (non-relative)'')
      else ok (w\<lparr>rela_general_free := rela_general_free w - 1,
        rela_general_out := rela_general_out w @
          [\<lparr>r_offset = place, r_sym = sym_index, r_rel_type = r_type, r_addend = add\<rparr>]\<rparr>))"

definition write_address_relocation :: "table_arch \<Rightarrow> u64 \<Rightarrow> u64 \<Rightarrow> table_writer \<Rightarrow> (u64 \<times> table_writer) result" where
  "write_address_relocation A place relative_address w =
     (case (relr_free w, even (unat place)) of
        (Some n, True) \<Rightarrow>
          if n = 0 then err (InsufficientAllocation ''.relr.dyn'')
          else ok (relative_address, w\<lparr>relr_free := Some (n - 1), relr_out := relr_out w @ [place]\<rparr>)
      | _ \<Rightarrow>
          if rela_relative_free w = 0 then err (InsufficientAllocation ''.rela.dyn (relative)'')
          else ok (0, w\<lparr>rela_relative_free := rela_relative_free w - 1,
            rela_relative_out := rela_relative_out w @
              [\<lparr>r_offset = place, r_sym = 0, r_rel_type = arch_dynamic_type A DRK_Relative,
                r_addend = relative_address\<rparr>]\<rparr>))"

text \<open>The first free entry of \<open>rela_plt\<close> is unwrapped: a full table panics.\<close>

definition write_ifunc_relocation :: "table_arch \<Rightarrow> elf_resolution \<Rightarrow> table_writer \<Rightarrow> table_writer result" where
  "write_ifunc_relocation A res w =
     (if rela_plt_free w = 0 then None
      else try_then (or_err (res_got_address res) MissingGotAddress) (\<lambda>got_address.
        ok (w\<lparr>rela_plt_free := rela_plt_free w - 1,
          rela_plt_out := rela_plt_out w @
            [\<lparr>r_offset = got_address, r_sym = 0, r_rel_type = arch_dynamic_type A DRK_Irelative,
              r_addend = res_raw_value res\<rparr>]\<rparr>)))"

definition write_plt_entry :: "table_arch \<Rightarrow> u64 \<Rightarrow> u64 \<Rightarrow> table_writer \<Rightarrow> table_writer result" where
  "write_plt_entry A got_address plt_address w =
     (if plt_free w < unat PLT_ENTRY_SIZE then err (InsufficientAllocation ''.plt.got'')
      else case arch_write_plt_entry A (replicate (unat PLT_ENTRY_SIZE) 0) got_address plt_address of
          None \<Rightarrow> None
        | Some (Inl e) \<Rightarrow> err (StubError e)
        | Some (Inr stub) \<Rightarrow>
            ok (w\<lparr>plt_free := plt_free w - unat PLT_ENTRY_SIZE, plt_out := plt_out w @ [stub]\<rparr>))"

definition dynamic_symbol_index :: "elf_resolution \<Rightarrow> u32 result" where
  "dynamic_symbol_index res = or_err (res_dynamic_symbol_index res) MissingDynamicSymbolIndex"

definition process_got_tls_offset :: "table_arch \<Rightarrow> u64 \<Rightarrow> elf_resolution \<Rightarrow> u64 \<Rightarrow> table_writer \<Rightarrow> table_writer result" where
  "process_got_tls_offset A tp_offset_start res got_address w =
     try_then (take_next_got_entry w) (\<lambda>w.
       if has_dynamic_symbol (res_flags res) then
         try_then (dynamic_symbol_index res) (\<lambda>i.
           write_rela_dyn_general got_address i (arch_dynamic_type A DRK_TpOff) 0 (fill_got 0 w))
       else let address = res_raw_value res
         in if address = 0 then ok (fill_got 0 w)
            else if \<not> (fst (tls_range w) \<le> address \<and> address \<le> snd (tls_range w)) then
              err (NotInTlsSegment address)
            else if is_executable (tw_output w) then ok (fill_got (address - tp_offset_start) w)
            else write_rela_dyn_general got_address 0 (arch_dynamic_type A DRK_TpOff)
              (address - fst (tls_range w)) (leave_got w))"

definition process_got_tls_mod_and_offset :: "table_arch \<Rightarrow> elf_resolution \<Rightarrow> u64 \<Rightarrow> table_writer \<Rightarrow> table_writer result" where
  "process_got_tls_mod_and_offset A res got_address w =
     try_then (take_next_got_entry w) (\<lambda>w.
     try_then (if is_executable (tw_output w) \<and> \<not> contains (res_flags res) DYNAMIC
         then ok (fill_got 1 w)
         else write_rela_dyn_general got_address
           (case res_dynamic_symbol_index res of None \<Rightarrow> 0 | Some i \<Rightarrow> i) (arch_dynamic_type A DRK_DtpMod) 0
           (fill_got 0 w)) (\<lambda>w.
     try_then (take_next_got_entry w) (\<lambda>w.
       case res_dynamic_symbol_index res of
         Some i \<Rightarrow>
           try_then (if flags_is_interposable (res_flags res)
               then write_rela_dyn_general (got_address + 8) i (arch_dynamic_type A DRK_DtpOff) 0 w
               else ok w) (\<lambda>w. ok (fill_got 0 w))
       | None \<Rightarrow>
           if \<not> is_address (res_flags res) then err NotAnAddress
           else ok (fill_got (res_raw_value res - fst (tls_range w) - arch_dtv_offset A) w))))"

definition process_got_tls_descriptor :: "table_arch \<Rightarrow> elf_resolution \<Rightarrow> u64 \<Rightarrow> table_writer \<Rightarrow> table_writer result" where
  "process_got_tls_descriptor A res got_address w =
     try_then (take_next_got_entry w) (\<lambda>w.
     try_then (take_next_got_entry (fill_got 0 w)) (\<lambda>w.
       let w = fill_got 0 w
       in if is_static_executable (tw_output w) then err TlsDescInStaticExecutable
          else write_rela_dyn_general got_address
            (case res_dynamic_symbol_index res of None \<Rightarrow> 0 | Some i \<Rightarrow> i) (arch_dynamic_type A DRK_TlsDesc)
            (if res_dynamic_symbol_index res = None then res_raw_value res - fst (tls_range w) else 0) w))"

text \<open>The slots of a thread-local symbol; the offset needs the layout for the start of the thread
  pointer's offsets.\<close>

definition process_tls :: "table_arch \<Rightarrow> u64 option \<Rightarrow> elf_resolution \<Rightarrow> u64 \<Rightarrow> table_writer \<Rightarrow> table_writer result" where
  "process_tls A tp_offset_start res got_address w =
     (let flags = res_flags res
      in try_then (if contains flags GOT_TLS_OFFSET
           then try_then (or_err tp_offset_start MissingLayout) (\<lambda>tp.
             try_then (process_got_tls_offset A tp res got_address w) (\<lambda>w. ok (got_address + GOT_ENTRY_SIZE, w)))
           else ok (got_address, w)) (\<lambda>(got_address, w).
         try_then (if contains flags GOT_TLS_MODULE
           then try_then (process_got_tls_mod_and_offset A res got_address w)
             (\<lambda>w. ok (got_address + 2 * GOT_ENTRY_SIZE, w))
           else ok (got_address, w)) (\<lambda>(got_address, w).
         if contains flags GOT_TLS_DESCRIPTOR then process_got_tls_descriptor A res got_address w
         else ok w)))"

text \<open>An ordinary symbol: its GOT entry, its PLT entry, and the second GOT entry of an ifunc.\<close>

definition process_got_entry :: "table_arch \<Rightarrow> elf_resolution \<Rightarrow> u64 \<Rightarrow> table_writer \<Rightarrow> table_writer result" where
  "process_got_entry A res got_address w =
     (let flags = res_flags res
      in try_then (take_next_got_entry w) (\<lambda>w.
         if contains flags DYNAMIC
             \<or> (contains flags EXPORT_DYNAMIC \<and> flags_is_interposable flags) \<and> \<not> contains flags IFUNC
         then try_then (dynamic_symbol_index res) (\<lambda>i.
           write_rela_dyn_general got_address i (arch_dynamic_type A DRK_GotEntry) 0 (fill_got 0 w))
         else if contains flags IFUNC then write_ifunc_relocation A res (fill_got 0 w)
         else if is_address flags \<and> is_relocatable (tw_output w)
         then try_then (write_address_relocation A got_address (res_raw_value res) w)
           (\<lambda>(v, w). ok (fill_got v w))
         else ok (fill_got (res_raw_value res) w)))"

definition process_ifunc_got_for_address :: "table_arch \<Rightarrow> elf_resolution \<Rightarrow> u64 \<Rightarrow> table_writer \<Rightarrow> table_writer result" where
  "process_ifunc_got_for_address A res got_address w =
     try_then (take_next_got_entry w) (\<lambda>w.
     try_then (or_err (res_plt_address res) MissingPltAddress) (\<lambda>plt_address.
       if is_relocatable (tw_output w) then
         try_then (write_address_relocation A (got_address + GOT_ENTRY_SIZE) plt_address w)
           (\<lambda>(v, w). ok (fill_got v w))
       else ok (fill_got plt_address w)))"

definition process_ordinary :: "table_arch \<Rightarrow> elf_resolution \<Rightarrow> u64 \<Rightarrow> table_writer \<Rightarrow> table_writer result" where
  "process_ordinary A res got_address w =
     try_then (process_got_entry A res got_address w) (\<lambda>w.
     try_then (case res_plt_address res of
         None \<Rightarrow> ok w
       | Some plt_address \<Rightarrow> write_plt_entry A got_address plt_address w) (\<lambda>w.
     if contains (res_flags res) IFUNC_GOT_FOR_ADDRESS
     then process_ifunc_got_for_address A res got_address w else ok w))"

definition process_resolution :: "table_arch \<Rightarrow> u64 option \<Rightarrow> elf_resolution \<Rightarrow> table_writer \<Rightarrow> table_writer result" where
  "process_resolution A tp_offset_start res w =
     (case res_got_address res of
        None \<Rightarrow> ok w
      | Some got_address \<Rightarrow>
          if flags_is_tls (res_flags res) then process_tls A tp_offset_start res got_address w
          else process_ordinary A res got_address w)"

text \<open>The checks of \<open>validate_empty\<close> on these tables; \<open>padding\<close> is a number of bytes.\<close>

definition validate_empty :: "nat \<Rightarrow> table_writer \<Rightarrow> table_writer result" where
  "validate_empty rela_dyn_general_padding w =
     (if got_free w \<noteq> 0 then err (ExcessiveAllocation ''.got'')
      else if rela_relative_free w \<noteq> 0 then err (ExcessiveAllocation ''.rela.dyn (relative)'')
      else if rela_dyn_general_padding < rela_general_free w * unat RELA_ENTRY_SIZE
      then err (ExcessiveAllocation ''.rela.dyn (general)'')
      else if (case relr_free w of Some n \<Rightarrow> n \<noteq> 0 | None \<Rightarrow> False) then err (ExcessiveAllocation ''.relr.dyn'')
      else ok w)"

section \<open>The loops over the symbols of a group\<close>

text \<open>A symbol: its flags, its value and its index among the dynamic symbols.\<close>

type_synonym symbol_request = "value_flags \<times> u64 \<times> u32 option"

primrec allocate_resolutions :: "output_kind \<Rightarrow> bool \<Rightarrow> symbol_request list \<Rightarrow> u64 part_map \<Rightarrow> u64 part_map option" where
  "allocate_resolutions output relr [] sizes = Some sizes"
| "allocate_resolutions output relr (s # syms) sizes = do {
     sizes \<leftarrow> allocate_resolution (fst s) sizes output relr;
     allocate_resolutions output relr syms sizes
   }"

primrec create_resolutions :: "symbol_request list \<Rightarrow> u64 part_map \<Rightarrow> (elf_resolution list \<times> u64 part_map) option" where
  "create_resolutions [] offsets = Some ([], offsets)"
| "create_resolutions (s # syms) offsets = do {
     (res, offsets) \<leftarrow> create_resolution (fst s) (fst (snd s)) (snd (snd s)) offsets;
     (ress, offsets) \<leftarrow> create_resolutions syms offsets;
     Some (res # ress, offsets)
   }"

primrec process_resolutions :: "table_arch \<Rightarrow> u64 option \<Rightarrow> elf_resolution list \<Rightarrow> table_writer \<Rightarrow> table_writer result" where
  "process_resolutions A tp [] w = ok w"
| "process_resolutions A tp (res # ress) w =
     try_then (process_resolution A tp res w) (process_resolutions A tp ress)"

section \<open>The consistency check\<close>

text \<open>\<open>verify_consistent_allocation_handling\<close> of \<open>layout.rs\<close> with \<open>verify_resolution_allocation\<close> of
  \<open>elf_writer.rs\<close>: what one combination of flags allocates against what writing a resolution with these
  flags uses. It passes no layout to the writer, which then has no offsets of the thread pointer.\<close>

definition verify_consistent_allocation_handling :: "table_arch \<Rightarrow> output_sections \<Rightarrow> value_flags \<Rightarrow> output_kind \<Rightarrow> bool
    \<Rightarrow> table_writer result" where
  "verify_consistent_allocation_handling A os flags output relr =
     (case allocate_resolution flags (replicate (num_parts os) 0) output relr of
        None \<Rightarrow> None
      | Some sizes \<Rightarrow>
          (let offsets = (replicate (num_parts os) 0)[PART_GOT := 0x10, PART_PLT_GOT := 0x10];
               index = (if has_dynamic_symbol flags then Some 1 else None)
           in case create_resolution flags 0 index offsets of
                None \<Rightarrow> None
              | Some (resolution, _) \<Rightarrow>
                  (case table_writer_new output (0, 100) sizes relr of
                     None \<Rightarrow> None
                   | Some w \<Rightarrow> try_then (process_resolution A None resolution w) (validate_empty 0))))"

end
