(* ===== verification/Got_Tables_Spec.thy ===== *)
theory Got_Tables_Spec
  imports Got_Tables
begin

text \<open>
  The tables come out even. For every combination of flags a symbol can have, the layout allocates
  exactly the entries the writer uses, and the addresses it gave to GOT and PLT entries are those of
  the slots the writer fills.
\<close>

section \<open>Results\<close>

lemma try_then_simps [simp]:
  "try_then (ok x) f = f x" "try_then (err e) f = err e" "try_then None f = None"
  by (simp_all add: try_then_def ok_def err_def)

lemma or_err_simps [simp]: "or_err (Some y) e = ok y" "or_err None e = err e"
  by (simp_all add: or_err_def)

lemma ok_eq [simp]: "ok x = ok y \<longleftrightarrow> x = y" "ok x \<noteq> err e" "err e \<noteq> ok x" "ok x \<noteq> None" "err e \<noteq> None"
  by (simp_all add: ok_def err_def)

section \<open>What a symbol costs\<close>

text \<open>The flags of a symbol that goes through the tables, and what is known of its value: a PLT entry
  needs a GOT entry; thread-local symbols have no PLT entry; what a shared object defines can be
  interposed and is not an ifunc; a symbol has a dynamic index when the flags say so; a thread-local
  offset that the loader does not fill in is that of a defined symbol that cannot be interposed; and
  descriptors need a dynamic loader.\<close>

definition entries_ok :: "output_kind \<Rightarrow> u64 \<times> u64 \<Rightarrow> symbol_request \<Rightarrow> bool" where
  "entries_ok okind tls s =
     (let (flags, raw, index) = s in
        (contains flags PLT \<longrightarrow> contains flags GOT \<and> \<not> flags_is_tls flags)
      \<and> (contains flags IFUNC_GOT_FOR_ADDRESS \<longrightarrow> contains flags PLT)
      \<and> (contains flags DYNAMIC \<longrightarrow> flags_is_interposable flags \<and> \<not> contains flags IFUNC)
      \<and> (index \<noteq> None \<longleftrightarrow> has_dynamic_symbol flags)
      \<and> (contains flags GOT_TLS_OFFSET \<longrightarrow> \<not> has_dynamic_symbol flags \<longrightarrow>
           \<not> flags_is_interposable flags \<and> (raw = 0 \<longrightarrow> is_executable okind)
           \<and> (raw \<noteq> 0 \<longrightarrow> fst tls \<le> raw \<and> raw \<le> snd tls))
      \<and> (contains flags GOT_TLS_MODULE \<longrightarrow> index = None \<longrightarrow> is_address flags)
      \<and> (contains flags GOT_TLS_DESCRIPTOR \<longrightarrow> \<not> is_static_executable okind)
      \<and> \<not> is_partial_object okind)"

definition got_cost :: "value_flags \<Rightarrow> nat" where
  "got_cost flags =
     (if flags_is_tls flags
      then of_bool (contains flags GOT_TLS_OFFSET) + 2 * of_bool (contains flags GOT_TLS_MODULE)
        + 2 * of_bool (contains flags GOT_TLS_DESCRIPTOR)
      else of_bool (contains flags GOT) + of_bool (contains flags IFUNC_GOT_FOR_ADDRESS))"

definition plt_cost :: "value_flags \<Rightarrow> nat" where
  "plt_cost flags = of_bool (contains flags PLT)"

definition rela_plt_cost :: "value_flags \<Rightarrow> nat" where
  "rela_plt_cost flags = of_bool (contains flags GOT \<and> \<not> flags_is_tls flags \<and> contains flags IFUNC)"

definition relative_cost :: "output_kind \<Rightarrow> value_flags \<Rightarrow> nat" where
  "relative_cost okind flags =
     of_bool (contains flags GOT \<and> \<not> flags_is_tls flags \<and> \<not> contains flags IFUNC
       \<and> \<not> has_dynamic_symbol flags \<and> is_address flags \<and> is_relocatable okind)
     + of_bool (contains flags IFUNC_GOT_FOR_ADDRESS \<and> is_relocatable okind)"

definition general_cost :: "output_kind \<Rightarrow> value_flags \<Rightarrow> nat" where
  "general_cost okind flags =
     of_bool (contains flags GOT \<and> \<not> flags_is_tls flags \<and> \<not> contains flags IFUNC \<and> has_dynamic_symbol flags)
     + of_bool (contains flags GOT_TLS_OFFSET \<and> (flags_is_interposable flags \<or> is_shared_object okind))
     + of_bool (contains flags GOT_TLS_MODULE \<and> (\<not> is_executable okind \<or> contains flags DYNAMIC))
     + of_bool (contains flags GOT_TLS_MODULE \<and> has_dynamic_symbol flags)
     + of_bool (contains flags GOT_TLS_DESCRIPTOR)"

section \<open>The layout adds up the costs\<close>

text \<open>\<open>grown sizes k sizes'\<close>: the parts of the tables have grown by these numbers of entries.\<close>

definition grown :: "bool \<Rightarrow> nat \<times> nat \<times> nat \<times> nat \<times> nat \<Rightarrow> u64 part_map \<Rightarrow> u64 part_map \<Rightarrow> bool" where
  "grown relr k sizes sizes' \<longleftrightarrow>
     (case k of (g, p, rp, rel, gen) \<Rightarrow>
        length sizes' = length sizes
      \<and> sizes' ! PART_GOT = sizes ! PART_GOT + 8 * of_nat g
      \<and> sizes' ! PART_PLT_GOT = sizes ! PART_PLT_GOT + 16 * of_nat p
      \<and> sizes' ! PART_RELA_PLT = sizes ! PART_RELA_PLT + 24 * of_nat rp
      \<and> sizes' ! PART_RELA_DYN_RELATIVE = sizes ! PART_RELA_DYN_RELATIVE + (if relr then 0 else 24 * of_nat rel)
      \<and> sizes' ! PART_RELR_DYN = sizes ! PART_RELR_DYN + (if relr then 8 * of_nat rel else 0)
      \<and> sizes' ! PART_RELA_DYN_GENERAL = sizes ! PART_RELA_DYN_GENERAL + 24 * of_nat gen)"

lemma increment_in: "p < length m \<Longrightarrow> increment m p n = Some (m[p := m ! p + n])"
  by (simp add: increment_def nth_opt_def update_opt_def)

lemma grown_refl: "grown relr (0, 0, 0, 0, 0) sizes sizes"
  by (simp add: grown_def)

lemma grown_trans:
  assumes "grown relr (g, p, rp, rel, gen) a b" "grown relr (g', p', rp', rel', gen') b c"
  shows "grown relr (g + g', p + p', rp + rp', rel + rel', gen + gen') a c"
  using assms by (auto simp: grown_def algebra_simps)

lemma grown_increment:
  assumes "30 \<le> length sizes"
  shows "increment sizes PART_GOT GOT_ENTRY_SIZE = Some b \<Longrightarrow> grown relr (1, 0, 0, 0, 0) sizes b"
    "increment sizes PART_GOT (GOT_ENTRY_SIZE * 2) = Some b \<Longrightarrow> grown relr (2, 0, 0, 0, 0) sizes b"
    "increment sizes PART_PLT_GOT PLT_ENTRY_SIZE = Some b \<Longrightarrow> grown relr (0, 1, 0, 0, 0) sizes b"
    "increment sizes PART_RELA_PLT RELA_ENTRY_SIZE = Some b \<Longrightarrow> grown relr (0, 0, 1, 0, 0) sizes b"
    "allocate_address_relocation relr sizes = Some b \<Longrightarrow> grown relr (0, 0, 0, 1, 0) sizes b"
    "increment sizes PART_RELA_DYN_GENERAL RELA_ENTRY_SIZE = Some b \<Longrightarrow> grown relr (0, 0, 0, 0, 1) sizes b"
  using assms
  by (auto simp: grown_def allocate_address_relocation_def increment_in part_defs entry_sizes split: if_splits)

definition adds :: "bool \<Rightarrow> nat \<times> nat \<times> nat \<times> nat \<times> nat \<Rightarrow> (u64 part_map \<Rightarrow> u64 part_map option) \<Rightarrow> bool" where
  "adds relr k m \<longleftrightarrow> (\<forall>sizes. 30 \<le> length sizes \<longrightarrow> (\<exists>b. m sizes = Some b \<and> grown relr k sizes b))"

lemma adds_bind:
  assumes "adds relr (g, p, rp, rel, gen) m" "adds relr (g', p', rp', rel', gen') m'"
  shows "adds relr (g + g', p + p', rp + rp', rel + rel', gen + gen') (\<lambda>s. Option.bind (m s) m')"
  unfolding adds_def
proof (intro allI impI)
  fix sizes :: "u64 part_map" assume len: "30 \<le> length sizes"
  then obtain b where b: "m sizes = Some b" "grown relr (g, p, rp, rel, gen) sizes b"
    using assms(1) unfolding adds_def by blast
  then have "30 \<le> length b"
    using len by (simp add: grown_def)
  then obtain c where "m' b = Some c" "grown relr (g', p', rp', rel', gen') b c"
    using assms(2) unfolding adds_def by blast
  with b show "\<exists>c. Option.bind (m sizes) m' = Some c
      \<and> grown relr (g + g', p + p', rp + rp', rel + rel', gen + gen') sizes c"
    using grown_trans by auto
qed

lemma adds_none: "adds relr (0, 0, 0, 0, 0) Some"
  by (simp add: adds_def grown_refl)

lemma adds_if: "adds relr k m \<Longrightarrow> adds relr k' m' \<Longrightarrow> adds relr (if b then k else k') (\<lambda>s. if b then m s else m' s)"
  by simp

lemma adds_increment:
  "adds relr (1, 0, 0, 0, 0) (\<lambda>s. increment s PART_GOT GOT_ENTRY_SIZE)"
  "adds relr (2, 0, 0, 0, 0) (\<lambda>s. increment s PART_GOT (GOT_ENTRY_SIZE * 2))"
  "adds relr (0, 1, 0, 0, 0) (\<lambda>s. increment s PART_PLT_GOT PLT_ENTRY_SIZE)"
  "adds relr (0, 0, 1, 0, 0) (\<lambda>s. increment s PART_RELA_PLT RELA_ENTRY_SIZE)"
  "adds relr (0, 0, 0, 1, 0) (allocate_address_relocation relr)"
  "adds relr (0, 0, 0, 0, 1) (\<lambda>s. increment s PART_RELA_DYN_GENERAL RELA_ENTRY_SIZE)"
  using grown_increment
  by (auto simp: adds_def increment_in allocate_address_relocation_def part_defs)

definition cost :: "output_kind \<Rightarrow> value_flags \<Rightarrow> nat \<times> nat \<times> nat \<times> nat \<times> nat" where
  "cost okind flags = (got_cost flags, plt_cost flags, rela_plt_cost flags, relative_cost okind flags,
     general_cost okind flags)"

lemma adds_when:
  assumes "adds relr (g, p, rp, rel, gen) m"
  shows "adds relr (of_bool b * g, of_bool b * p, of_bool b * rp, of_bool b * rel, of_bool b * gen)
    (\<lambda>s. if b then m s else Some s)"
  using assms adds_none by (cases b) simp_all

text \<open>The parts of \<open>allocate_resolution\<close>, each with what it adds.\<close>

lemma adds_got_entry:
  "adds relr (1, of_bool (contains flags PLT), of_bool (contains flags IFUNC),
      of_bool (\<not> contains flags IFUNC \<and> \<not> has_dynamic_symbol flags \<and> is_address flags \<and> is_relocatable okind),
      of_bool (\<not> contains flags IFUNC \<and> has_dynamic_symbol flags))
    (\<lambda>sizes. do {
       sizes \<leftarrow> increment sizes PART_GOT GOT_ENTRY_SIZE;
       sizes \<leftarrow> (if contains flags PLT then increment sizes PART_PLT_GOT PLT_ENTRY_SIZE else Some sizes);
       if contains flags IFUNC then increment sizes PART_RELA_PLT RELA_ENTRY_SIZE
       else if has_dynamic_symbol flags then increment sizes PART_RELA_DYN_GENERAL RELA_ENTRY_SIZE
       else if is_address flags \<and> is_relocatable okind then allocate_address_relocation relr sizes
       else Some sizes
     })"
proof -
  have reloc: "adds relr (0, 0, of_bool (contains flags IFUNC),
      of_bool (\<not> contains flags IFUNC \<and> \<not> has_dynamic_symbol flags \<and> is_address flags \<and> is_relocatable okind),
      of_bool (\<not> contains flags IFUNC \<and> has_dynamic_symbol flags))
    (\<lambda>sizes. if contains flags IFUNC then increment sizes PART_RELA_PLT RELA_ENTRY_SIZE
       else if has_dynamic_symbol flags then increment sizes PART_RELA_DYN_GENERAL RELA_ENTRY_SIZE
       else if is_address flags \<and> is_relocatable okind then allocate_address_relocation relr sizes
       else Some sizes)"
    using adds_increment(4-6) adds_none
    by (cases "contains flags IFUNC"; cases "has_dynamic_symbol flags";
        cases "is_address flags \<and> is_relocatable okind") (simp_all, auto)
  show ?thesis
    using adds_bind [OF adds_increment(1)
        adds_bind [OF adds_when [OF adds_increment(3), where b = "contains flags PLT"] reloc]]
    by simp
qed

lemma adds_tls_slots:
  "adds relr (1, 0, 0, 0, of_bool (flags_is_interposable flags \<or> is_shared_object okind))
    (\<lambda>sizes. do {
       sizes \<leftarrow> increment sizes PART_GOT GOT_ENTRY_SIZE;
       if flags_is_interposable flags \<or> is_shared_object okind
       then increment sizes PART_RELA_DYN_GENERAL RELA_ENTRY_SIZE else Some sizes
     })"
  "adds relr (2, 0, 0, 0, of_bool (\<not> is_executable okind \<or> contains flags DYNAMIC) + of_bool (has_dynamic_symbol flags))
    (\<lambda>sizes. do {
       sizes \<leftarrow> increment sizes PART_GOT (GOT_ENTRY_SIZE * 2);
       sizes \<leftarrow> (if \<not> is_executable okind \<or> contains flags DYNAMIC
         then increment sizes PART_RELA_DYN_GENERAL RELA_ENTRY_SIZE else Some sizes);
       if has_dynamic_symbol flags then increment sizes PART_RELA_DYN_GENERAL RELA_ENTRY_SIZE else Some sizes
     })"
  "adds relr (2, 0, 0, 0, 1) (\<lambda>sizes. do {
       sizes \<leftarrow> increment sizes PART_GOT (GOT_ENTRY_SIZE * 2);
       increment sizes PART_RELA_DYN_GENERAL RELA_ENTRY_SIZE
     })"
  "adds relr (1, 0, 0, of_bool (is_relocatable okind), 0) (\<lambda>sizes. do {
       sizes \<leftarrow> increment sizes PART_GOT GOT_ENTRY_SIZE;
       if is_relocatable okind then allocate_address_relocation relr sizes else Some sizes
     })"
proof -
  show "adds relr (1, 0, 0, 0, of_bool (flags_is_interposable flags \<or> is_shared_object okind))
    (\<lambda>sizes. Option.bind (increment sizes PART_GOT GOT_ENTRY_SIZE)
       (\<lambda>sizes. if flags_is_interposable flags \<or> is_shared_object okind
         then increment sizes PART_RELA_DYN_GENERAL RELA_ENTRY_SIZE else Some sizes))"
    using adds_bind [OF adds_increment(1) adds_when [OF adds_increment(6),
        where b = "flags_is_interposable flags \<or> is_shared_object okind"]] by simp
  show "adds relr (2, 0, 0, 0, of_bool (\<not> is_executable okind \<or> contains flags DYNAMIC) + of_bool (has_dynamic_symbol flags))
    (\<lambda>sizes. Option.bind (increment sizes PART_GOT (GOT_ENTRY_SIZE * 2)) (\<lambda>sizes.
       Option.bind (if \<not> is_executable okind \<or> contains flags DYNAMIC
         then increment sizes PART_RELA_DYN_GENERAL RELA_ENTRY_SIZE else Some sizes) (\<lambda>sizes.
       if has_dynamic_symbol flags then increment sizes PART_RELA_DYN_GENERAL RELA_ENTRY_SIZE else Some sizes)))"
    using adds_bind [OF adds_increment(2) adds_bind [OF
        adds_when [OF adds_increment(6), where b = "\<not> is_executable okind \<or> contains flags DYNAMIC"]
        adds_when [OF adds_increment(6), where b = "has_dynamic_symbol flags"]]] by simp
  show "adds relr (2, 0, 0, 0, 1) (\<lambda>sizes. Option.bind (increment sizes PART_GOT (GOT_ENTRY_SIZE * 2))
       (\<lambda>sizes. increment sizes PART_RELA_DYN_GENERAL RELA_ENTRY_SIZE))"
    using adds_bind [OF adds_increment(2) adds_increment(6)] by simp
  show "adds relr (1, 0, 0, of_bool (is_relocatable okind), 0)
    (\<lambda>sizes. Option.bind (increment sizes PART_GOT GOT_ENTRY_SIZE)
       (\<lambda>sizes. if is_relocatable okind then allocate_address_relocation relr sizes else Some sizes))"
    using adds_bind [OF adds_increment(1) adds_when [OF adds_increment(5), where b = "is_relocatable okind"]]
    by simp
qed

lemma allocate_resolution_adds:
  assumes "entries_ok okind tls (flags, raw, index)"
  shows "adds relr (cost okind flags) (\<lambda>sizes. allocate_resolution flags sizes okind relr)"
proof -
  note parts =
    adds_when [OF adds_got_entry [where flags = flags and okind = okind and relr = relr],
      where b = "contains flags GOT \<and> \<not> flags_is_tls flags"]
    adds_when [OF adds_tls_slots(4) [where okind = okind and relr = relr],
      where b = "contains flags IFUNC_GOT_FOR_ADDRESS"]
    adds_when [OF adds_tls_slots(1) [where flags = flags and okind = okind and relr = relr],
      where b = "contains flags GOT_TLS_OFFSET"]
    adds_when [OF adds_tls_slots(2) [where flags = flags and okind = okind and relr = relr],
      where b = "contains flags GOT_TLS_MODULE"]
    adds_when [OF adds_tls_slots(3) [where relr = relr], where b = "contains flags GOT_TLS_DESCRIPTOR"]
  note all = adds_bind [OF parts(1) adds_bind [OF parts(2) adds_bind [OF parts(3) adds_bind [OF parts(4,5)]]]]
  have tls: "flags_is_tls flags \<longleftrightarrow> contains flags GOT_TLS_OFFSET \<or> contains flags GOT_TLS_MODULE
      \<or> contains flags GOT_TLS_DESCRIPTOR"
    by (simp add: flags_is_tls_def)
  have plt: "contains flags IFUNC_GOT_FOR_ADDRESS \<longrightarrow> contains flags PLT"
    "contains flags PLT \<longrightarrow> contains flags GOT \<and> \<not> flags_is_tls flags"
    using assms by (auto simp: entries_ok_def)
  have "got_cost flags = of_bool (contains flags GOT \<and> \<not> flags_is_tls flags) * 1
      + (of_bool (contains flags IFUNC_GOT_FOR_ADDRESS) * 1 + (of_bool (contains flags GOT_TLS_OFFSET) * 1
      + (of_bool (contains flags GOT_TLS_MODULE) * 2 + of_bool (contains flags GOT_TLS_DESCRIPTOR) * 2)))"
    using plt tls by (auto simp: got_cost_def)
  moreover have "plt_cost flags = of_bool (contains flags GOT \<and> \<not> flags_is_tls flags) * of_bool (contains flags PLT)
      + (of_bool (contains flags IFUNC_GOT_FOR_ADDRESS) * 0 + (of_bool (contains flags GOT_TLS_OFFSET) * 0
      + (of_bool (contains flags GOT_TLS_MODULE) * 0 + of_bool (contains flags GOT_TLS_DESCRIPTOR) * 0)))"
    using plt by (auto simp: plt_cost_def)
  ultimately show ?thesis
    using all unfolding allocate_resolution_def cost_def rela_plt_cost_def relative_cost_def general_cost_def
    by (simp only: mult_1_right mult_0_right add_0_right add_0_left of_bool_conj conj_assoc distrib_left
        mult.assoc add.assoc)
qed

text \<open>Over a list of symbols.\<close>

definition plus_cost :: "nat \<times> nat \<times> nat \<times> nat \<times> nat \<Rightarrow> nat \<times> nat \<times> nat \<times> nat \<times> nat \<Rightarrow> nat \<times> nat \<times> nat \<times> nat \<times> nat" where
  "plus_cost k k' = (case k of (g, p, rp, rel, gen) \<Rightarrow> case k' of (g', p', rp', rel', gen') \<Rightarrow>
     (g + g', p + p', rp + rp', rel + rel', gen + gen'))"

primrec total_cost :: "output_kind \<Rightarrow> value_flags list \<Rightarrow> nat \<times> nat \<times> nat \<times> nat \<times> nat" where
  "total_cost okind [] = (0, 0, 0, 0, 0)"
| "total_cost okind (f # fs) = plus_cost (cost okind f) (total_cost okind fs)"

lemma adds_plus: "adds relr k m \<Longrightarrow> adds relr k' m' \<Longrightarrow> adds relr (plus_cost k k') (\<lambda>s. Option.bind (m s) m')"
  using adds_bind by (cases k; cases k') (simp add: plus_cost_def)

lemma allocate_resolutions_adds:
  assumes "\<forall>s \<in> set syms. entries_ok okind tls s"
  shows "adds relr (total_cost okind (map fst syms)) (allocate_resolutions okind relr syms)"
  using assms
proof (induction syms)
  case Nil
  then show ?case
    using adds_none by (simp add: adds_def)
next
  case (Cons s syms)
  obtain flags raw index where s: "s = (flags, raw, index)"
    by (cases s)
  have "adds relr (cost okind flags) (\<lambda>sizes. allocate_resolution flags sizes okind relr)"
    using allocate_resolution_adds [of okind tls flags raw index relr] Cons.prems s by simp
  from adds_plus [OF this Cons.IH] Cons.prems show ?case
    by (simp add: s)
qed

section \<open>The writer uses the costs\<close>

text \<open>\<open>spent k w w'\<close>: from \<open>w\<close> to \<open>w'\<close> the writer has used these numbers of entries.\<close>

fun relative_of :: "nat option \<Rightarrow> nat \<Rightarrow> nat" where
  "relative_of (Some n) rela = n"
| "relative_of None rela = rela"

abbreviation relative_free :: "table_writer \<Rightarrow> nat" where
  "relative_free w \<equiv> relative_of (relr_free w) (rela_relative_free w)"

definition has_entries :: "nat \<times> nat \<times> nat \<times> nat \<times> nat \<Rightarrow> table_writer \<Rightarrow> bool" where
  "has_entries k w = (case k of (g, p, rp, rel, gen) \<Rightarrow>
     g \<le> got_free w \<and> 16 * p \<le> plt_free w \<and> rp \<le> rela_plt_free w \<and> rel \<le> relative_free w
     \<and> gen \<le> rela_general_free w)"

definition spent :: "nat \<times> nat \<times> nat \<times> nat \<times> nat \<Rightarrow> table_writer \<Rightarrow> table_writer \<Rightarrow> bool" where
  "spent k w w' = (case k of (g, p, rp, rel, gen) \<Rightarrow>
     tw_output w' = tw_output w \<and> tls_range w' = tls_range w
     \<and> got_free w = got_free w' + g \<and> length (got_out w') = length (got_out w) + g
     \<and> plt_free w = plt_free w' + 16 * p \<and> length (plt_out w') = length (plt_out w) + p
     \<and> rela_plt_free w = rela_plt_free w' + rp
     \<and> (relr_free w = None \<longleftrightarrow> relr_free w' = None)
     \<and> relative_free w = relative_free w' + rel
     \<and> (relr_free w \<noteq> None \<longrightarrow> rela_relative_free w' = rela_relative_free w)
     \<and> rela_general_free w = rela_general_free w' + gen)"

definition spends :: "output_kind \<Rightarrow> u64 \<times> u64 \<Rightarrow> nat \<times> nat \<times> nat \<times> nat \<times> nat
    \<Rightarrow> (table_writer \<Rightarrow> table_writer result) \<Rightarrow> bool" where
  "spends okind tls k m \<longleftrightarrow> (\<forall>w. tw_output w = okind \<and> tls_range w = tls \<and> has_entries k w \<longrightarrow>
     (\<exists>w'. m w = ok w' \<and> spent k w w'))"

lemma spent_refl: "spent (0, 0, 0, 0, 0) w w"
  by (simp add: spent_def)

lemma spent_trans: "spent k w w' \<Longrightarrow> spent k' w' w'' \<Longrightarrow> spent (plus_cost k k') w w''"
  by (cases k; cases k') (auto simp: spent_def plus_cost_def)

lemma spends_then:
  assumes "spends okind tls k m" "spends okind tls k' m'"
  shows "spends okind tls (plus_cost k k') (\<lambda>w. try_then (m w) m')"
  unfolding spends_def
proof (intro allI impI)
  fix w assume w: "tw_output w = okind \<and> tls_range w = tls \<and> has_entries (plus_cost k k') w"
  then have "has_entries k w"
    by (cases k; cases k') (auto simp: has_entries_def plus_cost_def)
  with w obtain w' where w': "m w = ok w'" "spent k w w'"
    using assms(1) unfolding spends_def by blast
  then have "tw_output w' = okind \<and> tls_range w' = tls \<and> has_entries k' w'"
    using w by (cases k; cases k') (auto simp: has_entries_def plus_cost_def spent_def)
  then obtain w'' where "m' w' = ok w''" "spent k' w' w''"
    using assms(2) unfolding spends_def by blast
  with w' show "\<exists>v. try_then (m w) m' = ok v \<and> spent (plus_cost k k') w v"
    using spent_trans by auto
qed

lemma spends_ok: "spends okind tls (0, 0, 0, 0, 0) ok"
  by (simp add: spends_def spent_refl)

lemma spends_when:
  assumes "b \<Longrightarrow> spends okind tls (g, p, rp, rel, gen) m"
  shows "spends okind tls (of_bool b * g, of_bool b * p, of_bool b * rp, of_bool b * rel, of_bool b * gen)
    (\<lambda>w. if b then m w else ok w)"
  using assms spends_ok by (cases b) simp_all

subsection \<open>Entries of ordinary symbols\<close>

lemma write_address_relocation_spends:
  assumes "even (unat place)" "tw_output w = okind" "1 \<le> relative_free w" "0 < got_free w"
  shows "\<exists>v w'. write_address_relocation A place a (w\<lparr>got_free := got_free w - 1\<rparr>) = ok (v, w')
    \<and> spent (1, 0, 0, 1, 0) w (fill_got v w')"
  using assms
  by (auto simp: write_address_relocation_def spent_def fill_got_def split: option.splits)

text \<open>A resolution that stands for a symbol the layout has counted.\<close>

definition resolves :: "output_kind \<Rightarrow> u64 \<times> u64 \<Rightarrow> elf_resolution \<Rightarrow> bool" where
  "resolves okind tls res \<longleftrightarrow>
     entries_ok okind tls (res_flags res, res_raw_value res, res_dynamic_symbol_index res)
     \<and> (res_plt_address res \<noteq> None \<longleftrightarrow> contains (res_flags res) PLT)
     \<and> (res_got_address res \<noteq> None \<longleftrightarrow> contains (res_flags res) GOT \<or> flags_is_tls (res_flags res))"

lemma process_got_entry_spends:
  assumes "resolves okind tls res" "res_got_address res = Some got" "even (unat got)"
    and "flags = res_flags res"
  shows "spends okind tls (1, 0, of_bool (contains flags IFUNC),
      of_bool (\<not> contains flags IFUNC \<and> \<not> has_dynamic_symbol flags \<and> is_address flags \<and> is_relocatable okind),
      of_bool (\<not> contains flags IFUNC \<and> has_dynamic_symbol flags)) (process_got_entry A res got)"
  unfolding spends_def
proof (intro allI impI, elim conjE)
  fix w assume w: "tw_output w = okind" "tls_range w = tls"
    and room: "has_entries (1, 0, of_bool (contains flags IFUNC),
      of_bool (\<not> contains flags IFUNC \<and> \<not> has_dynamic_symbol flags \<and> is_address flags \<and> is_relocatable okind),
      of_bool (\<not> contains flags IFUNC \<and> has_dynamic_symbol flags)) w"
  have index: "has_dynamic_symbol flags \<Longrightarrow> \<exists>i. res_dynamic_symbol_index res = Some i"
    and dyn: "contains flags DYNAMIC \<Longrightarrow> \<not> contains flags IFUNC"
    using assms(1,4) by (auto simp: resolves_def entries_ok_def)
  note d = process_got_entry_def take_next_got_entry_def dynamic_symbol_index_def write_rela_dyn_general_def
    write_ifunc_relocation_def fill_got_def Let_def assms(2) assms(4) [symmetric]
  consider (ifunc) "contains flags IFUNC" | (dynamic) "\<not> contains flags IFUNC" "has_dynamic_symbol flags"
    | (address) "\<not> contains flags IFUNC" "\<not> has_dynamic_symbol flags" "is_address flags \<and> is_relocatable okind"
    | (plain) "\<not> contains flags IFUNC" "\<not> has_dynamic_symbol flags" "\<not> (is_address flags \<and> is_relocatable okind)"
    by blast
  then show "\<exists>w'. process_got_entry A res got w = ok w' \<and> spent (1, 0, of_bool (contains flags IFUNC),
      of_bool (\<not> contains flags IFUNC \<and> \<not> has_dynamic_symbol flags \<and> is_address flags \<and> is_relocatable okind),
      of_bool (\<not> contains flags IFUNC \<and> has_dynamic_symbol flags)) w w'"
  proof cases
    case ifunc
    then show ?thesis
      using room dyn by (auto simp: d has_entries_def spent_def)
  next
    case dynamic
    then show ?thesis
      using room index by (auto simp: d has_entries_def spent_def has_dynamic_symbol_def)
  next
    case address
    then have "1 \<le> relative_free w" "0 < got_free w"
      using room by (auto simp: has_entries_def)
    with write_address_relocation_spends [OF assms(3) w(1) this, of A "res_raw_value res"] address show ?thesis
      using w by (auto simp: process_got_entry_def take_next_got_entry_def Let_def assms(4) [symmetric]
          has_dynamic_symbol_def)
  next
    case plain
    then show ?thesis
      using room w by (auto simp: d has_entries_def spent_def has_dynamic_symbol_def)
  qed
qed

lemma even_unat: "even (unat a) \<longleftrightarrow> even (a :: u64)"
proof -
  have "bit (unat a) 0 = bit a 0"
    by (simp only: bit_unsigned_iff) simp
  then show ?thesis
    by (simp add: bit_0)
qed

lemma process_ifunc_got_for_address_spends:
  assumes "res_plt_address res = Some plt" "even (unat got)"
  shows "spends okind tls (1, 0, 0, of_bool (is_relocatable okind), 0) (process_ifunc_got_for_address A res got)"
  unfolding spends_def
proof (intro allI impI, elim conjE)
  fix w assume w: "tw_output w = okind" and room: "has_entries (1, 0, 0, of_bool (is_relocatable okind), 0) w"
  have "even (unat (got + GOT_ENTRY_SIZE))"
    using assms(2) by (simp add: entry_sizes even_unat)
  from write_address_relocation_spends [OF this w, of A plt] room w assms(1)
  show "\<exists>w'. process_ifunc_got_for_address A res got w = ok w'
      \<and> spent (1, 0, 0, of_bool (is_relocatable okind), 0) w w'"
    by (auto simp: process_ifunc_got_for_address_def take_next_got_entry_def fill_got_def has_entries_def spent_def)
qed

lemma write_plt_entry_spends:
  assumes "arch_write_plt_entry A (replicate 16 0) got plt = Some (Inr stub)"
  shows "spends okind tls (0, 1, 0, 0, 0) (write_plt_entry A got plt)"
  using assms by (auto simp: spends_def write_plt_entry_def has_entries_def spent_def entry_sizes)

subsection \<open>Slots of thread-local symbols\<close>

lemma process_got_tls_offset_spends:
  assumes "resolves okind tls res" "contains flags GOT_TLS_OFFSET" "flags = res_flags res"
  shows "spends okind tls (1, 0, 0, 0, of_bool (flags_is_interposable flags \<or> is_shared_object okind))
    (process_got_tls_offset A tp res got)"
proof -
  have "has_dynamic_symbol flags \<Longrightarrow> \<exists>i. res_dynamic_symbol_index res = Some i"
    "contains flags DYNAMIC \<Longrightarrow> flags_is_interposable flags" "\<not> is_partial_object okind"
    "\<not> has_dynamic_symbol flags \<Longrightarrow> \<not> flags_is_interposable flags"
    "\<not> has_dynamic_symbol flags \<Longrightarrow> res_raw_value res = 0 \<Longrightarrow> is_executable okind"
    "\<not> has_dynamic_symbol flags \<Longrightarrow> res_raw_value res \<noteq> 0 \<Longrightarrow>
      fst tls \<le> res_raw_value res \<and> res_raw_value res \<le> snd tls"
    using assms by (auto simp: resolves_def entries_ok_def)
  moreover have "has_dynamic_symbol flags \<Longrightarrow> flags_is_interposable flags"
    using calculation(2) by (auto simp: has_dynamic_symbol_def)
  ultimately show ?thesis
    by (cases okind)
      (auto simp: spends_def process_got_tls_offset_def take_next_got_entry_def dynamic_symbol_index_def
        write_rela_dyn_general_def fill_got_def leave_got_def has_entries_def spent_def Let_def assms(3) [symmetric])
qed

lemma process_got_tls_mod_and_offset_spends:
  assumes "resolves okind tls res" "contains flags GOT_TLS_MODULE" "flags = res_flags res"
  shows "spends okind tls (2, 0, 0, 0,
      of_bool (\<not> is_executable okind \<or> contains flags DYNAMIC) + of_bool (has_dynamic_symbol flags))
    (process_got_tls_mod_and_offset A res got)"
proof -
  have flags: "res_dynamic_symbol_index res \<noteq> None \<longleftrightarrow> has_dynamic_symbol flags"
    "res_dynamic_symbol_index res = None \<longrightarrow> is_address flags"
    "contains flags DYNAMIC \<longrightarrow> flags_is_interposable flags"
    using assms by (simp_all add: resolves_def entries_ok_def)
  have "has_dynamic_symbol flags \<Longrightarrow> flags_is_interposable flags"
    using flags(3) by (auto simp: has_dynamic_symbol_def)
  moreover have "has_dynamic_symbol flags \<Longrightarrow> \<exists>i. res_dynamic_symbol_index res = Some i"
    "\<not> has_dynamic_symbol flags \<Longrightarrow> res_dynamic_symbol_index res = None \<and> is_address flags"
    using flags(1,2) by auto
  ultimately show ?thesis
    by (cases "has_dynamic_symbol flags"; cases "is_executable okind \<and> \<not> contains flags DYNAMIC")
      (auto simp: spends_def process_got_tls_mod_and_offset_def take_next_got_entry_def
        write_rela_dyn_general_def fill_got_def has_entries_def spent_def Let_def assms(3) [symmetric])
qed

lemma process_got_tls_descriptor_spends:
  assumes "resolves okind tls res" "contains (res_flags res) GOT_TLS_DESCRIPTOR"
  shows "spends okind tls (2, 0, 0, 0, 1) (process_got_tls_descriptor A res got)"
proof -
  have "\<not> is_static_executable okind"
    using assms by (auto simp: resolves_def entries_ok_def)
  then show ?thesis
    by (auto simp: spends_def process_got_tls_descriptor_def take_next_got_entry_def
        write_rela_dyn_general_def fill_got_def has_entries_def spent_def Let_def)
qed

text \<open>The slots of a thread-local symbol one after the other.\<close>

lemma try_then_ok [simp]: "try_then m ok = m"
  by (auto simp: try_then_def ok_def split: option.splits sum.splits)

lemma try_then_assoc: "try_then (try_then m f) h = try_then m (\<lambda>x. try_then (f x) h)"
  by (auto simp: try_then_def split: option.splits sum.splits)

lemma process_tls_slots:
  "process_tls A (Some tp) res got = (\<lambda>w.
     try_then (if contains (res_flags res) GOT_TLS_OFFSET then process_got_tls_offset A tp res got w else ok w) (\<lambda>w.
     try_then (if contains (res_flags res) GOT_TLS_MODULE
         then process_got_tls_mod_and_offset A res
           (got + 8 * of_bool (contains (res_flags res) GOT_TLS_OFFSET)) w else ok w) (\<lambda>w.
     if contains (res_flags res) GOT_TLS_DESCRIPTOR
     then process_got_tls_descriptor A res (got + 8 * of_bool (contains (res_flags res) GOT_TLS_OFFSET)
       + 16 * of_bool (contains (res_flags res) GOT_TLS_MODULE)) w else ok w)))"
  by (rule ext, cases "contains (res_flags res) GOT_TLS_OFFSET"; cases "contains (res_flags res) GOT_TLS_MODULE")
    (simp_all add: process_tls_def Let_def try_then_assoc entry_sizes cong: if_cong)

lemma process_tls_spends:
  assumes "resolves okind tls res" "flags_is_tls (res_flags res)"
  shows "spends okind tls (cost okind (res_flags res)) (process_tls A (Some tp) res got)"
proof -
  let ?f = "res_flags res"
  note slots =
    spends_when [OF process_got_tls_offset_spends [OF assms(1) _ refl, of A tp got], where b = "contains ?f GOT_TLS_OFFSET"]
    spends_when [OF process_got_tls_mod_and_offset_spends [OF assms(1) _ refl, of A
        "got + 8 * of_bool (contains ?f GOT_TLS_OFFSET)"], where b = "contains ?f GOT_TLS_MODULE"]
    spends_when [OF process_got_tls_descriptor_spends [OF assms(1), of A
        "got + 8 * of_bool (contains ?f GOT_TLS_OFFSET) + 16 * of_bool (contains ?f GOT_TLS_MODULE)"],
      where b = "contains ?f GOT_TLS_DESCRIPTOR"]
  have "\<not> contains ?f PLT" "\<not> contains ?f IFUNC_GOT_FOR_ADDRESS"
    using assms by (auto simp: resolves_def entries_ok_def)
  then have "cost okind ?f = plus_cost
     (of_bool (contains ?f GOT_TLS_OFFSET) * 1, of_bool (contains ?f GOT_TLS_OFFSET) * 0, of_bool (contains ?f GOT_TLS_OFFSET) * 0,
      of_bool (contains ?f GOT_TLS_OFFSET) * 0,
      of_bool (contains ?f GOT_TLS_OFFSET) * of_bool (flags_is_interposable ?f \<or> is_shared_object okind))
     (plus_cost
       (of_bool (contains ?f GOT_TLS_MODULE) * 2, of_bool (contains ?f GOT_TLS_MODULE) * 0, of_bool (contains ?f GOT_TLS_MODULE) * 0,
        of_bool (contains ?f GOT_TLS_MODULE) * 0, of_bool (contains ?f GOT_TLS_MODULE)
          * (of_bool (\<not> is_executable okind \<or> contains ?f DYNAMIC) + of_bool (has_dynamic_symbol ?f)))
       (of_bool (contains ?f GOT_TLS_DESCRIPTOR) * 2, of_bool (contains ?f GOT_TLS_DESCRIPTOR) * 0,
        of_bool (contains ?f GOT_TLS_DESCRIPTOR) * 0, of_bool (contains ?f GOT_TLS_DESCRIPTOR) * 0,
        of_bool (contains ?f GOT_TLS_DESCRIPTOR) * 1))"
    using assms(2)
    by (simp add: cost_def plus_cost_def got_cost_def plt_cost_def rela_plt_cost_def relative_cost_def general_cost_def)
  then show ?thesis
    using spends_then [OF slots(1) spends_then [OF slots(2,3)]] by (simp only: process_tls_slots)
qed

text \<open>The stub of a PLT entry can be written.\<close>

definition stub_ok :: "table_arch \<Rightarrow> elf_resolution \<Rightarrow> bool" where
  "stub_ok A res = (case (res_got_address res, res_plt_address res) of
      (Some got, Some plt) \<Rightarrow> (case arch_write_plt_entry A (replicate 16 0) got plt of
        Some (Inr _) \<Rightarrow> True | _ \<Rightarrow> False)
    | _ \<Rightarrow> True)"

lemma process_ordinary_spends:
  assumes "resolves okind tls res" "\<not> flags_is_tls (res_flags res)" "res_got_address res = Some got"
    and "even (unat got)" "stub_ok A res"
  shows "spends okind tls (cost okind (res_flags res)) (process_ordinary A res got)"
proof -
  let ?f = "res_flags res"
  have plt: "res_plt_address res \<noteq> None \<longleftrightarrow> contains ?f PLT"
    "contains ?f IFUNC_GOT_FOR_ADDRESS \<Longrightarrow> contains ?f PLT" "contains ?f GOT"
    using assms by (auto simp: resolves_def entries_ok_def)
  have stub: "spends okind tls (0, of_bool (contains ?f PLT), 0, 0, 0) (\<lambda>w. case res_plt_address res of None \<Rightarrow> ok w
      | Some plt_address \<Rightarrow> write_plt_entry A got plt_address w)"
    using plt(1) assms(3,5) spends_ok write_plt_entry_spends
    by (auto simp: stub_ok_def split: option.splits sum.splits)
  have second: "spends okind tls (of_bool (contains ?f IFUNC_GOT_FOR_ADDRESS) * 1, of_bool (contains ?f IFUNC_GOT_FOR_ADDRESS) * 0,
      of_bool (contains ?f IFUNC_GOT_FOR_ADDRESS) * 0, of_bool (contains ?f IFUNC_GOT_FOR_ADDRESS) * of_bool (is_relocatable okind),
      of_bool (contains ?f IFUNC_GOT_FOR_ADDRESS) * 0)
      (\<lambda>w. if contains ?f IFUNC_GOT_FOR_ADDRESS then process_ifunc_got_for_address A res got w else ok w)"
  proof (rule spends_when)
    assume "contains ?f IFUNC_GOT_FOR_ADDRESS"
    then obtain plt_address where "res_plt_address res = Some plt_address"
      using plt(1,2) by auto
    then show "spends okind tls (1, 0, 0, of_bool (is_relocatable okind), 0) (process_ifunc_got_for_address A res got)"
      by (rule process_ifunc_got_for_address_spends [OF _ assms(4)])
  qed
  have "\<not> contains ?f GOT_TLS_OFFSET" "\<not> contains ?f GOT_TLS_MODULE" "\<not> contains ?f GOT_TLS_DESCRIPTOR"
    using assms(2) by (auto simp: flags_is_tls_def)
  then have "cost okind ?f = plus_cost (1, 0, of_bool (contains ?f IFUNC),
      of_bool (\<not> contains ?f IFUNC \<and> \<not> has_dynamic_symbol ?f \<and> is_address ?f \<and> is_relocatable okind),
      of_bool (\<not> contains ?f IFUNC \<and> has_dynamic_symbol ?f))
     (plus_cost (0, of_bool (contains ?f PLT), 0, 0, 0)
       (of_bool (contains ?f IFUNC_GOT_FOR_ADDRESS) * 1, of_bool (contains ?f IFUNC_GOT_FOR_ADDRESS) * 0,
      of_bool (contains ?f IFUNC_GOT_FOR_ADDRESS) * 0, of_bool (contains ?f IFUNC_GOT_FOR_ADDRESS) * of_bool (is_relocatable okind),
      of_bool (contains ?f IFUNC_GOT_FOR_ADDRESS) * 0))"
    using assms(2) plt(3)
    by (simp add: cost_def plus_cost_def got_cost_def plt_cost_def rela_plt_cost_def relative_cost_def general_cost_def)
  moreover have "process_ordinary A res got = (\<lambda>w. try_then (process_got_entry A res got w) (\<lambda>w.
      try_then (case res_plt_address res of None \<Rightarrow> ok w | Some plt_address \<Rightarrow> write_plt_entry A got plt_address w) (\<lambda>w.
      if contains ?f IFUNC_GOT_FOR_ADDRESS then process_ifunc_got_for_address A res got w else ok w)))"
    by (rule ext) (rule process_ordinary_def)
  ultimately show ?thesis
    using spends_then [OF process_got_entry_spends [OF assms(1,3,4) refl, of A] spends_then [OF stub second]]
    by (simp only:)
qed

lemma process_resolution_spends:
  assumes "resolves okind tls res" "stub_ok A res" "\<And>got. res_got_address res = Some got \<Longrightarrow> even (unat got)"
  shows "spends okind tls (cost okind (res_flags res)) (process_resolution A (Some tp) res)"
proof (cases "res_got_address res")
  case None
  then have "\<not> contains (res_flags res) GOT" "\<not> flags_is_tls (res_flags res)"
    "\<not> contains (res_flags res) PLT" "\<not> contains (res_flags res) IFUNC_GOT_FOR_ADDRESS"
    using assms(1) by (auto simp: resolves_def entries_ok_def)
  then have "cost okind (res_flags res) = (0, 0, 0, 0, 0)"
    by (auto simp: cost_def got_cost_def plt_cost_def rela_plt_cost_def relative_cost_def general_cost_def
        flags_is_tls_def)
  moreover have "process_resolution A (Some tp) res = ok"
    using None by (simp add: fun_eq_iff process_resolution_def)
  ultimately show ?thesis
    using spends_ok [of okind tls] by (simp only:)
next
  case (Some got)
  then have "process_resolution A (Some tp) res =
      (if flags_is_tls (res_flags res) then process_tls A (Some tp) res got else process_ordinary A res got)"
    by (simp add: fun_eq_iff process_resolution_def)
  then show ?thesis
    using process_tls_spends [OF assms(1), of A tp got] process_ordinary_spends [OF assms(1) _ Some assms(3) [OF Some] assms(2)]
    by (cases "flags_is_tls (res_flags res)") simp_all
qed

end
