(* ===== verification/Got_Entries_Spec.thy ===== *)
theory Got_Entries_Spec
  imports Got_Tables_Spec
begin

text \<open>
  The symbols of a group, from the sizes the layout allocates over the addresses it gives out to the
  words the writer puts into the GOT.
\<close>

section \<open>The words of a symbol\<close>

text \<open>What a resolution puts into the GOT, as a function of the resolution alone; \<open>relr\<close> is whether relative
  relocations are packed, which leaves the address in the entry. \<open>None\<close> is an entry the writer leaves to
  the loader.\<close>

definition tls_offset_word :: "output_kind \<Rightarrow> u64 \<Rightarrow> elf_resolution \<Rightarrow> u64 option" where
  "tls_offset_word okind tp res =
     (if has_dynamic_symbol (res_flags res) \<or> res_raw_value res = 0 then Some 0
      else if is_executable okind then Some (res_raw_value res - tp) else None)"

definition tls_module_words :: "table_arch \<Rightarrow> output_kind \<Rightarrow> u64 \<times> u64 \<Rightarrow> elf_resolution \<Rightarrow> u64 option list" where
  "tls_module_words A okind tls res =
     [Some (of_bool (is_executable okind \<and> \<not> contains (res_flags res) DYNAMIC)),
      Some (if res_dynamic_symbol_index res = None then res_raw_value res - fst tls - arch_dtv_offset A else 0)]"

definition got_word :: "output_kind \<Rightarrow> bool \<Rightarrow> elf_resolution \<Rightarrow> u64" where
  "got_word okind relr res =
     (if has_dynamic_symbol (res_flags res) \<or> contains (res_flags res) IFUNC
         \<or> (is_address (res_flags res) \<and> is_relocatable okind \<and> \<not> relr) then 0
      else res_raw_value res)"

definition got_words :: "table_arch \<Rightarrow> output_kind \<Rightarrow> u64 \<times> u64 \<Rightarrow> u64 \<Rightarrow> bool \<Rightarrow> elf_resolution \<Rightarrow> u64 option list" where
  "got_words A okind tls tp relr res =
     (let f = res_flags res
      in if res_got_address res = None then []
         else if flags_is_tls f then
           (if contains f GOT_TLS_OFFSET then [tls_offset_word okind tp res] else [])
           @ (if contains f GOT_TLS_MODULE then tls_module_words A okind tls res else [])
           @ (if contains f GOT_TLS_DESCRIPTOR then [Some 0, Some 0] else [])
         else Some (got_word okind relr res)
           # (if contains f IFUNC_GOT_FOR_ADDRESS
              then [Some (if is_relocatable okind \<and> \<not> relr then 0 else the (res_plt_address res))] else []))"

text \<open>\<open>writes\<close>: whenever an operation succeeds in such a setting, it has appended these words.\<close>

definition setting :: "table_writer \<Rightarrow> output_kind \<times> (u64 \<times> u64) \<times> bool" where
  "setting w = (tw_output w, tls_range w, relr_free w \<noteq> None)"

definition writes :: "output_kind \<times> (u64 \<times> u64) \<times> bool \<Rightarrow> u64 option list \<Rightarrow> (table_writer \<Rightarrow> table_writer result) \<Rightarrow> bool" where
  "writes S ws m \<longleftrightarrow> (\<forall>w w'. setting w = S \<longrightarrow> m w = ok w' \<longrightarrow> got_out w' = got_out w @ ws \<and> setting w' = S)"

lemma try_then_eq_ok [simp]: "try_then m f = ok y \<longleftrightarrow> (\<exists>x. m = ok x \<and> f x = ok y)"
  by (auto simp: try_then_def ok_def split: option.splits sum.splits)

lemma or_err_eq_ok [simp]: "or_err x e = ok y \<longleftrightarrow> x = Some y" "None \<noteq> ok y"
  by (cases x) (auto simp: ok_def err_def)

lemma setting_update [simp]:
  "setting (w\<lparr>got_free := n\<rparr>) = setting w" "setting (w\<lparr>got_out := g\<rparr>) = setting w"
  "setting (w\<lparr>plt_free := n\<rparr>) = setting w" "setting (w\<lparr>plt_out := p\<rparr>) = setting w"
  "setting (w\<lparr>rela_plt_free := n\<rparr>) = setting w" "setting (w\<lparr>rela_plt_out := r\<rparr>) = setting w"
  "setting (w\<lparr>rela_general_free := n\<rparr>) = setting w" "setting (w\<lparr>rela_general_out := r\<rparr>) = setting w"
  by (simp_all add: setting_def)

lemma writes_then:
  assumes "writes S ws m" "writes S ws' m'"
  shows "writes S (ws @ ws') (\<lambda>w. try_then (m w) m')"
  unfolding writes_def
proof (intro allI impI)
  fix w w' assume "setting w = S" "try_then (m w) m' = ok w'"
  then obtain v where "m w = ok v" "m' v = ok w'" "setting w = S"
    by auto
  then show "got_out w' = got_out w @ ws @ ws' \<and> setting w' = S"
    using assms unfolding writes_def by (metis append.assoc)
qed

lemma writes_ok: "writes S [] ok"
  by (simp add: writes_def)

lemma writes_when: "(b \<Longrightarrow> writes S ws m) \<Longrightarrow> writes S (if b then ws else []) (\<lambda>w. if b then m w else ok w)"
  using writes_ok by (cases b) simp_all

text \<open>The steps of the operations.\<close>

lemma taken_entry: "take_next_got_entry w = ok v \<Longrightarrow> got_out v = got_out w \<and> setting v = setting w"
  by (auto simp: take_next_got_entry_def split: if_splits)

lemma general_entry:
  "write_rela_dyn_general p i t a w = ok v \<Longrightarrow> got_out v = got_out w \<and> setting v = setting w"
  by (auto simp: write_rela_dyn_general_def split: if_splits)

lemma ifunc_entry: "write_ifunc_relocation A res w = ok v \<Longrightarrow> got_out v = got_out w \<and> setting v = setting w"
  by (auto simp: write_ifunc_relocation_def split: if_splits)

lemma address_entry:
  assumes "write_address_relocation A place a w = ok (x, v)" "even (unat place)"
  shows "x = (if relr_free w = None then 0 else a) \<and> got_out v = got_out w \<and> setting v = setting w"
  using assms by (auto simp: write_address_relocation_def setting_def split: option.splits if_splits)

lemma filled_entry [simp]:
  "got_out (fill_got x w) = got_out w @ [Some x]" "setting (fill_got x w) = setting w"
  "got_out (leave_got w) = got_out w @ [None]" "setting (leave_got w) = setting w"
  by (simp_all add: fill_got_def leave_got_def)

lemmas entry_steps = taken_entry general_entry ifunc_entry

lemma got_entry_writes:
  assumes "resolves okind tls res" "even (unat got)"
  shows "writes (okind, tls, relr) [Some (got_word okind relr res)] (process_got_entry A res got)"
  unfolding writes_def
proof (intro allI impI)
  fix w w' assume w: "setting w = (okind, tls, relr)" "process_got_entry A res got w = ok w'"
  then obtain v where v: "take_next_got_entry w = ok v"
    by (auto simp: process_got_entry_def Let_def)
  have out: "got_out v = got_out w" "setting v = (okind, tls, relr)"
    using taken_entry [OF v] w(1) by simp_all
  then have kinds: "tw_output v = okind" "(relr_free v = None) = (\<not> relr)"
    by (auto simp: setting_def)
  have "contains (res_flags res) DYNAMIC \<Longrightarrow> \<not> contains (res_flags res) IFUNC"
    using assms(1) by (auto simp: resolves_def entries_ok_def)
  then show "got_out w' = got_out w @ [Some (got_word okind relr res)] \<and> setting w' = (okind, tls, relr)"
    using w(2) v out kinds
    by (auto simp: process_got_entry_def got_word_def Let_def has_dynamic_symbol_def split: if_splits
        dest!: general_entry ifunc_entry address_entry [OF _ assms(2)])
qed

lemma ifunc_got_writes:
  assumes "even (unat got)"
  shows "writes (okind, tls, relr) [Some (if is_relocatable okind \<and> \<not> relr then 0 else the (res_plt_address res))]
    (process_ifunc_got_for_address A res got)"
  unfolding writes_def
proof (intro allI impI)
  fix w w' assume w: "setting w = (okind, tls, relr)" "process_ifunc_got_for_address A res got w = ok w'"
  then obtain v where v: "take_next_got_entry w = ok v"
    by (auto simp: process_ifunc_got_for_address_def)
  have out: "got_out v = got_out w" "setting v = (okind, tls, relr)"
    using taken_entry [OF v] w(1) by simp_all
  then have kinds: "tw_output v = okind" "(relr_free v = None) = (\<not> relr)"
    by (auto simp: setting_def)
  have "even (unat (got + GOT_ENTRY_SIZE))"
    using assms by (simp add: entry_sizes even_unat)
  note at = address_entry [OF _ this]
  obtain plt where plt: "res_plt_address res = Some plt"
    using w(2) v by (auto simp: process_ifunc_got_for_address_def)
  show "got_out w' = got_out w
      @ [Some (if is_relocatable okind \<and> \<not> relr then 0 else the (res_plt_address res))] \<and> setting w' = (okind, tls, relr)"
  proof (cases "is_relocatable okind")
    case True
    then obtain x u where "write_address_relocation A (got + GOT_ENTRY_SIZE) plt v = ok (x, u)" "w' = fill_got x u"
      using w(2) v plt kinds by (auto simp: process_ifunc_got_for_address_def)
    with at [OF this(1)] True show ?thesis
      using out kinds plt by simp
  next
    case False
    then have "w' = fill_got plt v"
      using w(2) v plt kinds by (auto simp: process_ifunc_got_for_address_def)
    with False show ?thesis
      using out plt by simp
  qed
qed

lemma plt_entry_writes: "writes S [] (write_plt_entry A got plt)"
  by (auto simp: writes_def write_plt_entry_def split: option.splits sum.splits if_splits)

lemma tls_offset_writes: "writes (okind, tls, relr) [tls_offset_word okind tp res] (process_got_tls_offset A tp res got)"
  unfolding writes_def
proof (intro allI impI)
  fix w w' assume w: "setting w = (okind, tls, relr)" "process_got_tls_offset A tp res got w = ok w'"
  then obtain v where v: "take_next_got_entry w = ok v"
    by (auto simp: process_got_tls_offset_def)
  have out: "got_out v = got_out w" "setting v = (okind, tls, relr)"
    using taken_entry [OF v] w(1) by simp_all
  then have "tw_output v = okind"
    by (simp add: setting_def)
  then show "got_out w' = got_out w @ [tls_offset_word okind tp res] \<and> setting w' = (okind, tls, relr)"
    using w(2) v out
    by (auto simp: process_got_tls_offset_def tls_offset_word_def Let_def split: if_splits dest!: general_entry)
qed

lemma tls_descriptor_writes: "writes (okind, tls, relr) [Some 0, Some 0] (process_got_tls_descriptor A res got)"
  by (auto simp: writes_def process_got_tls_descriptor_def Let_def split: if_splits dest!: entry_steps)

lemma tls_module_writes:
  "writes (okind, tls, relr) (tls_module_words A okind tls res) (process_got_tls_mod_and_offset A res got)"
  unfolding writes_def
proof (intro allI impI)
  fix w w' assume w: "setting w = (okind, tls, relr)" "process_got_tls_mod_and_offset A res got w = ok w'"
  define f where "f = res_flags res"
  from w obtain v where v: "take_next_got_entry w = ok v"
    by (auto simp: process_got_tls_mod_and_offset_def)
  have out: "got_out v = got_out w" "setting v = (okind, tls, relr)"
    using taken_entry [OF v] w(1) by simp_all
  then have "tw_output v = okind"
    by (simp add: setting_def)
  then obtain u t where u: "(if is_executable okind \<and> \<not> contains f DYNAMIC then ok (fill_got 1 v)
        else write_rela_dyn_general got (case res_dynamic_symbol_index res of None \<Rightarrow> 0 | Some i \<Rightarrow> i)
          (arch_dynamic_type A DRK_DtpMod) 0 (fill_got 0 v)) = ok u" and t: "take_next_got_entry u = ok t"
    and last: "(case res_dynamic_symbol_index res of
         Some i \<Rightarrow> try_then (if flags_is_interposable f
             then write_rela_dyn_general (got + 8) i (arch_dynamic_type A DRK_DtpOff) 0 t else ok t) (\<lambda>w. ok (fill_got 0 w))
       | None \<Rightarrow> if \<not> is_address f then err NotAnAddress
           else ok (fill_got (res_raw_value res - fst (tls_range t) - arch_dtv_offset A) t)) = ok w'"
    using w(2) v unfolding process_got_tls_mod_and_offset_def f_def by auto
  have u_out: "got_out u = got_out w @ [Some (of_bool (is_executable okind \<and> \<not> contains f DYNAMIC))]"
    "setting u = (okind, tls, relr)"
    using u out by (auto split: if_splits dest!: general_entry)
  have t_out: "got_out t = got_out u" "setting t = (okind, tls, relr)"
    using taken_entry [OF t] u_out(2) by simp_all
  then have "tls_range t = tls"
    by (simp add: setting_def)
  then show "got_out w' = got_out w @ tls_module_words A okind tls res \<and> setting w' = (okind, tls, relr)"
    using last t_out u_out
    by (auto simp: tls_module_words_def f_def split: option.splits if_splits dest!: general_entry)
qed

lemma resolution_writes:
  assumes "resolves okind tls res" "\<And>got. res_got_address res = Some got \<Longrightarrow> even (unat got)"
  shows "writes (okind, tls, relr) (got_words A okind tls tp relr res) (process_resolution A (Some tp) res)"
proof (cases "res_got_address res")
  case None
  then show ?thesis
    by (simp add: got_words_def process_resolution_def writes_def)
next
  case (Some got)
  let ?f = "res_flags res" and ?S = "(okind, tls, relr)"
  let ?second = "if contains ?f IFUNC_GOT_FOR_ADDRESS
     then [Some (if is_relocatable okind \<and> \<not> relr then 0 else the (res_plt_address res))] else []"
  have plt: "writes ?S [] (\<lambda>w. case res_plt_address res of None \<Rightarrow> ok w
      | Some plt_address \<Rightarrow> write_plt_entry A got plt_address w)"
    using writes_ok [of ?S] plt_entry_writes [of ?S A got] by (cases "res_plt_address res") simp_all
  have "writes ?S ([Some (got_word okind relr res)] @ [] @ ?second) (\<lambda>w. process_ordinary A res got w)"
    unfolding process_ordinary_def
    by (intro writes_then writes_when got_entry_writes [OF assms(1)] ifunc_got_writes plt assms(2) [OF Some])
  moreover have "writes ?S ((if contains ?f GOT_TLS_OFFSET then [tls_offset_word okind tp res] else [])
      @ (if contains ?f GOT_TLS_MODULE then tls_module_words A okind tls res else [])
      @ (if contains ?f GOT_TLS_DESCRIPTOR then [Some 0, Some 0] else [])) (process_tls A (Some tp) res got)"
    unfolding process_tls_slots
    by (intro writes_then writes_when tls_offset_writes tls_module_writes tls_descriptor_writes)
  moreover have "process_resolution A (Some tp) res =
      (if flags_is_tls ?f then process_tls A (Some tp) res got else (\<lambda>w. process_ordinary A res got w))"
    using Some by (simp add: fun_eq_iff process_resolution_def)
  moreover have "got_words A okind tls tp relr res =
      (if flags_is_tls ?f then (if contains ?f GOT_TLS_OFFSET then [tls_offset_word okind tp res] else [])
         @ (if contains ?f GOT_TLS_MODULE then tls_module_words A okind tls res else [])
         @ (if contains ?f GOT_TLS_DESCRIPTOR then [Some 0, Some 0] else [])
       else [Some (got_word okind relr res)] @ [] @ ?second)"
    using Some by (simp add: got_words_def Let_def)
  ultimately show ?thesis
    by presburger
qed

section \<open>The addresses\<close>

text \<open>A resolution of the layout has the entries its flags ask for, at the next free addresses.\<close>

lemma allocate_got_eq:
  assumes "allocate_got n offs = Some (a, offs')" "30 \<le> length offs"
  shows "a = offs ! PART_GOT \<and> offs' = offs[PART_GOT := offs ! PART_GOT + 8 * n]"
  using assms
  by (auto simp: allocate_got_def increment_in nth_opt_def part_defs entry_sizes split: bind_splits if_splits)

lemma allocate_plt_eq:
  assumes "allocate_plt offs = Some (a, offs')" "30 \<le> length offs"
  shows "a = offs ! PART_PLT_GOT \<and> offs' = offs[PART_PLT_GOT := offs ! PART_PLT_GOT + 16]"
  using assms
  by (auto simp: allocate_plt_def increment_in nth_opt_def part_defs entry_sizes split: bind_splits if_splits)

lemma create_resolution_facts:
  assumes "create_resolution flags raw index offs = Some (res, offs')" "30 \<le> length offs"
    and "entries_ok okind tls (flags, raw, index)"
  shows "resolves okind tls res" "res_flags res = flags" "length offs' = length offs"
    "offs' ! PART_GOT = offs ! PART_GOT + 8 * of_nat (got_cost flags)"
    "offs' ! PART_PLT_GOT = offs ! PART_PLT_GOT + 16 * of_nat (plt_cost flags)"
    "res_got_address res = None \<or> res_got_address res = Some (offs ! PART_GOT)"
proof -
  have ok: "contains flags PLT \<Longrightarrow> contains flags GOT \<and> \<not> flags_is_tls flags"
    "contains flags IFUNC_GOT_FOR_ADDRESS \<Longrightarrow> contains flags PLT"
    using assms(3) by (auto simp: entries_ok_def)
  have tls: "contains flags GOT_TLS_OFFSET \<Longrightarrow> flags_is_tls flags" "contains flags GOT_TLS_MODULE \<Longrightarrow> flags_is_tls flags"
    by (auto simp: flags_is_tls_def)
  consider (plt) "contains flags PLT" | (tls) "\<not> contains flags PLT" "flags_is_tls flags"
    | (got) "\<not> contains flags PLT" "\<not> flags_is_tls flags" "contains flags GOT"
    | (none) "\<not> contains flags PLT" "\<not> flags_is_tls flags" "\<not> contains flags GOT"
    by blast
  then have "resolves okind tls res \<and> res_flags res = flags \<and> length offs' = length offs
    \<and> offs' ! PART_GOT = offs ! PART_GOT + 8 * of_nat (got_cost flags)
    \<and> offs' ! PART_PLT_GOT = offs ! PART_PLT_GOT + 16 * of_nat (plt_cost flags)
    \<and> (res_got_address res = None \<or> res_got_address res = Some (offs ! PART_GOT))"
  proof cases
    case plt
    then obtain p o1 g where *: "allocate_plt offs = Some (p, o1)"
      "allocate_got (if contains flags IFUNC_GOT_FOR_ADDRESS then 2 else 1) o1 = Some (g, offs')"
      "res = \<lparr>res_raw_value = (if contains flags DYNAMIC then p else raw), res_dynamic_symbol_index = index,
        res_flags = flags, res_got_address = Some g, res_plt_address = Some p\<rparr>"
      using assms(1) by (auto simp: create_resolution_def Let_def split: bind_splits)
    have o1: "o1 = offs[PART_PLT_GOT := offs ! PART_PLT_GOT + 16]"
      using allocate_plt_eq [OF *(1) assms(2)] by simp
    have "g = o1 ! PART_GOT" "offs' = o1[PART_GOT := o1 ! PART_GOT
        + 8 * (if contains flags IFUNC_GOT_FOR_ADDRESS then 2 else 1)]"
      using allocate_got_eq [OF *(2)] assms(2) o1 by simp_all
    moreover have "entries_ok okind tls (flags, if contains flags DYNAMIC then p else raw, index)"
      using assms(3) tls(1) ok(1) [OF plt] by (auto simp: entries_ok_def)
    ultimately show ?thesis
      using plt ok(1) assms(2) *(3) o1
      by (simp add: resolves_def got_cost_def plt_cost_def part_defs)
  next
    case tls
    then obtain g where *: "allocate_got (num_got_slots flags) offs = Some (g, offs')"
      "res = \<lparr>res_raw_value = raw, res_dynamic_symbol_index = index, res_flags = flags,
        res_got_address = Some g, res_plt_address = None\<rparr>"
      using assms(1) by (auto simp: create_resolution_def Let_def split: bind_splits)
    have "num_got_slots flags = of_nat (got_cost flags)"
      using tls by (simp add: num_got_slots_def got_cost_def)
    with allocate_got_eq [OF *(1) assms(2)] tls show ?thesis
      using assms(2,3) *(2) by (simp add: resolves_def plt_cost_def part_defs)
  next
    case got
    then obtain g where *: "allocate_got 1 offs = Some (g, offs')"
      "res = \<lparr>res_raw_value = raw, res_dynamic_symbol_index = index, res_flags = flags,
        res_got_address = Some g, res_plt_address = None\<rparr>"
      using assms(1) by (auto simp: create_resolution_def Let_def split: bind_splits)
    have "\<not> contains flags IFUNC_GOT_FOR_ADDRESS"
      using got ok by blast
    with allocate_got_eq [OF *(1) assms(2)] got show ?thesis
      using assms(2,3) *(2) by (simp add: resolves_def plt_cost_def got_cost_def part_defs)
  next
    case none
    have "\<not> contains flags IFUNC_GOT_FOR_ADDRESS"
      using none ok by blast
    with none show ?thesis
      using assms by (auto simp: create_resolution_def Let_def resolves_def plt_cost_def got_cost_def)
  qed
  then show "resolves okind tls res" "res_flags res = flags" "length offs' = length offs"
    "offs' ! PART_GOT = offs ! PART_GOT + 8 * of_nat (got_cost flags)"
    "offs' ! PART_PLT_GOT = offs ! PART_PLT_GOT + 16 * of_nat (plt_cost flags)"
    "res_got_address res = None \<or> res_got_address res = Some (offs ! PART_GOT)"
    by blast+
qed

lemma length_got_words:
  assumes "resolves okind tls res"
  shows "length (got_words A okind tls tp relr res) = got_cost (res_flags res)"
proof -
  have "res_got_address res = None \<longleftrightarrow> \<not> contains (res_flags res) GOT \<and> \<not> flags_is_tls (res_flags res)"
    using assms unfolding resolves_def by blast
  moreover have "contains (res_flags res) IFUNC_GOT_FOR_ADDRESS \<Longrightarrow> contains (res_flags res) GOT"
    using assms by (simp add: resolves_def entries_ok_def)
  ultimately show ?thesis
    by (cases "flags_is_tls (res_flags res)") (auto simp: got_words_def got_cost_def tls_module_words_def Let_def)
qed

section \<open>The symbols of a group\<close>

definition got_total :: "value_flags list \<Rightarrow> nat" where
  "got_total fs = sum_list (map got_cost fs)"

lemma create_resolutions_facts:
  assumes "create_resolutions syms offs = Some (ress, offs')" "30 \<le> length offs" "even (offs ! PART_GOT)"
    and "\<forall>s \<in> set syms. entries_ok okind tls s"
  shows "map res_flags ress = map fst syms
    \<and> (\<forall>res \<in> set ress. resolves okind tls res \<and> (\<forall>got. res_got_address res = Some got \<longrightarrow> even (unat got)))
    \<and> (\<forall>i < length ress. \<forall>got. res_got_address (ress ! i) = Some got
        \<longrightarrow> got = offs ! PART_GOT + 8 * of_nat (got_total (map res_flags (take i ress))))"
  using assms
proof (induction syms arbitrary: offs ress)
  case Nil
  then show ?case by simp
next
  case (Cons s syms)
  obtain flags raw index where s: "s = (flags, raw, index)"
    by (cases s)
  from Cons.prems(1) obtain res o1 rest where create: "create_resolution flags raw index offs = Some (res, o1)"
    "create_resolutions syms o1 = Some (rest, offs')" "ress = res # rest"
    by (auto simp: s split: bind_splits)
  have "entries_ok okind tls (flags, raw, index)"
    using Cons.prems(4) s by simp
  note first = create_resolution_facts [OF create(1) Cons.prems(2) this]
  have "even (o1 ! PART_GOT)" "30 \<le> length o1"
    using first(3,4) Cons.prems(2,3) by simp_all
  moreover have "\<forall>s \<in> set syms. entries_ok okind tls s"
    using Cons.prems(4) by simp
  ultimately have all: "map res_flags rest = map fst syms
    \<and> (\<forall>res \<in> set rest. resolves okind tls res \<and> (\<forall>got. res_got_address res = Some got \<longrightarrow> even (unat got)))
    \<and> (\<forall>i < length rest. \<forall>got. res_got_address (rest ! i) = Some got
        \<longrightarrow> got = o1 ! PART_GOT + 8 * of_nat (got_total (map res_flags (take i rest))))"
    by (intro Cons.IH [OF create(2)])
  then have IH: "map res_flags rest = map fst syms"
    "\<forall>res \<in> set rest. resolves okind tls res \<and> (\<forall>got. res_got_address res = Some got \<longrightarrow> even (unat got))"
    "\<forall>i < length rest. \<forall>got. res_got_address (rest ! i) = Some got
        \<longrightarrow> got = o1 ! PART_GOT + 8 * of_nat (got_total (map res_flags (take i rest)))"
    by blast+
  have "got = offs ! PART_GOT + 8 * of_nat (got_total (map res_flags (take i ress)))"
    if "i < length ress" "res_got_address (ress ! i) = Some got" for i got
    using that IH(3) first(2,4,6) create(3)
    by (cases i) (auto simp: got_total_def algebra_simps)
  moreover have "\<forall>got. res_got_address res = Some got \<longrightarrow> even (unat got)"
    using first(6) Cons.prems(3) by (auto simp: even_unat)
  ultimately show ?case
    using IH(1,2) first(1,2) create(3) s by simp
qed

lemma process_resolutions_spends:
  assumes "\<forall>res \<in> set ress. resolves okind tls res \<and> (\<forall>got. res_got_address res = Some got \<longrightarrow> even (unat got))"
    and "\<forall>res \<in> set ress. stub_ok A res"
  shows "spends okind tls (total_cost okind (map res_flags ress)) (process_resolutions A (Some tp) ress)"
  using assms
proof (induction ress)
  case Nil
  then show ?case
    using spends_ok by (simp add: spends_def)
next
  case (Cons res ress)
  have "spends okind tls (cost okind (res_flags res)) (process_resolution A (Some tp) res)"
    using Cons.prems by (intro process_resolution_spends) auto
  from spends_then [OF this Cons.IH] Cons.prems show ?case
    by (simp add: spends_def)
qed

lemma process_resolutions_writes:
  assumes "\<forall>res \<in> set ress. resolves okind tls res \<and> (\<forall>got. res_got_address res = Some got \<longrightarrow> even (unat got))"
  shows "writes (okind, tls, relr) (concat (map (got_words A okind tls tp relr) ress)) (process_resolutions A (Some tp) ress)"
  using assms
proof (induction ress)
  case Nil
  then show ?case
    by (simp add: writes_def)
next
  case (Cons res ress)
  have "writes (okind, tls, relr) (got_words A okind tls tp relr res) (process_resolution A (Some tp) res)"
    using Cons.prems by (intro resolution_writes) auto
  from writes_then [OF this Cons.IH] Cons.prems show ?case
    by (simp add: writes_def)
qed

section \<open>The writer starts with what the layout allocated\<close>

lemma cost_bounds:
  assumes "total_cost okind fs = (g, p, rp, rel, gen)"
  shows "g \<le> 5 * length fs \<and> p \<le> 5 * length fs \<and> rp \<le> 5 * length fs \<and> rel \<le> 5 * length fs \<and> gen \<le> 5 * length fs"
  using assms
proof (induction fs arbitrary: g p rp rel gen)
  case Nil
  then show ?case by simp
next
  case (Cons f fs)
  obtain g' p' rp' rel' gen' where fs: "total_cost okind fs = (g', p', rp', rel', gen')"
    by (cases "total_cost okind fs")
  have "got_cost f \<le> 5" "plt_cost f \<le> 5" "rela_plt_cost f \<le> 5" "relative_cost okind f \<le> 5" "general_cost okind f \<le> 5"
    by (simp_all add: got_cost_def plt_cost_def rela_plt_cost_def relative_cost_def general_cost_def)
  with Cons.IH [OF fs] Cons.prems fs show ?case
    by (auto simp: plus_cost_def cost_def)
qed

lemma entries_of_multiple:
  assumes "p < length sizes" "sizes ! p = e * of_nat k" "unat e * k < 2 ^ 64" "e \<noteq> 0"
  shows "entries_of sizes p e = Some k"
proof -
  have "unat (sizes ! p) = unat e * k"
    using assms(2,3) by (simp add: unat_word_ariths unat_of_nat mod_mult_right_eq)
  moreover have "0 < unat e"
    using assms(4) by (simp add: unat_gt_0)
  ultimately show ?thesis
    using assms(1) by (simp add: entries_of_def nth_opt_def)
qed

text \<open>A fresh writer for exactly these entries.\<close>

definition fresh_writer :: "output_kind \<Rightarrow> u64 \<times> u64 \<Rightarrow> bool \<Rightarrow> nat \<times> nat \<times> nat \<times> nat \<times> nat \<Rightarrow> table_writer \<Rightarrow> bool" where
  "fresh_writer okind tls relr k w = (case k of (g, p, rp, rel, gen) \<Rightarrow>
     tw_output w = okind \<and> tls_range w = tls \<and> got_out w = [] \<and> got_free w = g \<and> plt_free w = 16 * p
     \<and> rela_plt_free w = rp \<and> relative_free w = rel \<and> rela_general_free w = gen
     \<and> (relr_free w \<noteq> None \<longleftrightarrow> relr \<and> rel \<noteq> 0) \<and> (relr_free w \<noteq> None \<longrightarrow> rela_relative_free w = 0))"

lemma allocated_writer:
  assumes "allocate_resolutions okind relr syms (replicate n 0) = Some sizes" "30 \<le> n" "length syms < 2 ^ 56"
    and "\<forall>s \<in> set syms. entries_ok okind tls s"
  shows "\<exists>w. table_writer_new okind tls sizes relr = Some w
    \<and> fresh_writer okind tls relr (total_cost okind (map fst syms)) w"
proof -
  obtain g p rp rel gen where k: "total_cost okind (map fst syms) = (g, p, rp, rel, gen)"
    by (cases "total_cost okind (map fst syms)")
  have small: "24 * g < 2 ^ 64" "24 * p < 2 ^ 64" "24 * rp < 2 ^ 64" "24 * rel < 2 ^ 64" "24 * gen < 2 ^ 64"
    using cost_bounds [OF k] assms(3) by simp_all
  have "adds relr (g, p, rp, rel, gen) (allocate_resolutions okind relr syms)"
    using allocate_resolutions_adds [OF assms(4), of relr] k by simp
  with assms(1,2) have grown: "grown relr (g, p, rp, rel, gen) (replicate n 0) sizes"
    unfolding adds_def by (auto dest!: spec [of _ "replicate n 0"])
  then have len: "30 \<le> length sizes"
    using assms(2) by (simp add: grown_def)
  have parts: "sizes ! PART_GOT = 8 * of_nat g" "sizes ! PART_PLT_GOT = 16 * of_nat p"
    "sizes ! PART_RELA_PLT = 24 * of_nat rp" "sizes ! PART_RELA_DYN_GENERAL = 24 * of_nat gen"
    "sizes ! PART_RELA_DYN_RELATIVE = 24 * of_nat (if relr then 0 else rel)"
    "sizes ! PART_RELR_DYN = 8 * of_nat (if relr then rel else 0)"
    using grown assms(2) by (simp_all add: grown_def part_defs)
  have plt: "nth_opt sizes PART_PLT_GOT = Some (16 * of_nat p)" "unat (16 * of_nat p :: u64) = 16 * p"
    using parts(2) len small(2) by (simp_all add: nth_opt_def part_defs unat_word_ariths unat_of_nat mod_mult_right_eq)
  have tables: "entries_of sizes PART_GOT GOT_ENTRY_SIZE = Some g"
    "entries_of sizes PART_RELA_PLT RELA_ENTRY_SIZE = Some rp"
    "entries_of sizes PART_RELA_DYN_GENERAL RELA_ENTRY_SIZE = Some gen"
    "entries_of sizes PART_RELA_DYN_RELATIVE RELA_ENTRY_SIZE = Some (if relr then 0 else rel)"
    "entries_of sizes PART_RELR_DYN RELR_ENTRY_SIZE = Some (if relr then rel else 0)"
    using parts len small by (auto intro!: entries_of_multiple simp: entry_sizes part_defs)
  show ?thesis
    unfolding table_writer_new_def k fresh_writer_def using tables plt by (simp del: nth_opt_eq_Some)
qed

text \<open>Packing makes a difference only where there is a relative relocation.\<close>

lemma got_words_packing:
  assumes "resolves okind tls res" "relative_cost okind (res_flags res) = 0"
  shows "got_words A okind tls tp relr res = got_words A okind tls tp relr' res"
proof -
  have "res_got_address res = None \<longleftrightarrow> \<not> contains (res_flags res) GOT \<and> \<not> flags_is_tls (res_flags res)"
    using assms(1) unfolding resolves_def by blast
  with assms(2) show ?thesis
    by (auto simp: got_words_def got_word_def relative_cost_def Let_def split: if_splits)
qed

lemma total_cost_no_relative:
  "total_cost okind fs = (g, p, rp, 0, gen) \<Longrightarrow> f \<in> set fs \<Longrightarrow> relative_cost okind f = 0"
proof (induction fs arbitrary: g p rp gen)
  case (Cons x fs)
  then show ?case
    by (cases "total_cost okind fs") (auto simp: plus_cost_def cost_def)
qed simp

lemma concat_take_drop:
  assumes "i < length xs"
  shows "take (length (f (xs ! i))) (drop (length (concat (map f (take i xs)))) (concat (map f xs))) = f (xs ! i)"
proof -
  have "concat (map f xs) = concat (map f (take i xs)) @ f (xs ! i) @ concat (map f (drop (Suc i) xs))"
    using assms by (subst id_take_nth_drop [OF assms]) simp
  then show ?thesis
    by simp
qed

section \<open>The tables come out even\<close>

text \<open>The layout and the writer together on the symbols of a group.\<close>

definition group_ok :: "table_arch \<Rightarrow> output_kind \<Rightarrow> u64 \<times> u64 \<Rightarrow> symbol_request list \<Rightarrow> nat \<Rightarrow> u64 part_map
    \<Rightarrow> elf_resolution list \<Rightarrow> bool" where
  "group_ok A okind tls syms n offs ress \<longleftrightarrow>
     (\<forall>s \<in> set syms. entries_ok okind tls s) \<and> length syms < 2 ^ 56 \<and> 30 \<le> n \<and> 30 \<le> length offs
     \<and> even (offs ! PART_GOT) \<and> map_option fst (create_resolutions syms offs) = Some ress
     \<and> (\<forall>res \<in> set ress. stub_ok A res)"

lemma group_written:
  assumes "group_ok A okind tls syms n offs ress"
  obtains sizes w w' where "allocate_resolutions okind relr syms (replicate n 0) = Some sizes"
    "table_writer_new okind tls sizes relr = Some w" "process_resolutions A (Some tp) ress w = ok w'"
    "spent (total_cost okind (map fst syms)) w w'" "fresh_writer okind tls relr (total_cost okind (map fst syms)) w"
    "got_out w' = concat (map (got_words A okind tls tp relr) ress)"
proof -
  obtain offs' where create: "create_resolutions syms offs = Some (ress, offs')"
    using assms by (auto simp: group_ok_def)
  have syms: "\<forall>s \<in> set syms. entries_ok okind tls s" "length syms < 2 ^ 56" "30 \<le> n" "30 \<le> length offs"
    "even (offs ! PART_GOT)" "\<forall>res \<in> set ress. stub_ok A res"
    using assms by (auto simp: group_ok_def)
  note facts = create_resolutions_facts [OF create syms(4,5,1)]
  obtain sizes where sizes: "allocate_resolutions okind relr syms (replicate n 0) = Some sizes"
    using allocate_resolutions_adds [OF syms(1), of relr] syms(3) unfolding adds_def
    by (auto dest!: spec [of _ "replicate n 0"])
  from allocated_writer [OF sizes syms(3,2,1)] obtain w where w: "table_writer_new okind tls sizes relr = Some w"
    "fresh_writer okind tls relr (total_cost okind (map fst syms)) w"
    by blast
  obtain g p rp rel gen where k: "total_cost okind (map fst syms) = (g, p, rp, rel, gen)"
    by (cases "total_cost okind (map fst syms)")
  have "tw_output w = okind" "tls_range w = tls" "has_entries (total_cost okind (map fst syms)) w"
    using w(2) by (simp_all add: k fresh_writer_def has_entries_def)
  then obtain w' where w': "process_resolutions A (Some tp) ress w = ok w'"
    "spent (total_cost okind (map fst syms)) w w'"
    using process_resolutions_spends [OF conjunct1 [OF conjunct2 [OF facts]] syms(6), of tp] conjunct1 [OF facts]
    unfolding spends_def by auto
  have packed: "setting w = (okind, tls, relr \<and> rel \<noteq> 0)" "got_out w = []"
    using w(2) by (auto simp: k fresh_writer_def setting_def)
  have "got_out w' = concat (map (got_words A okind tls tp (relr \<and> rel \<noteq> 0)) ress)"
    using process_resolutions_writes [OF conjunct1 [OF conjunct2 [OF facts]], of "relr \<and> rel \<noteq> 0" A tp,
        unfolded writes_def, rule_format, OF packed(1) w'(1)] packed(2) by simp
  moreover have "got_words A okind tls tp (relr \<and> rel \<noteq> 0) res = got_words A okind tls tp relr res" if "res \<in> set ress" for res
  proof (cases "rel = 0")
    case True
    have "res_flags res \<in> set (map fst syms)"
      using that conjunct1 [OF facts] by (metis image_eqI list.set_map)
    with total_cost_no_relative k True that facts got_words_packing show ?thesis
      by blast
  qed simp
  ultimately have "got_out w' = concat (map (got_words A okind tls tp relr) ress)"
    by (metis (no_types, lifting) map_cong)
  with that sizes w w' show thesis
    by blast
qed



text \<open>A group with a function called through the PLT, a variable of a shared object and a thread-local
  variable, in a shared object.\<close>

definition demo_arch :: table_arch where
  "demo_arch = \<lparr>arch_write_plt_entry = x86_64_write_plt_entry, arch_dynamic_type = (\<lambda>_. 0), arch_dtv_offset = 0\<rparr>"

definition demo_syms :: "symbol_request list" where
  "demo_syms = [(GOT OR PLT OR NON_INTERPOSABLE, 0x1500, None), (GOT OR DYNAMIC, 0, Some 3),
     (GOT_TLS_OFFSET OR GOT_TLS_MODULE OR NON_INTERPOSABLE, 0x4010, None)]"

definition demo_offsets :: "u64 part_map" where
  "demo_offsets = (replicate 47 0)[PART_GOT := 0x3000, PART_PLT_GOT := 0x1000]"

definition demo_ress :: "elf_resolution list" where
  "demo_ress =
     [\<lparr>res_raw_value = 0x1500, res_dynamic_symbol_index = None, res_flags = GOT OR PLT OR NON_INTERPOSABLE,
        res_got_address = Some 0x3000, res_plt_address = Some 0x1000\<rparr>,
      \<lparr>res_raw_value = 0, res_dynamic_symbol_index = Some 3, res_flags = GOT OR DYNAMIC,
        res_got_address = Some 0x3008, res_plt_address = None\<rparr>,
      \<lparr>res_raw_value = 0x4010, res_dynamic_symbol_index = None,
        res_flags = GOT_TLS_OFFSET OR GOT_TLS_MODULE OR NON_INTERPOSABLE,
        res_got_address = Some 0x3010, res_plt_address = None\<rparr>]"

lemma demo_group: "group_ok demo_arch SharedObject (0x4000, 0x4100) demo_syms 47 demo_offsets demo_ress"
proof -
  have "map_option fst (create_resolutions demo_syms demo_offsets) = Some demo_ress"
    by code_simp
  moreover have "list_all (entries_ok SharedObject (0x4000, 0x4100)) demo_syms" "list_all (stub_ok demo_arch) demo_ress"
    by code_simp+
  moreover have "even (demo_offsets ! PART_GOT)" "length demo_offsets = 47" "length demo_syms < 2 ^ 56"
    by (simp_all add: demo_offsets_def part_defs demo_syms_def)
  ultimately show ?thesis
    by (simp add: group_ok_def list_all_iff)
qed



section \<open>The consistency check\<close>

text \<open>\<open>verify_consistent_allocation_handling\<close> is meant to fail only where writing would fail. It runs the
  writer without a layout, which the offset of a thread-local variable needs: the check fails for every
  such symbol of a shared object, although the tables come out even.\<close>

theorem consistency_check_needs_layout:
  assumes "30 \<le> num_parts os"
  shows "verify_consistent_allocation_handling A os (GOT_TLS_OFFSET OR NON_INTERPOSABLE) SharedObject relr
      = err MissingLayout"
proof -
  have flags: "contains (GOT_TLS_OFFSET OR NON_INTERPOSABLE) GOT_TLS_OFFSET"
    "flags_is_tls (GOT_TLS_OFFSET OR NON_INTERPOSABLE)" "\<not> contains (GOT_TLS_OFFSET OR NON_INTERPOSABLE) PLT"
    "\<not> contains (GOT_TLS_OFFSET OR NON_INTERPOSABLE) GOT" "\<not> contains (GOT_TLS_OFFSET OR NON_INTERPOSABLE) GOT_TLS_MODULE"
    "\<not> contains (GOT_TLS_OFFSET OR NON_INTERPOSABLE) GOT_TLS_DESCRIPTOR"
    "\<not> contains (GOT_TLS_OFFSET OR NON_INTERPOSABLE) IFUNC_GOT_FOR_ADDRESS"
    by code_simp+
  have "entries_ok SharedObject (0, 100) (GOT_TLS_OFFSET OR NON_INTERPOSABLE, 1, None)"
    by code_simp
  then have syms: "\<forall>s \<in> set [(GOT_TLS_OFFSET OR NON_INTERPOSABLE, 1 :: u64, None :: u32 option)]. entries_ok SharedObject (0, 100) s"
    by simp
  obtain sizes where sizes: "allocate_resolution (GOT_TLS_OFFSET OR NON_INTERPOSABLE) (replicate (num_parts os) 0) SharedObject relr = Some sizes"
    using allocate_resolutions_adds [OF syms, of relr] assms unfolding adds_def
    by (auto dest!: spec [of _ "replicate (num_parts os) 0"] split: bind_splits)
  then obtain w where "table_writer_new SharedObject (0, 100) sizes relr = Some w"
    using allocated_writer [of SharedObject relr "[(GOT_TLS_OFFSET OR NON_INTERPOSABLE, 1, None)]" "num_parts os" sizes "(0, 100)"]
      syms assms by auto
  with sizes flags assms show ?thesis
    by (simp add: verify_consistent_allocation_handling_def create_resolution_def allocate_got_def nth_opt_def
        increment_in part_defs process_resolution_def process_tls_def Let_def)
qed

end
