(* ===== verification/Part_Layout.thy ===== *)
theory Part_Layout
  imports Output_Parts
begin

text \<open>
  The layout of the output file (\<open>layout.rs\<close>): every part of every output section gets an offset in the
  file and an address in memory, in the order of the layout events. The model is the ELF instance:
  \<open>align_load_segment_start\<close> is that of \<open>elf.rs\<close>. A value \<open>None\<close> is a panic of the source (an index out
  of bounds).
\<close>

section \<open>Events, segments and records\<close>

type_synonym segment_id = nat

datatype order_event =
  SegmentStart segment_id | SegmentEnd segment_id | Section output_section_id | SetLocation u64

text \<open>\<open>segment_order\<close> is the position \<open>ProgramSegmentDef::order_key\<close> gives the type of the segment.\<close>

record segment_def =
  is_loadable :: bool
  is_stack :: bool
  is_tls_segment :: bool
  segment_order :: nat

type_synonym program_segments = "segment_def list"

definition is_load_segment :: "program_segments \<Rightarrow> segment_id \<Rightarrow> bool option" where
  "is_load_segment ps i = map_option is_loadable (nth_opt ps i)"

record layout_args =
  loadable_segment_alignment :: alignment
  should_output_partial_object :: bool
  stack_size_override :: "u64 option"

record output_record_layout =
  file_size :: u64
  mem_size :: u64
  rec_alignment :: alignment
  file_offset :: u64
  mem_offset :: u64

definition default_record :: output_record_layout where
  "default_record = \<lparr>file_size = 0, mem_size = 0, rec_alignment = Alignment 0, file_offset = 0, mem_offset = 0\<rparr>"

section \<open>The alignment of the load segments\<close>

type_synonym segment_alignments = "segment_id \<rightharpoonup> alignment"

text \<open>The alignments so far, and the load segments that are open.\<close>

definition segment_alignment_step :: "layout_args \<Rightarrow> output_sections \<Rightarrow> program_segments \<Rightarrow> u64 part_map \<Rightarrow> order_event
    \<Rightarrow> segment_alignments \<times> segment_id list \<Rightarrow> (segment_alignments \<times> segment_id list) option" where
  "segment_alignment_step args os ps sizes event st =
     (let (als, active) = st
      in case event of
           SegmentStart i \<Rightarrow> do {
             load \<leftarrow> is_load_segment ps i;
             Some (if load
                   then (case als i of None \<Rightarrow> als(i \<mapsto> loadable_segment_alignment args) | Some _ \<Rightarrow> als,
                         active @ [i])
                   else (als, active))
           }
         | SegmentEnd i \<Rightarrow> Some (als, filter (\<lambda>j. j \<noteq> i) active)
         | Section s \<Rightarrow> do {
             m \<leftarrow> max_alignment os sizes (part_id_range s);
             Some (fold (\<lambda>i als. case als i of None \<Rightarrow> als | Some a \<Rightarrow> als(i \<mapsto> max a m)) active als, active)
           }
         | SetLocation _ \<Rightarrow> Some (als, active))"

definition compute_segment_alignments :: "layout_args \<Rightarrow> output_sections \<Rightarrow> program_segments \<Rightarrow> u64 part_map
    \<Rightarrow> order_event list \<Rightarrow> segment_alignments option" where
  "compute_segment_alignments args os ps sizes events =
     map_option fst (try_fold (segment_alignment_step args os ps sizes) events (\<lambda>_. None, []))"

section \<open>Placing the parts\<close>

record layout_state =
  cur_file_offset :: u64
  cur_mem_offset :: u64
  nonalloc_mem_offsets :: "u64 list"
  reloc_alloc_mem_offsets :: "u64 list"
  pending_location :: "u64 option"
  records_out :: "output_record_layout list"

text \<open>\<open>Elf::align_load_segment_start\<close>.\<close>

definition align_load_segment_start :: "alignment \<Rightarrow> u64 \<Rightarrow> u64 \<Rightarrow> u64 option" where
  "align_load_segment_start al file mem = align_modulo al file mem"

definition put_record :: "part_id \<Rightarrow> output_record_layout \<Rightarrow> layout_state \<Rightarrow> layout_state option" where
  "put_record p r st = do {
     out \<leftarrow> update_opt (records_out st) p r;
     Some (st\<lparr>records_out := out\<rparr>)
   }"

text \<open>One iteration of the loop over the parts of a section.\<close>

definition part_mem_size :: "layout_args \<Rightarrow> output_section_id \<Rightarrow> u64 \<Rightarrow> layout_state \<Rightarrow> u64 option" where
  "part_mem_size args s part_size st =
     (if s = RELRO_PADDING then do {
        aligned_offset \<leftarrow> align_up (loadable_segment_alignment args) (cur_mem_offset st);
        Some (aligned_offset - cur_mem_offset st)
      }
      else Some part_size)"

definition place_part :: "layout_args \<Rightarrow> output_sections \<Rightarrow> output_section_id \<Rightarrow> alignment
    \<Rightarrow> part_id \<times> u64 \<Rightarrow> layout_state \<Rightarrow> layout_state option" where
  "place_part args os s max_al ps st = do {
     let (p, part_size) = ps;
     al \<leftarrow> part_alignment os p;
     let al = min al max_al;
     target \<leftarrow> primary_output_section os s;
     info \<leftarrow> output_info os target;
     size \<leftarrow> part_mem_size args s part_size st;
     file \<leftarrow> align_up al (cur_file_offset st);
     if is_alloc info then do {
       let fsize = (if has_data_in_file info then size else 0);
       if should_output_partial_object args then do {
         let sid = part_output_section_id p;
         m \<leftarrow> nth_opt (reloc_alloc_mem_offsets st) sid;
         mem \<leftarrow> align_up al m;
         offsets \<leftarrow> update_opt (reloc_alloc_mem_offsets st) sid (mem + size);
         put_record p \<lparr>file_size = fsize, mem_size = size, rec_alignment = al, file_offset = file, mem_offset = mem\<rparr>
           (st\<lparr>cur_file_offset := file + fsize, reloc_alloc_mem_offsets := offsets\<rparr>)
       }
       else do {
         mem \<leftarrow> align_up al (cur_mem_offset st);
         put_record p \<lparr>file_size = fsize, mem_size = size, rec_alignment = al, file_offset = file, mem_offset = mem\<rparr>
           (st\<lparr>cur_file_offset := file + fsize, cur_mem_offset := mem + size\<rparr>)
       }
     }
     else do {
       let sid = part_output_section_id p;
       m \<leftarrow> nth_opt (nonalloc_mem_offsets st) sid;
       mem \<leftarrow> align_up al m;
       offsets \<leftarrow> update_opt (nonalloc_mem_offsets st) sid (m + size);
       put_record p \<lparr>file_size = size, mem_size = size, rec_alignment = al, file_offset = file, mem_offset = mem\<rparr>
         (st\<lparr>cur_file_offset := file + size, nonalloc_mem_offsets := offsets\<rparr>)
     }
   }"

definition section_parts :: "u64 part_map \<Rightarrow> output_section_id \<Rightarrow> (part_id \<times> u64) list option" where
  "section_parts sizes s = do {
     slice \<leftarrow> part_slice sizes (part_id_range s);
     Some (zip [fst (part_id_range s)..<snd (part_id_range s)] slice)
   }"

definition place_section :: "layout_args \<Rightarrow> output_sections \<Rightarrow> u64 part_map \<Rightarrow> output_section_id
    \<Rightarrow> layout_state \<Rightarrow> layout_state option" where
  "place_section args os sizes s st = do {
     info \<leftarrow> output_info os s;
     max_al \<leftarrow> max_alignment os sizes (part_id_range s);
     let st = (case location info of None \<Rightarrow> st | Some a \<Rightarrow> st\<lparr>cur_mem_offset := a\<rparr>);
     parts \<leftarrow> section_parts sizes s;
     try_fold (place_part args os s max_al) parts st
   }"

definition start_segment :: "layout_args \<Rightarrow> program_segments \<Rightarrow> segment_alignments \<Rightarrow> segment_id
    \<Rightarrow> layout_state \<Rightarrow> layout_state option" where
  "start_segment args ps als i st = do {
     load \<leftarrow> is_load_segment ps i;
     if \<not> load then Some st
     else do {
       let al = (case als i of None \<Rightarrow> loadable_segment_alignment args | Some a \<Rightarrow> a);
       case pending_location st of
         Some a \<Rightarrow> do {
           file \<leftarrow> align_modulo al a (cur_file_offset st);
           Some (st\<lparr>pending_location := None, cur_mem_offset := a, cur_file_offset := file\<rparr>)
         }
       | None \<Rightarrow> do {
           mem \<leftarrow> align_load_segment_start al (cur_file_offset st) (cur_mem_offset st);
           Some (st\<lparr>cur_mem_offset := mem\<rparr>)
         }
     }
   }"

fun layout_event :: "layout_args \<Rightarrow> output_sections \<Rightarrow> program_segments \<Rightarrow> u64 part_map \<Rightarrow> segment_alignments
    \<Rightarrow> order_event \<Rightarrow> layout_state \<Rightarrow> layout_state option" where
  "layout_event args os ps sizes als (SetLocation a) st = Some (st\<lparr>pending_location := Some a\<rparr>)"
| "layout_event args os ps sizes als (SegmentStart i) st = start_segment args ps als i st"
| "layout_event args os ps sizes als (SegmentEnd i) st = Some st"
| "layout_event args os ps sizes als (Section s) st = place_section args os sizes s st"

definition layout_start :: "output_sections \<Rightarrow> layout_state" where
  "layout_start os =
     \<lparr>cur_file_offset = 0, cur_mem_offset = base_address os,
      nonalloc_mem_offsets = replicate (num_sections os) 0,
      reloc_alloc_mem_offsets = replicate (num_sections os) 0,
      pending_location = None, records_out = replicate (num_parts os) default_record\<rparr>"

definition layout_section_parts :: "layout_args \<Rightarrow> output_sections \<Rightarrow> program_segments \<Rightarrow> u64 part_map
    \<Rightarrow> order_event list \<Rightarrow> output_record_layout list option" where
  "layout_section_parts args os ps sizes events = do {
     als \<leftarrow> compute_segment_alignments args os ps sizes events;
     st \<leftarrow> try_fold (layout_event args os ps sizes als) events (layout_start os);
     Some (records_out st)
   }"

section \<open>Placing one part\<close>

lemma align_up_16:
  assumes "alignment_ok a" "unat v + 2 ^ 16 \<le> 2 ^ 64"
  obtains r where "align_up a v = Some r" "unat v \<le> unat r" "unat r < unat v + 2 ^ unat (exponent a)"
    "2 ^ unat (exponent a) dvd unat r" "unat r < unat v + 2 ^ 16"
proof -
  have le: "(2 :: nat) ^ unat (exponent a) \<le> 2 ^ 16"
    using assms(1) by (intro power_increasing) (simp_all add: alignment_ok_exponent)
  then have "unat v + 2 ^ unat (exponent a) \<le> 2 ^ 64"
    using assms(2) by linarith
  from align_up_spec [OF assms(1) this] obtain r where "align_up a v = Some r" "unat v \<le> unat r"
      "unat r < unat v + 2 ^ unat (exponent a)" "2 ^ unat (exponent a) dvd unat r"
    by blast
  moreover from this(3) le have "unat r < unat v + 2 ^ 16"
    by (rule order_less_le_trans [OF _ add_left_mono])
  ultimately show thesis
    by (rule that)
qed

text \<open>
  The offsets stay within a budget: \<open>c\<close> bounds what has been laid out, \<open>M\<close> the base address and the
  locations a linker script asks for.
\<close>

definition layout_inv :: "output_sections \<Rightarrow> nat \<Rightarrow> nat \<Rightarrow> layout_state \<Rightarrow> bool" where
  "layout_inv os M c st \<longleftrightarrow> unat (cur_file_offset st) \<le> c \<and> unat (cur_mem_offset st) \<le> M + c
     \<and> length (nonalloc_mem_offsets st) = num_sections os
     \<and> length (reloc_alloc_mem_offsets st) = num_sections os
     \<and> (\<forall>x \<in> set (nonalloc_mem_offsets st) \<union> set (reloc_alloc_mem_offsets st). unat x \<le> c)
     \<and> (\<forall>a. pending_location st = Some a \<longrightarrow> unat a \<le> M)
     \<and> length (records_out st) = num_parts os"

lemma layout_inv_mono:
  assumes "layout_inv os M c st" "c \<le> d"
  shows "layout_inv os M d st"
proof -
  have "\<forall>x \<in> set (nonalloc_mem_offsets st) \<union> set (reloc_alloc_mem_offsets st). unat x \<le> d"
    using assms order_trans unfolding layout_inv_def by blast
  then show ?thesis
    using assms by (simp add: layout_inv_def)
qed

text \<open>What placing the part \<open>p\<close> does to the state, for a section whose target is \<open>info\<close>.\<close>

definition in_memory :: "layout_args \<Rightarrow> section_output_info \<Rightarrow> bool" where
  "in_memory args info \<longleftrightarrow> is_alloc info \<and> \<not> should_output_partial_object args"

definition placed :: "layout_args \<Rightarrow> section_output_info \<Rightarrow> alignment \<Rightarrow> part_id \<Rightarrow> layout_state \<Rightarrow> layout_state
    \<Rightarrow> output_record_layout \<Rightarrow> bool" where
  "placed args info al p st st' r \<longleftrightarrow>
     records_out st' = (records_out st)[p := r] \<and> p < length (records_out st)
     \<and> rec_alignment r = al
     \<and> 2 ^ unat (exponent al) dvd unat (file_offset r) \<and> 2 ^ unat (exponent al) dvd unat (mem_offset r)
     \<and> unat (cur_file_offset st) \<le> unat (file_offset r)
     \<and> unat (file_offset r) < unat (cur_file_offset st) + 2 ^ unat (exponent al)
     \<and> unat (cur_file_offset st') = unat (file_offset r) + unat (file_size r)
     \<and> file_size r = (if is_alloc info \<and> \<not> has_data_in_file info then 0 else mem_size r)
     \<and> pending_location st' = pending_location st
     \<and> (if in_memory args info
        then unat (cur_mem_offset st) \<le> unat (mem_offset r)
          \<and> unat (mem_offset r) < unat (cur_mem_offset st) + 2 ^ unat (exponent al)
          \<and> unat (cur_mem_offset st') = unat (mem_offset r) + unat (mem_size r)
        else cur_mem_offset st' = cur_mem_offset st)"

lemma layout_bounds:
  "(2 :: nat) ^ 63 + 2 ^ 63 = 2 ^ 64" "(2 :: nat) ^ 17 = 2 ^ 16 + 2 ^ 16" "(2 :: nat) ^ 18 = 2 ^ 17 + 2 ^ 17"
  "(2 :: nat) ^ 16 > 0"
  by simp_all

lemma unat_add_small: "unat a + unat b < 2 ^ 64 \<Longrightarrow> unat (a + b :: u64) = unat a + unat b"
  by (simp add: unat_word_ariths)

lemma part_mem_size_total:
  assumes "alignment_ok (loadable_segment_alignment args)" "unat (cur_mem_offset st) + 2 ^ 16 \<le> 2 ^ 64"
  obtains sz where "part_mem_size args s part_size st = Some sz"
    "unat sz < unat part_size + 2 ^ 16" "s \<noteq> RELRO_PADDING \<Longrightarrow> sz = part_size"
proof (cases "s = RELRO_PADDING")
  case True
  obtain a where a: "align_up (loadable_segment_alignment args) (cur_mem_offset st) = Some a"
      "unat (cur_mem_offset st) \<le> unat a" "unat a < unat (cur_mem_offset st) + 2 ^ 16"
    using assms by (rule align_up_16) 
  have "unat (a - cur_mem_offset st) = unat a - unat (cur_mem_offset st)"
    using a(2) by (simp add: unat_sub word_le_nat_alt)
  then have "unat (a - cur_mem_offset st) < unat part_size + 2 ^ 16"
    using a(2,3) by linarith
  then show thesis
    using that [of "a - cur_mem_offset st"] a(1) True by (simp add: part_mem_size_def)
next
  case False
  then show thesis
    using that [of part_size] by (simp add: part_mem_size_def)
qed

lemma place_part_ok:
  assumes "sections_ok os" "alignment_ok (loadable_segment_alignment args)" "alignment_ok max_al"
    and "part_output_section_id p = s" "s < num_sections os" "p < num_parts os"
    and "layout_inv os M c st" "M + c + unat part_size + 2 ^ 18 \<le> 2 ^ 63"
    and "primary_output_section os s = Some t" "output_info os t = Some info"
    and "part_alignment os p = Some al"
  shows "\<exists>st' r. place_part args os s max_al (p, part_size) st = Some st'
    \<and> placed args info (min al max_al) p st st' r \<and> (s \<noteq> RELRO_PADDING \<longrightarrow> mem_size r = part_size)
    \<and> layout_inv os M (c + unat part_size + 2 ^ 17) st'"
proof -
  let ?al = "min al max_al"
  have al: "alignment_ok ?al"
    using part_alignment_total [OF assms(1,6)] assms(11) min_alignment_ok by (metis option.inject)
  have b: "unat (cur_file_offset st) \<le> c" "unat (cur_mem_offset st) \<le> M + c"
      "length (nonalloc_mem_offsets st) = num_sections os"
      "length (reloc_alloc_mem_offsets st) = num_sections os"
      "\<And>x. x \<in> set (nonalloc_mem_offsets st) \<union> set (reloc_alloc_mem_offsets st) \<Longrightarrow> unat x \<le> c"
      "length (records_out st) = num_parts os"
    using assms(7) by (auto simp: layout_inv_def)
  obtain sz where sz: "part_mem_size args s part_size st = Some sz" "unat sz < unat part_size + 2 ^ 16"
      "s \<noteq> RELRO_PADDING \<Longrightarrow> sz = part_size"
    using part_mem_size_total [OF assms(2), of st s part_size] b(2) assms(8) by auto
  obtain fo where fo: "align_up ?al (cur_file_offset st) = Some fo"
      "unat (cur_file_offset st) \<le> unat fo" "unat fo < unat (cur_file_offset st) + 2 ^ unat (exponent ?al)"
      "2 ^ unat (exponent ?al) dvd unat fo" "unat fo < unat (cur_file_offset st) + 2 ^ 16"
    using align_up_16 [OF al, of "cur_file_offset st"] b(1) assms(8) by auto
  obtain mem where mem: "align_up ?al (cur_mem_offset st) = Some mem"
      "unat (cur_mem_offset st) \<le> unat mem" "unat mem < unat (cur_mem_offset st) + 2 ^ unat (exponent ?al)"
      "2 ^ unat (exponent ?al) dvd unat mem" "unat mem < unat (cur_mem_offset st) + 2 ^ 16"
    using align_up_16 [OF al, of "cur_mem_offset st"] b(2) assms(8) by auto
  define fs where "fs = (if is_alloc info \<and> \<not> has_data_in_file info then 0 else sz)"
  have fsize: "unat fs \<le> unat sz"
    by (simp add: fs_def)
  have fo': "unat (fo + fs) = unat fo + unat fs"
    by (rule unat_add_small) (use fo(5) fsize b(1) sz(2) assms(8) layout_bounds in linarith)
  have mem': "unat (mem + sz) = unat mem + unat sz"
    by (rule unat_add_small) (use mem(5) b(2) sz(2) assms(8) layout_bounds in linarith)
  have inv: "unat (fo + fs) \<le> c + unat part_size + 2 ^ 17" "unat (mem + sz) \<le> M + (c + unat part_size + 2 ^ 17)"
    using fo' mem' fo(5) mem(5) fsize sz(2) b(1,2) layout_bounds by linarith+
  have inv0: "layout_inv os M (c + unat part_size + 2 ^ 17) st"
    using assms(7) by (rule layout_inv_mono) simp
  have sid: "part_output_section_id p < num_sections os"
    using assms(4,5) by simp
  have off: "\<exists>m'. align_up ?al m = Some m' \<and> 2 ^ unat (exponent ?al) dvd unat m'
      \<and> unat (m' + sz) \<le> c + unat part_size + 2 ^ 17 \<and> unat (m + sz) \<le> c + unat part_size + 2 ^ 17"
    if m: "unat m \<le> c" for m
  proof -
    obtain m' where m': "align_up ?al m = Some m'" "2 ^ unat (exponent ?al) dvd unat m'"
        "unat m' < unat m + 2 ^ 16"
      using align_up_16 [OF al, of m] m assms(8) by auto
    have "unat (m' + sz) = unat m' + unat sz" "unat (m + sz) = unat m + unat sz"
      by (rule unat_add_small, use m m'(3) sz(2) assms(8) layout_bounds in linarith)+
    then show ?thesis
      using m' m sz(2) layout_bounds by auto
  qed
  let ?r = "\<lambda>m. \<lparr>file_size = fs, mem_size = sz, rec_alignment = ?al, file_offset = fo, mem_offset = m\<rparr>"
  note defs = place_part_def put_record_def sz(1) fo(1) assms(9-11) Let_def
  show ?thesis
  proof (cases "is_alloc info")
    case True
    show ?thesis
    proof (cases "should_output_partial_object args")
      case True
      let ?m = "reloc_alloc_mem_offsets st ! part_output_section_id p"
      have "unat ?m \<le> c"
        using b(4,5) sid by simp
      from off [OF this] obtain m' where m': "align_up ?al ?m = Some m'" "2 ^ unat (exponent ?al) dvd unat m'"
          "unat (m' + sz) \<le> c + unat part_size + 2 ^ 17"
        by blast
      have "place_part args os s max_al (p, part_size) st = Some (st\<lparr>cur_file_offset := fo + fs,
          reloc_alloc_mem_offsets := (reloc_alloc_mem_offsets st)[part_output_section_id p := m' + sz],
          records_out := (records_out st)[p := ?r m']\<rparr>)"
        using \<open>is_alloc info\<close> True m'(1) sid b(4,6) assms(6) by (auto simp: defs nth_opt_def update_opt_def fs_def)
      moreover have "layout_inv os M (c + unat part_size + 2 ^ 17) (st\<lparr>cur_file_offset := fo + fs,
          reloc_alloc_mem_offsets := (reloc_alloc_mem_offsets st)[part_output_section_id p := m' + sz],
          records_out := (records_out st)[p := ?r m']\<rparr>)"
        using inv0 m'(3) inv by (auto simp: layout_inv_def dest!: set_mp [OF set_update_subset_insert])
      moreover have "placed args info ?al p st (st\<lparr>cur_file_offset := fo + fs,
          reloc_alloc_mem_offsets := (reloc_alloc_mem_offsets st)[part_output_section_id p := m' + sz],
          records_out := (records_out st)[p := ?r m']\<rparr>) (?r m')"
        using \<open>should_output_partial_object args\<close> \<open>is_alloc info\<close> fo fo' m'(2) b(6) assms(6) by (auto simp: placed_def in_memory_def fs_def)
      ultimately show ?thesis
        using sz(3) by (intro exI [of _ "?r m'"] exI [of _ "st\<lparr>cur_file_offset := fo + fs,
          reloc_alloc_mem_offsets := (reloc_alloc_mem_offsets st)[part_output_section_id p := m' + sz],
          records_out := (records_out st)[p := ?r m']\<rparr>"]) simp
    next
      case False
      have "place_part args os s max_al (p, part_size) st = Some (st\<lparr>cur_file_offset := fo + fs,
          cur_mem_offset := mem + sz, records_out := (records_out st)[p := ?r mem]\<rparr>)"
        using \<open>is_alloc info\<close> False mem(1) b(6) assms(6) by (auto simp: defs update_opt_def fs_def)
      moreover have "layout_inv os M (c + unat part_size + 2 ^ 17) (st\<lparr>cur_file_offset := fo + fs,
          cur_mem_offset := mem + sz, records_out := (records_out st)[p := ?r mem]\<rparr>)"
        using inv0 inv by (auto simp: layout_inv_def)
      moreover have "placed args info ?al p st (st\<lparr>cur_file_offset := fo + fs,
          cur_mem_offset := mem + sz, records_out := (records_out st)[p := ?r mem]\<rparr>) (?r mem)"
        using False \<open>is_alloc info\<close> fo fo' mem mem' b(6) assms(6) by (auto simp: placed_def in_memory_def fs_def)
      ultimately show ?thesis
        using sz(3) by (intro exI [of _ "?r mem"] exI [of _ "st\<lparr>cur_file_offset := fo + fs,
          cur_mem_offset := mem + sz, records_out := (records_out st)[p := ?r mem]\<rparr>"]) simp
    qed
  next
    case False
    let ?m = "nonalloc_mem_offsets st ! part_output_section_id p"
    have "unat ?m \<le> c"
      using b(3,5) sid by simp
    from off [OF this] obtain m' where m': "align_up ?al ?m = Some m'" "2 ^ unat (exponent ?al) dvd unat m'"
        "unat (?m + sz) \<le> c + unat part_size + 2 ^ 17"
      by blast
    have "place_part args os s max_al (p, part_size) st = Some (st\<lparr>cur_file_offset := fo + fs,
        nonalloc_mem_offsets := (nonalloc_mem_offsets st)[part_output_section_id p := ?m + sz],
        records_out := (records_out st)[p := ?r m']\<rparr>)"
      using False m'(1) sid b(3,6) assms(6) by (auto simp: defs nth_opt_def update_opt_def fs_def)
    moreover have "layout_inv os M (c + unat part_size + 2 ^ 17) (st\<lparr>cur_file_offset := fo + fs,
        nonalloc_mem_offsets := (nonalloc_mem_offsets st)[part_output_section_id p := ?m + sz],
        records_out := (records_out st)[p := ?r m']\<rparr>)"
      using inv0 m'(3) inv by (auto simp: layout_inv_def dest!: set_mp [OF set_update_subset_insert])
    moreover have "placed args info ?al p st (st\<lparr>cur_file_offset := fo + fs,
        nonalloc_mem_offsets := (nonalloc_mem_offsets st)[part_output_section_id p := ?m + sz],
        records_out := (records_out st)[p := ?r m']\<rparr>) (?r m')"
      using False fo fo' m'(2) b(6) assms(6) by (auto simp: placed_def in_memory_def fs_def)
    ultimately show ?thesis
      using sz(3) by (intro exI [of _ "?r m'"] exI [of _ "st\<lparr>cur_file_offset := fo + fs,
        nonalloc_mem_offsets := (nonalloc_mem_offsets st)[part_output_section_id p := ?m + sz],
        records_out := (records_out st)[p := ?r m']\<rparr>"]) simp
  qed
qed

end
