(* ===== verification/Part_Layout_Spec.thy ===== *)
theory Part_Layout_Spec
  imports Part_Layout
begin

text \<open>
  What the layout promises: it does not panic on well-formed output sections, the parts do not overlap
  in the file, nor in memory unless a linker script moves them, every part stands at its alignment, and
  inside a load segment offsets and addresses agree modulo the alignment of the segment.
\<close>

section \<open>Intervals in order\<close>

definition ordered_spans :: "(nat \<Rightarrow> nat \<times> nat) \<Rightarrow> nat list \<Rightarrow> nat \<Rightarrow> bool" where
  "ordered_spans span ps c \<longleftrightarrow> sorted_wrt (\<lambda>p q. snd (span p) \<le> fst (span q)) ps
     \<and> (\<forall>p \<in> set ps. fst (span p) \<le> snd (span p) \<and> snd (span p) \<le> c)"

lemma ordered_spans_Nil [simp]: "ordered_spans span [] c"
  by (simp add: ordered_spans_def)

lemma ordered_spans_mono: "ordered_spans span ps c \<Longrightarrow> c \<le> d \<Longrightarrow> ordered_spans span ps d"
  by (auto simp: ordered_spans_def intro: order_trans)

lemma ordered_spans_cong:
  assumes "ordered_spans span ps c" "\<And>p. p \<in> set ps \<Longrightarrow> span' p = span p"
  shows "ordered_spans span' ps c"
proof -
  have "sorted_wrt (\<lambda>p q. snd (span' p) \<le> fst (span' q)) ps"
    using assms sorted_wrt_mono_rel [of ps "\<lambda>p q. snd (span p) \<le> fst (span q)"]
    by (simp add: ordered_spans_def)
  then show ?thesis
    using assms by (simp add: ordered_spans_def)
qed

lemma ordered_spans_snoc:
  assumes "ordered_spans span ps c" "c \<le> fst (span p)" "fst (span p) \<le> snd (span p)" "snd (span p) \<le> d"
  shows "ordered_spans span (ps @ [p]) d"
  using assms by (fastforce simp: ordered_spans_def sorted_wrt_append)

definition file_span :: "output_record_layout list \<Rightarrow> part_id \<Rightarrow> nat \<times> nat" where
  "file_span rs p = (unat (file_offset (rs ! p)), unat (file_offset (rs ! p)) + unat (file_size (rs ! p)))"

definition mem_span :: "output_record_layout list \<Rightarrow> part_id \<Rightarrow> nat \<times> nat" where
  "mem_span rs p = (unat (mem_offset (rs ! p)), unat (mem_offset (rs ! p)) + unat (mem_size (rs ! p)))"

section \<open>Inputs\<close>

definition target_info :: "output_sections \<Rightarrow> output_section_id \<Rightarrow> section_output_info option" where
  "target_info os s = Option.bind (primary_output_section os s) (output_info os)"

text \<open>The parts that take up addresses of the program.\<close>

definition occupies_memory :: "layout_args \<Rightarrow> output_sections \<Rightarrow> part_id \<Rightarrow> bool" where
  "occupies_memory args os p \<longleftrightarrow>
     (case target_info os (part_output_section_id p) of None \<Rightarrow> False | Some info \<Rightarrow> in_memory args info)"

fun event_parts :: "order_event \<Rightarrow> part_id list" where
  "event_parts (Section s) = [fst (part_id_range s)..<snd (part_id_range s)]"
| "event_parts _ = []"

definition laid_out :: "order_event list \<Rightarrow> part_id list" where
  "laid_out events = concat (map event_parts events)"

definition parts_cost :: "u64 part_map \<Rightarrow> part_id list \<Rightarrow> nat" where
  "parts_cost sizes ps = sum_list (map (\<lambda>p. unat (sizes ! p) + 2 ^ 17) ps)"

fun event_cost :: "u64 part_map \<Rightarrow> order_event \<Rightarrow> nat" where
  "event_cost sizes (Section s) = parts_cost sizes (event_parts (Section s))"
| "event_cost sizes (SegmentStart _) = 2 ^ 17"
| "event_cost sizes _ = 0"

definition layout_cost :: "u64 part_map \<Rightarrow> order_event list \<Rightarrow> nat" where
  "layout_cost sizes events = sum_list (map (event_cost sizes) events)"

fun event_ok :: "output_sections \<Rightarrow> program_segments \<Rightarrow> nat \<Rightarrow> order_event \<Rightarrow> bool" where
  "event_ok os ps M (Section s) \<longleftrightarrow> s < num_sections os"
| "event_ok os ps M (SegmentStart i) \<longleftrightarrow> i < length ps"
| "event_ok os ps M (SegmentEnd i) \<longleftrightarrow> True"
| "event_ok os ps M (SetLocation a) \<longleftrightarrow> unat a \<le> M"

definition layout_input_ok :: "layout_args \<Rightarrow> output_sections \<Rightarrow> program_segments \<Rightarrow> u64 part_map \<Rightarrow> order_event list
    \<Rightarrow> nat \<Rightarrow> bool" where
  "layout_input_ok args os ps sizes events M \<longleftrightarrow> sections_ok os \<and> length sizes = num_parts os
     \<and> alignment_ok (loadable_segment_alignment args) \<and> list_all (event_ok os ps M) events
     \<and> distinct (laid_out events) \<and> unat (base_address os) \<le> M
     \<and> list_all (\<lambda>info. case location info of None \<Rightarrow> True | Some a \<Rightarrow> unat a \<le> M) (section_infos os)
     \<and> M + layout_cost sizes events + 2 ^ 18 \<le> 2 ^ 63"

text \<open>No linker script moves a section.\<close>

definition no_locations :: "output_sections \<Rightarrow> order_event list \<Rightarrow> bool" where
  "no_locations os events \<longleftrightarrow> list_all (\<lambda>e. case e of SetLocation _ \<Rightarrow> False | _ \<Rightarrow> True) events
     \<and> list_all (\<lambda>info. location info = None) (section_infos os)"

section \<open>What the loop keeps\<close>

definition part_ok :: "output_sections \<Rightarrow> u64 part_map \<Rightarrow> output_record_layout list \<Rightarrow> part_id \<Rightarrow> bool" where
  "part_ok os sizes rs p \<longleftrightarrow>
     2 ^ unat (exponent (rec_alignment (rs ! p))) dvd unat (file_offset (rs ! p))
     \<and> 2 ^ unat (exponent (rec_alignment (rs ! p))) dvd unat (mem_offset (rs ! p))
     \<and> (part_output_section_id p \<noteq> RELRO_PADDING \<longrightarrow> mem_size (rs ! p) = sizes ! p)
     \<and> (sizes ! p \<noteq> 0 \<longrightarrow> part_alignment os p = Some (rec_alignment (rs ! p)))"

definition layout_done :: "layout_args \<Rightarrow> output_sections \<Rightarrow> u64 part_map \<Rightarrow> bool \<Rightarrow> part_id list \<Rightarrow> layout_state \<Rightarrow> bool" where
  "layout_done args os sizes located ps st \<longleftrightarrow>
     ordered_spans (file_span (records_out st)) ps (unat (cur_file_offset st))
     \<and> (located \<or> ordered_spans (mem_span (records_out st)) (filter (occupies_memory args os) ps)
          (unat (cur_mem_offset st)) \<and> pending_location st = None)
     \<and> list_all (part_ok os sizes (records_out st)) ps"

lemma layout_done_placed:
  assumes "layout_done args os sizes located ps st" "placed args info al p st st' r" "p \<notin> set ps"
    and "target_info os (part_output_section_id p) = Some info"
    and "part_output_section_id p \<noteq> RELRO_PADDING \<longrightarrow> mem_size r = sizes ! p"
    and "sizes ! p \<noteq> 0 \<longrightarrow> part_alignment os p = Some al"
  shows "layout_done args os sizes located (ps @ [p]) st'"
proof -
  have rs: "records_out st' = (records_out st)[p := r]" "p < length (records_out st)"
    using assms(2) by (auto simp: placed_def)
  have keep: "records_out st' ! q = records_out st ! q" if "q \<in> set ps" for q
    using rs(1) that assms(3) by (metis nth_list_update_neq)
  have here: "records_out st' ! p = r"
    using rs by simp
  have "ordered_spans (file_span (records_out st')) (ps @ [p]) (unat (cur_file_offset st'))"
  proof (rule ordered_spans_snoc)
    show "ordered_spans (file_span (records_out st')) ps (unat (cur_file_offset st))"
      using assms(1) keep by (auto simp: layout_done_def file_span_def elim: ordered_spans_cong)
  qed (use assms(2) here in \<open>auto simp: placed_def file_span_def\<close>)
  moreover have "ordered_spans (mem_span (records_out st')) (filter (occupies_memory args os) (ps @ [p]))
      (unat (cur_mem_offset st')) \<and> pending_location st' = None" if "\<not> located"
  proof -
    have old: "ordered_spans (mem_span (records_out st')) (filter (occupies_memory args os) ps)
        (unat (cur_mem_offset st))" "pending_location st' = None"
      using assms(1,2) that keep by (auto simp: layout_done_def mem_span_def placed_def elim: ordered_spans_cong)
    show ?thesis
    proof (cases "in_memory args info")
      case True
      then have "ordered_spans (mem_span (records_out st')) (filter (occupies_memory args os) ps @ [p])
          (unat (cur_mem_offset st'))"
        using assms(2) here by (intro ordered_spans_snoc [OF old(1)]) (auto simp: placed_def mem_span_def)
      then show ?thesis
        using True assms(4) old(2) by (simp add: occupies_memory_def)
    next
      case False
      then show ?thesis
        using old assms(2,4) by (simp add: occupies_memory_def placed_def)
    qed
  qed
  moreover have "list_all (part_ok os sizes (records_out st')) (ps @ [p])"
    using assms(1,2,5,6) keep here by (auto simp: layout_done_def part_ok_def placed_def list_all_iff)
  ultimately show ?thesis
    by (auto simp: layout_done_def)
qed

lemma parts_cost_append [simp]: "parts_cost sizes (ps @ qs) = parts_cost sizes ps + parts_cost sizes qs"
  and parts_cost_Nil [simp]: "parts_cost sizes [] = 0"
  and parts_cost_single [simp]: "parts_cost sizes [p] = unat (sizes ! p) + 2 ^ 17"
  by (simp_all add: parts_cost_def)

lemma section_parts_total:
  assumes "length sizes = num_parts os" "s < num_sections os"
  shows "section_parts sizes s = Some (map (\<lambda>p. (p, sizes ! p)) (event_parts (Section s)))"
proof -
  obtain xs where xs: "part_slice sizes (part_id_range s) = Some xs" "length xs = section_num_parts s"
      "\<forall>i < section_num_parts s. xs ! i = sizes ! (base_part_id s + i)"
    using assms by (rule part_slice_total)
  have "zip [fst (part_id_range s)..<snd (part_id_range s)] xs
      = map (\<lambda>p. (p, sizes ! p)) [fst (part_id_range s)..<snd (part_id_range s)]"
    using xs(2,3) by (intro nth_equalityI) (simp_all add: part_id_range_def)
  then show ?thesis
    using xs(1) by (simp add: section_parts_def)
qed

text \<open>
  The loop over the parts of a section, for anything \<open>K\<close> that placing a part keeps.
\<close>

lemma place_section_fold:
  assumes "sections_ok os" "alignment_ok (loadable_segment_alignment args)" "length sizes = num_parts os"
    and "s < num_sections os" "layout_inv os M c st"
    and "M + c + parts_cost sizes (event_parts (Section s)) + 2 ^ 18 \<le> 2 ^ 63"
    and "output_info os s = Some info0" "\<And>a. location info0 = Some a \<Longrightarrow> unat a \<le> M"
    and "K [] (case location info0 of None \<Rightarrow> st | Some a \<Rightarrow> st\<lparr>cur_mem_offset := a\<rparr>)"
    and "max_alignment os sizes (part_id_range s) = Some m" "alignment_ok m"
    and "\<And>qs p al info st st' r. K qs st \<Longrightarrow> placed args info (min al m) p st st' r \<Longrightarrow>
      part_output_section_id p = s \<Longrightarrow> p \<notin> set qs \<Longrightarrow> target_info os s = Some info \<Longrightarrow>
      part_alignment os p = Some al \<Longrightarrow> s \<noteq> RELRO_PADDING \<longrightarrow> mem_size r = sizes ! p \<Longrightarrow> K (qs @ [p]) st'"
  shows "\<exists>st'. place_section args os sizes s st = Some st'
    \<and> layout_inv os M (c + parts_cost sizes (event_parts (Section s))) st' \<and> K (event_parts (Section s)) st'"
proof -
  obtain t info where t: "primary_output_section os s = Some t" "output_info os t = Some info"
    using primary_output_section_total [OF assms(1,4)] by metis
  define st0 where "st0 = (case location info0 of None \<Rightarrow> st | Some a \<Rightarrow> st\<lparr>cur_mem_offset := a\<rparr>)"
  have st0: "layout_inv os M c st0"
    using assms(5,8) by (auto simp: st0_def layout_inv_def split: option.splits)
  let ?parts = "event_parts (Section s)"
  let ?I = "\<lambda>done st. layout_inv os M (c + parts_cost sizes (map fst done)) st \<and> K (map fst done) st"
  have "\<exists>st'. try_fold (place_part args os s m) (map (\<lambda>p. (p, sizes ! p)) ?parts) st0 = Some st'
      \<and> ?I (map (\<lambda>p. (p, sizes ! p)) ?parts) st'"
  proof (rule try_fold_total)
    show "?I [] st0"
      using st0 assms(9) by (simp add: st0_def)
  next
    fix ys x zs st
    assume split: "map (\<lambda>p. (p, sizes ! p)) ?parts = ys @ x # zs" and I: "?I ys st"
    obtain p where x: "x = (p, sizes ! p)" "p \<in> set ?parts"
      using split by (metis (no_types, lifting) in_set_conv_decomp imageE list.set_map)
    have parts: "?parts = map fst ys @ p # map fst zs"
      using arg_cong [OF split, of "map fst"] x(1) by (simp add: comp_def)
    have p: "part_output_section_id p = s" "p < num_parts os"
      using x(2) part_in_range_iff [of s p] part_range_in_bounds [OF assms(4)] by simp_all
    obtain al where al: "part_alignment os p = Some al"
      using part_alignment_total [OF assms(1) p(2)] by metis
    have "M + (c + parts_cost sizes (map fst ys)) + unat (sizes ! p) + 2 ^ 18 \<le> 2 ^ 63"
      using assms(6) parts by (simp add: parts_cost_def)
    then obtain st' r where st': "place_part args os s m (p, sizes ! p) st = Some st'"
        "placed args info (min al m) p st st' r" "s \<noteq> RELRO_PADDING \<longrightarrow> mem_size r = sizes ! p"
        "layout_inv os M (c + parts_cost sizes (map fst ys) + unat (sizes ! p) + 2 ^ 17) st'"
      using place_part_ok [OF assms(1,2,11) p(1) assms(4) p(2)] I t al by blast
    have "distinct ?parts"
      by simp
    then have "p \<notin> set (map fst ys)"
      using parts by (metis distinct_append disjoint_iff list.set_intros(1))
    then have "K (map fst ys @ [p]) st'"
      using assms(12) [OF _ st'(2) p(1) _ _ al st'(3)] I t by (simp add: target_info_def)
    then show "\<exists>st'. place_part args os s m x st = Some st' \<and> ?I (ys @ [x]) st'"
      using x(1) st' by (simp add: add.assoc)
  qed
  then show ?thesis
    using assms(7,10) section_parts_total [OF assms(3,4)]
    by (auto simp: place_section_def st0_def comp_def)
qed

lemma place_section_ok:
  assumes "sections_ok os" "alignment_ok (loadable_segment_alignment args)" "length sizes = num_parts os"
    and "s < num_sections os" "layout_inv os M c st" "layout_done args os sizes located ps st"
    and "set ps \<inter> set (event_parts (Section s)) = {}"
    and "M + c + parts_cost sizes (event_parts (Section s)) + 2 ^ 18 \<le> 2 ^ 63"
    and "\<And>info a. output_info os s = Some info \<Longrightarrow> location info = Some a \<Longrightarrow> located \<and> unat a \<le> M"
  shows "\<exists>st'. place_section args os sizes s st = Some st'
    \<and> layout_inv os M (c + parts_cost sizes (event_parts (Section s))) st'
    \<and> layout_done args os sizes located (ps @ event_parts (Section s)) st'"
proof -
  obtain m where m: "max_alignment os sizes (part_id_range s) = Some m" "alignment_ok m"
      "\<And>p a. part_output_section_id p = s \<Longrightarrow> sizes ! p \<noteq> 0 \<Longrightarrow> part_alignment os p = Some a \<Longrightarrow> a \<le> m"
    using max_alignment_total [OF assms(1,3,4)] by metis
  obtain info0 where info0: "output_info os s = Some info0"
    using output_info_total [OF assms(1,4)] by metis
  show ?thesis
  proof (rule place_section_fold [OF assms(1-5,8) info0 _ _ m(1,2)])
    show "layout_done args os sizes located (ps @ [])
        (case location info0 of None \<Rightarrow> st | Some a \<Rightarrow> st\<lparr>cur_mem_offset := a\<rparr>)"
      using assms(6) assms(9) [OF info0] by (auto simp: layout_done_def split: option.splits)
  next
    fix qs p al info st st' r
    assume K: "layout_done args os sizes located (ps @ qs) st" "placed args info (min al m) p st st' r"
      and p: "part_output_section_id p = s" "p \<notin> set qs" and al: "part_alignment os p = Some al"
      and rest: "target_info os s = Some info" "s \<noteq> RELRO_PADDING \<longrightarrow> mem_size r = sizes ! p"
    have "p \<in> set (event_parts (Section s))"
      using p(1) part_in_range_iff [of s p] by simp
    then have "p \<notin> set (ps @ qs)"
      using p(2) assms(7) by auto
    moreover have "sizes ! p \<noteq> 0 \<longrightarrow> part_alignment os p = Some (min al m)"
      using m(3) [OF p(1) _ al] al by (simp add: min_def)
    ultimately have "layout_done args os sizes located ((ps @ qs) @ [p]) st'"
      using layout_done_placed [OF K] p(1) rest by simp
    then show "layout_done args os sizes located (ps @ qs @ [p]) st'"
      by simp
  qed (use assms(9) info0 in blast)
qed

section \<open>Segments\<close>

definition alignments_ok :: "segment_alignments \<Rightarrow> bool" where
  "alignments_ok als \<longleftrightarrow> (\<forall>a \<in> ran als. alignment_ok a)"

lemma alignments_ok_upd: "alignments_ok als \<Longrightarrow> alignment_ok a \<Longrightarrow> alignments_ok (als(i \<mapsto> a))"
  by (auto simp: alignments_ok_def ran_def)

lemma raise_alignments_ok:
  assumes "alignment_ok m"
  shows "alignments_ok als \<Longrightarrow>
    alignments_ok (fold (\<lambda>i als. case als i of None \<Rightarrow> als | Some a \<Rightarrow> als(i \<mapsto> max a m)) active als)"
proof (induction active arbitrary: als)
  case (Cons i active)
  have "alignments_ok (als(i \<mapsto> max a m))" if "als i = Some a" for a
    using Cons.prems that assms by (intro alignments_ok_upd max_alignment_ok) (auto simp: alignments_ok_def ran_def)
  then show ?case
    using Cons by (auto split: option.splits)
qed simp

lemma segment_alignment_step_ok:
  assumes "sections_ok os" "alignment_ok (loadable_segment_alignment args)" "length sizes = num_parts os"
    and "event_ok os ps M e" "alignments_ok (fst st)"
  shows "\<exists>st'. segment_alignment_step args os ps sizes e st = Some st' \<and> alignments_ok (fst st')"
proof (cases e)
  case (SegmentStart i)
  then show ?thesis
    using assms alignments_ok_upd [of "fst st" "loadable_segment_alignment args" i]
    by (auto simp: segment_alignment_step_def is_load_segment_def nth_opt_def split: prod.split option.split)
next
  case (Section s)
  then obtain m where "max_alignment os sizes (part_id_range s) = Some m" "alignment_ok m"
    using max_alignment_total [OF assms(1,3), of s] assms(4) by (metis event_ok.simps(1))
  then show ?thesis
    using Section assms(5) raise_alignments_ok
    by (auto simp: segment_alignment_step_def split: prod.split)
qed (use assms(5) in \<open>auto simp: segment_alignment_step_def split: prod.split\<close>)

lemma compute_segment_alignments_ok:
  assumes "layout_input_ok args os ps sizes events M"
  obtains als where "compute_segment_alignments args os ps sizes events = Some als" "alignments_ok als"
proof -
  have "\<exists>st'. try_fold (segment_alignment_step args os ps sizes) events (\<lambda>_. None, []) = Some st'
      \<and> alignments_ok (fst st')"
    by (rule try_fold_total [where I = "\<lambda>_ st. alignments_ok (fst st)"])
      (use assms segment_alignment_step_ok [where M = M] in
        \<open>auto simp: layout_input_ok_def alignments_ok_def [of "\<lambda>_. None"]\<close>)
  then show thesis
    using that by (auto simp: compute_segment_alignments_def)
qed

lemma align_modulo_16:
  assumes "alignment_ok a" "unat v + 2 ^ 17 \<le> 2 ^ 64"
  obtains r where "align_modulo a w v = Some r" "unat v \<le> unat r" "unat r < unat v + 2 ^ 17"
    "unat r mod 2 ^ unat (exponent a) = unat w mod 2 ^ unat (exponent a)"
proof -
  have le: "(2 :: nat) ^ unat (exponent a) \<le> 2 ^ 16"
    using assms(1) by (intro power_increasing) (simp_all add: alignment_ok_exponent)
  then have "unat v + 2 * 2 ^ unat (exponent a) \<le> 2 ^ 64"
    using assms(2) layout_bounds(2) by linarith
  from align_modulo_spec [OF assms(1) this, of w] obtain r where
      r: "align_modulo a w v = Some r" "unat v \<le> unat r"
      "unat r mod 2 ^ unat (exponent a) = unat w mod 2 ^ unat (exponent a)"
      "unat r < unat v + 2 * 2 ^ unat (exponent a)"
    by blast
  moreover have "unat r < unat v + 2 ^ 17"
    using r(4) le layout_bounds(2) by linarith
  ultimately show thesis
    using that by blast
qed

lemma start_segment_ok:
  assumes "alignment_ok (loadable_segment_alignment args)" "alignments_ok als" "i < length ps"
    and "layout_inv os M c st" "layout_done args os sizes located qs st" "M + c + 2 ^ 18 \<le> 2 ^ 63"
  shows "\<exists>st'. start_segment args ps als i st = Some st' \<and> layout_inv os M (c + 2 ^ 17) st'
    \<and> layout_done args os sizes located qs st'"
proof (cases "is_loadable (ps ! i)")
  case False
  then show ?thesis
    using assms layout_inv_mono [OF assms(4)]
    by (auto simp: start_segment_def is_load_segment_def nth_opt_def)
next
  case True
  define al where "al = (case als i of None \<Rightarrow> loadable_segment_alignment args | Some a \<Rightarrow> a)"
  have al: "alignment_ok al"
    using assms(1,2) by (auto simp: al_def alignments_ok_def ran_def split: option.splits)
  have inv: "layout_inv os M (c + 2 ^ 17) st"
    using assms(4) by (rule layout_inv_mono) simp
  have b: "unat (cur_file_offset st) \<le> c" "unat (cur_mem_offset st) \<le> M + c"
    using assms(4) by (simp_all add: layout_inv_def)
  show ?thesis
  proof (cases "pending_location st")
    case None
    obtain mem where mem: "align_modulo al (cur_file_offset st) (cur_mem_offset st) = Some mem"
        "unat (cur_mem_offset st) \<le> unat mem" "unat mem < unat (cur_mem_offset st) + 2 ^ 17"
      using align_modulo_16 [OF al, of "cur_mem_offset st"] b(2) assms(6) by auto
    have "start_segment args ps als i st = Some (st\<lparr>cur_mem_offset := mem\<rparr>)"
      using True assms(3) None mem(1)
      by (simp add: start_segment_def is_load_segment_def nth_opt_def align_load_segment_start_def al_def)
    moreover have "layout_inv os M (c + 2 ^ 17) (st\<lparr>cur_mem_offset := mem\<rparr>)"
      using inv mem(3) b(2) by (auto simp: layout_inv_def)
    moreover have "layout_done args os sizes located qs (st\<lparr>cur_mem_offset := mem\<rparr>)"
      using assms(5) mem(2) by (auto simp: layout_done_def elim: ordered_spans_mono)
    ultimately show ?thesis
      by blast
  next
    case (Some a)
    obtain fo where fo: "align_modulo al a (cur_file_offset st) = Some fo"
        "unat (cur_file_offset st) \<le> unat fo" "unat fo < unat (cur_file_offset st) + 2 ^ 17"
      using align_modulo_16 [OF al, of "cur_file_offset st"] b(1) assms(6) by auto
    have "start_segment args ps als i st
        = Some (st\<lparr>pending_location := None, cur_mem_offset := a, cur_file_offset := fo\<rparr>)"
      using True assms(3) Some fo(1)
      by (simp add: start_segment_def is_load_segment_def nth_opt_def al_def)
    moreover have "layout_inv os M (c + 2 ^ 17)
        (st\<lparr>pending_location := None, cur_mem_offset := a, cur_file_offset := fo\<rparr>)"
      using inv fo(3) b(1) Some by (auto simp: layout_inv_def)
    moreover have "layout_done args os sizes located qs
        (st\<lparr>pending_location := None, cur_mem_offset := a, cur_file_offset := fo\<rparr>)"
      using assms(5) fo(2) Some by (auto simp: layout_done_def elim: ordered_spans_mono)
    ultimately show ?thesis
      by blast
  qed
qed

section \<open>The whole loop\<close>

lemma layout_cost_append [simp]: "layout_cost sizes (es @ fs) = layout_cost sizes es + layout_cost sizes fs"
  and layout_cost_Nil [simp]: "layout_cost sizes [] = 0"
  and layout_cost_Cons [simp]: "layout_cost sizes (e # es) = event_cost sizes e + layout_cost sizes es"
  and laid_out_append [simp]: "laid_out (es @ fs) = laid_out es @ laid_out fs"
  and laid_out_Nil [simp]: "laid_out [] = []"
  and laid_out_Cons [simp]: "laid_out (e # es) = event_parts e @ laid_out es"
  by (simp_all add: layout_cost_def laid_out_def)

lemma no_locations_info:
  assumes "no_locations os events" "output_info os s = Some info"
  shows "location info = None"
  using assms by (auto simp: no_locations_def output_info_def list_all_length)

lemma layout_event_ok:
  assumes "layout_input_ok args os ps sizes events M" "alignments_ok als" "located \<or> no_locations os events"
    and "events = es @ e # fs" "layout_inv os M (layout_cost sizes es) st"
    and "layout_done args os sizes located (laid_out es) st"
  shows "\<exists>st'. layout_event args os ps sizes als e st = Some st'
    \<and> layout_inv os M (layout_cost sizes (es @ [e])) st'
    \<and> layout_done args os sizes located (laid_out (es @ [e])) st'"
proof -
  have ok: "sections_ok os" "length sizes = num_parts os" "alignment_ok (loadable_segment_alignment args)"
      "event_ok os ps M e" "set (laid_out es) \<inter> set (event_parts e) = {}"
      "M + layout_cost sizes es + event_cost sizes e + 2 ^ 18 \<le> 2 ^ 63"
    using assms(1,4) by (auto simp: layout_input_ok_def)
  show ?thesis
  proof (cases e)
    case (Section s)
    have "located \<and> unat a \<le> M" if "output_info os s = Some info" "location info = Some a" for info a
      using assms(1,3) no_locations_info [OF _ that(1)] that
      by (auto simp: layout_input_ok_def output_info_def list_all_length)
    then show ?thesis
      using place_section_ok [OF ok(1,3,2) _ assms(5,6), of s] ok(4-6) Section by simp
  next
    case (SegmentStart i)
    then show ?thesis
      using start_segment_ok [OF ok(3) assms(2) _ assms(5,6), of i ps] ok(4,6) by simp
  next
    case (SetLocation a)
    then have "located"
      using assms(3,4) by (auto simp: no_locations_def)
    then show ?thesis
      using SetLocation ok(4) assms(5,6) by (auto simp: layout_inv_def layout_done_def)
  qed (use assms(5,6) in simp)
qed

lemma layout_start_ok:
  assumes "layout_input_ok args os ps sizes events M"
  shows "layout_inv os M 0 (layout_start os)" "layout_done args os sizes located [] (layout_start os)"
  using assms by (auto simp: layout_inv_def layout_done_def layout_start_def layout_input_ok_def)

lemma layout_prefix_ok:
  assumes "layout_input_ok args os ps sizes events M" "alignments_ok als" "located \<or> no_locations os events"
    and "events = es @ fs"
  obtains st where "try_fold (layout_event args os ps sizes als) es (layout_start os) = Some st"
    "layout_inv os M (layout_cost sizes es) st" "layout_done args os sizes located (laid_out es) st"
proof -
  let ?I = "\<lambda>es st. layout_inv os M (layout_cost sizes es) st \<and> layout_done args os sizes located (laid_out es) st"
  have "\<exists>st. try_fold (layout_event args os ps sizes als) es (layout_start os) = Some st \<and> ?I es st"
  proof (rule try_fold_total)
    show "?I [] (layout_start os)"
      using layout_start_ok [OF assms(1)] by simp
  next
    fix ys e zs st
    assume "es = ys @ e # zs" "?I ys st"
    then show "\<exists>st'. layout_event args os ps sizes als e st = Some st' \<and> ?I (ys @ [e]) st'"
      using layout_event_ok [OF assms(1-3), of ys e "zs @ fs" st] assms(4) by simp
  qed
  then show thesis
    using that by blast
qed

lemma layout_section_parts_ok:
  assumes "layout_input_ok args os ps sizes events M" "located \<or> no_locations os events"
  obtains als st where "compute_segment_alignments args os ps sizes events = Some als" "alignments_ok als"
    "try_fold (layout_event args os ps sizes als) events (layout_start os) = Some st"
    "layout_section_parts args os ps sizes events = Some (records_out st)"
    "layout_done args os sizes located (laid_out events) st" "layout_inv os M (layout_cost sizes events) st"
proof -
  obtain als where als: "compute_segment_alignments args os ps sizes events = Some als" "alignments_ok als"
    using assms(1) by (rule compute_segment_alignments_ok)
  obtain st where "try_fold (layout_event args os ps sizes als) events (layout_start os) = Some st"
      "layout_done args os sizes located (laid_out events) st" "layout_inv os M (layout_cost sizes events) st"
    using layout_prefix_ok [OF assms(1) als(2) assms(2), of events "[]"] by auto
  with als show thesis
    by (intro that) (simp_all add: layout_section_parts_def)
qed

text \<open>An event leaves the parts of the other sections alone.\<close>

lemma place_part_frame:
  "place_part args os s m (p, sz) st = Some st' \<Longrightarrow> q \<noteq> p \<Longrightarrow> records_out st' ! q = records_out st ! q"
  by (auto simp: place_part_def put_record_def Let_def split: bind_splits if_splits)

lemma layout_event_frame:
  assumes "layout_event args os ps sizes als e st = Some st'" "q \<notin> set (event_parts e)"
  shows "records_out st' ! q = records_out st ! q"
proof (cases e)
  case (Section s)
  then obtain info m parts where run: "output_info os s = Some info"
      "max_alignment os sizes (part_id_range s) = Some m" "section_parts sizes s = Some parts"
    using assms(1) by (auto simp: place_section_def split: bind_splits)
  define st0 where "st0 = (case location info of None \<Rightarrow> st | Some a \<Rightarrow> st\<lparr>cur_mem_offset := a\<rparr>)"
  have fold: "try_fold (place_part args os s m) parts st0 = Some st'"
    using assms(1) Section run by (simp add: place_section_def st0_def)
  have parts: "fst x \<in> set (event_parts e)" if "x \<in> set parts" for x
    using run(3) that Section by (cases x) (auto simp: section_parts_def split: bind_splits dest: set_zip_leftD)
  show ?thesis
  proof (rule try_fold_partial [OF fold, where I = "\<lambda>_ st'. records_out st' ! q = records_out st ! q"])
    fix ys x zs st1 st2
    assume "parts = ys @ x # zs" "place_part args os s m x st1 = Some st2" "records_out st1 ! q = records_out st ! q"
    then show "records_out st2 ! q = records_out st ! q"
      using place_part_frame [of args os s m "fst x" "snd x" st1 st2 q] parts [of x] assms(2) by auto
  qed (simp add: st0_def split: option.splits)
qed (use assms in \<open>auto simp: start_segment_def Let_def split: bind_splits if_splits option.splits\<close>)

lemma layout_events_frame:
  assumes "try_fold (layout_event args os ps sizes als) es st = Some st'" "q \<notin> set (laid_out es)"
  shows "records_out st' ! q = records_out st ! q"
proof (rule try_fold_partial [OF assms(1), where I = "\<lambda>_ st'. records_out st' ! q = records_out st ! q"])
  fix ys e zs st1 st2
  assume "es = ys @ e # zs" "layout_event args os ps sizes als e st1 = Some st2"
    "records_out st1 ! q = records_out st ! q"
  then show "records_out st2 ! q = records_out st ! q"
    using layout_event_frame [of args os ps sizes als e st1 st2 q] assms(2) by simp
qed simp

section \<open>Offsets and addresses inside a load segment\<close>

lemma align_up_offset:
  assumes "d dvd r" "x \<le> r" "r < x + d"
  shows "r - x = (if x mod d = 0 then 0 else d - x mod (d :: nat))"
proof -
  have "0 < d"
    using assms(2,3) by linarith
  then have lt: "r - x < d" "x mod d < d"
    using assms(2,3) by auto
  have "(x mod d + (r - x)) mod d = 0"
    using assms(1,2) mod_add_left_eq [of x d "r - x"] by (metis dvd_imp_mod_0 le_add_diff_inverse)
  then have "d dvd x mod d + (r - x)"
    by auto
  then obtain k where k: "x mod d + (r - x) = d * k"
    by (elim dvdE)
  moreover have "k < 2"
    using lt k by (metis add_less_mono mult.commute mult_2 nat_mult_less_cancel_disj)
  ultimately show ?thesis
    using lt by (auto simp: less_2_cases_iff)
qed

lemma align_up_keeps_mod:
  assumes "d dvd A" "x mod A = y mod (A :: nat)"
    and "d dvd r" "x \<le> r" "r < x + d" "d dvd s" "y \<le> s" "s < y + d"
  shows "r mod A = s mod A"
proof -
  have "x mod d = y mod d"
    using assms(1,2) by (metis mod_mod_cancel)
  then have "r - x = s - y"
    using align_up_offset [OF assms(3-5)] align_up_offset [OF assms(6-8)] by simp
  then have "r = x + (r - x)" "s = y + (r - x)"
    using assms(4,7) by simp_all
  then show ?thesis
    using assms(2) by (metis mod_add_left_eq)
qed

definition in_step :: "nat \<Rightarrow> layout_state \<Rightarrow> bool" where
  "in_step A st \<longleftrightarrow> unat (cur_file_offset st) mod A = unat (cur_mem_offset st) mod A"

lemma placed_congruent:
  assumes "placed args info al p st st' r" "in_memory args info" "has_data_in_file info"
    and "2 ^ unat (exponent al) dvd A" "in_step A st"
  shows "unat (file_offset r) mod A = unat (mem_offset r) mod A" "in_step A st'"
proof -
  have p: "2 ^ unat (exponent al) dvd unat (file_offset r)" "unat (cur_file_offset st) \<le> unat (file_offset r)"
      "unat (file_offset r) < unat (cur_file_offset st) + 2 ^ unat (exponent al)"
      "2 ^ unat (exponent al) dvd unat (mem_offset r)" "unat (cur_mem_offset st) \<le> unat (mem_offset r)"
      "unat (mem_offset r) < unat (cur_mem_offset st) + 2 ^ unat (exponent al)"
    using assms(1,2) unfolding placed_def by simp_all
  show eq: "unat (file_offset r) mod A = unat (mem_offset r) mod A"
    using align_up_keeps_mod [OF assms(4) _ p] assms(5) by (simp add: in_step_def)
  have "(unat (file_offset r) + unat (mem_size r)) mod A = (unat (mem_offset r) + unat (mem_size r)) mod A"
    using eq by (rule mod_add_cong) simp
  then show "in_step A st'"
    using assms(1-3) by (simp add: placed_def in_step_def)
qed

text \<open>
  A load segment with contents: the events from its start on are sections with addresses and contents
  that no script moves, and segments that are not loaded.
\<close>

fun loaded_event :: "layout_args \<Rightarrow> output_sections \<Rightarrow> program_segments \<Rightarrow> segment_id \<Rightarrow> order_event \<Rightarrow> bool" where
  "loaded_event args os ps i (Section s) \<longleftrightarrow>
     (case output_info os s of None \<Rightarrow> False | Some info \<Rightarrow> location info = None)
     \<and> (case target_info os s of None \<Rightarrow> False | Some info \<Rightarrow> in_memory args info \<and> has_data_in_file info)"
| "loaded_event args os ps i (SegmentStart j) \<longleftrightarrow> is_load_segment ps j = Some False"
| "loaded_event args os ps i (SegmentEnd j) \<longleftrightarrow> j \<noteq> i"
| "loaded_event args os ps i (SetLocation a) \<longleftrightarrow> False"

section \<open>Segment alignments cover their sections\<close>

lemma raise_alignments_ge:
  fixes als :: segment_alignments
  assumes "als i = Some a"
  shows "\<exists>b. fold (\<lambda>i als. case als i of None \<Rightarrow> als | Some a \<Rightarrow> als(i \<mapsto> max a m)) active als i = Some b
    \<and> a \<le> b \<and> (i \<in> set active \<longrightarrow> m \<le> b)"
  using assms
proof (induction active arbitrary: als a)
  case (Cons j active)
  define als' where "als' = (case als j of None \<Rightarrow> als | Some a \<Rightarrow> als(j \<mapsto> max a m))"
  have "als' i = Some (if i = j then max a m else a)"
    using Cons.prems by (auto simp: als'_def split: option.splits)
  with Cons.IH [of als' "if i = j then max a m else a"] show ?case
    by (auto simp: als'_def [symmetric] max.bounded_iff split: if_splits)
qed simp

lemma segment_alignment_step_mono:
  assumes "segment_alignment_step args os ps sizes e st = Some st'" "fst st i = Some a"
  shows "\<exists>b. fst st' i = Some b \<and> a \<le> b"
proof (cases e)
  case (Section s)
  then obtain m where "fst st' = fold (\<lambda>i als. case als i of None \<Rightarrow> als | Some a \<Rightarrow> als(i \<mapsto> max a m)) (snd st) (fst st)"
    using assms(1) by (auto simp: segment_alignment_step_def split: prod.splits bind_splits)
  then show ?thesis
    using raise_alignments_ge [of "fst st" i a m "snd st"] assms(2) by auto
qed (use assms in \<open>auto simp: segment_alignment_step_def split: prod.splits bind_splits option.splits if_splits\<close>)

lemma segment_alignments_mono:
  assumes "try_fold (segment_alignment_step args os ps sizes) es st = Some st'" "fst st i = Some a"
  shows "\<exists>b. fst st' i = Some b \<and> a \<le> b"
  by (rule try_fold_partial [OF assms(1), where I = "\<lambda>_ st. \<exists>b. fst st i = Some b \<and> a \<le> b"])
    (use assms(2) segment_alignment_step_mono order_trans in \<open>blast+\<close>)

lemma segment_alignment_covers:
  assumes "try_fold (segment_alignment_step args os ps sizes) mid st = Some st'" "fst st i = Some a" "i \<in> set (snd st)"
    and "list_all (loaded_event args os ps i) mid"
  shows "\<exists>b. fst st' i = Some b \<and> (\<forall>s m. Section s \<in> set mid \<longrightarrow>
    max_alignment os sizes (part_id_range s) = Some m \<longrightarrow> m \<le> b)"
proof -
  let ?I = "\<lambda>es st. i \<in> set (snd st) \<and> (\<exists>b. fst st i = Some b \<and> (\<forall>s m. Section s \<in> set es \<longrightarrow>
    max_alignment os sizes (part_id_range s) = Some m \<longrightarrow> m \<le> b))"
  have "?I mid st'"
  proof (rule try_fold_partial [OF assms(1)])
    fix es e fs st st'
    assume split: "mid = es @ e # fs" and I: "?I es st"
      and step: "segment_alignment_step args os ps sizes e st = Some st'"
    obtain b where b: "i \<in> set (snd st)" "fst st i = Some b"
        "\<forall>s m. Section s \<in> set es \<longrightarrow> max_alignment os sizes (part_id_range s) = Some m \<longrightarrow> m \<le> b"
      using I by blast
    have act: "i \<in> set (snd st')"
      using step b(1) assms(4) split
      by (cases e) (auto simp: segment_alignment_step_def split: prod.splits bind_splits if_splits)
    obtain b' where b': "fst st' i = Some b'" "b \<le> b'"
      using segment_alignment_step_mono [OF step b(2)] by blast
    have "m \<le> b'" if "e = Section s" "max_alignment os sizes (part_id_range s) = Some m" for s m
      using that step b(1) b'(1) raise_alignments_ge [of "fst st" i b m "snd st"] b(2)
      by (auto simp: segment_alignment_step_def split: prod.splits)
    then show "?I (es @ [e]) st'"
      using act b' b(3) by (auto intro: order_trans)
  qed (use assms(2,3) in simp)
  then show ?thesis
    by blast
qed

section \<open>A load segment\<close>

definition agrees :: "nat \<Rightarrow> output_record_layout \<Rightarrow> bool" where
  "agrees A r \<longleftrightarrow> unat (file_offset r) mod A = unat (mem_offset r) mod A"

lemma place_section_congruent:
  assumes "layout_input_ok args os ps sizes events M" "loaded_event args os ps i (Section s)"
    and "s < num_sections os" "layout_inv os M c st" "in_step A st"
    and "M + c + parts_cost sizes (event_parts (Section s)) + 2 ^ 18 \<le> 2 ^ 63"
    and "\<And>m. max_alignment os sizes (part_id_range s) = Some m \<Longrightarrow> 2 ^ unat (exponent m) dvd A"
  shows "\<exists>st'. place_section args os sizes s st = Some st'
    \<and> layout_inv os M (c + parts_cost sizes (event_parts (Section s))) st'
    \<and> in_step A st' \<and> (\<forall>p \<in> set (event_parts (Section s)). agrees A (records_out st' ! p))"
proof -
  have ok: "sections_ok os" "alignment_ok (loadable_segment_alignment args)" "length sizes = num_parts os"
    using assms(1) by (simp_all add: layout_input_ok_def)
  obtain info0 info where info: "output_info os s = Some info0" "location info0 = None"
      "target_info os s = Some info" "in_memory args info" "has_data_in_file info"
    using assms(2) by (auto split: option.splits)
  obtain m where m: "max_alignment os sizes (part_id_range s) = Some m" "alignment_ok m"
    using max_alignment_total [OF ok(1,3) assms(3)] by metis
  show ?thesis
  proof (rule place_section_fold [OF ok assms(3,4,6) info(1) _ _ m])
    fix qs p al info' st st' r
    assume K: "in_step A st \<and> (\<forall>p \<in> set qs. agrees A (records_out st ! p))"
      and pl: "placed args info' (min al m) p st st' r" and p: "p \<notin> set qs"
      and t: "target_info os s = Some info'"
    have "2 ^ unat (exponent (min al m)) dvd A"
      using assms(7) [OF m(1)] by (rule dvd_trans [rotated])
        (simp add: le_imp_power_dvd less_eq_alignment_def word_le_nat_alt [symmetric] min_def)
    then have "agrees A r" "in_step A st'"
      using placed_congruent [OF pl] info(3-5) t K by (simp_all add: agrees_def)
    moreover have "records_out st' = (records_out st)[p := r]" "p < length (records_out st)"
      using pl by (simp_all add: placed_def)
    ultimately show "in_step A st' \<and> (\<forall>p \<in> set (qs @ [p]). agrees A (records_out st' ! p))"
      using K p by (auto simp: nth_list_update)
  qed (use info(2) assms(5) in simp_all)
qed

lemma loaded_events_congruent:
  assumes "layout_input_ok args os ps sizes events M" "events = pre @ mid @ post"
    and "layout_inv os M (layout_cost sizes pre) st" "in_step A st"
    and "list_all (loaded_event args os ps i) mid"
    and "\<And>s m. Section s \<in> set mid \<Longrightarrow> max_alignment os sizes (part_id_range s) = Some m \<Longrightarrow>
      2 ^ unat (exponent m) dvd A"
  shows "\<exists>st'. try_fold (layout_event args os ps sizes als) mid st = Some st'
    \<and> (\<forall>p \<in> set (laid_out mid). agrees A (records_out st' ! p))"
proof -
  let ?I = "\<lambda>es st. layout_inv os M (layout_cost sizes (pre @ es)) st \<and> in_step A st
    \<and> (\<forall>p \<in> set (laid_out es). agrees A (records_out st ! p))"
  have "\<exists>st'. try_fold (layout_event args os ps sizes als) mid st = Some st' \<and> ?I mid st'"
  proof (rule try_fold_total)
    show "?I [] st"
      using assms(3,4) by simp
  next
    fix es e fs st
    assume split: "mid = es @ e # fs" and I: "?I es st"
    have e: "loaded_event args os ps i e" "event_ok os ps M e"
        "M + layout_cost sizes (pre @ es) + event_cost sizes e + 2 ^ 18 \<le> 2 ^ 63"
        "set (laid_out es) \<inter> set (event_parts e) = {}"
      using assms(1,2,5) split by (auto simp: layout_input_ok_def)
    show "\<exists>st'. layout_event args os ps sizes als e st = Some st' \<and> ?I (es @ [e]) st'"
    proof (cases e)
      case (Section s)
      then obtain st' where st': "place_section args os sizes s st = Some st'"
          "layout_inv os M (layout_cost sizes (pre @ es) + parts_cost sizes (event_parts e)) st'" "in_step A st'"
          "\<forall>p \<in> set (event_parts e). agrees A (records_out st' ! p)"
        using place_section_congruent [OF assms(1), of i s "layout_cost sizes (pre @ es)" st A] e I
          assms(6) [of s] split by auto
      moreover have "agrees A (records_out st' ! p)" if "p \<in> set (laid_out es)" for p
      proof -
        have "p \<notin> set (event_parts e)"
          using that e(4) by blast
        then show ?thesis
          using layout_event_frame [of args os ps sizes als e st st' p] st'(1) Section that I by simp
      qed
      ultimately show ?thesis
        using Section by (auto simp: add.assoc)
    next
      case (SegmentStart j)
      then show ?thesis
        using e(1) I layout_inv_mono [of os M "layout_cost sizes (pre @ es)" st] by (auto simp: start_segment_def)
    qed (use e(1) I in auto)
  qed
  then show ?thesis
    by blast
qed

lemma segment_alignment_of_segment:
  assumes "compute_segment_alignments args os ps sizes events = Some als"
    and "events = pre @ SegmentStart i # mid @ post" "is_load_segment ps i = Some True"
    and "list_all (loaded_event args os ps i) mid"
  shows "\<exists>a. als i = Some a \<and> (\<forall>s m. Section s \<in> set mid \<longrightarrow>
    max_alignment os sizes (part_id_range s) = Some m \<longrightarrow> m \<le> a)"
proof -
  let ?step = "segment_alignment_step args os ps sizes"
  obtain st1 st2 st3 active where st: "?step (SegmentStart i) st1 = Some st2"
      "try_fold ?step mid st2 = Some st3" "try_fold ?step post st3 = Some (als, active)"
    using assms(1,2) by (auto simp: compute_segment_alignments_def split: bind_splits)
  obtain a where "fst st2 i = Some a" "i \<in> set (snd st2)"
    using st(1) assms(3) by (auto simp: segment_alignment_step_def split: prod.splits option.splits)
  from segment_alignment_covers [OF st(2) this assms(4)] obtain b where b: "fst st3 i = Some b"
      "\<forall>s m. Section s \<in> set mid \<longrightarrow> max_alignment os sizes (part_id_range s) = Some m \<longrightarrow> m \<le> b"
    by blast
  from segment_alignments_mono [OF st(3) b(1)] obtain a where "als i = Some a" "b \<le> a"
    by auto
  with b(2) show ?thesis
    by (meson order_trans)
qed

lemma start_segment_in_step:
  assumes "start_segment args ps als i st = Some st'" "is_load_segment ps i = Some True" "als i = Some a"
    and "alignment_ok a" "layout_inv os M c st" "M + c + 2 ^ 18 \<le> 2 ^ 63"
  shows "in_step (2 ^ unat (exponent a)) st'"
proof -
  have b: "unat (cur_file_offset st) + 2 ^ 17 \<le> 2 ^ 64" "unat (cur_mem_offset st) + 2 ^ 17 \<le> 2 ^ 64"
    using assms(5,6) by (auto simp: layout_inv_def)
  show ?thesis
  proof (cases "pending_location st")
    case None
    obtain r where r: "align_modulo a (cur_file_offset st) (cur_mem_offset st) = Some r"
        "unat r mod 2 ^ unat (exponent a) = unat (cur_file_offset st) mod 2 ^ unat (exponent a)"
      using assms(4) b(2) by (rule align_modulo_16)
    then have "st' = st\<lparr>cur_mem_offset := r\<rparr>"
      using assms(1-3) None by (simp add: start_segment_def align_load_segment_start_def)
    with r(2) show ?thesis
      by (simp add: in_step_def)
  next
    case (Some l)
    obtain r where r: "align_modulo a l (cur_file_offset st) = Some r"
        "unat r mod 2 ^ unat (exponent a) = unat l mod 2 ^ unat (exponent a)"
      using assms(4) b(1) by (rule align_modulo_16)
    then have "st' = st\<lparr>pending_location := None, cur_mem_offset := l, cur_file_offset := r\<rparr>"
      using assms(1-3) Some by (simp add: start_segment_def)
    with r(2) show ?thesis
      by (simp add: in_step_def)
  qed
qed

lemma segment_parts_agree:
  assumes "layout_input_ok args os ps sizes events M" "events = pre @ SegmentStart i # mid @ post"
    and "is_load_segment ps i = Some True" "list_all (loaded_event args os ps i) mid"
    and "alignments_ok als" "als i = Some a"
    and "\<forall>s m. Section s \<in> set mid \<longrightarrow> max_alignment os sizes (part_id_range s) = Some m \<longrightarrow> m \<le> a"
    and "try_fold (layout_event args os ps sizes als) events (layout_start os) = Some st" "p \<in> set (laid_out mid)"
  shows "agrees (2 ^ unat (exponent a)) (records_out st ! p)"
proof -
  let ?step = "layout_event args os ps sizes als" and ?A = "2 ^ unat (exponent a) :: nat"
  obtain st1 where st1: "try_fold ?step pre (layout_start os) = Some st1" "layout_inv os M (layout_cost sizes pre) st1"
    using layout_prefix_ok [OF assms(1,5), of True pre "SegmentStart i # mid @ post"] assms(2) by auto
  obtain st2 where st2: "try_fold ?step (pre @ [SegmentStart i]) (layout_start os) = Some st2"
      "layout_inv os M (layout_cost sizes (pre @ [SegmentStart i])) st2"
    using layout_prefix_ok [OF assms(1,5), of True "pre @ [SegmentStart i]" "mid @ post"] assms(2) by auto
  have "in_step ?A st2"
    by (rule start_segment_in_step [of args ps als i st1 st2 a os M "layout_cost sizes pre"])
      (use st1 st2(1) assms(1,2,3,5,6) in
        \<open>auto simp: layout_input_ok_def alignments_ok_def ran_def split: bind_splits\<close>)
  moreover have "2 ^ unat (exponent m) dvd ?A"
    if "Section s \<in> set mid" "max_alignment os sizes (part_id_range s) = Some m" for s m
    using assms(7) that by (simp add: le_imp_power_dvd less_eq_alignment_def word_le_nat_alt)
  ultimately obtain st3 where st3: "try_fold ?step mid st2 = Some st3"
      "\<forall>p \<in> set (laid_out mid). agrees ?A (records_out st3 ! p)"
    using loaded_events_congruent [OF assms(1), of "pre @ [SegmentStart i]" mid post st2 ?A i als] st2(2) assms(2,4)
    by auto
  have "try_fold ?step post st3 = Some st"
    using assms(2,8) st2(1) st3(1) by (simp split: bind_splits)
  moreover have "p \<notin> set (laid_out post)"
    using assms(1,2,9) by (auto simp: layout_input_ok_def)
  ultimately show ?thesis
    using layout_events_frame st3(2) assms(9) by metis
qed

lemma segment_part_alignment:
  assumes "layout_input_ok args os ps sizes events M" "events = pre @ SegmentStart i # mid @ post"
    and "\<forall>s m. Section s \<in> set mid \<longrightarrow> max_alignment os sizes (part_id_range s) = Some m \<longrightarrow> m \<le> a"
    and "p \<in> set (laid_out mid)" "sizes ! p \<noteq> 0" "part_alignment os p = Some b"
  shows "b \<le> a"
proof -
  obtain e where e: "e \<in> set mid" "p \<in> set (event_parts e)"
    using assms(4) by (auto simp: laid_out_def)
  obtain s where s: "e = Section s"
    using e(2) by (cases e rule: event_parts.cases) auto
  then have p: "part_output_section_id p = s"
    using e(2) part_in_range_iff [of s p] by simp
  have "event_ok os ps M e"
    using assms(1,2) e(1) by (auto simp: layout_input_ok_def list_all_iff)
  then have "s < num_sections os"
    using s by simp
  then obtain m where m: "max_alignment os sizes (part_id_range s) = Some m" "b \<le> m"
    using max_alignment_total [of os sizes s] assms(1,5,6) p unfolding layout_input_ok_def by metis
  then show ?thesis
    using assms(3) e(1) s order_trans by blast
qed

section \<open>An output with a read-only and a writable segment\<close>

text \<open>
  The file header, \<open>.text\<close> of 100 and 5 bytes (parts aligned to 16 and 1), \<open>.data\<close> of 24 bytes, and the
  string table of 7 bytes outside every segment.
\<close>

definition demo_sections :: output_sections where
  "demo_sections = \<lparr>base_address = 0x400000, section_infos = map (\<lambda>s.
     \<lparr>kind = Primary [], is_alloc = (s \<noteq> 5), is_no_bits = False, is_tls = False,
      is_note = False, is_riscv_attributes = False, is_write = False, is_exec = False,
      min_alignment = Alignment 0, location = None, secondary_order = None\<rparr>) [0..<60],
      output_section_indexes = replicate 60 (Some 0)\<rparr>"

definition demo_sizes :: "u64 part_map" where
  "demo_sizes = (replicate (num_parts demo_sections) 0)[1 := 64, 5 := 7, 127 := 100, 131 := 5, 179 := 24]"

definition demo_segments :: program_segments where
  "demo_segments = replicate 2 \<lparr>is_loadable = True, is_stack = False, is_tls_segment = False,
     segment_order = 2\<rparr>"

definition demo_events :: "order_event list" where
  "demo_events = [SegmentStart 0, Section 1, Section 51, SegmentEnd 0, SegmentStart 1, Section 54, SegmentEnd 1,
     Section 5]"

definition demo_args :: layout_args where
  "demo_args = \<lparr>loadable_segment_alignment = Alignment 12, should_output_partial_object = False,
     stack_size_override = None\<rparr>"

lemma demo_counts: "num_sections demo_sections = 60" "num_parts demo_sections = 268"
  by (simp_all add: num_parts_def num_sections_def demo_sections_def NUM_SINGLE_PART_SECTIONS_def)

lemma demo_sections_ok: "sections_ok demo_sections"
  by (simp add: sections_ok_def demo_counts NUM_SINGLE_PART_SECTIONS_def)
    (simp add: section_info_ok_def list_all_length demo_sections_def alignment_ok_exponent)

lemma parts_cost_le:
  assumes "\<And>p. p \<in> set ps \<Longrightarrow> unat (sizes ! p) \<le> k"
  shows "parts_cost sizes ps \<le> length ps * (k + 2 ^ 17)"
  using assms
proof (induction ps)
  case (Cons p ps)
  have "parts_cost sizes (p # ps) = unat (sizes ! p) + 2 ^ 17 + parts_cost sizes ps"
    by (simp add: parts_cost_def)
  moreover have "unat (sizes ! p) \<le> k" "parts_cost sizes ps \<le> length ps * (k + 2 ^ 17)"
    using Cons by simp_all
  ultimately show ?case
    by simp
qed simp

lemma demo_size_le: "unat (demo_sizes ! p) \<le> 100" if "p < 268"
  using that by (auto simp: demo_sizes_def demo_counts nth_list_update)

lemma demo_laid_out: "laid_out demo_events = 1 # [115..<132] @ [166..<183] @ [5]"
  by (simp add: demo_events_def section_numbers)

lemma demo_cost: "layout_cost demo_sizes demo_events \<le> 36 * (100 + 2 ^ 17) + 2 * 2 ^ 17"
proof -
  have "layout_cost demo_sizes demo_events = parts_cost demo_sizes (laid_out demo_events) + 2 * 2 ^ 17"
    by (simp add: demo_events_def)
  moreover have "parts_cost demo_sizes (laid_out demo_events) \<le> length (laid_out demo_events) * (100 + 2 ^ 17)"
    by (rule parts_cost_le) (use demo_size_le in \<open>auto simp: demo_laid_out\<close>)
  ultimately show ?thesis
    by (simp add: demo_laid_out)
qed

lemma demo_layout_ok: "layout_input_ok demo_args demo_sections demo_segments demo_sizes demo_events 0x400000"
proof -
  have "list_all (event_ok demo_sections demo_segments 0x400000) demo_events"
    by (simp add: demo_events_def demo_counts demo_segments_def)
  moreover have "distinct (laid_out demo_events)"
    by (simp add: demo_laid_out)
  moreover have "unat (base_address demo_sections) \<le> 0x400000"
      "list_all (\<lambda>info. case location info of None \<Rightarrow> True | Some a \<Rightarrow> unat a \<le> 0x400000) (section_infos demo_sections)"
    by (simp_all add: demo_sections_def list_all_length)
  moreover have "length demo_sizes = num_parts demo_sections" "alignment_ok (loadable_segment_alignment demo_args)"
    by (simp_all add: demo_sizes_def demo_args_def alignment_ok_exponent)
  ultimately show ?thesis
    using demo_sections_ok demo_cost by (simp add: layout_input_ok_def)
qed

lemma demo_no_locations: "no_locations demo_sections demo_events"
  by (simp add: no_locations_def demo_events_def) (simp add: demo_sections_def list_all_length)

section \<open>Properties\<close>

text \<open>The layout does not panic, and in the order of the events the parts follow each other in the file
  without overlap; every part with contents has its own alignment, and its offset and address are
  multiples of it.\<close>

theorem layout_parts_disjoint_in_file:
  assumes "layout_input_ok args os ps sizes events M"
  shows "\<exists>rs. layout_section_parts args os ps sizes events = Some rs
    \<and> sorted_wrt (\<lambda>p q. snd (file_span rs p) \<le> fst (file_span rs q)) (laid_out events)
    \<and> list_all (part_ok os sizes rs) (laid_out events)"
proof -
  obtain st where "layout_section_parts args os ps sizes events = Some (records_out st)"
      "layout_done args os sizes True (laid_out events) st"
    using layout_section_parts_ok [OF assms, of True] by auto
  then show ?thesis
    by (auto simp: layout_done_def ordered_spans_def)
qed

theorem layout_parts_disjoint_in_file_witness:
  "\<exists>rs. layout_section_parts demo_args demo_sections demo_segments demo_sizes demo_events = Some rs
    \<and> sorted_wrt (\<lambda>p q. snd (file_span rs p) \<le> fst (file_span rs q)) (laid_out demo_events)
    \<and> part_ok demo_sections demo_sizes rs 127"
proof -
  have "127 \<in> set (laid_out demo_events)"
    by (simp add: demo_laid_out)
  then show ?thesis
    using layout_parts_disjoint_in_file [OF demo_layout_ok] by (auto simp: list_all_iff)
qed



text \<open>C9: inside a load segment the offset of a part in the file and its address in memory agree modulo the
  alignment of the segment, as the loader requires, and that alignment is at least the alignment of every
  part with contents in the segment.\<close>

theorem load_segment_offsets_agree:
  assumes "layout_input_ok args os ps sizes events M" "events = pre @ SegmentStart i # mid @ post"
    and "is_load_segment ps i = Some True" "list_all (loaded_event args os ps i) mid"
  shows "\<exists>als a rs. compute_segment_alignments args os ps sizes events = Some als \<and> als i = Some a
    \<and> layout_section_parts args os ps sizes events = Some rs
    \<and> (\<forall>p \<in> set (laid_out mid). agrees (2 ^ unat (exponent a)) (rs ! p)
        \<and> (sizes ! p \<noteq> 0 \<longrightarrow> rec_alignment (rs ! p) \<le> a))"
proof -
  obtain als st where als: "compute_segment_alignments args os ps sizes events = Some als" "alignments_ok als"
      and run: "try_fold (layout_event args os ps sizes als) events (layout_start os) = Some st"
      and rs: "layout_section_parts args os ps sizes events = Some (records_out st)"
      and ok: "layout_done args os sizes True (laid_out events) st"
    using layout_section_parts_ok [OF assms(1), of True] by blast
  obtain a where a: "als i = Some a"
      "\<forall>s m. Section s \<in> set mid \<longrightarrow> max_alignment os sizes (part_id_range s) = Some m \<longrightarrow> m \<le> a"
    using segment_alignment_of_segment [OF als(1) assms(2-4)] by blast
  have "agrees (2 ^ unat (exponent a)) (records_out st ! p)" if "p \<in> set (laid_out mid)" for p
    using segment_parts_agree [OF assms als(2) a run that] .
  moreover have "rec_alignment (records_out st ! p) \<le> a" if "p \<in> set (laid_out mid)" "sizes ! p \<noteq> 0" for p
  proof -
    have "part_alignment os p = Some (rec_alignment (records_out st ! p))"
      using ok that assms(2) by (auto simp: layout_done_def list_all_iff part_ok_def)
    then show ?thesis
      using segment_part_alignment [OF assms(1,2) a(2) that] by blast
  qed
  ultimately show ?thesis
    using als(1) a(1) rs by blast
qed

theorem load_segment_offsets_agree_witness:
  "\<exists>als a rs. compute_segment_alignments demo_args demo_sections demo_segments demo_sizes demo_events = Some als
    \<and> als 1 = Some a \<and> layout_section_parts demo_args demo_sections demo_segments demo_sizes demo_events = Some rs
    \<and> agrees (2 ^ unat (exponent a)) (rs ! 179) \<and> rec_alignment (rs ! 179) \<le> a"
proof -
  have events: "demo_events = [SegmentStart 0, Section 1, Section 51, SegmentEnd 0] @ SegmentStart 1 # [Section 54]
      @ [SegmentEnd 1, Section 5]"
    by (simp add: demo_events_def)
  have seg: "is_load_segment demo_segments 1 = Some True"
    by (simp add: is_load_segment_def demo_segments_def nth_opt_def)
  have mid: "list_all (loaded_event demo_args demo_sections demo_segments 1) [Section 54]"
    by (simp add: target_info_def primary_output_section_def merge_target_def output_info_def nth_opt_def
        demo_sections_def in_memory_def demo_args_def has_data_in_file_def)
  have part: "179 \<in> set (laid_out [Section 54])" "demo_sizes ! 179 \<noteq> 0"
    by (simp_all add: section_numbers demo_sizes_def demo_counts)
  from load_segment_offsets_agree [OF demo_layout_ok events seg mid] part show ?thesis
    by blast
qed

end
