(* ===== verification/Section_Layout.thy ===== *)
theory Section_Layout
  imports Part_Layout_Spec "HOL-Library.Product_Lexorder"
begin

text \<open>
  From parts to sections, groups and segments (\<open>layout.rs\<close>): the extent of an output section is the hull
  of its parts, secondary sections are merged into their primary one, every group of input files gets its
  share of each part, and a program segment covers the sections laid out while it is open.
\<close>

section \<open>Sections\<close>

record extent =
  ex_file_offset :: u64
  ex_mem_offset :: u64
  ex_file_end :: u64
  ex_mem_end :: u64
  ex_alignment :: alignment

definition extent_start :: "alignment \<Rightarrow> extent" where
  "extent_start a = \<lparr>ex_file_offset = - 1, ex_mem_offset = - 1, ex_file_end = 0, ex_mem_end = 0, ex_alignment = a\<rparr>"

definition extend_extent :: "output_record_layout \<Rightarrow> extent \<Rightarrow> extent" where
  "extend_extent part e =
     \<lparr>ex_file_offset = min (ex_file_offset e) (file_offset part),
      ex_mem_offset = min (ex_mem_offset e) (mem_offset part),
      ex_file_end = max (ex_file_end e) (file_offset part + file_size part),
      ex_mem_end = max (ex_mem_end e) (mem_offset part + mem_size part),
      ex_alignment = (if mem_size part > 0 then max (ex_alignment e) (rec_alignment part) else ex_alignment e)\<rparr>"

definition section_layout :: "section_output_info \<Rightarrow> output_record_layout list \<Rightarrow> output_record_layout" where
  "section_layout info layouts =
     (let e = fold extend_extent layouts (extent_start (min_alignment info))
      in \<lparr>file_size = ex_file_end e - ex_file_offset e, mem_size = ex_mem_end e - ex_mem_offset e,
          rec_alignment = ex_alignment e, file_offset = ex_file_offset e, mem_offset = ex_mem_offset e\<rparr>)"

text \<open>\<open>OutputSectionPartMap::merge_parts\<close>: the parts are split off section by section.\<close>

fun split_parts :: "(output_section_id \<Rightarrow> 'a list \<Rightarrow> 'b option) \<Rightarrow> output_section_id list \<Rightarrow> 'a list \<Rightarrow> 'b list option" where
  "split_parts cb [] parts = Some []"
| "split_parts cb (s # ss) parts =
     (let n = section_num_parts s
      in if n \<le> length parts then do {
           v \<leftarrow> cb s (take n parts);
           vs \<leftarrow> split_parts cb ss (drop n parts);
           Some (v # vs)
         }
         else None)"

definition merge_parts :: "(output_section_id \<Rightarrow> 'a list \<Rightarrow> 'b option) \<Rightarrow> 'a part_map \<Rightarrow> 'b list option" where
  "merge_parts cb parts = split_parts cb [0..<part_output_section_id (length parts)] parts"

definition layout_sections :: "output_sections \<Rightarrow> output_record_layout part_map \<Rightarrow> output_record_layout list option" where
  "layout_sections os layouts =
     merge_parts (\<lambda>s parts. map_option (\<lambda>info. section_layout info parts) (output_info os s)) layouts"

text \<open>\<open>OutputRecordLayout::merge\<close>; its assertions are debug assertions.\<close>

definition record_merge :: "output_record_layout \<Rightarrow> output_record_layout \<Rightarrow> output_record_layout" where
  "record_merge r other =
     r\<lparr>mem_size := mem_size r + mem_size other, file_size := file_size r + file_size other,
       rec_alignment := (if mem_size other > 0 then max (rec_alignment r) (rec_alignment other) else rec_alignment r)\<rparr>"

definition merge_secondary :: "output_section_id \<times> section_output_info \<Rightarrow> output_record_layout list
    \<Rightarrow> output_record_layout list option" where
  "merge_secondary s layouts =
     (case kind (snd s) of
        Primary _ \<Rightarrow> Some layouts
      | Secondary primary_id \<Rightarrow> do {
          secondary \<leftarrow> nth_opt layouts (fst s);
          layouts \<leftarrow> update_opt layouts (fst s) default_record;
          r \<leftarrow> nth_opt layouts primary_id;
          update_opt layouts primary_id (record_merge r secondary)
        })"

definition merge_secondary_parts :: "output_sections \<Rightarrow> output_record_layout list \<Rightarrow> output_record_layout list option" where
  "merge_secondary_parts os = try_fold merge_secondary (zip [0..<num_sections os] (section_infos os))"

section \<open>Groups\<close>

definition starting_memory_offsets :: "output_record_layout part_map \<Rightarrow> u64 part_map" where
  "starting_memory_offsets layouts = map mem_offset layouts"

fun compute_start_offsets_by_group :: "u64 part_map list \<Rightarrow> u64 part_map \<Rightarrow> u64 part_map list" where
  "compute_start_offsets_by_group [] mem_offsets = []"
| "compute_start_offsets_by_group (mem_sizes # groups) mem_offsets =
     mem_offsets # compute_start_offsets_by_group groups (part_merge mem_offsets mem_sizes)"

fun total_group_sizes :: "u64 part_map list \<Rightarrow> u64 part_map \<Rightarrow> u64 part_map" where
  "total_group_sizes [] acc = acc"
| "total_group_sizes (mem_sizes # groups) acc = total_group_sizes groups (part_merge acc mem_sizes)"

definition compute_file_sizes :: "output_sections \<Rightarrow> u64 part_map \<Rightarrow> u64 part_map option" where
  "compute_file_sizes os mem_sizes =
     those (map (\<lambda>p. map_option (\<lambda>info. if has_data_in_file info then mem_sizes ! p else 0)
                       (output_info os (part_output_section_id p))) [0..<length mem_sizes])"

section \<open>Segments\<close>

definition FILE_HEADER :: output_section_id where
  "FILE_HEADER = 1"

record segment_record =
  seg_id :: segment_id
  seg_file_start :: u64
  seg_file_end :: u64
  seg_mem_start :: u64
  seg_mem_end :: u64
  seg_alignment :: alignment

datatype segment_error =
  SegmentEndWithoutStart segment_id
| NonZeroAddressOutsideSegments output_section_id
| AllocOutsideSegments output_section_id
| MissingMemoryOffset output_section_id
| MissingAllocFlag output_section_id

type_synonym segment_state = "segment_record list \<times> segment_record option list"

definition segment_start :: "layout_args \<Rightarrow> segment_id \<Rightarrow> bool \<Rightarrow> segment_record" where
  "segment_start args i stack =
     (if stack then \<lparr>seg_id = i, seg_file_start = 0, seg_file_end = 0, seg_mem_start = 0,
        seg_mem_end = (case stack_size_override args of None \<Rightarrow> 0 | Some n \<Rightarrow> n), seg_alignment = Alignment 0\<rparr>
      else \<lparr>seg_id = i, seg_file_start = - 1, seg_file_end = 0, seg_mem_start = - 1, seg_mem_end = 0,
        seg_alignment = Alignment 0\<rparr>)"

definition extend_segment :: "output_record_layout \<Rightarrow> segment_record \<Rightarrow> segment_record" where
  "extend_segment l r =
     r\<lparr>seg_file_start := min (seg_file_start r) (file_offset l),
       seg_mem_start := min (seg_mem_start r) (mem_offset l),
       seg_file_end := max (seg_file_end r) (file_offset l + file_size l),
       seg_mem_end := max (seg_mem_end r) (mem_offset l + mem_size l),
       seg_alignment := max (seg_alignment r) (rec_alignment l)\<rparr>"

text \<open>\<open>Elf::validate_section\<close>: the error, if any.\<close>

definition validate_section :: "section_output_info \<Rightarrow> section_output_info \<Rightarrow> output_record_layout
    \<Rightarrow> output_section_id \<Rightarrow> output_section_id \<Rightarrow> segment_error option" where
  "validate_section info tinfo layout target s =
     (if is_note info \<or> is_riscv_attributes info then None
      else if \<not> (mem_offset layout \<noteq> 0 \<or> target = FILE_HEADER) then Some (MissingMemoryOffset s)
      else if \<not> is_alloc tinfo then Some (MissingAllocFlag s)
      else None)"

text \<open>Sections that will not end up in the file are skipped.\<close>

definition is_ignored :: "output_sections \<Rightarrow> output_record_layout \<Rightarrow> output_section_id \<Rightarrow> bool option" where
  "is_ignored os layout target =
     (if file_size layout = 0 \<and> mem_size layout = 0
      then map_option (\<lambda>index. index = None) (nth_opt (output_section_indexes os) target)
      else Some False)"

definition segment_section :: "output_sections \<Rightarrow> output_record_layout list \<Rightarrow> output_section_id \<Rightarrow> segment_state
    \<Rightarrow> (segment_error + segment_state) option" where
  "segment_section os layouts s st = do {
     layout \<leftarrow> nth_opt layouts s;
     target \<leftarrow> primary_output_section os s;
     ignored \<leftarrow> is_ignored os layout target;
     if ignored then Some (Inr st)
     else do {
       tinfo \<leftarrow> output_info os target;
       info \<leftarrow> output_info os s;
       if list_all (\<lambda>r. r = None) (snd st) then
         (if mem_offset layout \<noteq> 0 then Some (Inl (NonZeroAddressOutsideSegments s))
          else if is_alloc tinfo then Some (Inl (AllocOutsideSegments s))
          else Some (Inr st))
       else (case validate_section info tinfo layout target s of
               Some e \<Rightarrow> Some (Inl e)
             | None \<Rightarrow> Some (Inr (fst st, map (map_option (extend_segment layout)) (snd st))))
     }
   }"

fun segment_event :: "layout_args \<Rightarrow> output_sections \<Rightarrow> program_segments \<Rightarrow> output_record_layout list \<Rightarrow> order_event
    \<Rightarrow> segment_state \<Rightarrow> (segment_error + segment_state) option" where
  "segment_event args os ps layouts (SegmentStart i) st = do {
     seg \<leftarrow> nth_opt ps i;
     active \<leftarrow> update_opt (snd st) i (Some (segment_start args i (is_stack seg)));
     Some (Inr (fst st, active))
   }"
| "segment_event args os ps layouts (SegmentEnd i) st = do {
     r \<leftarrow> nth_opt (snd st) i;
     case r of
       None \<Rightarrow> Some (Inl (SegmentEndWithoutStart i))
     | Some r \<Rightarrow> Some (Inr (fst st @ [r], (snd st)[i := None]))
   }"
| "segment_event args os ps layouts (Section s) st = segment_section os layouts s st"
| "segment_event args os ps layouts (SetLocation a) st = Some (Inr st)"

fun segment_events :: "layout_args \<Rightarrow> output_sections \<Rightarrow> program_segments \<Rightarrow> output_record_layout list \<Rightarrow> order_event list
    \<Rightarrow> segment_state \<Rightarrow> (segment_error + segment_state) option" where
  "segment_events args os ps layouts [] st = Some (Inr st)"
| "segment_events args os ps layouts (e # es) st = do {
     r \<leftarrow> segment_event args os ps layouts e st;
     case r of Inl x \<Rightarrow> Some (Inl x) | Inr st \<Rightarrow> segment_events args os ps layouts es st
   }"

definition segment_sizes :: "segment_record \<Rightarrow> output_record_layout" where
  "segment_sizes r = \<lparr>file_size = seg_file_end r - seg_file_start r, mem_size = seg_mem_end r - seg_mem_start r,
     rec_alignment = seg_alignment r, file_offset = seg_file_start r, mem_offset = seg_mem_start r\<rparr>"

text \<open>
  The segments that are written, sorted for the program headers, and the layout of the thread-local one.
  The assertion that every segment is complete is a real one.
\<close>

definition compute_segment_layout :: "layout_args \<Rightarrow> output_sections \<Rightarrow> program_segments \<Rightarrow> output_record_layout list
    \<Rightarrow> order_event list \<Rightarrow> segment_id list
    \<Rightarrow> (segment_error + (segment_id \<times> output_record_layout) list \<times> output_record_layout option) option" where
  "compute_segment_layout args os ps layouts events active_segment_ids =
     (if should_output_partial_object args then Some (Inr ([], None))
      else do {
        r \<leftarrow> segment_events args os ps layouts events ([], replicate (length ps) None);
        case r of
          Inl e \<Rightarrow> Some (Inl e)
        | Inr (complete, _) \<Rightarrow> do {
            let complete = sort_key seg_id complete;
            if length complete \<noteq> length ps then None
            else do {
              segments \<leftarrow> those (map (\<lambda>i. map_option (\<lambda>r. (i, segment_sizes r)) (nth_opt complete i)) active_segment_ids);
              let tls = fold (\<lambda>(i, l) tls. if is_tls_segment (ps ! i) then Some l else tls) segments None;
              Some (Inr (sort_key (\<lambda>(i, l). (segment_order (ps ! i), mem_offset l)) segments, tls))
            }
          }
      })"

section \<open>A section is the hull of its parts\<close>

lemma extent_fields:
  "ex_file_offset (fold extend_extent layouts e) = fold min (map file_offset layouts) (ex_file_offset e)"
  "ex_mem_offset (fold extend_extent layouts e) = fold min (map mem_offset layouts) (ex_mem_offset e)"
  "ex_file_end (fold extend_extent layouts e) = fold max (map (\<lambda>r. file_offset r + file_size r) layouts) (ex_file_end e)"
  "ex_mem_end (fold extend_extent layouts e) = fold max (map (\<lambda>r. mem_offset r + mem_size r) layouts) (ex_mem_end e)"
  by (induction layouts arbitrary: e) (simp_all add: extend_extent_def min.commute max.commute)

lemma fold_min_words:
  assumes "xs \<noteq> []"
  shows "fold min xs (- 1 :: u64) \<in> set xs \<and> (\<forall>x \<in> set xs. fold min xs (- 1) \<le> x)"
proof -
  have "fold min xs (- 1 :: u64) = Min (insert (- 1) (set xs))"
    by (simp add: Min.set_eq_fold [symmetric])
  also have "\<dots> = min (- 1) (Min (set xs))"
    using assms by (simp add: Min_insert)
  also have "\<dots> = Min (set xs)"
    by (simp add: min_def word_order.extremum_unique)
  finally show ?thesis
    using assms by simp
qed

lemma fold_max_words:
  assumes "xs \<noteq> []"
  shows "fold max xs (0 :: u64) \<in> set xs \<and> (\<forall>x \<in> set xs. x \<le> fold max xs 0)"
proof -
  have "fold max xs (0 :: u64) = Max (insert 0 (set xs))"
    by (simp add: Max.set_eq_fold [symmetric])
  also have "\<dots> = max 0 (Max (set xs))"
    using assms by (simp add: Max_insert)
  also have "\<dots> = Max (set xs)"
    by (simp add: max_def word_coorder.extremum_unique)
  finally show ?thesis
    using assms by simp
qed

text \<open>The interval of a record, in the file and in memory.\<close>

definition in_file :: "output_record_layout \<Rightarrow> nat \<times> nat" where
  "in_file r = (unat (file_offset r), unat (file_offset r) + unat (file_size r))"

definition in_mem :: "output_record_layout \<Rightarrow> nat \<times> nat" where
  "in_mem r = (unat (mem_offset r), unat (mem_offset r) + unat (mem_size r))"

definition hull_of :: "nat \<times> nat \<Rightarrow> (nat \<times> nat) set \<Rightarrow> bool" where
  "hull_of h S \<longleftrightarrow> fst h \<in> fst ` S \<and> snd h \<in> snd ` S \<and> (\<forall>s \<in> S. fst h \<le> fst s \<and> snd s \<le> snd h)"

lemma hull_words:
  fixes lo sz :: "'a \<Rightarrow> u64"
  assumes "xs \<noteq> []" "\<And>x. x \<in> set xs \<Longrightarrow> unat (lo x) + unat (sz x) < 2 ^ 64"
  defines "a \<equiv> fold min (map lo xs) (- 1)" and "b \<equiv> fold max (map (\<lambda>x. lo x + sz x) xs) 0"
  shows "hull_of (unat a, unat a + unat (b - a)) ((\<lambda>x. (unat (lo x), unat (lo x) + unat (sz x))) ` set xs)"
proof -
  have a: "a \<in> set (map lo xs)" "\<And>x. x \<in> set xs \<Longrightarrow> a \<le> lo x"
    using fold_min_words [of "map lo xs"] assms(1) by (auto simp: a_def)
  have b: "b \<in> set (map (\<lambda>x. lo x + sz x) xs)" "\<And>x. x \<in> set xs \<Longrightarrow> lo x + sz x \<le> b"
    using fold_max_words [of "map (\<lambda>x. lo x + sz x) xs"] assms(1) by (auto simp: b_def)
  have add: "unat (lo x + sz x) = unat (lo x) + unat (sz x)" if "x \<in> set xs" for x
    using assms(2) [OF that] by (rule unat_add_small)
  obtain x where x: "x \<in> set xs"
    using assms(1) by (cases xs) auto
  have "unat a \<le> unat (lo x)" "unat (lo x) + unat (sz x) \<le> unat b"
    using a(2) [OF x] b(2) [OF x] add [OF x] by (simp_all add: word_le_nat_alt)
  then have "a \<le> b"
    by (simp add: word_le_nat_alt)
  then have end_b: "unat a + unat (b - a) = unat b"
    by (simp add: unat_sub word_le_nat_alt)
  have "unat a \<le> unat (lo y)" "unat (lo y) + unat (sz y) \<le> unat b" if "y \<in> set xs" for y
    using a(2) [OF that] b(2) [OF that] add [OF that] by (simp_all add: word_le_nat_alt)
  then show ?thesis
    using a(1) b(1) add end_b by (force simp: hull_of_def)
qed

lemma section_layout_file_hull:
  assumes "layouts \<noteq> []" "\<And>r. r \<in> set layouts \<Longrightarrow> snd (in_file r) < 2 ^ 64"
  shows "hull_of (in_file (section_layout info layouts)) (in_file ` set layouts)"
  using hull_words [OF assms(1), of file_offset file_size] assms(2)
  by (simp add: section_layout_def Let_def extent_fields extent_start_def in_file_def [abs_def])

lemma section_layout_mem_hull:
  assumes "layouts \<noteq> []" "\<And>r. r \<in> set layouts \<Longrightarrow> snd (in_mem r) < 2 ^ 64"
  shows "hull_of (in_mem (section_layout info layouts)) (in_mem ` set layouts)"
  using hull_words [OF assms(1), of mem_offset mem_size] assms(2)
  by (simp add: section_layout_def Let_def extent_fields extent_start_def in_mem_def [abs_def])

lemma hull_ordered:
  assumes "hull_of h S" "hull_of k T" "\<And>s t. s \<in> S \<Longrightarrow> t \<in> T \<Longrightarrow> snd s \<le> fst t"
  shows "snd h \<le> fst k"
  using assms by (auto simp: hull_of_def)

section \<open>Splitting the parts\<close>

lemma base_part_id_Suc: "base_part_id (Suc s) = base_part_id s + section_num_parts s"
  by (auto simp: base_part_id_def section_num_parts_def NUM_SINGLE_PART_SECTIONS_def)

lemma base_part_id_mono: "s \<le> t \<Longrightarrow> base_part_id s \<le> base_part_id t"
  by (rule lift_Suc_mono_le [of base_part_id]) (simp_all add: base_part_id_Suc)

lemma split_parts_eq:
  assumes "length parts = base_part_id n" "k \<le> n" "\<And>s xs. s < n \<Longrightarrow> cb s xs \<noteq> None"
  shows "split_parts cb [k..<n] (drop (base_part_id k) parts)
    = Some (map (\<lambda>s. the (cb s (take (section_num_parts s) (drop (base_part_id s) parts)))) [k..<n])"
  using assms(2)
proof (induction "n - k" arbitrary: k)
  case (Suc m)
  then have k: "k < n" "m = n - Suc k" "Suc k \<le> n"
    by simp_all
  have "base_part_id (Suc k) \<le> length parts"
    using base_part_id_mono [OF k(3)] assms(1) by simp
  then have "section_num_parts k \<le> length parts - base_part_id k"
    by (simp add: base_part_id_Suc)
  moreover obtain v where "cb k (take (section_num_parts k) (drop (base_part_id k) parts)) = Some v"
    using assms(3) [OF k(1)] by blast
  ultimately show ?case
    using Suc.hyps(1) [OF k(2,3)] k(1) by (simp add: upt_conv_Cons base_part_id_Suc add.commute)
qed simp

lemma layout_sections_eq:
  assumes "sections_ok os" "length rs = num_parts os"
  obtains ss where "layout_sections os rs = Some ss" "length ss = num_sections os"
    "\<And>s. s < num_sections os \<Longrightarrow> \<exists>info. ss ! s = section_layout info (map ((!) rs) (event_parts (Section s)))"
proof -
  have n: "part_output_section_id (length rs) = num_sections os" "length rs = base_part_id (num_sections os)"
    using assms by (auto simp: sections_ok_def num_parts_def section_numbers)
  let ?cb = "\<lambda>s parts. map_option (\<lambda>info. section_layout info parts) (output_info os s)"
  have total: "?cb s xs \<noteq> None" if "s < num_sections os" for s xs
    using output_info_total [OF assms(1) that] by auto
  have slice: "take (section_num_parts s) (drop (base_part_id s) rs) = map ((!) rs) (event_parts (Section s))"
    if "s < num_sections os" for s
    using part_range_in_bounds [OF that] assms(2)
    by (intro nth_equalityI) (simp_all add: part_id_range_def)
  have "layout_sections os rs = Some (map (\<lambda>s. the (?cb s (take (section_num_parts s)
      (drop (base_part_id s) rs)))) [0..<num_sections os])"
    using split_parts_eq [OF n(2), of 0 ?cb] total
    by (simp add: layout_sections_def merge_parts_def n(1) base_part_id_def NUM_SINGLE_PART_SECTIONS_def)
  then show thesis
  proof (rule that)
    fix s
    assume "s < num_sections os"
    moreover from this obtain info where "output_info os s = Some info"
      by (rule output_info_total [OF assms(1)])
    ultimately show "\<exists>info. map (\<lambda>s. the (?cb s (take (section_num_parts s) (drop (base_part_id s) rs))))
        [0..<num_sections os] ! s = section_layout info (map ((!) rs) (event_parts (Section s)))"
      using slice by (intro exI [of _ info]) simp
  qed simp
qed

section \<open>Sections in the order of the events\<close>

fun event_section :: "order_event \<Rightarrow> output_section_id option" where
  "event_section (Section s) = Some s"
| "event_section _ = None"

definition laid_sections :: "order_event list \<Rightarrow> output_section_id list" where
  "laid_sections events = List.map_filter event_section events"

lemma laid_out_sections: "laid_out events = concat (map (\<lambda>s. event_parts (Section s)) (laid_sections events))"
  unfolding laid_out_def laid_sections_def
proof (induction events)
  case (Cons e events)
  then show ?case
    by (cases e) (simp_all add: map_filter_simps)
qed (simp add: map_filter_simps)

lemma sorted_wrt_concat:
  "sorted_wrt R (concat (map f xs)) \<Longrightarrow> sorted_wrt (\<lambda>x y. \<forall>p \<in> set (f x). \<forall>q \<in> set (f y). R p q) xs"
  by (induction xs) (auto simp: sorted_wrt_append)

lemma sorted_wrt_mono_set:
  "sorted_wrt R xs \<Longrightarrow> (\<And>x y. x \<in> set xs \<Longrightarrow> y \<in> set xs \<Longrightarrow> R x y \<Longrightarrow> Q x y) \<Longrightarrow> sorted_wrt Q xs"
  by (rule sorted_wrt_mono_rel)

lemma laid_section_bound:
  assumes "layout_input_ok args os ps sizes events M" "s \<in> set (laid_sections events)"
  shows "s < num_sections os"
proof -
  have "Section s \<in> set events"
    using assms(2) by (auto simp: laid_sections_def map_filter_def elim: event_section.elims)
  then have "event_ok os ps M (Section s)"
    using assms(1) unfolding layout_input_ok_def list_all_iff by blast
  then show ?thesis
    by simp
qed

section \<open>The groups share each part\<close>

lemma length_part_merge [simp]: "length r = length l \<Longrightarrow> length (part_merge l r) = length l"
  and nth_part_merge: "length r = length l \<Longrightarrow> p < length l \<Longrightarrow> part_merge l r ! p = l ! p + r ! p"
  by (simp_all add: part_merge_def)

lemma nth_group_starts:
  assumes "list_all (\<lambda>g. length g = n) groups" "length offs = n" "p < n" "j < length groups"
  shows "compute_start_offsets_by_group groups offs ! j ! p = offs ! p + sum_list (map (\<lambda>g. g ! p) (take j groups))"
  using assms
proof (induction groups arbitrary: offs j)
  case (Cons g groups)
  then show ?case
    using Cons.IH [of "part_merge offs g" "j - 1"] nth_part_merge [of g offs p]
    by (cases j) (auto simp: algebra_simps)
qed simp

lemma nth_total_group_sizes:
  assumes "list_all (\<lambda>g. length g = n) groups" "length acc = n" "p < n"
  shows "total_group_sizes groups acc ! p = acc ! p + sum_list (map (\<lambda>g. g ! p) groups)"
  using assms
proof (induction groups arbitrary: acc)
  case (Cons g groups)
  then show ?case
    using Cons.IH [of "part_merge acc g"] nth_part_merge [of g acc p] by (simp add: algebra_simps)
qed simp

lemma unat_sum_list:
  "sum_list (map unat xs) < 2 ^ 64 \<Longrightarrow> unat (sum_list xs :: u64) = sum_list (map unat xs)"
  by (induction xs) (auto simp: unat_add_small)

lemma group_start_unat:
  assumes "list_all (\<lambda>g. length g = n) groups" "length offs = n" "p < n" "j < length groups"
    and "unat (offs ! p) + sum_list (map (\<lambda>g. unat (g ! p)) groups) < 2 ^ 64"
  shows "unat (compute_start_offsets_by_group groups offs ! j ! p)
    = unat (offs ! p) + sum_list (map (\<lambda>g. unat (g ! p)) (take j groups))"
proof -
  have "sum_list (map (\<lambda>g. unat (g ! p)) groups) = sum_list (map (\<lambda>g. unat (g ! p)) (take j groups))
      + sum_list (map (\<lambda>g. unat (g ! p)) (drop j groups))"
    by (subst (1) append_take_drop_id [of j groups, symmetric]) (simp only: map_append sum_list_append)
  then have le: "unat (offs ! p) + sum_list (map (\<lambda>g. unat (g ! p)) (take j groups)) < 2 ^ 64"
    using assms(5) by linarith
  then have "sum_list (map unat (map (\<lambda>g. g ! p) (take j groups))) < 2 ^ 64"
    unfolding map_map comp_def by linarith
  then have "unat (sum_list (map (\<lambda>g. g ! p) (take j groups))) = sum_list (map (\<lambda>g. unat (g ! p)) (take j groups))"
    using unat_sum_list [of "map (\<lambda>g. g ! p) (take j groups)"] unfolding map_map comp_def by blast
  then show ?thesis
    using le nth_group_starts [OF assms(1-4)] by (simp add: unat_add_small)
qed

lemma sum_take_less:
  fixes f :: "'a \<Rightarrow> nat"
  assumes "i < j" "i < length xs"
  shows "sum_list (map f (take i xs)) + f (xs ! i) \<le> sum_list (map f (take j xs))"
proof -
  have "sum_list (map f (take i xs)) + f (xs ! i) = sum_list (map f (take (Suc i) xs))"
    using assms(2) by (simp add: take_Suc_conv_app_nth)
  also have "\<dots> \<le> sum_list (map f (take (Suc i) xs)) + sum_list (map f (take (j - Suc i) (drop (Suc i) xs)))"
    by simp
  also have "\<dots> = sum_list (map f (take j xs))"
    using assms(1) take_add [of "Suc i" "j - Suc i" xs] by simp
  finally show ?thesis .
qed

section \<open>A segment covers the sections laid out while it is open\<close>

lemma segment_events_append:
  "segment_events args os ps layouts (es @ fs) st =
     Option.bind (segment_events args os ps layouts es st)
       (\<lambda>r. case r of Inl x \<Rightarrow> Some (Inl x) | Inr st \<Rightarrow> segment_events args os ps layouts fs st)"
  by (induction es arbitrary: st) (auto split: bind_splits sum.splits)

definition covers :: "segment_record \<Rightarrow> output_record_layout \<Rightarrow> bool" where
  "covers r l \<longleftrightarrow> seg_file_start r \<le> file_offset l \<and> file_offset l + file_size l \<le> seg_file_end r
     \<and> seg_mem_start r \<le> mem_offset l \<and> mem_offset l + mem_size l \<le> seg_mem_end r
     \<and> rec_alignment l \<le> seg_alignment r"

lemma covers_extend: "covers r l \<Longrightarrow> covers (extend_segment l' r) l"
  and covers_here: "covers (extend_segment l r) l"
  and extend_segment_id: "seg_id (extend_segment l r) = seg_id r"
  by (auto simp: covers_def extend_segment_def min_le_iff_disj le_max_iff_disj)

fun keeps_open :: "segment_id \<Rightarrow> order_event \<Rightarrow> bool" where
  "keeps_open i (SegmentStart j) \<longleftrightarrow> j \<noteq> i"
| "keeps_open i (SegmentEnd j) \<longleftrightarrow> j \<noteq> i"
| "keeps_open i _ \<longleftrightarrow> True"

definition ignored :: "output_sections \<Rightarrow> output_record_layout list \<Rightarrow> output_section_id \<Rightarrow> bool" where
  "ignored os layouts s \<longleftrightarrow>
     (case primary_output_section os s of None \<Rightarrow> False | Some t \<Rightarrow> is_ignored os (layouts ! s) t = Some True)"

lemma segment_event_open:
  assumes "segment_event args os ps layouts e st = Some (Inr st')" "keeps_open i e"
    and "i < length (snd st)" "snd st ! i = Some r"
  shows "\<exists>r'. i < length (snd st') \<and> snd st' ! i = Some r' \<and> seg_id r' = seg_id r
    \<and> (\<forall>l. covers r l \<longrightarrow> covers r' l) \<and> (\<forall>s. e = Section s \<longrightarrow> \<not> ignored os layouts s \<longrightarrow> covers r' (layouts ! s))"
proof (cases e)
  case (Section s)
  have "\<not> list_all (\<lambda>r. r = None) (snd st)"
    using assms(3,4) by (auto simp: list_all_length)
  then consider "ignored os layouts s" "st' = st"
    | "st' = (fst st, map (map_option (extend_segment (layouts ! s))) (snd st))"
    using assms(1) Section
    by (auto simp: segment_section_def ignored_def split: bind_splits if_splits option.splits)
  then show ?thesis
  proof cases
    case 1
    then show ?thesis
      using assms(3,4) Section by auto
  next
    case 2
    then show ?thesis
      using assms(3,4) Section covers_extend covers_here extend_segment_id by auto
  qed
qed (use assms in \<open>auto split: bind_splits option.splits\<close>)

lemma segment_events_open:
  assumes "segment_events args os ps layouts es st = Some (Inr st')" "list_all (keeps_open i) es"
    and "i < length (snd st)" "snd st ! i = Some r"
  shows "\<exists>r'. i < length (snd st') \<and> snd st' ! i = Some r' \<and> seg_id r' = seg_id r
    \<and> (\<forall>l. covers r l \<longrightarrow> covers r' l)
    \<and> (\<forall>s. Section s \<in> set es \<longrightarrow> \<not> ignored os layouts s \<longrightarrow> covers r' (layouts ! s))"
  using assms
proof (induction es arbitrary: st r)
  case (Cons e es)
  obtain st1 where st1: "segment_event args os ps layouts e st = Some (Inr st1)"
      "segment_events args os ps layouts es st1 = Some (Inr st')"
    using Cons.prems(1) by (auto split: bind_splits sum.splits)
  obtain r1 where r1: "i < length (snd st1)" "snd st1 ! i = Some r1" "seg_id r1 = seg_id r"
      "\<forall>l. covers r l \<longrightarrow> covers r1 l" "\<forall>s. e = Section s \<longrightarrow> \<not> ignored os layouts s \<longrightarrow> covers r1 (layouts ! s)"
    using segment_event_open [OF st1(1) _ Cons.prems(3,4)] Cons.prems(2) by auto
  then show ?case
    using Cons.IH [OF st1(2) _ r1(1,2)] Cons.prems(2) by fastforce
qed auto

lemma segment_event_complete:
  "segment_event args os ps layouts e st = Some (Inr st') \<Longrightarrow> set (fst st) \<subseteq> set (fst st')"
  by (cases e) (auto simp: segment_section_def split: bind_splits if_splits option.splits)

lemma segment_events_complete:
  "segment_events args os ps layouts es st = Some (Inr st') \<Longrightarrow> set (fst st) \<subseteq> set (fst st')"
proof (induction es arbitrary: st)
  case (Cons e es)
  obtain st1 where "segment_event args os ps layouts e st = Some (Inr st1)"
      "segment_events args os ps layouts es st1 = Some (Inr st')"
    using Cons.prems by (auto split: bind_splits sum.splits)
  then show ?case
    using Cons.IH segment_event_complete by blast
qed simp

section \<open>Properties\<close>

text \<open>The extent of every output section in the file is the hull of its parts, and in the order of the
  events the sections follow each other without overlap.\<close>

theorem sections_disjoint_in_file:
  assumes "layout_input_ok args os ps sizes events M"
  shows "\<exists>rs ss. layout_section_parts args os ps sizes events = Some rs \<and> layout_sections os rs = Some ss
    \<and> sorted_wrt (\<lambda>s t. snd (in_file (ss ! s)) \<le> fst (in_file (ss ! t))) (laid_sections events)
    \<and> list_all (\<lambda>s. hull_of (in_file (ss ! s)) ((\<lambda>p. in_file (rs ! p)) ` set (event_parts (Section s))))
        (laid_sections events)"
proof -
  obtain st where rs: "layout_section_parts args os ps sizes events = Some (records_out st)"
      and ok: "layout_done args os sizes True (laid_out events) st" and inv: "layout_inv os M (layout_cost sizes events) st"
    using layout_section_parts_ok [OF assms, of True] by auto
  let ?rs = "records_out st"
  have span: "file_span ?rs p = in_file (?rs ! p)" for p
    by (simp add: file_span_def in_file_def)
  have order: "sorted_wrt (\<lambda>p q. snd (in_file (?rs ! p)) \<le> fst (in_file (?rs ! q))) (laid_out events)"
      and bound: "\<And>p. p \<in> set (laid_out events) \<Longrightarrow> snd (in_file (?rs ! p)) < 2 ^ 64"
    using ok inv assms by (auto simp: layout_done_def ordered_spans_def span layout_inv_def layout_input_ok_def)
  have "sections_ok os" "length ?rs = num_parts os"
    using assms inv by (simp_all add: layout_input_ok_def layout_inv_def)
  then obtain ss where ss: "layout_sections os ?rs = Some ss"
      "\<And>s. s < num_sections os \<Longrightarrow> \<exists>info. ss ! s = section_layout info (map ((!) ?rs) (event_parts (Section s)))"
    by (rule layout_sections_eq) blast
  have hull: "hull_of (in_file (ss ! s)) ((\<lambda>p. in_file (?rs ! p)) ` set (event_parts (Section s)))"
    if s: "s \<in> set (laid_sections events)" for s
  proof -
    obtain info where "ss ! s = section_layout info (map ((!) ?rs) (event_parts (Section s)))"
      using ss(2) [OF laid_section_bound [OF assms s]] by blast
    moreover have "event_parts (Section s) \<noteq> []"
      by (simp add: section_numbers)
    moreover have "snd (in_file r) < 2 ^ 64" if r: "r \<in> set (map ((!) ?rs) (event_parts (Section s)))" for r
    proof -
      obtain p where "p \<in> set (event_parts (Section s))" "r = ?rs ! p"
        using r by auto
      then show ?thesis
        using bound [of p] s unfolding laid_out_sections by auto
    qed
    ultimately show ?thesis
      using section_layout_file_hull [of "map ((!) ?rs) (event_parts (Section s))" info]
      by (simp add: image_image)
  qed
  have "sorted_wrt (\<lambda>s t. snd (in_file (ss ! s)) \<le> fst (in_file (ss ! t))) (laid_sections events)"
    by (rule sorted_wrt_mono_set [OF sorted_wrt_concat [OF order [unfolded laid_out_sections]]])
      (use hull hull_ordered in blast)
  then show ?thesis
    using rs ss(1) hull by (auto simp: list_all_iff)
qed

text \<open>The groups of input files share the memory of a part without overlap: a group ends before every
  later group starts, none starts before the part, and none ends behind the total of the group sizes.\<close>

theorem groups_partition_parts:
  assumes "list_all (\<lambda>g. length g = n) groups" "length layouts = n" "p < n" "i < j" "j < length groups"
    and "unat (mem_offset (layouts ! p)) + sum_list (map (\<lambda>g. unat (g ! p)) groups) < 2 ^ 64"
    and "starts = compute_start_offsets_by_group groups (starting_memory_offsets layouts)"
  shows "unat (mem_offset (layouts ! p)) \<le> unat (starts ! i ! p)
    \<and> unat (starts ! i ! p) + unat (groups ! i ! p) \<le> unat (starts ! j ! p)
    \<and> unat (starts ! j ! p) + unat (groups ! j ! p)
        \<le> unat (mem_offset (layouts ! p)) + unat (total_group_sizes groups (replicate n 0) ! p)"
proof -
  let ?f = "\<lambda>g. unat (g ! p)"
  have offs: "length (starting_memory_offsets layouts) = n" "starting_memory_offsets layouts ! p = mem_offset (layouts ! p)"
    using assms(2,3) by (simp_all add: starting_memory_offsets_def)
  have start: "unat (starts ! k ! p) = unat (mem_offset (layouts ! p)) + sum_list (map ?f (take k groups))"
    if "k < length groups" for k
    using group_start_unat [OF assms(1) offs(1) assms(3) that] assms(6,7) offs(2) by simp
  have "sum_list (map unat (map (\<lambda>g. g ! p) groups)) < 2 ^ 64"
    unfolding map_map comp_def using assms(6) by linarith
  then have "unat (total_group_sizes groups (replicate n 0) ! p) = sum_list (map ?f groups)"
    using nth_total_group_sizes [OF assms(1), of "replicate n 0" p] assms(3)
      unat_sum_list [of "map (\<lambda>g. g ! p) groups"] by (simp add: comp_def)
  moreover have "sum_list (map ?f (take i groups)) + ?f (groups ! i) \<le> sum_list (map ?f (take j groups))"
      "sum_list (map ?f (take j groups)) + ?f (groups ! j) \<le> sum_list (map ?f (take (length groups) groups))"
    using assms(4,5) sum_take_less [of i j groups ?f] sum_take_less [of j "length groups" groups ?f] by simp_all
  ultimately show ?thesis
    using start [of i] start [of j] assms(4,5) by simp
qed

theorem groups_partition_parts_witness:
  "unat (compute_start_offsets_by_group [[16], [32]] (starting_memory_offsets [default_record]) ! 0 ! 0)
      + unat ([[16 :: u64], [32]] ! 0 ! 0)
    \<le> unat (compute_start_offsets_by_group [[16], [32]] (starting_memory_offsets [default_record]) ! 1 ! 0)"
  using groups_partition_parts [of 1 "[[16], [32]]" "[default_record]" 0 0 1]
  by (simp add: default_record_def)

text \<open>C28: every section that is laid out while a segment is open, and not ignored, lies inside the segment in
  the file and in memory, and the alignment of the segment is at least that of the section.\<close>

theorem segment_covers_its_sections:
  assumes "segment_events args os ps layouts events st = Some (Inr (complete, active))"
    and "events = pre @ SegmentStart i # mid @ SegmentEnd i # post" "list_all (keeps_open i) mid"
  shows "\<exists>r \<in> set complete. seg_id r = i
    \<and> (\<forall>s. Section s \<in> set mid \<longrightarrow> \<not> ignored os layouts s \<longrightarrow> covers r (layouts ! s))"
proof -
  obtain st1 st2 st3 st4 where st:
      "segment_event args os ps layouts (SegmentStart i) st1 = Some (Inr st2)"
      "segment_events args os ps layouts mid st2 = Some (Inr st3)"
      "segment_event args os ps layouts (SegmentEnd i) st3 = Some (Inr st4)"
      "segment_events args os ps layouts post st4 = Some (Inr (complete, active))"
    using assms(1,2)
    by (auto simp: segment_events_append simp del: segment_event.simps split: bind_splits sum.splits)
  obtain r0 where "i < length (snd st2)" "snd st2 ! i = Some r0" "seg_id r0 = i"
    using st(1) by (auto simp: segment_start_def split: bind_splits)
  from segment_events_open [OF st(2) assms(3) this(1,2)] this(3) obtain r where
      r: "snd st3 ! i = Some r" "seg_id r = i"
      "\<forall>s. Section s \<in> set mid \<longrightarrow> \<not> ignored os layouts s \<longrightarrow> covers r (layouts ! s)"
    by auto
  have "r \<in> set (fst st4)"
    using st(3) r(1) by (auto simp: nth_opt_def split: if_splits)
  then have "r \<in> set complete"
    using segment_events_complete [OF st(4)] by auto
  with r show ?thesis
    by blast
qed

theorem segment_covers_its_sections_witness:
  "\<exists>r. seg_id r = 0 \<and> covers r (default_record\<lparr>mem_offset := 64, mem_size := 8\<rparr>)"
proof -
  let ?layouts = "replicate 60 (default_record\<lparr>mem_offset := 64, mem_size := 8\<rparr>)"
  have run: "segment_events demo_args demo_sections demo_segments ?layouts
      [SegmentStart 0, Section 1, SegmentEnd 0] ([], [None, None])
      = Some (Inr ([\<lparr>seg_id = 0, seg_file_start = 0, seg_file_end = 0, seg_mem_start = 64, seg_mem_end = 72,
          seg_alignment = Alignment 0\<rparr>], [None, None]))"
    by code_simp
  have events: "[SegmentStart 0, Section 1, SegmentEnd 0] = [] @ SegmentStart 0 # [Section 1] @ SegmentEnd 0 # []"
      "list_all (keeps_open 0) [Section 1]"
    by simp_all
  have kept: "\<not> ignored demo_sections ?layouts 1"
    by code_simp
  have "?layouts ! 1 = default_record\<lparr>mem_offset := 64, mem_size := 8\<rparr>"
    by simp
  then show ?thesis
    using segment_covers_its_sections [OF run events] kept by (metis list.set_intros(1))
qed

text \<open>
  An output with a section of four bytes and a secondary section behind it whose part is aligned to 16.
\<close>

definition padded_sections :: output_sections where
  "padded_sections = demo_sections\<lparr>section_infos :=
     (take 49 (section_infos demo_sections))[48 := (section_infos demo_sections ! 48)\<lparr>kind := Secondary 47\<rparr>]\<rparr>"

definition padded_sizes :: "u64 part_map" where
  "padded_sizes = (replicate 81 0)[61 := 4, 76 := 16]"

text \<open>Merging a secondary section adds its size to that of the primary one and leaves out the padding in
  between: the merged section ends before the contents of the secondary section do.\<close>

theorem merged_section_misses_padding:
  "\<exists>rs ss ms. layout_section_parts demo_args padded_sections demo_segments padded_sizes
      [SegmentStart 0, Section 47, Section 48, SegmentEnd 0] = Some rs
    \<and> layout_sections padded_sections rs = Some ss \<and> merge_secondary_parts padded_sections ss = Some ms
    \<and> in_file (rs ! 76) = (16, 32) \<and> in_file (ms ! 47) = (0, 20)"
proof -
  let ?R = "do {
    rs \<leftarrow> layout_section_parts demo_args padded_sections demo_segments padded_sizes
      [SegmentStart 0, Section 47, Section 48, SegmentEnd 0];
    ss \<leftarrow> layout_sections padded_sections rs;
    ms \<leftarrow> merge_secondary_parts padded_sections ss;
    Some (in_file (rs ! 76), in_file (ms ! 47))
  }"
  have "?R = Some ((16, 32), (0, 20))"
    by code_simp
  then show ?thesis
    by (auto split: bind_splits)
qed

end
