(* ===== verification/Relax_Pass.thy ===== *)
theory Relax_Pass
  imports Riscv_Scan Section_Layout Value_Flags
begin

text \<open>
  The relaxation passes of \<open>layout.rs\<close>: every pass computes the addresses of all input sections from the
  current layout, scans the sections of every object, shrinks them by what the scan deletes, takes the
  space that became free out of the sizes of the parts, and lays the output out again; at most five
  times. Groups are independent of each other, so their parallel traversal is modelled in order; the
  addresses of symbols are stored by the one object that holds the definition.
\<close>

section \<open>Input sections\<close>

definition saturating_add :: "u64 \<Rightarrow> u64 \<Rightarrow> u64" where
  "saturating_add a b = (if unat a + unat b < 2 ^ 64 then a + b else - 1)"

record input_section =
  sec_size :: u64
  extra_capacity :: u64

datatype section_slot = Loaded input_section | LoadedDebugInfo input_section | OtherSlot

definition capacity :: "output_sections \<Rightarrow> part_id \<Rightarrow> input_section \<Rightarrow> u64 option" where
  "capacity os p sec =
     (if should_pack p then Some (sec_size sec)
      else do {
        al \<leftarrow> part_alignment os p;
        c \<leftarrow> align_up al (sec_size sec);
        Some (saturating_add c (extra_capacity sec))
      })"

text \<open>
  What an object file offers: the relocations and the bytes of a section, \<open>None\<close> where reading them fails,
  whether a section is executable, the part it is placed in, and the symbols, numbered from
  \<open>first_symbol\<close> on. Of a symbol that can be read, \<open>symbol_section\<close> is what the look-up of its section
  gives: an error, no section, or a section.
\<close>

record object_symbol =
  symbol_section :: "nat option option"
  symbol_value :: u64
  symbol_is_absolute :: bool

record object_input =
  obj_relocations :: "nat \<Rightarrow> relocation list option"
  obj_bytes :: "nat \<Rightarrow> u8 list option"
  obj_executable :: "nat \<Rightarrow> bool"
  obj_part :: "nat \<Rightarrow> part_id"
  eh_frame_size :: u64
  obj_symbols :: "object_symbol option list"
  first_symbol :: nat

record object_state =
  obj_input :: object_input
  obj_sections :: "section_slot list"
  section_relax_deltas_of :: relax_delta_map

record group_state =
  group_files :: "object_state option list"
  group_mem_sizes :: "u64 part_map"

section \<open>Addresses\<close>

definition EH_FRAME :: part_id where
  "EH_FRAME = 9"

fun slot_addresses :: "output_sections \<Rightarrow> (nat \<Rightarrow> part_id) \<Rightarrow> nat \<Rightarrow> section_slot list \<Rightarrow> u64 part_map
    \<Rightarrow> (u64 list \<times> u64 part_map) option" where
  "slot_addresses os part i [] offsets = Some ([], offsets)"
| "slot_addresses os part i (Loaded sec # slots) offsets = do {
     addr \<leftarrow> nth_opt offsets (part i);
     c \<leftarrow> capacity os (part i) sec;
     offsets \<leftarrow> increment offsets (part i) c;
     (addresses, offsets) \<leftarrow> slot_addresses os part (Suc i) slots offsets;
     Some (addr # addresses, offsets)
   }"
| "slot_addresses os part i (LoadedDebugInfo sec # slots) offsets = do {
     c \<leftarrow> capacity os (part i) sec;
     offsets \<leftarrow> increment offsets (part i) c;
     (addresses, offsets) \<leftarrow> slot_addresses os part (Suc i) slots offsets;
     Some (0 # addresses, offsets)
   }"
| "slot_addresses os part i (OtherSlot # slots) offsets = do {
     (addresses, offsets) \<leftarrow> slot_addresses os part (Suc i) slots offsets;
     Some (0 # addresses, offsets)
   }"

definition SYMBOL_ADDRESS_UNRESOLVED :: u64 where
  "SYMBOL_ADDRESS_UNRESOLVED = - 1"

type_synonym symbol_output_infos = "u64 list"

text \<open>The address of a section by its index, zero where there is none.\<close>

definition address_or_zero :: "u64 list \<Rightarrow> nat \<Rightarrow> u64" where
  "address_or_zero addresses i = (if i < length addresses then addresses ! i else 0)"

text \<open>The address of a canonical definition is recorded; of the other symbols, nothing.\<close>

definition record_symbol :: "symbol_definitions \<Rightarrow> nat \<Rightarrow> u64 list \<Rightarrow> nat \<times> object_symbol option
    \<Rightarrow> symbol_output_infos \<Rightarrow> symbol_output_infos option" where
  "record_symbol defs first addresses s infos =
     (case snd s of
        None \<Rightarrow> Some infos
      | Some symb \<Rightarrow> do {
          let sym_id = first + fst s;
          def_id \<leftarrow> definition_of defs sym_id;
          if def_id \<noteq> sym_id then Some infos
          else (case symbol_section symb of
                  Some (Some section_index) \<Rightarrow>
                    let sec_addr = address_or_zero addresses section_index
                    in if sec_addr = 0 then Some infos
                       else update_opt infos sym_id (sec_addr + symbol_value symb)
                | Some None \<Rightarrow>
                    if symbol_is_absolute symb then update_opt infos sym_id (symbol_value symb) else Some infos
                | None \<Rightarrow> Some infos)
        })"

definition record_symbols :: "symbol_definitions \<Rightarrow> object_input \<Rightarrow> u64 list \<Rightarrow> symbol_output_infos
    \<Rightarrow> symbol_output_infos option" where
  "record_symbols defs inp addresses =
     try_fold (record_symbol defs (first_symbol inp) addresses) (zip [0..<length (obj_symbols inp)] (obj_symbols inp))"

definition object_addresses :: "output_sections \<Rightarrow> symbol_definitions \<Rightarrow> object_state
    \<Rightarrow> u64 part_map \<times> symbol_output_infos \<Rightarrow> (u64 list \<times> u64 part_map \<times> symbol_output_infos) option" where
  "object_addresses os defs obj st = do {
     (addresses, offsets) \<leftarrow> slot_addresses os (obj_part (obj_input obj)) 0 (obj_sections obj) (fst st);
     offsets \<leftarrow> increment offsets EH_FRAME (eh_frame_size (obj_input obj));
     infos \<leftarrow> record_symbols defs (obj_input obj) addresses (snd st);
     Some (addresses, offsets, infos)
   }"

fun file_addresses :: "output_sections \<Rightarrow> symbol_definitions \<Rightarrow> object_state option list
    \<Rightarrow> u64 part_map \<times> symbol_output_infos \<Rightarrow> (u64 list list \<times> symbol_output_infos) option" where
  "file_addresses os defs [] st = Some ([], snd st)"
| "file_addresses os defs (None # files) st = do {
     (rest, infos) \<leftarrow> file_addresses os defs files st;
     Some ([] # rest, infos)
   }"
| "file_addresses os defs (Some obj # files) st = do {
     (addresses, st) \<leftarrow> object_addresses os defs obj st;
     (rest, infos) \<leftarrow> file_addresses os defs files st;
     Some (addresses # rest, infos)
   }"

fun group_addresses :: "output_sections \<Rightarrow> symbol_definitions \<Rightarrow> (group_state \<times> u64 part_map) list
    \<Rightarrow> symbol_output_infos \<Rightarrow> (u64 list list list \<times> symbol_output_infos) option" where
  "group_addresses os defs [] infos = Some ([], infos)"
| "group_addresses os defs ((g, offsets) # groups) infos = do {
     (addresses, infos) \<leftarrow> file_addresses os defs (group_files g) (offsets, infos);
     (rest, infos) \<leftarrow> group_addresses os defs groups infos;
     Some (addresses # rest, infos)
   }"

definition compute_section_and_symbol_addresses :: "output_sections \<Rightarrow> symbol_definitions \<Rightarrow> group_state list
    \<Rightarrow> output_record_layout part_map \<Rightarrow> (u64 list list list \<times> symbol_output_infos) option" where
  "compute_section_and_symbol_addresses os defs groups layouts =
     (let starts = compute_start_offsets_by_group (map group_mem_sizes groups) (starting_memory_offsets layouts)
      in group_addresses os defs (zip groups starts) (replicate (length defs) SYMBOL_ADDRESS_UNRESOLVED))"

definition symbol_infos_resolve :: "per_symbol_flags \<Rightarrow> symbol_output_infos \<Rightarrow> nat \<Rightarrow> relax_symbol_info option option" where
  "symbol_infos_resolve flags infos symbol_id =
     (if symbol_id < length infos \<and> infos ! symbol_id \<noteq> SYMBOL_ADDRESS_UNRESOLVED then do {
        f \<leftarrow> flags_for_symbol flags symbol_id;
        Some (Some \<lparr>output_address = infos ! symbol_id, is_interposable = flags_is_interposable f\<rparr>)
      }
      else Some None)"

text \<open>The closure that the scan of an object is given.\<close>

definition resolve_symbol :: "symbol_definitions \<Rightarrow> per_symbol_flags \<Rightarrow> symbol_output_infos \<Rightarrow> object_input \<Rightarrow> resolver" where
  "resolve_symbol defs flags infos inp sym_idx = do {
     def_id \<leftarrow> definition_of defs (first_symbol inp + sym_idx);
     symbol_infos_resolve flags infos def_id
   }"

section \<open>Scanning a section\<close>

definition total_bytes :: "raw_delta list \<Rightarrow> u64" where
  "total_bytes raw = foldl (\<lambda>acc (_, b). acc + ucast b) 0 raw"

record scan_pass =
  pass_object :: object_state
  pass_mem_sizes :: "u64 part_map"
  reductions :: "u64 part_map"
  next_rescan :: "(nat \<times> u64) list"

text \<open>A section that is loaded gets smaller, and what it no longer occupies leaves the part.\<close>

definition shrink_section :: "output_sections \<Rightarrow> nat \<Rightarrow> u64 \<Rightarrow> scan_pass \<Rightarrow> scan_pass option" where
  "shrink_section os sec_idx deleted_bytes sp = do {
     let obj = pass_object sp;
     slot \<leftarrow> nth_opt (obj_sections obj) sec_idx;
     case slot of
       Loaded sec \<Rightarrow> do {
         let p = obj_part (obj_input obj) sec_idx;
         old_capacity \<leftarrow> capacity os p sec;
         let sec = sec\<lparr>sec_size := sec_size sec - deleted_bytes\<rparr>;
         new_capacity \<leftarrow> capacity os p sec;
         let capacity_reduction = old_capacity - new_capacity;
         let sp = sp\<lparr>pass_object := obj\<lparr>obj_sections := (obj_sections obj)[sec_idx := Loaded sec]\<rparr>\<rparr>;
         if capacity_reduction > 0 then do {
           mem_sizes \<leftarrow> decrement (pass_mem_sizes sp) p capacity_reduction;
           red \<leftarrow> increment (reductions sp) p capacity_reduction;
           Some (sp\<lparr>pass_mem_sizes := mem_sizes, reductions := red\<rparr>)
         }
         else Some sp
       }
     | _ \<Rightarrow> Some sp
   }"

definition scan_section :: "elf_constants \<Rightarrow> output_sections \<Rightarrow> resolver \<Rightarrow> u64 list \<Rightarrow> nat \<Rightarrow> scan_pass
    \<Rightarrow> scan_pass option" where
  "scan_section elf os resolve addresses sec_idx sp =
     (let obj = pass_object sp; inp = obj_input obj;
          addr = address_or_zero addresses sec_idx
      in case obj_relocations inp sec_idx of
           None \<Rightarrow> Some sp
         | Some relocs \<Rightarrow>
             if addr = 0 then Some sp
             else do {
               existing \<leftarrow> map_get (section_relax_deltas_of obj) sec_idx;
               case obj_bytes inp sec_idx of
                 None \<Rightarrow> Some sp
               | Some bytes \<Rightarrow> do {
                   (raw, min_margin) \<leftarrow> collect_relaxation_deltas elf addr bytes relocs existing resolve;
                   let sp = (case min_margin of
                               None \<Rightarrow> sp
                             | Some margin \<Rightarrow> sp\<lparr>next_rescan := next_rescan sp @ [(sec_idx, margin)]\<rparr>);
                   if raw = [] then Some sp
                   else do {
                     sp \<leftarrow> shrink_section os sec_idx (total_bytes raw) sp;
                     m \<leftarrow> map_record sec_idx raw (section_relax_deltas_of (pass_object sp));
                     Some (sp\<lparr>pass_object := (pass_object sp)\<lparr>section_relax_deltas_of := m\<rparr>\<rparr>)
                   }
                 }
             })"

section \<open>Scanning objects, groups and everything\<close>

definition sections_to_scan :: "nat list option \<Rightarrow> object_state \<Rightarrow> nat list" where
  "sections_to_scan prev obj =
     (case prev of
        Some idxs \<Rightarrow> idxs
      | None \<Rightarrow> filter (\<lambda>i. (case obj_sections obj ! i of Loaded _ \<Rightarrow> True | _ \<Rightarrow> False)
                              \<and> obj_executable (obj_input obj) i) [0..<length (obj_sections obj)])"

definition scan_object :: "elf_constants \<Rightarrow> output_sections \<Rightarrow> resolver \<Rightarrow> u64 list \<Rightarrow> nat list option \<Rightarrow> object_state
    \<Rightarrow> u64 part_map \<Rightarrow> u64 part_map \<Rightarrow> scan_pass option" where
  "scan_object elf os resolve addresses prev obj mem_sizes red =
     try_fold (scan_section elf os resolve addresses) (sections_to_scan prev obj)
       \<lparr>pass_object = obj, pass_mem_sizes = mem_sizes, reductions = red, next_rescan = []\<rparr>"

type_synonym file_scan = "object_state option list \<times> u64 part_map \<times> u64 part_map \<times> (nat \<times> u64) list list"

text \<open>
  \<open>resolve\<close> looks up the symbols of a file; \<open>prev\<close> are the sections of each file to rescan.
\<close>

fun scan_files :: "elf_constants \<Rightarrow> output_sections \<Rightarrow> (object_input \<Rightarrow> resolver) \<Rightarrow> u64 list list \<Rightarrow> nat list list option \<Rightarrow> nat
    \<Rightarrow> object_state option list \<Rightarrow> u64 part_map \<Rightarrow> u64 part_map \<Rightarrow> file_scan option" where
  "scan_files elf os resolve addresses prev i [] mem_sizes red = Some ([], mem_sizes, red, [])"
| "scan_files elf os resolve addresses prev i (None # files) mem_sizes red = do {
     (files, mem_sizes, red, rescans) \<leftarrow> scan_files elf os resolve addresses prev (Suc i) files mem_sizes red;
     Some (None # files, mem_sizes, red, [] # rescans)
   }"
| "scan_files elf os resolve addresses prev i (Some obj # files) mem_sizes red = do {
     addrs \<leftarrow> nth_opt addresses i;
     idxs \<leftarrow> (case prev of None \<Rightarrow> Some None | Some rescan \<Rightarrow> map_option Some (nth_opt rescan i));
     sp \<leftarrow> scan_object elf os (resolve (obj_input obj)) addrs idxs obj mem_sizes red;
     (files, mem_sizes, red, rescans) \<leftarrow>
       scan_files elf os resolve addresses prev (Suc i) files (pass_mem_sizes sp) (reductions sp);
     Some (Some (pass_object sp) # files, mem_sizes, red, next_rescan sp # rescans)
   }"

type_synonym rescan_candidates = "(nat \<times> u64) list list list"

fun scan_groups :: "elf_constants \<Rightarrow> output_sections \<Rightarrow> (object_input \<Rightarrow> resolver) \<Rightarrow> u64 list list list
    \<Rightarrow> nat list list list option \<Rightarrow> nat \<Rightarrow> nat \<Rightarrow> group_state list
    \<Rightarrow> (group_state list \<times> u64 part_map list \<times> rescan_candidates) option" where
  "scan_groups elf os resolve addresses prev n g [] = Some ([], [], [])"
| "scan_groups elf os resolve addresses prev n g (grp # groups) = do {
     addrs \<leftarrow> nth_opt addresses g;
     rescan \<leftarrow> (case prev of None \<Rightarrow> Some None | Some rescan \<Rightarrow> map_option Some (nth_opt rescan g));
     (files, mem_sizes, red, rescans) \<leftarrow>
       scan_files elf os resolve addrs rescan 0 (group_files grp) (group_mem_sizes grp) (replicate n 0);
     (groups, reds, candidates) \<leftarrow> scan_groups elf os resolve addresses prev n (Suc g) groups;
     Some (grp\<lparr>group_files := files, group_mem_sizes := mem_sizes\<rparr> # groups, red # reds, rescans # candidates)
   }"

definition apply_reduction :: "nat \<times> u64 \<Rightarrow> u64 part_map \<times> u64 \<Rightarrow> (u64 part_map \<times> u64) option" where
  "apply_reduction r st =
     (let (idx, amount) = r; (sizes, deleted_bytes) = st
      in if amount > 0 then do {
           sizes \<leftarrow> decrement sizes idx amount;
           Some (sizes, deleted_bytes + amount)
         }
         else Some st)"

definition apply_reductions :: "u64 part_map \<Rightarrow> u64 part_map \<times> u64 \<Rightarrow> (u64 part_map \<times> u64) option" where
  "apply_reductions red = try_fold apply_reduction (zip [0..<length red] red)"

definition relaxation_scan_pass :: "elf_constants \<Rightarrow> output_sections \<Rightarrow> symbol_definitions \<Rightarrow> per_symbol_flags
    \<Rightarrow> nat list list list option \<Rightarrow> group_state list \<Rightarrow> u64 part_map \<Rightarrow> output_record_layout part_map
    \<Rightarrow> (group_state list \<times> u64 part_map \<times> u64 \<times> rescan_candidates) option" where
  "relaxation_scan_pass elf os defs flags prev groups sizes layouts = do {
     (addresses, infos) \<leftarrow> compute_section_and_symbol_addresses os defs groups layouts;
     (groups, reds, candidates) \<leftarrow>
       scan_groups elf os (resolve_symbol defs flags infos) addresses prev (length sizes) 0 groups;
     (sizes, deleted_bytes) \<leftarrow> try_fold apply_reductions reds (sizes, 0);
     Some (groups, sizes, deleted_bytes, candidates)
   }"

text \<open>Only the sections with a candidate that the deleted bytes could bring into range are scanned again.\<close>

definition filter_rescans :: "u64 \<Rightarrow> rescan_candidates \<Rightarrow> nat list list list" where
  "filter_rescans deleted_bytes candidates =
     map (map (\<lambda>secs. map fst (filter (\<lambda>(_, margin). margin \<le> deleted_bytes) secs))) candidates"

definition MAX_RELAXATION_ITERATIONS :: nat where
  "MAX_RELAXATION_ITERATIONS = 5"

fun relaxation_iterations :: "elf_constants \<Rightarrow> output_sections \<Rightarrow> symbol_definitions \<Rightarrow> per_symbol_flags
    \<Rightarrow> layout_args \<Rightarrow> program_segments \<Rightarrow> order_event list \<Rightarrow> nat \<Rightarrow> nat list list list option
    \<Rightarrow> group_state list \<times> u64 part_map \<times> output_record_layout part_map
    \<Rightarrow> (group_state list \<times> u64 part_map \<times> output_record_layout part_map) option" where
  "relaxation_iterations elf os defs flags args ps events 0 prev st = Some st"
| "relaxation_iterations elf os defs flags args ps events (Suc n) prev (groups, sizes, layouts) =
     (if (case prev of None \<Rightarrow> False | Some rescan \<Rightarrow> list_all (list_all (\<lambda>secs. secs = [])) rescan)
      then Some (groups, sizes, layouts)
      else do {
        (groups, sizes, deleted_bytes, candidates) \<leftarrow> relaxation_scan_pass elf os defs flags prev groups sizes layouts;
        if deleted_bytes = 0 then Some (groups, sizes, layouts)
        else do {
          layouts \<leftarrow> layout_section_parts args os ps sizes events;
          relaxation_iterations elf os defs flags args ps events n (Some (filter_rescans deleted_bytes candidates))
            (groups, sizes, layouts)
        }
      })"

definition perform_iterative_relaxation :: "elf_constants \<Rightarrow> output_sections
    \<Rightarrow> symbol_definitions \<Rightarrow> per_symbol_flags \<Rightarrow> layout_args \<Rightarrow> program_segments \<Rightarrow> order_event list
    \<Rightarrow> group_state list \<times> u64 part_map \<times> output_record_layout part_map
    \<Rightarrow> (group_state list \<times> u64 part_map \<times> output_record_layout part_map) option" where
  "perform_iterative_relaxation elf os defs flags args ps events =
     relaxation_iterations elf os defs flags args ps events MAX_RELAXATION_ITERATIONS None"

section \<open>The sizes of the parts\<close>

text \<open>
  What the loaded sections of an object occupy of a part. All sums are sums of 64-bit words.
\<close>

definition slot_space :: "output_sections \<Rightarrow> part_id \<Rightarrow> part_id \<Rightarrow> section_slot \<Rightarrow> u64" where
  "slot_space os q p slot =
     (case slot of
        Loaded sec \<Rightarrow> if q = p then (case capacity os q sec of None \<Rightarrow> 0 | Some c \<Rightarrow> c) else 0
      | _ \<Rightarrow> 0)"

definition object_space :: "output_sections \<Rightarrow> object_state \<Rightarrow> part_id \<Rightarrow> u64" where
  "object_space os obj p =
     (\<Sum>i < length (obj_sections obj). slot_space os (obj_part (obj_input obj) i) p (obj_sections obj ! i))"

definition file_space :: "output_sections \<Rightarrow> object_state option list \<Rightarrow> part_id \<Rightarrow> u64" where
  "file_space os files p = sum_list (map (\<lambda>f. case f of None \<Rightarrow> 0 | Some obj \<Rightarrow> object_space os obj p) files)"

text \<open>Two states of the sizes of an object's group in a pass: nothing is lost between them.\<close>

definition balanced :: "output_sections \<Rightarrow> nat \<Rightarrow> scan_pass \<Rightarrow> scan_pass \<Rightarrow> bool" where
  "balanced os n sp sp' \<longleftrightarrow> length (pass_mem_sizes sp') = n \<and> length (reductions sp') = n
     \<and> (\<forall>p < n. pass_mem_sizes sp' ! p + reductions sp' ! p = pass_mem_sizes sp ! p + reductions sp ! p
         \<and> pass_mem_sizes sp' ! p - object_space os (pass_object sp') p
           = pass_mem_sizes sp ! p - object_space os (pass_object sp) p)"

lemma balanced_refl: "length (pass_mem_sizes sp) = n \<Longrightarrow> length (reductions sp) = n \<Longrightarrow> balanced os n sp sp"
  by (simp add: balanced_def)

lemma balanced_trans: "balanced os n a b \<Longrightarrow> balanced os n b c \<Longrightarrow> balanced os n a c"
  by (simp add: balanced_def)

lemma object_space_update:
  assumes "i < length (obj_sections obj)" "obj_sections obj ! i = Loaded sec"
    and "capacity os (obj_part (obj_input obj) i) sec = Some c" "capacity os (obj_part (obj_input obj) i) sec' = Some c'"
  shows "object_space os (obj\<lparr>obj_sections := (obj_sections obj)[i := Loaded sec']\<rparr>) p
    = object_space os obj p - (if obj_part (obj_input obj) i = p then c - c' else 0)"
proof -
  let ?f = "\<lambda>slots j. slot_space os (obj_part (obj_input obj) j) p (slots ! j)"
  have "(\<Sum>j < length (obj_sections obj). ?f slots j) = ?f slots i + (\<Sum>j \<in> {..<length (obj_sections obj)} - {i}. ?f slots j)"
    for slots
    using assms(1) by (simp add: sum.remove)
  moreover have "(\<Sum>j \<in> {..<length (obj_sections obj)} - {i}. ?f ((obj_sections obj)[i := Loaded sec']) j)
      = (\<Sum>j \<in> {..<length (obj_sections obj)} - {i}. ?f (obj_sections obj) j)"
    by (rule sum.cong) auto
  ultimately show ?thesis
    using assms by (auto simp: object_space_def slot_space_def algebra_simps)
qed

lemma shrink_section_index:
  "shrink_section os i del sp = Some sp' \<Longrightarrow> i < length (obj_sections (pass_object sp))"
  by (auto simp: shrink_section_def Let_def split: bind_splits)

lemma shrink_section_loaded:
  assumes "i < length (obj_sections (pass_object sp))" "obj_sections (pass_object sp) ! i = Loaded sec"
    and "p = obj_part (obj_input (pass_object sp)) i" "sec' = sec\<lparr>sec_size := sec_size sec - del\<rparr>"
    and "sp0 = sp\<lparr>pass_object := (pass_object sp)\<lparr>obj_sections := (obj_sections (pass_object sp))[i := Loaded sec']\<rparr>\<rparr>"
  shows "shrink_section os i del sp = do {
    c \<leftarrow> capacity os p sec;
    c' \<leftarrow> capacity os p sec';
    if c - c' > 0 then do {
      m \<leftarrow> decrement (pass_mem_sizes sp) p (c - c');
      r \<leftarrow> increment (reductions sp) p (c - c');
      Some (sp0\<lparr>pass_mem_sizes := m, reductions := r\<rparr>)
    }
    else Some sp0
  }"
  using assms by (simp add: shrink_section_def nth_opt_def Let_def cong: if_cong)

lemma shrink_section_balanced:
  assumes "shrink_section os i del sp = Some sp'" "length (pass_mem_sizes sp) = n" "length (reductions sp) = n"
  shows "balanced os n sp sp'"
proof (cases "obj_sections (pass_object sp) ! i")
  case (Loaded sec)
  let ?obj = "pass_object sp" and ?sec = "sec\<lparr>sec_size := sec_size sec - del\<rparr>"
  let ?p = "obj_part (obj_input ?obj) i"
  let ?obj' = "?obj\<lparr>obj_sections := (obj_sections ?obj)[i := Loaded ?sec]\<rparr>"
  note run = assms(1) [unfolded shrink_section_loaded [OF shrink_section_index [OF assms(1)] Loaded refl refl refl]]
  obtain c c' where c: "capacity os ?p sec = Some c" "capacity os ?p ?sec = Some c'"
    using run by (auto split: bind_splits)
  note space = object_space_update [OF shrink_section_index [OF assms(1)] Loaded c]
  show ?thesis
  proof (cases "c - c' > 0")
    case True
    then have "?p < length (pass_mem_sizes sp)" "sp' = sp\<lparr>pass_object := ?obj',
        pass_mem_sizes := (pass_mem_sizes sp)[?p := pass_mem_sizes sp ! ?p - (c - c')],
        reductions := (reductions sp)[?p := reductions sp ! ?p + (c - c')]\<rparr>"
      using run c by (auto simp: decrement_def increment_def split: bind_splits)
    then show ?thesis
      using assms(2,3) space by (auto simp: balanced_def nth_list_update)
  next
    case False
    then have "c - c' = 0"
      by (metis word_gt_0)
    moreover from False have "sp' = sp\<lparr>pass_object := ?obj'\<rparr>"
      using run c by simp
    ultimately show ?thesis
      using assms(2,3) space by (simp add: balanced_def)
  qed
next
  case (LoadedDebugInfo sec)
  then show ?thesis
    using assms shrink_section_index [OF assms(1)] by (simp add: shrink_section_def nth_opt_def balanced_def)
next
  case OtherSlot
  then show ?thesis
    using assms shrink_section_index [OF assms(1)] by (simp add: shrink_section_def nth_opt_def balanced_def)
qed

text \<open>What a scan of a section comes to: the object is unchanged, or the section shrinks and its deletions are
  recorded.\<close>

lemma scan_section_cases:
  assumes "scan_section elf os resolve addresses i sp = Some sp'"
  shows "(pass_mem_sizes sp' = pass_mem_sizes sp \<and> reductions sp' = reductions sp \<and> pass_object sp' = pass_object sp)
    \<or> (\<exists>l addr rels bytes existing raw margin sp1 m.
        obj_relocations (obj_input (pass_object sp)) i = Some rels \<and> obj_bytes (obj_input (pass_object sp)) i = Some bytes
        \<and> map_get (section_relax_deltas_of (pass_object sp)) i = Some existing
        \<and> addr = addresses ! i \<and> i < length addresses
        \<and> collect_relaxation_deltas elf addr bytes rels existing resolve = Some (raw, margin) \<and> raw \<noteq> []
        \<and> shrink_section os i (total_bytes raw) (sp\<lparr>next_rescan := l\<rparr>) = Some sp1
        \<and> map_record i raw (section_relax_deltas_of (pass_object sp1)) = Some m
        \<and> sp' = sp1\<lparr>pass_object := (pass_object sp1)\<lparr>section_relax_deltas_of := m\<rparr>\<rparr>)"
proof -
  let ?inp = "obj_input (pass_object sp)"
  consider (skip) "sp' = sp"
    | (scan) rels bytes existing raw margin where "i < length addresses" "obj_relocations ?inp i = Some rels"
        "obj_bytes ?inp i = Some bytes" "map_get (section_relax_deltas_of (pass_object sp)) i = Some existing"
        "collect_relaxation_deltas elf (addresses ! i) bytes rels existing resolve = Some (raw, margin)"
        "addresses ! i \<noteq> 0"
    using assms by (auto simp: scan_section_def Let_def address_or_zero_def split: option.splits bind_splits if_splits)
  then show ?thesis
  proof cases
    case skip
    then show ?thesis
      by simp
  next
    case scan
    define sp0 where "sp0 = (case margin of None \<Rightarrow> sp | Some margin \<Rightarrow> sp\<lparr>next_rescan := next_rescan sp @ [(i, margin)]\<rparr>)"
    obtain l where l: "sp0 = sp\<lparr>next_rescan := l\<rparr>"
      by (cases margin) (auto simp: sp0_def intro: that [of "next_rescan sp"])
    have run: "(if raw = [] then Some sp0 else do {
          sp1 \<leftarrow> shrink_section os i (total_bytes raw) sp0;
          m \<leftarrow> map_record i raw (section_relax_deltas_of (pass_object sp1));
          Some (sp1\<lparr>pass_object := (pass_object sp1)\<lparr>section_relax_deltas_of := m\<rparr>\<rparr>)}) = Some sp'"
      using assms scan by (simp add: scan_section_def sp0_def Let_def address_or_zero_def cong: if_cong)
    show ?thesis
    proof (cases "raw = []")
      case True
      then show ?thesis
        using run l by auto
    next
      case False
      then obtain sp1 m where "shrink_section os i (total_bytes raw) sp0 = Some sp1"
          "map_record i raw (section_relax_deltas_of (pass_object sp1)) = Some m"
          "sp' = sp1\<lparr>pass_object := (pass_object sp1)\<lparr>section_relax_deltas_of := m\<rparr>\<rparr>"
        using run by (auto split: bind_splits)
      then show ?thesis
        using scan False l by blast
    qed
  qed
qed

lemma object_space_deltas [simp]: "object_space os (obj\<lparr>section_relax_deltas_of := m\<rparr>) = object_space os obj"
  by (simp add: object_space_def fun_eq_iff)

lemma scan_section_balanced:
  assumes "scan_section elf os resolve addresses i sp = Some sp'" "length (pass_mem_sizes sp) = n"
    and "length (reductions sp) = n"
  shows "balanced os n sp sp'"
proof -
  consider (same) "pass_mem_sizes sp' = pass_mem_sizes sp" "reductions sp' = reductions sp" "pass_object sp' = pass_object sp"
    | (shrunk) l d sp1 m where "shrink_section os i d (sp\<lparr>next_rescan := l\<rparr>) = Some sp1"
        "sp' = sp1\<lparr>pass_object := (pass_object sp1)\<lparr>section_relax_deltas_of := m\<rparr>\<rparr>"
    using scan_section_cases [OF assms(1)] by metis
  then show ?thesis
  proof cases
    case same
    then show ?thesis
      using assms(2,3) by (simp add: balanced_def)
  next
    case shrunk
    then have "balanced os n (sp\<lparr>next_rescan := l\<rparr>) sp1"
      using shrink_section_balanced assms(2,3) by fastforce
    then show ?thesis
      using shrunk(2) by (simp add: balanced_def)
  qed
qed

lemma scan_object_balanced:
  assumes "scan_object elf os resolve addresses prev obj mem red = Some sp" "length mem = n" "length red = n"
  shows "balanced os n \<lparr>pass_object = obj, pass_mem_sizes = mem, reductions = red, next_rescan = []\<rparr> sp"
proof -
  let ?start = "\<lparr>pass_object = obj, pass_mem_sizes = mem, reductions = red, next_rescan = []\<rparr>"
  show ?thesis
  proof (rule try_fold_partial [OF assms(1) [unfolded scan_object_def], where I = "\<lambda>_. balanced os n ?start"])
    fix st st' i
    assume "balanced os n ?start st" "scan_section elf os resolve addresses i st = Some st'"
    then show "balanced os n ?start st'"
      using scan_section_balanced [of elf os resolve addresses i st st' n] balanced_trans
      by (simp add: balanced_def)
  qed (use assms(2,3) in \<open>simp add: balanced_refl\<close>)
qed

lemma scan_files_balanced:
  assumes "scan_files elf os resolve addresses prev i files mem red = Some (files', mem', red', rescans)"
    and "length mem = n" "length red = n"
  shows "length files' = length files \<and> length mem' = n \<and> length red' = n
    \<and> (\<forall>p < n. mem' ! p + red' ! p = mem ! p + red ! p
         \<and> mem' ! p - file_space os files' p = mem ! p - file_space os files p)"
  using assms
proof (induction files arbitrary: i mem red files' mem' red' rescans)
  case Nil
  then show ?case
    by (auto simp: file_space_def)
next
  case (Cons f files)
  show ?case
  proof (cases f)
    case None
    then obtain files1 rescans1 where "files' = None # files1"
        "scan_files elf os resolve addresses prev (Suc i) files mem red = Some (files1, mem', red', rescans1)"
      using Cons.prems(1) by (auto split: bind_splits)
    then show ?thesis
      using Cons.IH Cons.prems(2,3) None by (fastforce simp: file_space_def)
  next
    case (Some obj)
    then obtain addrs idxs sp files1 rescans1 where
        sp: "scan_object elf os (resolve (obj_input obj)) addrs idxs obj mem red = Some sp"
        and rest: "scan_files elf os resolve addresses prev (Suc i) files (pass_mem_sizes sp) (reductions sp)
          = Some (files1, mem', red', rescans1)"
        and files': "files' = Some (pass_object sp) # files1"
      using Cons.prems(1) by (auto split: bind_splits)
    note bal = scan_object_balanced [OF sp Cons.prems(2,3)]
    then have IH: "length files1 = length files" "length mem' = n" "length red' = n"
        "\<And>p. p < n \<Longrightarrow> mem' ! p + red' ! p = pass_mem_sizes sp ! p + reductions sp ! p"
        "\<And>p. p < n \<Longrightarrow> mem' ! p - file_space os files1 p = pass_mem_sizes sp ! p - file_space os files p"
      using Cons.IH [OF rest] by (simp_all add: balanced_def)
    have "mem' ! p - file_space os files' p = mem ! p - file_space os (f # files) p" if "p < n" for p
    proof -
      have "mem' ! p - file_space os files' p = (mem' ! p - file_space os files1 p) - object_space os (pass_object sp) p"
        using files' by (simp add: file_space_def algebra_simps)
      also have "\<dots> = (pass_mem_sizes sp ! p - object_space os (pass_object sp) p) - file_space os files p"
        using IH(5) [OF that] by (simp only: diff_right_commute)
      also have "\<dots> = (mem ! p - object_space os obj p) - file_space os files p"
        using bal that by (simp add: balanced_def)
      finally show ?thesis
        using Some by (simp add: file_space_def algebra_simps)
    qed
    then show ?thesis
      using IH bal files' by (simp add: balanced_def)
  qed
qed

definition group_ok :: "nat \<Rightarrow> group_state \<Rightarrow> bool" where
  "group_ok n g \<longleftrightarrow> length (group_mem_sizes g) = n"

definition group_slack :: "output_sections \<Rightarrow> group_state \<Rightarrow> part_id \<Rightarrow> u64" where
  "group_slack os g p = group_mem_sizes g ! p - file_space os (group_files g) p"

lemma scan_groups_balanced:
  assumes "scan_groups elf os resolve addresses prev n g groups = Some (groups', reds, candidates)"
    and "list_all (group_ok n) groups"
  shows "list_all (group_ok n) groups' \<and> length groups' = length groups \<and> list_all (\<lambda>r. length r = n) reds
    \<and> (\<forall>p < n. sum_list (map (\<lambda>g. group_mem_sizes g ! p) groups') + sum_list (map (\<lambda>r. r ! p) reds)
           = sum_list (map (\<lambda>g. group_mem_sizes g ! p) groups)
         \<and> map (\<lambda>g. group_slack os g p) groups' = map (\<lambda>g. group_slack os g p) groups)"
  using assms
proof (induction groups arbitrary: g groups' reds candidates)
  case Nil
  then show ?case
    by simp
next
  case (Cons grp groups)
  obtain addrs rescan files mem red rescans groups1 reds1 candidates1 where
      f: "scan_files elf os resolve addrs rescan 0 (group_files grp) (group_mem_sizes grp) (replicate n 0)
        = Some (files, mem, red, rescans)"
      and rest: "scan_groups elf os resolve addresses prev n (Suc g) groups = Some (groups1, reds1, candidates1)"
      and eq: "groups' = grp\<lparr>group_files := files, group_mem_sizes := mem\<rparr> # groups1" "reds = red # reds1"
    using Cons.prems(1) by (auto split: bind_splits)
  have n: "length (group_mem_sizes grp) = n"
    using Cons.prems(2) by (simp add: group_ok_def)
  note bal = scan_files_balanced [OF f n, simplified]
  note IH = Cons.IH [OF rest] Cons.prems(2)
  show ?case
    using bal IH by (auto simp: eq group_ok_def group_slack_def algebra_simps)
qed

lemma apply_reduction_eq:
  assumes "apply_reduction (i, a) (sizes, d) = Some (sizes', d')"
  shows "length sizes' = length sizes \<and> d' = d + a
    \<and> (\<forall>p < length sizes. sizes' ! p = sizes ! p - (if p = i then a else 0))"
proof (cases "a > 0")
  case True
  then show ?thesis
    using assms by (auto simp: apply_reduction_def decrement_def nth_list_update split: bind_splits)
next
  case False
  then have "a = 0"
    by (metis word_gt_0)
  then show ?thesis
    using assms by (simp add: apply_reduction_def)
qed

lemma apply_reductions_eq:
  assumes "apply_reductions red (sizes, d) = Some (sizes', d')" "length red = length sizes"
  shows "length sizes' = length sizes \<and> (\<forall>p < length sizes. sizes' ! p = sizes ! p - red ! p)"
proof -
  let ?I = "\<lambda>xs st. length (fst st) = length sizes \<and> (\<forall>p < length sizes.
    fst st ! p = sizes ! p - (if p < length xs then red ! p else 0))"
  have "?I (zip [0..<length red] red) (sizes', d')"
  proof (rule try_fold_partial [OF assms(1) [unfolded apply_reductions_def]])
    fix ys x zs st st'
    assume split: "zip [0..<length red] red = ys @ x # zs" and I: "?I ys st" and step: "apply_reduction x st = Some st'"
    have len: "length ys < length red"
      using arg_cong [OF split, of length] by simp
    have x: "x = (length ys, red ! length ys)"
      using arg_cong [OF split, of "\<lambda>l. l ! length ys"] len by simp
    show "?I (ys @ [x]) st'"
      using I step apply_reduction_eq [of "length ys" "red ! length ys" "fst st" "snd st" "fst st'" "snd st'"] x
      by (auto simp: less_Suc_eq)
  qed simp
  then show ?thesis
    using assms(2) by simp
qed

lemma apply_all_reductions_eq:
  assumes "try_fold apply_reductions reds (sizes, d) = Some (sizes', d')" "list_all (\<lambda>r. length r = length sizes) reds"
  shows "length sizes' = length sizes
    \<and> (\<forall>p < length sizes. sizes' ! p = sizes ! p - sum_list (map (\<lambda>r. r ! p) reds))"
  using assms
proof (induction reds arbitrary: sizes d)
  case (Cons r reds)
  obtain sizes1 d1 where 1: "apply_reductions r (sizes, d) = Some (sizes1, d1)"
      "try_fold apply_reductions reds (sizes1, d1) = Some (sizes', d')"
    using Cons.prems(1) by (auto split: bind_splits)
  note r = apply_reductions_eq [OF 1(1)]
  show ?case
    using Cons.IH [OF 1(2)] Cons.prems(2) r by (simp add: algebra_simps)
qed simp

section \<open>The books balance\<close>

definition books_ok :: "group_state list \<Rightarrow> u64 part_map \<Rightarrow> bool" where
  "books_ok groups sizes \<longleftrightarrow> list_all (group_ok (length sizes)) groups
     \<and> (\<forall>p < length sizes. sizes ! p = sum_list (map (\<lambda>g. group_mem_sizes g ! p) groups))"

definition same_slack :: "output_sections \<Rightarrow> nat \<Rightarrow> group_state list \<Rightarrow> group_state list \<Rightarrow> bool" where
  "same_slack os n groups groups' \<longleftrightarrow>
     (\<forall>p < n. map (\<lambda>g. group_slack os g p) groups' = map (\<lambda>g. group_slack os g p) groups)"

lemma relaxation_scan_pass_books:
  assumes "relaxation_scan_pass elf os defs flags prev groups sizes layouts = Some (groups', sizes', d, candidates)"
    and "books_ok groups sizes"
  shows "books_ok groups' sizes' \<and> length sizes' = length sizes \<and> same_slack os (length sizes) groups groups'"
proof -
  obtain addresses infos reds where run:
      "scan_groups elf os (resolve_symbol defs flags infos) addresses prev (length sizes) 0 groups = Some (groups', reds, candidates)"
      "try_fold apply_reductions reds (sizes, 0) = Some (sizes', d)"
    using assms(1) by (auto simp: relaxation_scan_pass_def split: bind_splits)
  have ok: "list_all (group_ok (length sizes)) groups"
    using assms(2) by (simp add: books_ok_def)
  note g = scan_groups_balanced [OF run(1) ok]
  then have s: "length sizes' = length sizes"
      "\<forall>p < length sizes. sizes' ! p = sizes ! p - sum_list (map (\<lambda>r. r ! p) reds)"
    using apply_all_reductions_eq [OF run(2)] by simp_all
  have "sizes' ! p = sum_list (map (\<lambda>g. group_mem_sizes g ! p) groups')" if "p < length sizes" for p
  proof -
    have "sizes' ! p = sum_list (map (\<lambda>g. group_mem_sizes g ! p) groups) - sum_list (map (\<lambda>r. r ! p) reds)"
      using s(2) assms(2) that by (simp add: books_ok_def)
    also have "sum_list (map (\<lambda>g. group_mem_sizes g ! p) groups)
        = sum_list (map (\<lambda>g. group_mem_sizes g ! p) groups') + sum_list (map (\<lambda>r. r ! p) reds)"
      using g that by simp
    finally show ?thesis
      by simp
  qed
  then show ?thesis
    using g s(1) by (simp add: books_ok_def same_slack_def)
qed

lemma relaxation_iterations_books:
  assumes "relaxation_iterations elf os defs flags args ps events n prev (groups, sizes, layouts)
      = Some (groups', sizes', layouts')"
    and "books_ok groups sizes"
  shows "books_ok groups' sizes' \<and> length sizes' = length sizes \<and> same_slack os (length sizes) groups groups'"
  using assms
proof (induction n arbitrary: prev groups sizes layouts)
  case (Suc n)
  show ?case
  proof (cases "case prev of None \<Rightarrow> False | Some rescan \<Rightarrow> list_all (list_all (\<lambda>secs. secs = [])) rescan")
    case True
    then show ?thesis
      using Suc.prems by (simp add: same_slack_def)
  next
    case False
    then obtain groups1 sizes1 d candidates where
        pass: "relaxation_scan_pass elf os defs flags prev groups sizes layouts = Some (groups1, sizes1, d, candidates)"
      using Suc.prems(1) by (auto split: bind_splits)
    note books = relaxation_scan_pass_books [OF pass Suc.prems(2)]
    show ?thesis
    proof (cases "d = 0")
      case True
      then show ?thesis
        using Suc.prems(1) False pass books by simp
    next
      case d: False
      then obtain layouts1 where "relaxation_iterations elf os defs flags args ps events n
          (Some (filter_rescans d candidates)) (groups1, sizes1, layouts1) = Some (groups', sizes', layouts')"
        using Suc.prems(1) False pass by (auto split: bind_splits)
      then show ?thesis
        using Suc.IH books by (fastforce simp: same_slack_def)
    qed
  qed
qed (simp add: same_slack_def)

end
