(* ===== verification/Riscv_Scan_Spec.thy ===== *)
theory Riscv_Scan_Spec
  imports Riscv_Scan
begin

text \<open>
  The properties of the RISC-V relaxation scan of one section: paddings end at their boundary; with the
  inputs on which the scan misjudges a padding, the distance of a call or the margin of a \<open>lui\<close>.
\<close>

section \<open>A section with one padding\<close>

definition demo_elf :: elf_constants where
  "demo_elf s = (if s = ''R_RISCV_ALIGN'' then 43 else if s = ''R_RISCV_CALL'' then 18
     else if s = ''R_RISCV_RELAX'' then 51 else 0)"

definition demo_bytes :: "u8 list" where
  "demo_bytes = [1, 2, 3, 4, 5, 6, 7, 8]"

definition demo_rels :: "relocation list" where
  "demo_rels = [\<lparr>raw_type = 43, rel_offset = 0, rel_addend = 6, rel_symbol = None\<rparr>]"

section \<open>Properties\<close>



text \<open>A padding of two bytes, which an assembler emits for an alignment of four bytes when compressed
  instructions are available, is taken for an alignment of two: at an address that is two modulo four
  the scan deletes both bytes and the code behind the padding is misaligned.\<close>

theorem two_byte_padding_misaligns:
  "collect_relaxation_deltas demo_elf 0x1002 [1, 0]
      [\<lparr>raw_type = demo_elf ''R_RISCV_ALIGN'', rel_offset = 0, rel_addend = 2, rel_symbol = None\<rparr>] None
      (\<lambda>_. Some None) = Some ([(0, 2)], None)"
  by code_simp

text \<open>A call that earlier passes have moved is measured from where it stood in the input: with 256
  bytes deleted before it, the scan turns it into a \<open>jal\<close> although its distance from where it stands
  in the output does not fit one.\<close>

theorem moved_call_measured_from_input:
  "collect_relaxation_deltas demo_elf 0x1000 []
      [\<lparr>raw_type = demo_elf ''R_RISCV_CALL'', rel_offset = 0x200, rel_addend = 0, rel_symbol = Some 7\<rparr>,
       \<lparr>raw_type = demo_elf ''R_RISCV_RELAX'', rel_offset = 0x200, rel_addend = 0, rel_symbol = None\<rparr>]
      (Some (deltas_new [(0, 0x100)]))
      (\<lambda>_. Some (Some \<lparr>output_address = 0x1011fe, is_interposable = False\<rparr>)) = Some ([(0x204, 4)], None)
    \<and> input_to_output_offset (deltas_new [(0, 0x100)]) 0x200 = Some 0x100
    \<and> \<not> distance_fits_jal (0x1011fe - (0x1000 + 0x100))"
  by code_simp

text \<open>The margin noted for a \<open>lui\<close> that does not fit \<open>c.lui\<close> is not the distance to the nearest value
  that fits: it is a whole page for a value one byte away.\<close>

theorem hi20_margin_is_coarse:
  "scan_hi20 [0xb7, 0x07, 0, 0] 0 0 \<lparr>output_address = 0x1f800, is_interposable = False\<rparr> scan_start
      = Some (note_margin 0x1000 scan_start)
    \<and> hi20_fits_clui (0x1f800 - 1)"
  by code_simp

end
