(* ===== verification/Relax_Pass_Spec.thy ===== *)
theory Relax_Pass_Spec
  imports Relax_Pass Riscv_Scan_Spec
begin

text \<open>
  The properties of the relaxation passes: whatever the addresses of the passes were, the deletions of a
  section fit its bytes, its size is what they leave, and the compacting copy and the translation of its
  relocations agree; a further pass over an object returns; and the sizes of the parts stay the sums of
  what the groups occupy.
\<close>

section \<open>Sections of an object\<close>

lemma total_bytes_sum: "total_bytes raw = of_nat (del_sum raw)"
proof -
  have "foldl (\<lambda>acc (_, b). acc + ucast b) c raw = c + (of_nat (del_sum raw) :: u64)" for c
    by (induction raw arbitrary: c) (auto simp: algebra_simps)
  then show ?thesis
    by (simp add: total_bytes_def)
qed

text \<open>A section the scan can work on.\<close>

definition scannable :: "elf_constants \<Rightarrow> object_state \<Rightarrow> nat \<Rightarrow> relocation list \<Rightarrow> u8 list \<Rightarrow> input_section \<Rightarrow> bool" where
  "scannable elf obj i rels bytes sec \<longleftrightarrow> i < length (obj_sections obj) \<and> obj_sections obj ! i = Loaded sec
     \<and> obj_relocations (obj_input obj) i = Some rels \<and> obj_bytes (obj_input obj) i = Some bytes
     \<and> rels_ok elf (length bytes) rels"

definition deltas_ok :: "elf_constants \<Rightarrow> relocation list \<Rightarrow> nat \<Rightarrow> section_relax_deltas option \<Rightarrow> u64 \<Rightarrow> bool" where
  "deltas_ok elf rels n existing sz \<longleftrightarrow>
     (\<exists>eraw. represents existing eraw \<and> raw_ok n eraw \<and> derived elf rels eraw \<and> unat sz = n - del_sum eraw)"

definition object_ok :: "elf_constants \<Rightarrow> object_state \<Rightarrow> bool" where
  "object_ok elf obj \<longleftrightarrow> table_ok (section_relax_deltas_of obj)
     \<and> (\<forall>i rels bytes sec. scannable elf obj i rels bytes sec \<longrightarrow>
          deltas_ok elf rels (length bytes) (table_lookup (section_relax_deltas_of obj) i) (sec_size sec))"

lemma record_deltas_ok:
  assumes "table_ok m" "deltas_ok elf rels n (table_lookup m i) sz" "rels_ok elf n rels" "unat addr + n < 2 ^ 63"
    and "collect_relaxation_deltas elf addr bytes rels (table_lookup m i) resolve = Some (raw, margin)"
    and "map_record i raw m = Some m'"
  shows "deltas_ok elf rels n (table_lookup m' i) (sz - total_bytes raw)"
proof -
  obtain eraw where ok: "represents (table_lookup m i) eraw" "raw_ok n eraw" "derived elf rels eraw"
      "unat sz = n - del_sum eraw"
    using assms(2) by (auto simp: deltas_ok_def)
  have c: "raw_ok n raw" "derived elf rels raw" "deleted eraw \<inter> deleted raw = {}"
    using collect_deltas_of_run [OF assms(3) ok(3,2,1) assms(4,5)] by auto
  have m': "table_lookup m' i = Some (case table_lookup m i of None \<Rightarrow> deltas_new raw | Some d \<Rightarrow> merge_additional raw d)"
    using map_record_update [OF assms(1), of i raw] assms(6) by auto
  obtain raw' where raw': "raw_ok n raw'" "set raw' = set eraw \<union> set raw"
      "(case table_lookup m i of None \<Rightarrow> deltas_new raw | Some d \<Rightarrow> merge_additional raw d) = deltas_new raw'"
    using merge_additional_deltas [OF ok(2) c(1,3)] ok(1) c(1) by (auto simp: represents_def)
  have "deleted raw' = deleted eraw \<union> deleted raw"
    using raw'(2) by (auto simp: deleted_def)
  then have "del_sum raw' = del_sum eraw + del_sum raw"
    using card_deleted [OF raw'(1)] card_deleted [OF ok(2)] card_deleted [OF c(1)]
      card_Un_disjoint [OF finite_deleted finite_deleted c(3)] by simp
  then have "unat (sz - total_bytes raw) = n - del_sum raw'"
    using ok(4) del_sum_le [OF raw'(1)] unat_sub_of_nat [of "del_sum raw" sz] by (simp add: total_bytes_sum)
  moreover have "derived elf rels raw'"
    using ok(3) c(2) raw'(2) by (auto simp: derived_def)
  ultimately show ?thesis
    using m' raw' by (auto simp: deltas_ok_def represents_def)
qed

definition addresses_ok :: "object_input \<Rightarrow> u64 list \<Rightarrow> bool" where
  "addresses_ok inp addresses \<longleftrightarrow> (\<forall>i < length addresses.
     case obj_bytes inp i of None \<Rightarrow> True | Some bytes \<Rightarrow> unat (addresses ! i) + length bytes < 2 ^ 63)"

lemma shrink_section_object:
  assumes "shrink_section os i del sp = Some sp'"
  shows "pass_object sp' = (case obj_sections (pass_object sp) ! i of
      Loaded sec \<Rightarrow> (pass_object sp)\<lparr>obj_sections := (obj_sections (pass_object sp))[i := Loaded (sec\<lparr>sec_size := sec_size sec - del\<rparr>)]\<rparr>
    | _ \<Rightarrow> pass_object sp)"
proof (cases "obj_sections (pass_object sp) ! i")
  case (Loaded sec)
  then show ?thesis
    using assms shrink_section_loaded [OF shrink_section_index [OF assms] Loaded refl refl refl, of os del]
    by (auto split: bind_splits if_splits)
qed (use assms shrink_section_index [OF assms] in \<open>auto simp: shrink_section_def nth_opt_def\<close>)

lemma scan_section_object_ok:
  assumes "scan_section elf os resolve addresses j sp = Some sp'" "object_ok elf (pass_object sp)"
    and "addresses_ok (obj_input (pass_object sp)) addresses"
  shows "object_ok elf (pass_object sp') \<and> obj_input (pass_object sp') = obj_input (pass_object sp)"
  using scan_section_cases [OF assms(1)]
proof (elim disjE exE conjE)
  fix l addr rels bytes existing raw margin sp1 m
  let ?obj = "pass_object sp"
  assume run: "obj_relocations (obj_input ?obj) j = Some rels" "obj_bytes (obj_input ?obj) j = Some bytes"
      "map_get (section_relax_deltas_of ?obj) j = Some existing" "addr = addresses ! j" "j < length addresses"
      "collect_relaxation_deltas elf addr bytes rels existing resolve = Some (raw, margin)"
    and shrink: "shrink_section os j (total_bytes raw) (sp\<lparr>next_rescan := l\<rparr>) = Some sp1"
    and rec: "map_record j raw (section_relax_deltas_of (pass_object sp1)) = Some m"
    and sp': "sp' = sp1\<lparr>pass_object := (pass_object sp1)\<lparr>section_relax_deltas_of := m\<rparr>\<rparr>"
  have tab: "table_ok (section_relax_deltas_of ?obj)"
    using assms(2) by (simp add: object_ok_def)
  have obj1: "pass_object sp1 = (case obj_sections ?obj ! j of
      Loaded sec \<Rightarrow> ?obj\<lparr>obj_sections := (obj_sections ?obj)[j := Loaded (sec\<lparr>sec_size := sec_size sec - total_bytes raw\<rparr>)]\<rparr>
    | _ \<Rightarrow> ?obj)"
    using shrink_section_object [OF shrink] by (simp cong: section_slot.case_cong)
  then have same: "obj_input (pass_object sp1) = obj_input ?obj"
      "section_relax_deltas_of (pass_object sp1) = section_relax_deltas_of ?obj"
      "length (obj_sections (pass_object sp1)) = length (obj_sections ?obj)"
    by (auto split: section_slot.splits)
  have existing: "existing = table_lookup (section_relax_deltas_of ?obj) j"
    using map_get_lookup [OF tab, of j] run(3) by simp
  obtain d where m: "table_ok m" "table_lookup m = (table_lookup (section_relax_deltas_of ?obj))(j \<mapsto> d)"
    using map_record_update [OF tab, of j raw] rec same(2) by auto
  have "deltas_ok elf rels' (length bytes') (table_lookup m i) (sec_size sec')"
    if sc: "scannable elf (pass_object sp') i rels' bytes' sec'" for i rels' bytes' sec'
  proof (cases "i = j")
    case False
    then have "scannable elf ?obj i rels' bytes' sec'"
      using sc same obj1 sp' by (auto simp: scannable_def split: section_slot.splits)
    then show ?thesis
      using assms(2) m(2) False by (simp add: object_ok_def)
  next
    case True
    then obtain sec where sec: "obj_sections ?obj ! j = Loaded sec" "sec' = sec\<lparr>sec_size := sec_size sec - total_bytes raw\<rparr>"
      using sc obj1 sp' by (auto simp: scannable_def split: section_slot.splits)
    have "rels' = rels" "bytes' = bytes" "j < length (obj_sections ?obj)"
      using sc True run(1,2) same sp' by (auto simp: scannable_def)
    moreover have "scannable elf ?obj j rels bytes sec"
      using sc True sec(1) calculation run(1,2) by (simp add: scannable_def)
    moreover have "unat addr + length bytes < 2 ^ 63"
      using assms(3) run(2,4,5) unfolding addresses_ok_def by (metis (mono_tags, lifting) option.simps(5))
    ultimately show ?thesis
      using record_deltas_ok [OF tab _ _ _ run(6) [unfolded existing], of "length bytes" "sec_size sec" m]
        rec same(2) assms(2) sec(2) True by (auto simp: object_ok_def scannable_def)
  qed
  then show ?thesis
    using m(1) sp' same(1) by (simp add: object_ok_def)
qed (use assms(2) in simp)

section \<open>Any number of passes\<close>

definition is_loaded :: "object_state \<Rightarrow> nat \<Rightarrow> bool" where
  "is_loaded obj i \<longleftrightarrow> i < length (obj_sections obj)
     \<and> (case obj_sections obj ! i of Loaded _ \<Rightarrow> True | _ \<Rightarrow> False)"

text \<open>An object before the first pass: nothing is deleted and the loaded sections have their input size.\<close>

definition fresh :: "object_state \<Rightarrow> bool" where
  "fresh obj \<longleftrightarrow> section_relax_deltas_of obj = map_new
     \<and> (\<forall>i < length (obj_sections obj). case (obj_sections obj ! i, obj_bytes (obj_input obj) i) of
          (Loaded sec, Some bytes) \<Rightarrow> unat (sec_size sec) = length bytes | _ \<Rightarrow> True)"

inductive relaxed :: "elf_constants \<Rightarrow> output_sections \<Rightarrow> object_state \<Rightarrow> bool" for elf os where
  start: "fresh obj \<Longrightarrow> relaxed elf os obj"
| pass: "relaxed elf os obj \<Longrightarrow> addresses_ok (obj_input obj) addresses \<Longrightarrow>
    scan_object elf os resolve addresses prev obj mem_sizes red = Some sp \<Longrightarrow>
    relaxed elf os (pass_object sp)"

lemma fresh_object_ok:
  assumes "fresh obj"
  shows "object_ok elf obj"
proof -
  have "deltas_ok elf rels (length bytes) (table_lookup map_new i) (sec_size sec)"
    if "scannable elf obj i rels bytes sec" for i rels bytes sec
  proof -
    have "unat (sec_size sec) = length bytes" "length bytes < 2 ^ 63"
      using assms that by (auto simp: fresh_def scannable_def rels_ok_def)
    then show ?thesis
      unfolding deltas_ok_def
      by (intro exI [of _ "[]"]) (simp add: push.empty_ok represents_def raw_ok_def derived_def)
  qed
  then show ?thesis
    using assms push.empty_ok by (simp add: object_ok_def fresh_def)
qed

lemma scan_object_ok:
  assumes "scan_object elf os resolve addresses prev obj mem red = Some sp" "object_ok elf obj"
    and "addresses_ok (obj_input obj) addresses"
  shows "object_ok elf (pass_object sp) \<and> obj_input (pass_object sp) = obj_input obj"
  by (rule try_fold_partial [OF assms(1) [unfolded scan_object_def],
        where I = "\<lambda>_ sp. object_ok elf (pass_object sp) \<and> obj_input (pass_object sp) = obj_input obj"])
    (use assms(2,3) scan_section_object_ok in \<open>auto\<close>)

lemma relaxed_object_ok: "relaxed elf os obj \<Longrightarrow> object_ok elf obj"
  by (induction rule: relaxed.induct) (use fresh_object_ok scan_object_ok in blast)+

section \<open>Passes return\<close>

text \<open>An object the scan can work on: every loaded section lies in a part and, where it can be read, has
  well-formed relocations.\<close>

definition inputs_ok :: "elf_constants \<Rightarrow> output_sections \<Rightarrow> object_state \<Rightarrow> bool" where
  "inputs_ok elf os obj \<longleftrightarrow> (\<forall>i. is_loaded obj i \<longrightarrow> obj_part (obj_input obj) i < num_parts os
     \<and> (case (obj_relocations (obj_input obj) i, obj_bytes (obj_input obj) i) of
          (Some rels, Some bytes) \<Rightarrow> rels_ok elf (length bytes) rels | _ \<Rightarrow> True))"

lemma align_up_total:
  assumes "alignment_ok a"
  shows "\<exists>r. align_up a v = Some r"
proof -
  have "alignment_value a \<noteq> 0"
    using alignment_value_power [OF assms] by auto
  then show ?thesis
    by (simp add: align_up_def next_multiple_of_def Let_def)
qed

lemma capacity_total:
  assumes "sections_ok os" "p < num_parts os"
  shows "\<exists>c. capacity os p sec = Some c"
proof -
  obtain al where al: "part_alignment os p = Some al" "alignment_ok al"
    using assms by (rule part_alignment_total)
  then obtain c where "align_up al (sec_size sec) = Some c"
    using align_up_total by blast
  with al(1) show ?thesis
    by (simp add: capacity_def)
qed

lemma shrink_section_total:
  assumes "sections_ok os" "is_loaded (pass_object sp) i" "inputs_ok elf os (pass_object sp)"
    and "length (pass_mem_sizes sp) = num_parts os" "length (reductions sp) = num_parts os"
  shows "\<exists>sp'. shrink_section os i del sp = Some sp'"
proof -
  let ?p = "obj_part (obj_input (pass_object sp)) i"
  obtain sec where sec: "i < length (obj_sections (pass_object sp))" "obj_sections (pass_object sp) ! i = Loaded sec"
    using assms(2) by (auto simp: is_loaded_def split: section_slot.splits)
  have p: "?p < num_parts os"
    using assms(2,3) by (simp add: inputs_ok_def)
  have "\<exists>c. capacity os ?p sec = Some c" "\<exists>c. capacity os ?p (sec\<lparr>sec_size := sec_size sec - del\<rparr>) = Some c"
    using capacity_total [OF assms(1) p] by blast+
  then show ?thesis
    using shrink_section_loaded [OF sec refl refl refl, of os del] p assms(4,5)
    by (auto simp: decrement_def increment_def nth_opt_def update_opt_def)
qed

text \<open>The resolver knows the symbols of the relocations.\<close>

definition symbols_ok :: "resolver \<Rightarrow> object_input \<Rightarrow> bool" where
  "symbols_ok resolve inp \<longleftrightarrow> (\<forall>i rels. obj_relocations inp i = Some rels \<longrightarrow> resolves resolve rels)"

definition symbols_known :: "symbol_definitions \<Rightarrow> per_symbol_flags \<Rightarrow> symbol_output_infos \<Rightarrow> object_input \<Rightarrow> bool" where
  "symbols_known defs flags infos inp \<longleftrightarrow> list_all (\<lambda>d. d < length defs) defs \<and> length infos \<le> length flags
     \<and> (\<forall>i rels. obj_relocations inp i = Some rels \<longrightarrow>
          list_all (\<lambda>r. case rel_symbol r of None \<Rightarrow> True | Some s \<Rightarrow> first_symbol inp + s < length defs) rels)"

lemma symbols_known_ok:
  assumes "symbols_known defs flags infos inp"
  shows "symbols_ok (resolve_symbol defs flags infos inp) inp"
proof -
  have "definition_of defs i \<noteq> None" if "i < length defs" for i
    using that assms by (auto simp: symbols_known_def definition_of_def nth_opt_def list_all_length)
  moreover have "symbol_infos_resolve flags infos i \<noteq> None" for i
    using assms by (auto simp: symbols_known_def symbol_infos_resolve_def flags_for_symbol_def nth_opt_def)
  ultimately have "resolve_symbol defs flags infos inp s \<noteq> None" if "first_symbol inp + s < length defs" for s
    using that unfolding resolve_symbol_def by (metis bind_eq_Some_conv not_None_eq)
  moreover have "first_symbol inp + s < length defs"
    if "obj_relocations inp i = Some rels" "r \<in> set rels" "rel_symbol r = Some s" for i rels r s
    using that assms unfolding symbols_known_def list_all_iff by (metis (mono_tags, lifting) option.simps(5))
  ultimately show ?thesis
    unfolding symbols_ok_def resolves_def by blast
qed

lemma scan_section_total:
  assumes "sections_ok os" "is_loaded (pass_object sp) i" "inputs_ok elf os (pass_object sp)"
    and "length (pass_mem_sizes sp) = num_parts os" "length (reductions sp) = num_parts os"
    and "object_ok elf (pass_object sp)" "addresses_ok (obj_input (pass_object sp)) addresses"
    and "symbols_ok resolve (obj_input (pass_object sp))"
  shows "\<exists>sp'. scan_section elf os resolve addresses i sp = Some sp'"
proof -
  let ?obj = "pass_object sp" and ?addr = "address_or_zero addresses i"
  have tab: "table_ok (section_relax_deltas_of ?obj)"
    using assms(6) by (simp add: object_ok_def)
  note get = map_get_lookup [OF tab, of i]
  obtain sec where sec: "i < length (obj_sections ?obj)" "obj_sections ?obj ! i = Loaded sec"
    using assms(2) by (auto simp: is_loaded_def split: section_slot.splits)
  show ?thesis
  proof (cases "\<exists>rels bytes. obj_relocations (obj_input ?obj) i = Some rels \<and> obj_bytes (obj_input ?obj) i = Some bytes
      \<and> ?addr \<noteq> 0")
    case False
    then show ?thesis
      using get by (auto simp: scan_section_def Let_def split: option.splits)
  next
    case True
    then obtain rels bytes where inp: "obj_relocations (obj_input ?obj) i = Some rels"
        "obj_bytes (obj_input ?obj) i = Some bytes" "i < length addresses" "addresses ! i \<noteq> 0"
      by (auto simp: address_or_zero_def split: if_splits)
    then have rels: "rels_ok elf (length bytes) rels" "resolves resolve rels"
      using assms(2,3,8) by (auto simp: inputs_ok_def symbols_ok_def)
    then have "scannable elf ?obj i rels bytes sec"
      using inp sec by (simp add: scannable_def)
    then obtain eraw where "represents (table_lookup (section_relax_deltas_of ?obj) i) eraw"
        "raw_ok (length bytes) eraw" "derived elf rels eraw"
      using assms(6) unfolding object_ok_def deltas_ok_def by blast
    moreover have "unat (addresses ! i) + length bytes < 2 ^ 63"
      using assms(7) inp(2,3) unfolding addresses_ok_def by (metis (mono_tags, lifting) option.simps(5))
    ultimately obtain raw margin where c: "collect_relaxation_deltas elf (addresses ! i) bytes rels
        (table_lookup (section_relax_deltas_of ?obj) i) resolve = Some (raw, margin)"
      using collect_deltas_ok [OF rels(1) _ _ _ _ rels(2)] by metis
    define sp0 where "sp0 = (case margin of None \<Rightarrow> sp | Some margin \<Rightarrow> sp\<lparr>next_rescan := next_rescan sp @ [(i, margin)]\<rparr>)"
    have sp0: "pass_object sp0 = ?obj" "pass_mem_sizes sp0 = pass_mem_sizes sp" "reductions sp0 = reductions sp"
      by (simp_all add: sp0_def split: option.splits)
    obtain sp1 where sp1: "shrink_section os i (total_bytes raw) sp0 = Some sp1"
      using shrink_section_total [of os sp0 i elf] assms sp0 by auto
    then have "section_relax_deltas_of (pass_object sp1) = section_relax_deltas_of ?obj"
      using shrink_section_object [OF sp1] sp0(1) by (simp split: section_slot.splits)
    then obtain m where "map_record i raw (section_relax_deltas_of (pass_object sp1)) = Some m"
      using map_record_update [OF tab, of i raw] by auto
    then show ?thesis
      using inp get c sp1 by (simp add: scan_section_def Let_def address_or_zero_def sp0_def [symmetric] cong: if_cong)
  qed
qed

lemma scan_section_keeps:
  assumes "scan_section elf os resolve addresses i sp = Some sp'" "inputs_ok elf os (pass_object sp)"
    and "is_loaded (pass_object sp) j"
  shows "inputs_ok elf os (pass_object sp') \<and> is_loaded (pass_object sp') j"
  using scan_section_cases [OF assms(1)]
proof (elim disjE exE conjE)
  fix l d sp1 m
  assume shrink: "shrink_section os i (total_bytes d) (sp\<lparr>next_rescan := l\<rparr>) = Some sp1"
    and sp': "sp' = sp1\<lparr>pass_object := (pass_object sp1)\<lparr>section_relax_deltas_of := m\<rparr>\<rparr>"
  have "obj_input (pass_object sp') = obj_input (pass_object sp)"
      "is_loaded (pass_object sp') k = is_loaded (pass_object sp) k" for k
    using shrink_section_object [OF shrink] sp' shrink_section_index [OF shrink]
    by (auto simp: is_loaded_def nth_list_update split: section_slot.splits)
  then show ?thesis
    using assms(2,3) by (simp add: inputs_ok_def)
qed (use assms(2,3) in simp)

lemma scan_object_total:
  assumes "sections_ok os" "inputs_ok elf os obj" "object_ok elf obj" "addresses_ok (obj_input obj) addresses"
    and "list_all (is_loaded obj) (sections_to_scan prev obj)"
    and "length mem = num_parts os" "length red = num_parts os" "symbols_ok resolve (obj_input obj)"
  shows "\<exists>sp. scan_object elf os resolve addresses prev obj mem red = Some sp"
proof -
  let ?start = "\<lparr>pass_object = obj, pass_mem_sizes = mem, reductions = red, next_rescan = []\<rparr>"
  let ?I = "\<lambda>_ sp. object_ok elf (pass_object sp) \<and> obj_input (pass_object sp) = obj_input obj
    \<and> inputs_ok elf os (pass_object sp) \<and> list_all (is_loaded (pass_object sp)) (sections_to_scan prev obj)
    \<and> balanced os (num_parts os) ?start sp"
  have "\<exists>sp. try_fold (scan_section elf os resolve addresses) (sections_to_scan prev obj) ?start = Some sp
      \<and> ?I (sections_to_scan prev obj) sp"
  proof (rule try_fold_total [where I = ?I])
    fix ys i zs sp
    assume split: "sections_to_scan prev obj = ys @ i # zs" and I: "?I ys sp"
    then have len: "length (pass_mem_sizes sp) = num_parts os" "length (reductions sp) = num_parts os"
      by (simp_all add: balanced_def)
    have "is_loaded (pass_object sp) i"
      using I split by simp
    then obtain sp' where sp': "scan_section elf os resolve addresses i sp = Some sp'"
      using scan_section_total [OF assms(1), of sp i elf addresses resolve] I len assms(4,8) by auto
    have "list_all (is_loaded (pass_object sp')) (sections_to_scan prev obj)"
      using I scan_section_keeps [OF sp'] by (auto simp: list_all_iff)
    moreover have "inputs_ok elf os (pass_object sp')"
      using I split scan_section_keeps [OF sp', of i] by simp
    moreover have "balanced os (num_parts os) ?start sp'"
      using I balanced_trans scan_section_balanced [OF sp' len] by blast
    ultimately show "\<exists>sp'. scan_section elf os resolve addresses i sp = Some sp' \<and> ?I (ys @ [i]) sp'"
      using sp' scan_section_object_ok [OF sp'] I assms(4) by auto
  qed (use assms in \<open>simp add: balanced_refl\<close>)
  then show ?thesis
    by (auto simp: scan_object_def)
qed

section \<open>An object with one padding\<close>

definition demo_object :: object_state where
  "demo_object = \<lparr>obj_input = \<lparr>obj_relocations = (\<lambda>_. Some demo_rels), obj_bytes = (\<lambda>_. Some demo_bytes),
      obj_executable = (\<lambda>_. True), obj_part = (\<lambda>_. 129), eh_frame_size = 0, obj_symbols = [], first_symbol = 0\<rparr>,
     obj_sections = [Loaded \<lparr>sec_size = 8, extra_capacity = 0\<rparr>], section_relax_deltas_of = map_new\<rparr>"

lemma demo_fresh: "fresh demo_object"
  by (simp add: fresh_def demo_object_def demo_bytes_def)

lemma demo_rels_ok: "rels_ok demo_elf (length demo_bytes) demo_rels"
  by (simp add: rels_ok_def demo_rels_def demo_bytes_def footprint_def is_align_def demo_elf_def)

lemma demo_inputs_ok: "inputs_ok demo_elf demo_sections demo_object"
  using demo_rels_ok by (simp add: inputs_ok_def demo_object_def demo_counts)

lemma demo_addresses_ok: "addresses_ok (obj_input demo_object) [0x1000]"
  by (simp add: addresses_ok_def demo_object_def demo_bytes_def)

lemma demo_loaded: "list_all (is_loaded demo_object) (sections_to_scan None demo_object)"
  by (simp add: sections_to_scan_def is_loaded_def demo_object_def)

lemma demo_collect: "collect_relaxation_deltas demo_elf 0x1000 demo_bytes demo_rels None resolve = Some ([(0, 6)], None)"
  by code_simp

lemma demo_part:
  "part_alignment demo_sections 129 = Some (Alignment 2)" "should_pack 129 \<longleftrightarrow> False"
  "align_up (Alignment 2) 8 = Some 8" "align_up (Alignment 2) 2 = Some 4"
  by (simp add: part_alignment_def regular_alignment_def NUM_SINGLE_PART_SECTIONS_def NUM_ALIGNMENTS_def) code_simp+

lemma demo_capacity:
  "capacity demo_sections 129 \<lparr>sec_size = 8, extra_capacity = 0\<rparr> = Some 8"
  "capacity demo_sections 129 \<lparr>sec_size = 2, extra_capacity = 0\<rparr> = Some 4"
  by (simp_all add: capacity_def demo_part saturating_add_def)

definition demo_relaxed_object :: object_state where
  "demo_relaxed_object = demo_object\<lparr>obj_sections := [Loaded \<lparr>sec_size = 2, extra_capacity = 0\<rparr>],
     section_relax_deltas_of := \<lparr>entries = [(0, deltas_new [(0, 6)])]\<rparr>\<rparr>"

lemma demo_record: "map_record 0 [(0, 6)] map_new = Some \<lparr>entries = [(0, deltas_new [(0, 6)])]\<rparr>"
    "map_get map_new 0 = Some None"
  by code_simp+

lemma demo_scan:
  "scan_object demo_elf demo_sections resolve [0x1000] None demo_object ((replicate 268 0)[129 := 8]) (replicate 268 0)
     = Some \<lparr>pass_object = demo_relaxed_object, pass_mem_sizes = (replicate 268 0)[129 := 4],
             reductions = (replicate 268 0)[129 := 4], next_rescan = []\<rparr>"
proof -
  let ?start = "\<lparr>pass_object = demo_object, pass_mem_sizes = (replicate 268 0)[129 := 8], reductions = replicate 268 0,
      next_rescan = []\<rparr>"
  have "sections_to_scan None demo_object = [0]"
    by (simp add: sections_to_scan_def demo_object_def)
  moreover have "shrink_section demo_sections 0 6 ?start = Some (?start\<lparr>pass_object :=
      demo_object\<lparr>obj_sections := [Loaded \<lparr>sec_size = 2, extra_capacity = 0\<rparr>]\<rparr>,
      pass_mem_sizes := (replicate 268 0)[129 := 4], reductions := (replicate 268 0)[129 := 4]\<rparr>)"
    by (simp add: shrink_section_def demo_object_def nth_opt_def Let_def demo_capacity decrement_def increment_def
        update_opt_def)
  ultimately show ?thesis
    by (simp add: scan_object_def scan_section_def Let_def address_or_zero_def demo_relaxed_object_def demo_collect
        demo_record total_bytes_def)
     (simp add: demo_object_def demo_collect demo_record Let_def total_bytes_def cong: if_cong)
qed

lemma apply_reductions_single:
  assumes "p < n"
  shows "apply_reductions ((replicate n 0)[p := a]) st = apply_reduction (p, a) st"
proof -
  have skip: "try_fold apply_reduction (zip is (replicate k 0)) st = Some st" for "is" k st
  proof (induction k arbitrary: "is")
    case (Suc k)
    then show ?case
      by (cases "is") (simp_all add: apply_reduction_def)
  qed simp
  have "(replicate n 0)[p := a] = replicate p 0 @ a # replicate (n - Suc p) 0"
    using assms by (simp add: upd_conv_take_nth_drop)
  moreover have "[0..<n] = [0..<p] @ p # [Suc p..<n]"
    using assms upt_add_eq_append [of 0 p "n - p"] by (simp add: upt_conv_Cons)
  ultimately show ?thesis
    using assms by (cases "apply_reduction (p, a) st") (simp_all add: apply_reductions_def skip)
qed

definition demo_group :: group_state where
  "demo_group = \<lparr>group_files = [Some demo_object], group_mem_sizes = (replicate 268 0)[129 := 8]\<rparr>"

definition demo_layouts :: "output_record_layout part_map" where
  "demo_layouts = (replicate 268 default_record)[129 := default_record\<lparr>mem_offset := 0x1000\<rparr>]"

lemma demo_addresses:
  "compute_section_and_symbol_addresses demo_sections [] [demo_group] demo_layouts = Some ([[[0x1000]]], [])"
  by (simp add: compute_section_and_symbol_addresses_def record_symbols_def demo_group_def starting_memory_offsets_def object_addresses_def
      demo_object_def demo_layouts_def demo_capacity map_update nth_opt_def increment_def update_opt_def EH_FRAME_def)

lemma demo_relaxation:
  "perform_iterative_relaxation demo_elf demo_sections [] [] demo_args [] []
      ([demo_group], (replicate 268 0)[129 := 8], demo_layouts)
    = Some ([\<lparr>group_files = [Some demo_relaxed_object], group_mem_sizes = (replicate 268 0)[129 := 4]\<rparr>],
        (replicate 268 0)[129 := 4], replicate 268 default_record)"
proof -
  have "relaxation_scan_pass demo_elf demo_sections [] [] None [demo_group] ((replicate 268 0)[129 := 8]) demo_layouts
    = Some ([\<lparr>group_files = [Some demo_relaxed_object], group_mem_sizes = (replicate 268 0)[129 := 4]\<rparr>],
        (replicate 268 0)[129 := 4], 4, [[[]]])"
    by (simp add: relaxation_scan_pass_def demo_addresses)
     (simp add: demo_group_def nth_opt_def demo_scan apply_reductions_single apply_reduction_def decrement_def update_opt_def)
  moreover have "layout_section_parts demo_args demo_sections [] m [] = Some (replicate 268 default_record)" for m
    by (simp add: layout_section_parts_def compute_segment_alignments_def layout_start_def demo_counts)
  moreover obtain n where it: "MAX_RELAXATION_ITERATIONS = Suc (Suc n)"
    by (simp add: MAX_RELAXATION_ITERATIONS_def numeral_eq_Suc)
  ultimately show ?thesis
    unfolding perform_iterative_relaxation_def it by (simp add: filter_rescans_def)
qed

lemma demo_books: "books_ok [demo_group] ((replicate 268 0)[129 := 8])"
  by (simp add: books_ok_def group_ok_def demo_group_def)

lemma demo_relaxed: "relaxed demo_elf demo_sections demo_relaxed_object"
  using relaxed.pass [OF relaxed.start [OF demo_fresh] demo_addresses_ok demo_scan] by simp

section \<open>Properties\<close>

text \<open>C15: whatever the addresses of the passes were, after any number of relaxation passes the deletion
  list of a loaded section fits its bytes: the compacting copy does not panic, fills exactly the size the
  passes left the section with, and every surviving byte stands at the offset the relocations are
  translated to.\<close>

theorem relaxed_section_is_written_consistently:
  assumes "relaxed elf os obj" "scannable elf obj i rels bytes sec"
    and "map_get (section_relax_deltas_of obj) i = Some (Some d)"
    and "unat (sec_size sec) \<le> length out" "length out < 2 ^ 63"
  shows "\<exists>kept. write_compacted bytes out (sec_size sec) d = Some kept \<and> length kept = unat (sec_size sec)
    \<and> (\<forall>k < length bytes. deletes_input_offset d (of_nat k) = Some False \<longrightarrow>
        (\<exists>j. input_to_output_offset d (of_nat k) = Some j \<and> unat j < length kept
          \<and> kept ! unat j = bytes ! k))"
proof -
  have ok: "object_ok elf obj"
    using assms(1) by (rule relaxed_object_ok)
  then have tab: "table_ok (section_relax_deltas_of obj)"
    by (simp add: object_ok_def)
  obtain eraw where raw: "raw_ok (length bytes) eraw" "unat (sec_size sec) = length bytes - del_sum eraw"
      "represents (table_lookup (section_relax_deltas_of obj) i) eraw"
    using ok assms(2) unfolding object_ok_def deltas_ok_def by blast
  then have d: "d = deltas_new eraw"
    using assms(3) map_get_lookup [OF tab, of i] by (auto simp: represents_def)
  let ?kept = "nths bytes (- deleted eraw)"
  have w: "write_compacted bytes out (sec_size sec) d = Some ?kept"
    using write_compacted_eq [OF raw(1), of out "sec_size sec"] assms(4,5) raw(2) d by simp
  have "length ?kept = unat (sec_size sec)"
    using length_kept [OF raw(1), of 0] kept_nths [OF raw(1), of 0] raw(2) by (simp add: Compl_eq)
  moreover have "\<exists>j. input_to_output_offset d (of_nat k) = Some j \<and> unat j < length ?kept
      \<and> ?kept ! unat j = bytes ! k"
    if k: "k < length bytes" "deletes_input_offset d (of_nat k) = Some False" for k
  proof -
    have small: "unat (of_nat k :: u64) = k"
      using k(1) raw(1) by (simp add: raw_ok_def unat_of_nat)
    then have "k \<notin> deleted eraw"
      using k(2) deletes_input_offset_iff [OF raw(1), of "of_nat k"] d by simp
    then show ?thesis
      using kept_at_rank [OF raw(1) k(1)] d by blast
  qed
  ultimately show ?thesis
    using w by blast
qed

theorem relaxed_section_is_written_consistently_witness:
  "\<exists>kept. write_compacted demo_bytes [0, 0] 2 (deltas_new [(0, 6)]) = Some kept \<and> length kept = 2
    \<and> (\<exists>j. input_to_output_offset (deltas_new [(0, 6)]) (of_nat 7) = Some j \<and> kept ! unat j = demo_bytes ! 7)"
proof -
  have "scannable demo_elf demo_relaxed_object 0 demo_rels demo_bytes \<lparr>sec_size = 2, extra_capacity = 0\<rparr>"
    using demo_rels_ok by (simp add: scannable_def demo_relaxed_object_def demo_object_def)
  moreover have "map_get (section_relax_deltas_of demo_relaxed_object) 0 = Some (Some (deltas_new [(0, 6)]))"
    by code_simp
  moreover have "deletes_input_offset (deltas_new [(0, 6)]) (of_nat 7) = Some False"
    by code_simp
  ultimately show ?thesis
    using relaxed_section_is_written_consistently [OF demo_relaxed, of 0 demo_rels demo_bytes _ "deltas_new [(0, 6)]" "[0, 0]"]
    by (fastforce simp: demo_bytes_def)
qed

text \<open>C16: in every state the passes reach, a further pass over an object with well-formed inputs returns.\<close>

theorem relaxation_pass_returns:
  assumes "relaxed elf os obj" "sections_ok os" "inputs_ok elf os obj" "addresses_ok (obj_input obj) addresses"
    and "list_all (is_loaded obj) (sections_to_scan prev obj)"
    and "length mem = num_parts os" "length red = num_parts os" "symbols_known defs flags infos (obj_input obj)"
  shows "\<exists>sp. scan_object elf os (resolve_symbol defs flags infos (obj_input obj)) addresses prev obj mem red = Some sp
    \<and> relaxed elf os (pass_object sp)"
  using scan_object_total [OF assms(2,3) relaxed_object_ok [OF assms(1)] assms(4-7) symbols_known_ok [OF assms(8)]]
    relaxed.pass [OF assms(1,4)]
  by blast

theorem relaxation_pass_returns_witness:
  "\<exists>sp. scan_object demo_elf demo_sections (resolve_symbol [] [] [] (obj_input demo_object)) [0x1000] None demo_object (replicate 268 0x100) (replicate 268 0)
      = Some sp \<and> relaxed demo_elf demo_sections (pass_object sp)"
  using relaxation_pass_returns [OF relaxed.start [OF demo_fresh] demo_sections_ok demo_inputs_ok demo_addresses_ok
      demo_loaded, of "replicate 268 0x100" "replicate 268 0" "[]" "[]" "[]"]
  by (simp add: demo_counts symbols_known_def) (simp add: demo_object_def demo_rels_def)

text \<open>C17: the iterated relaxation keeps the books: the size of every part stays the sum of what the groups
  hold of it, and what a group holds of a part beyond the capacities of its loaded sections does not
  change, so the space the sections gave up is exactly what left the part.\<close>

theorem relaxation_keeps_the_books:
  assumes "perform_iterative_relaxation elf os defs flags args ps events (groups, sizes, layouts)
      = Some (groups', sizes', layouts')"
    and "books_ok groups sizes"
  shows "books_ok groups' sizes' \<and> length sizes' = length sizes \<and> same_slack os (length sizes) groups groups'"
  using relaxation_iterations_books [OF assms(1) [unfolded perform_iterative_relaxation_def] assms(2)] .

theorem relaxation_keeps_the_books_witness:
  "books_ok [\<lparr>group_files = [Some demo_relaxed_object], group_mem_sizes = (replicate 268 0)[129 := 4]\<rparr>]
     ((replicate 268 0)[129 := 4])
   \<and> group_slack demo_sections \<lparr>group_files = [Some demo_relaxed_object], group_mem_sizes = (replicate 268 0)[129 := 4]\<rparr> 129
     = group_slack demo_sections demo_group 129"
  using relaxation_keeps_the_books [OF demo_relaxation demo_books] by (simp add: same_slack_def)

end
