(* ===== verification/Thunks.thy ===== *)
theory Thunks
  imports Part_Layout
begin

text \<open>
  Range-extension thunks (\<open>libsld/src/thunks.rs\<close> and the thunk parts of \<open>layout.rs\<close>): where the
  objects of the primary part lie, which thunk block serves which object, which symbols need a thunk,
  and the addresses of the thunks of a block.

  \<open>assign_thunk_blocks\<close> walks the objects in address order and alternates between assigning objects to
  the block behind them and to a block that is still to be placed. Its callback \<open>assign\<close> is modelled by
  the sequence of calls; the last call for an object decides. The lemmas show that every object gets a
  block, that every block has exactly one owner, and how far an object can be from its block.
\<close>

section \<open>Positions of the objects\<close>

text \<open>\<open>post_gc_primary_bytes\<close> of an object, \<open>None\<close> for a file that is not an object.\<close>

fun collect_primary_ranges :: "u64 \<Rightarrow> u64 option list \<Rightarrow> (u64 \<times> u64) option list" where
  "collect_primary_ranges offset [] = []"
| "collect_primary_ranges offset (None # files) = None # collect_primary_ranges offset files"
| "collect_primary_ranges offset (Some post_gc_primary_bytes # files) =
     (let start = offset; stop = start + post_gc_primary_bytes
      in Some (start, stop) # collect_primary_ranges stop files)"

section \<open>Which block serves which object\<close>

type_synonym thunk_block_id = nat

text \<open>\<open>ThunkBlockId(num_blocks as u32)\<close>.\<close>

definition block_id_from_usize :: "nat \<Rightarrow> thunk_block_id" where
  "block_id_from_usize n = n mod 2 ^ 32"

record 'f thunk_state =
  num_blocks :: nat
  prev_block_id :: thunk_block_id
  prev_block_pos :: u64
  pending_next :: "(thunk_block_id \<times> 'f \<times> u64) option"
  calls :: "('f \<times> thunk_block_id \<times> bool) list"

definition assign_step :: "u64 \<Rightarrow> 'f \<times> u64 \<times> u64 \<Rightarrow> 'f thunk_state \<Rightarrow> 'f thunk_state" where
  "assign_step max_branch_range obj st =
     (let (file_id, start, stop) = obj
      in case pending_next st of
           Some (next_id, first_file_id, first_object_start) \<Rightarrow>
             if stop - first_object_start \<ge> max_branch_range then
               st\<lparr>calls := calls st @ [(first_file_id, next_id, False), (file_id, next_id, True)],
                  prev_block_id := next_id, prev_block_pos := stop, pending_next := None\<rparr>
             else st\<lparr>calls := calls st @ [(file_id, next_id, False)]\<rparr>
         | None \<Rightarrow>
             if stop - prev_block_pos st \<ge> max_branch_range then
               st\<lparr>num_blocks := num_blocks st + 1,
                  pending_next := Some (block_id_from_usize (num_blocks st), file_id, start)\<rparr>
             else st\<lparr>calls := calls st @ [(file_id, prev_block_id st, False)]\<rparr>)"

definition assign_first :: "'f \<times> u64 \<times> u64 \<Rightarrow> 'f thunk_state" where
  "assign_first obj =
     (let (first_file_id, _, first_end) = obj
      in \<lparr>num_blocks = 1, prev_block_id = 0, prev_block_pos = first_end, pending_next = None,
          calls = [(first_file_id, 0, True)]\<rparr>)"

definition assign_last :: "'f thunk_state \<Rightarrow> 'f thunk_state" where
  "assign_last st =
     (case pending_next st of
        Some (next_id, first_file_id, _) \<Rightarrow> st\<lparr>calls := calls st @ [(first_file_id, next_id, True)]\<rparr>
      | None \<Rightarrow> st)"

definition assign_thunk_blocks :: "('f \<times> u64 \<times> u64) list \<Rightarrow> u64
    \<Rightarrow> nat \<times> ('f \<times> thunk_block_id \<times> bool) list" where
  "assign_thunk_blocks objects max_branch_range =
     (case objects of
        [] \<Rightarrow> (0, [])
      | obj # objs \<Rightarrow>
          let st = assign_last (fold (assign_step max_branch_range) objs (assign_first obj))
          in (num_blocks st, calls st))"

text \<open>
  The callback stores the block and the ownership in the object, so the last call for a file is what
  remains: \<open>obj.thunk_block_id\<close> and \<open>obj.owns_thunk_block\<close>.
\<close>

definition assigned :: "('f \<times> thunk_block_id \<times> bool) list \<Rightarrow> 'f \<Rightarrow> (thunk_block_id \<times> bool) option" where
  "assigned cs = map_of (rev cs)"

section \<open>Which symbols need a thunk\<close>

record ('f, 'p) definition_info =
  needs_plt :: bool
  is_ifunc :: bool
  is_dynamic :: bool
  definition_part :: 'p
  definition_file :: 'f

definition part_range :: "('p \<Rightarrow> output_record_layout) \<Rightarrow> 'p \<Rightarrow> (u64 \<times> u64) option" where
  "part_range layouts part_id =
     (let layout = layouts part_id
      in if mem_size layout > 0 then Some (mem_offset layout, mem_offset layout + mem_size layout)
         else None)"

definition primary_range_for_symbol :: "'p \<Rightarrow> ('f \<Rightarrow> (u64 \<times> u64) option) \<Rightarrow> ('f, 'p) definition_info
    \<Rightarrow> (u64 \<times> u64) option" where
  "primary_range_for_symbol primary_part ranges def =
     (if is_ifunc def \<or> is_dynamic def \<or> definition_part def \<noteq> primary_part then None
      else ranges (definition_file def))"

definition target_range_for_symbol :: "('p \<Rightarrow> output_record_layout) \<Rightarrow> 'p \<Rightarrow> 'p
    \<Rightarrow> ('f \<Rightarrow> (u64 \<times> u64) option) \<Rightarrow> ('f, 'p) definition_info \<Rightarrow> (u64 \<times> u64) option" where
  "target_range_for_symbol layouts plt_got primary_part ranges def =
     (if needs_plt def \<or> is_ifunc def then part_range layouts plt_got
      else if is_dynamic def then None
      else let part_id = definition_part def
           in if part_id = primary_part then primary_range_for_symbol primary_part ranges def
              else part_range layouts part_id)"

definition saturating_sub :: "u64 \<Rightarrow> u64 \<Rightarrow> u64" where
  "saturating_sub a b = (if b \<le> a then a - b else 0)"

definition span_fits :: "u64 \<Rightarrow> u64 \<times> u64 \<Rightarrow> u64 \<times> u64 \<Rightarrow> bool" where
  "span_fits branch_range src def =
     (let span_start = min (fst src) (fst def); span_end = max (snd src) (snd def)
      in saturating_sub span_end span_start < branch_range)"

definition provably_in_range :: "u64 \<Rightarrow> u64 \<times> u64 \<Rightarrow> (u64 \<times> u64) option \<Rightarrow> bool" where
  "provably_in_range branch_range src target =
     (case target of Some def \<Rightarrow> span_fits branch_range src def | None \<Rightarrow> False)"

definition needs_thunk :: "u64 \<Rightarrow> (u64 \<times> u64) option \<Rightarrow> (u64 \<times> u64) option \<Rightarrow> bool" where
  "needs_thunk branch_range src target =
     (case src of None \<Rightarrow> False
      | Some src \<Rightarrow> (case target of None \<Rightarrow> True | Some def \<Rightarrow> \<not> span_fits branch_range src def))"

section \<open>The thunks of a block\<close>

definition build_symbols :: "nat list \<Rightarrow> nat list" where
  "build_symbols symbols = remdups_adj (sort symbols)"

record thunk_block =
  block_part :: part_id
  block_symbols :: "nat list"

fun place_thunks :: "u64 \<Rightarrow> nat list \<Rightarrow> (nat \<rightharpoonup> u64) \<times> u64 \<Rightarrow> (nat \<rightharpoonup> u64) \<times> u64" where
  "place_thunks thunk_size [] st = st"
| "place_thunks thunk_size (sid # symbols) (addresses, addr) =
     place_thunks thunk_size symbols (addresses(sid \<mapsto> addr), addr + thunk_size)"

text \<open>The addresses of every block, and the next free address of every part.\<close>

definition assign_thunk_block_addresses :: "output_sections \<Rightarrow> u64 \<Rightarrow> thunk_block list \<Rightarrow> thunk_block_id
    \<Rightarrow> (nat \<rightharpoonup> u64) list \<times> u64 part_map \<Rightarrow> ((nat \<rightharpoonup> u64) list \<times> u64 part_map) option" where
  "assign_thunk_block_addresses os thunk_size blocks block_id st =
     (let (addresses, memory_offsets) = st
      in case nth_opt blocks block_id of
           None \<Rightarrow> Some st
         | Some block \<Rightarrow>
             if block_symbols block = [] then Some st
             else do {
               m \<leftarrow> nth_opt addresses block_id;
               start_address \<leftarrow> nth_opt memory_offsets (block_part block);
               let (m, addr) = place_thunks thunk_size (block_symbols block) (m, start_address);
               al \<leftarrow> part_alignment os (block_part block);
               used \<leftarrow> align_up al (addr - start_address);
               addresses \<leftarrow> update_opt addresses block_id m;
               memory_offsets \<leftarrow> update_opt memory_offsets (block_part block) (start_address + used);
               Some (addresses, memory_offsets)
             })"

text \<open>
  \<open>Elf::allocate_thunk_symbol_sizes\<close>: one symbol table entry of 24 bytes and one name for each thunk. The
  length of a symbol's name, zero where the lookup fails, is the parameter \<open>name_len\<close>.
\<close>

definition SYMTAB_LOCAL :: part_id where
  "SYMTAB_LOCAL = 23"

definition STRTAB :: part_id where
  "STRTAB = 5"

definition THUNK_SYMBOL_PREFIX :: string where
  "THUNK_SYMBOL_PREFIX = ''__thunk_''"

definition allocate_thunk_symbol_sizes :: "(nat \<Rightarrow> nat) \<Rightarrow> nat list \<Rightarrow> u64 part_map \<Rightarrow> u64 part_map option" where
  "allocate_thunk_symbol_sizes name_len symbols sizes = do {
     let total_name_bytes = sum_list (map (\<lambda>sid. length THUNK_SYMBOL_PREFIX + name_len sid + 1) symbols);
     sizes \<leftarrow> increment sizes SYMTAB_LOCAL (of_nat (length symbols) * 24);
     increment sizes STRTAB (of_nat total_name_bytes)
   }"

definition allocate_thunk_block_size :: "output_sections \<Rightarrow> u64 \<Rightarrow> (nat \<Rightarrow> nat) \<Rightarrow> bool \<Rightarrow> thunk_block list
    \<Rightarrow> thunk_block_id \<Rightarrow> u64 part_map \<Rightarrow> u64 part_map option" where
  "allocate_thunk_block_size os thunk_size name_len emit_symbols blocks block_id sizes =
     (case nth_opt blocks block_id of
        None \<Rightarrow> Some sizes
      | Some block \<Rightarrow> do {
          let raw_size = of_nat (length (block_symbols block)) * thunk_size;
          al \<leftarrow> part_alignment os (block_part block);
          size \<leftarrow> align_up al raw_size;
          sizes \<leftarrow> increment sizes (block_part block) size;
          if emit_symbols then allocate_thunk_symbol_sizes name_len (block_symbols block) sizes
          else Some sizes
        })"

section \<open>Objects in address order\<close>

abbreviation obj_start :: "'f \<times> u64 \<times> u64 \<Rightarrow> nat" where
  "obj_start x \<equiv> unat (fst (snd x))"

abbreviation obj_end :: "'f \<times> u64 \<times> u64 \<Rightarrow> nat" where
  "obj_end x \<equiv> unat (snd (snd x))"

text \<open>
  Objects as \<open>collect_primary_ranges\<close> lays them out: non-empty, one behind the other, each at most
  \<open>limit\<close> bytes long, with different file ids.
\<close>

definition objects_ok :: "nat \<Rightarrow> ('f \<times> u64 \<times> u64) list \<Rightarrow> bool" where
  "objects_ok limit objs \<longleftrightarrow> successively (\<lambda>x y. obj_end x = obj_start y) objs
     \<and> (\<forall>x \<in> set objs. obj_start x < obj_end x \<and> obj_end x \<le> obj_start x + limit)
     \<and> distinct (map fst objs) \<and> length objs < 2 ^ 32"

lemma assigned_snoc: "assigned (cs @ [(f, b, w)]) = (assigned cs)(f \<mapsto> (b, w))"
  by (simp add: assigned_def)

text \<open>An object and the owner of its block: behind it within the range, or before it within the range
  and the size of one object.\<close>

definition near :: "nat \<Rightarrow> nat \<Rightarrow> 'f \<times> u64 \<times> u64 \<Rightarrow> 'f \<times> u64 \<times> u64 \<Rightarrow> bool" where
  "near max_range limit w x \<longleftrightarrow>
     (obj_end w \<le> obj_end x \<and> obj_end x - obj_end w < max_range)
   \<or> (obj_start x \<le> obj_start w \<and> obj_end w - obj_start x < max_range + limit)"

lemma objects_ok_snoc:
  assumes "objects_ok limit (xs @ [x])" "xs \<noteq> []"
  shows "objects_ok limit xs" "obj_end (last xs) = obj_start x" "fst x \<notin> fst ` set xs"
    "obj_start x < obj_end x" "obj_end x \<le> obj_start x + limit" "length xs < 2 ^ 32 - 1"
  using assms by (auto simp: objects_ok_def successively_append_iff)

lemma objects_ok_last:
  "objects_ok limit xs \<Longrightarrow> x \<in> set xs \<Longrightarrow> obj_end x \<le> obj_end (last xs)"
proof (induction xs rule: rev_induct)
  case (snoc y xs)
  show ?case
  proof (cases "xs = []")
    case True
    then show ?thesis
      using snoc.prems by simp
  next
    case False
    note ok = objects_ok_snoc [OF snoc.prems(1) False]
    from snoc.prems(2) ok snoc.IH [OF ok(1)] show ?thesis
      by (cases "x \<in> set xs") auto
  qed
qed simp

lemma objects_ok_ordered:
  "objects_ok limit xs \<Longrightarrow> x \<in> set xs \<Longrightarrow> y \<in> set xs \<Longrightarrow> obj_start x \<le> obj_start y \<Longrightarrow>
     x = y \<or> obj_end x \<le> obj_start y"
proof (induction xs arbitrary: x y rule: rev_induct)
  case (snoc z xs)
  show ?case
  proof (cases "xs = []")
    case True
    then show ?thesis
      using snoc.prems by simp
  next
    case False
    note ok = objects_ok_snoc [OF snoc.prems(1) False]
    have upto: "obj_end w \<le> obj_start z" if "w \<in> set xs" for w
      using objects_ok_last [OF ok(1) that] ok(2) by simp
    have pos: "obj_start w < obj_end w" if "w \<in> set xs" for w
      using ok(1) that by (simp add: objects_ok_def)
    consider "x = z" "y = z" | "x \<in> set xs" "y = z" | "x \<in> set xs" "y \<in> set xs" | "x = z" "y \<in> set xs"
      using snoc.prems(2,3) by auto
    then show ?thesis
    proof cases
      case 4
      then show ?thesis
        using pos [of y] upto [of y] snoc.prems(4) by simp
    qed (use upto snoc.IH [OF ok(1)] snoc.prems(4) in auto)
  qed
qed simp

text \<open>
  Between two steps: which files have a block (all but the first one of a block that is still to be
  placed), who owns the placed blocks, and where the objects lie relative to the owner of their block or
  to the first object of the block to be placed.
\<close>

definition served :: "nat \<Rightarrow> nat \<Rightarrow> ('f \<times> u64 \<times> u64) list \<Rightarrow> ('f \<Rightarrow> (nat \<times> bool) option) \<Rightarrow> nat \<Rightarrow> bool" where
  "served max_range limit seen asg b \<longleftrightarrow> (\<exists>!f. asg f = Some (b, True))
     \<and> (\<forall>x \<in> set seen. \<forall>own. asg (fst x) = Some (b, own) \<longrightarrow>
          (\<exists>w \<in> set seen. asg (fst w) = Some (b, True) \<and> near max_range limit w x))"

fun assign_inv :: "nat \<Rightarrow> nat \<Rightarrow> ('f \<times> u64 \<times> u64) list \<Rightarrow> nat \<Rightarrow> nat \<Rightarrow> nat
    \<Rightarrow> (nat \<times> 'f \<times> u64) option \<Rightarrow> ('f \<Rightarrow> (nat \<times> bool) option) \<Rightarrow> bool" where
  "assign_inv max_range limit seen num prev pos None asg \<longleftrightarrow>
     num \<le> length seen \<and> num = Suc prev \<and> dom asg = fst ` set seen
   \<and> (\<forall>f b own. asg f = Some (b, own) \<longrightarrow> b < num)
   \<and> (\<exists>w \<in> set seen. asg (fst w) = Some (prev, True) \<and> pos = obj_end w)
   \<and> (\<forall>b < num. served max_range limit seen asg b)"
| "assign_inv max_range limit seen num prev pos (Some (p, f, s)) asg \<longleftrightarrow>
     num \<le> length seen \<and> num = Suc p \<and> dom asg = fst ` set seen - {f}
   \<and> (\<forall>f b own. asg f = Some (b, own) \<longrightarrow> b < num)
   \<and> (\<exists>y \<in> set seen. fst y = f \<and> fst (snd y) = s \<and> obj_end (last seen) - obj_start y < max_range)
   \<and> (\<forall>x \<in> set seen. asg (fst x) \<noteq> Some (p, True)
        \<and> (asg (fst x) = Some (p, False) \<longrightarrow> unat s \<le> obj_start x))
   \<and> (\<forall>b < p. served max_range limit seen asg b)"

declare assign_inv.simps [simp del]

lemma assign_inv_NoneD:
  assumes "assign_inv max_range limit seen num prev pos None asg"
  shows "num \<le> length seen" "num = Suc prev" "dom asg = fst ` set seen"
    "asg f = Some (b, own) \<Longrightarrow> b < num"
    "\<exists>w \<in> set seen. asg (fst w) = Some (prev, True) \<and> pos = obj_end w"
    "b < num \<Longrightarrow> served max_range limit seen asg b"
  using assms unfolding assign_inv.simps by blast+

lemma assign_inv_SomeD:
  assumes "assign_inv max_range limit seen num prev pos (Some (p, f, s)) asg"
  shows "num \<le> length seen" "num = Suc p" "dom asg = fst ` set seen - {f}"
    "asg g = Some (b, own) \<Longrightarrow> b < num"
    "\<exists>y \<in> set seen. fst y = f \<and> fst (snd y) = s \<and> obj_end (last seen) - obj_start y < max_range"
    "x \<in> set seen \<Longrightarrow> asg (fst x) \<noteq> Some (p, True)"
    "x \<in> set seen \<Longrightarrow> asg (fst x) = Some (p, own) \<Longrightarrow> unat s \<le> obj_start x"
    "b < p \<Longrightarrow> served max_range limit seen asg b"
proof -
  have "x \<in> set seen \<Longrightarrow> asg (fst x) \<noteq> Some (p, True)
      \<and> (asg (fst x) = Some (p, False) \<longrightarrow> unat s \<le> obj_start x)"
    using assms unfolding assign_inv.simps by blast
  then show "x \<in> set seen \<Longrightarrow> asg (fst x) = Some (p, own) \<Longrightarrow> unat s \<le> obj_start x"
    by (cases own) simp_all
qed (use assms in \<open>unfold assign_inv.simps, blast+\<close>)

text \<open>Assigning a file that had no block leaves the other blocks served.\<close>

lemma served_other:
  assumes "served max_range limit seen asg b" "b \<noteq> c" "asg f = None"
  shows "served max_range limit seen (asg(f \<mapsto> (c, own))) b"
proof -
  have other: "(asg(f \<mapsto> (c, own))) g = Some (b, w) \<longleftrightarrow> asg g = Some (b, w)" for g w
    using assms(2,3) by auto
  show ?thesis
    using assms(1) unfolding served_def other .
qed

lemma served_snoc:
  assumes "served max_range limit seen asg b" "\<forall>own. asg (fst x) \<noteq> Some (b, own)"
  shows "served max_range limit (seen @ [x]) asg b"
  using assms by (auto simp: served_def)

text \<open>A further file joins a block: it has no block yet and lies near the owner.\<close>

lemma served_join:
  assumes "served max_range limit seen asg b" "asg (fst x) = None" "fst x \<notin> fst ` set seen"
    and "w \<in> set seen" "asg (fst w) = Some (b, True)" "near max_range limit w x"
  shows "served max_range limit (seen @ [x]) (asg(fst x \<mapsto> (b, False))) b"
proof -
  have owner: "(asg(fst x \<mapsto> (b, False))) g = Some (b, True) \<longleftrightarrow> asg g = Some (b, True)" for g
    using assms(2) by simp
  have "\<exists>v \<in> set (seen @ [x]). asg (fst v) = Some (b, True) \<and> near max_range limit v y"
    if y: "y \<in> set (seen @ [x])" "(asg(fst x \<mapsto> (b, False))) (fst y) = Some (b, own)" for y own
  proof (cases "y = x")
    case True
    then show ?thesis
      using assms(4-6) by auto
  next
    case False
    then have "y \<in> set seen"
      using y(1) by simp
    moreover from this have "fst y \<noteq> fst x"
      using assms(3) imageI [of y "set seen" fst] by metis
    ultimately show ?thesis
      using assms(1) y(2) unfolding served_def by (metis Un_iff fun_upd_apply set_append)
  qed
  then show ?thesis
    using assms(1) unfolding served_def owner by blast
qed

lemma fresh_None:
  assumes "dom asg = fst ` set seen - D" "fst x \<notin> fst ` set seen"
  shows "asg (fst x) = None"
  using assms by (metis DiffD1 domIff)

lemma assign_inv_open:
  assumes "assign_inv max_range limit seen num prev pos None asg" "objects_ok limit (seen @ [x])"
    and "seen \<noteq> []" "limit < max_range"
  shows "assign_inv max_range limit (seen @ [x]) (Suc num) prev pos (Some (num, fst x, fst (snd x))) asg"
proof -
  note ok = objects_ok_snoc [OF assms(2,3)] and inv = assign_inv_NoneD [OF assms(1)]
  have fresh: "asg (fst x) = None"
    using fresh_None [of asg seen "{}" x] inv(3) ok(3) by simp
  have ids: "asg g \<noteq> Some (num, own)" for g own
    using inv(4) [of g num own] by blast
  show ?thesis
    unfolding assign_inv.simps
  proof (intro conjI ballI allI impI)
    show "\<exists>y \<in> set (seen @ [x]). fst y = fst x \<and> fst (snd y) = fst (snd x)
        \<and> obj_end (last (seen @ [x])) - obj_start y < max_range"
      using ok(5) assms(4) by (intro bexI [of _ x]) simp_all
    show "served max_range limit (seen @ [x]) asg b" if "b < num" for b
      using inv(6) [OF that] fresh by (intro served_snoc) simp_all
    show "b < Suc num" if "asg f = Some (b, own)" for f b own
      using inv(4) [OF that] by simp
  qed (use inv(1-3) ok(3) ids in simp_all)
qed

lemma assign_inv_behind:
  assumes "assign_inv max_range limit seen num prev pos None asg" "objects_ok limit (seen @ [x])"
    and "seen \<noteq> []" "obj_end x - pos < max_range"
  shows "assign_inv max_range limit (seen @ [x]) num prev pos None (asg(fst x \<mapsto> (prev, False)))"
proof -
  note ok = objects_ok_snoc [OF assms(2,3)] and inv = assign_inv_NoneD [OF assms(1)]
  have fresh: "asg (fst x) = None"
    using fresh_None [of asg seen "{}" x] inv(3) ok(3) by simp
  obtain w where w: "w \<in> set seen" "asg (fst w) = Some (prev, True)" "pos = obj_end w"
    using inv(5) by blast
  then have near: "near max_range limit w x"
    using objects_ok_last [OF ok(1) w(1)] ok(2,4) assms(4) by (simp add: near_def)
  show ?thesis
    unfolding assign_inv.simps
  proof (intro conjI allI impI)
    show "\<exists>w \<in> set (seen @ [x]). (asg(fst x \<mapsto> (prev, False))) (fst w) = Some (prev, True) \<and> pos = obj_end w"
      using w fresh by (intro bexI [of _ w]) auto
    show "served max_range limit (seen @ [x]) (asg(fst x \<mapsto> (prev, False))) b" if "b < num" for b
    proof (cases "b = prev")
      case True
      then show ?thesis
        using served_join [OF inv(6) fresh ok(3) w(1,2) near] that by blast
    next
      case False
      then show ?thesis
        using served_other [OF inv(6) [OF that] False] fresh by (intro served_snoc) auto
    qed
    show "b < num" if "(asg(fst x \<mapsto> (prev, False))) f = Some (b, own)" for f b own
      using inv(2) inv(4) [of f b own] that by (auto split: if_splits)
  qed (use inv(1-3) in auto)
qed

lemma assign_inv_ahead:
  assumes "assign_inv max_range limit seen num prev pos (Some (p, f, s)) asg" "objects_ok limit (seen @ [x])"
    and "seen \<noteq> []" "obj_end x - unat s < max_range"
  shows "assign_inv max_range limit (seen @ [x]) num prev pos (Some (p, f, s)) (asg(fst x \<mapsto> (p, False)))"
proof -
  note ok = objects_ok_snoc [OF assms(2,3)] and inv = assign_inv_SomeD [OF assms(1)]
  obtain y where y: "y \<in> set seen" "fst y = f" "fst (snd y) = s"
    using inv(5) by blast
  have fresh: "asg (fst x) = None"
    using fresh_None [OF inv(3) ok(3)] .
  have ne: "f \<noteq> fst x"
    using ok(3) y(1,2) by (metis imageI)
  have behind: "unat s \<le> obj_start x"
    using objects_ok_last [OF ok(1) y(1)] ok(1,2) y by (force simp: objects_ok_def)
  show ?thesis
    unfolding assign_inv.simps
  proof (intro conjI ballI allI impI)
    show "\<exists>y \<in> set (seen @ [x]). fst y = f \<and> fst (snd y) = s
        \<and> obj_end (last (seen @ [x])) - obj_start y < max_range"
      using y assms(4) by (intro bexI [of _ y]) simp_all
    show "served max_range limit (seen @ [x]) (asg(fst x \<mapsto> (p, False))) b" if "b < p" for b
      using served_other [OF inv(8) [OF that]] fresh that by (intro served_snoc) auto
    show "b < num" if "(asg(fst x \<mapsto> (p, False))) g = Some (b, own)" for g b own
      using inv(2) inv(4) [of g b own] that by (auto split: if_splits)
    fix z assume z: "z \<in> set (seen @ [x])"
    show "(asg(fst x \<mapsto> (p, False))) (fst z) \<noteq> Some (p, True)"
      using z inv(6) [of z] by auto
    show "unat s \<le> obj_start z" if "(asg(fst x \<mapsto> (p, False))) (fst z) = Some (p, False)"
    proof (cases "z = x")
      case False
      then have "z \<in> set seen" "fst z \<noteq> fst x"
        using z ok(3) by (auto simp: image_iff)
      then show ?thesis
        using inv(7) that by simp
    qed (use behind in simp)
  qed (use inv(1-3) ne in auto)
qed

text \<open>Placing the pending block: its first object gets it and \<open>w\<close> owns it.\<close>

lemma served_placed:
  assumes inv: "assign_inv max_range limit seen num prev pos (Some (p, f, s)) asg"
    and ok: "objects_ok limit seen" and all: "set seen \<subseteq> set all"
    and asg': "\<And>g. asg' g = (if g = fst w then Some (p, True) else if g = f then Some (p, False) else asg g)"
    and w: "w \<in> set all" "set all - {w} \<subseteq> set seen" "fst w \<notin> fst ` (set all - {w})"
    and close: "\<And>z. z \<in> set all \<Longrightarrow> unat s \<le> obj_start z \<Longrightarrow> near max_range limit w z"
    and first: "unat s \<le> obj_start w"
  shows "served max_range limit all asg' p"
proof -
  note invD = assign_inv_SomeD [OF inv]
  have none: "asg g \<noteq> Some (p, True)" for g
  proof
    assume g: "asg g = Some (p, True)"
    then have "g \<in> dom asg"
      by blast
    then obtain x where "x \<in> set seen" "g = fst x"
      using invD(3) by auto
    then show False
      using invD(6) g by blast
  qed
  then have owner: "asg' g = Some (p, True) \<longleftrightarrow> g = fst w" for g
    by (simp add: asg')
  have "near max_range limit w z" if z: "z \<in> set all" "asg' (fst z) = Some (p, own)" for z own
  proof (cases "z = w")
    case True
    then show ?thesis
      using close [OF w(1) first] by simp
  next
    case False
    then have "z \<in> set all - {w}"
      using z(1) by blast
    then have "z \<in> set seen" "fst z \<noteq> fst w"
      using w(2,3) by (blast, metis imageI)
    moreover have "unat s \<le> obj_start z"
    proof (cases "fst z = f")
      case True
      obtain y where "y \<in> set seen" "fst y = f" "fst (snd y) = s"
        using invD(5) by blast
      moreover from this have "z = y"
        using True \<open>z \<in> set seen\<close> ok by (simp add: objects_ok_def distinct_map inj_on_def)
      ultimately show ?thesis
        by simp
    next
      case False
      then have "asg (fst z) = Some (p, own)"
        using z(2) \<open>fst z \<noteq> fst w\<close> by (simp add: asg')
      then show ?thesis
        using invD(7) \<open>z \<in> set seen\<close> by blast
    qed
    ultimately show ?thesis
      using close z(1) by blast
  qed
  then show ?thesis
    unfolding served_def owner using w(1) by blast
qed

lemma assign_inv_place:
  assumes "assign_inv max_range limit seen num prev pos (Some (p, f, s)) asg" "objects_ok limit (seen @ [x])"
    and "seen \<noteq> []"
  shows "assign_inv max_range limit (seen @ [x]) num p (obj_end x) None
    (asg(f \<mapsto> (p, False), fst x \<mapsto> (p, True)))"
proof -
  note ok = objects_ok_snoc [OF assms(2,3)] and inv = assign_inv_SomeD [OF assms(1)]
  obtain y where y: "y \<in> set seen" "fst y = f" "fst (snd y) = s"
      "obj_end (last seen) - obj_start y < max_range"
    using inv(5) by blast
  have fresh: "asg (fst x) = None" "asg f = None"
    using fresh_None [OF inv(3) ok(3)] inv(3) by (auto simp: domIff)
  have ne: "f \<noteq> fst x"
    using ok(3) y(1,2) by (metis imageI)
  let ?asg = "asg(f \<mapsto> (p, False), fst x \<mapsto> (p, True))"
  have before: "obj_start z < obj_start x" if "z \<in> set seen" for z
    using objects_ok_last [OF ok(1) that] ok(1,2) that by (force simp: objects_ok_def)
  have close: "near max_range limit x z" if "z \<in> set (seen @ [x])" "unat s \<le> obj_start z" for z
  proof -
    have "obj_start z \<le> obj_start x"
      using that(1) before by fastforce
    moreover have "obj_end x - obj_start z < max_range + limit"
      using that(2) y(3,4) ok(2,5) by simp
    ultimately show ?thesis
      by (simp add: near_def)
  qed
  have placed: "served max_range limit (seen @ [x]) ?asg p"
  proof (rule served_placed [OF assms(1) ok(1)])
    show "unat s \<le> obj_start x"
      using before [OF y(1)] y(3) by simp
  qed (use ok(3) close in auto)
  show ?thesis
    unfolding assign_inv.simps
  proof (intro conjI allI impI)
    show "served max_range limit (seen @ [x]) ?asg b" if "b < num" for b
    proof (cases "b = p")
      case False
      then have b: "b < p"
        using that inv(2) by simp
      have "served max_range limit seen (asg(f \<mapsto> (p, False))) b"
        using inv(8) [OF b] False fresh(2) by (rule served_other)
      moreover have "(asg(f \<mapsto> (p, False))) (fst x) = None"
        using fresh(1) ne by simp
      ultimately have "served max_range limit seen ?asg b"
        using False by (intro served_other [where asg = "asg(f \<mapsto> (p, False))"])
      then show ?thesis
        using False by (intro served_snoc) simp_all
    qed (use placed in simp)
    show "b < num" if "?asg g = Some (b, own)" for g b own
      using inv(2) inv(4) [of g b own] that by (auto split: if_splits)
    show "dom ?asg = fst ` set (seen @ [x])"
      using inv(3) y(1,2) by auto
  qed (use inv(1,2) in auto)
qed

definition all_served :: "nat \<Rightarrow> nat \<Rightarrow> ('f \<times> u64 \<times> u64) list \<Rightarrow> nat \<Rightarrow> ('f \<Rightarrow> (nat \<times> bool) option) \<Rightarrow> bool" where
  "all_served max_range limit objs num asg \<longleftrightarrow> dom asg = fst ` set objs
     \<and> (\<forall>f b own. asg f = Some (b, own) \<longrightarrow> b < num) \<and> (\<forall>b < num. served max_range limit objs asg b)"

lemma assign_inv_finish:
  assumes "assign_inv max_range limit seen num prev pos (Some (p, f, s)) asg" "objects_ok limit seen"
  shows "all_served max_range limit seen num (asg(f \<mapsto> (p, True)))"
proof -
  note inv = assign_inv_SomeD [OF assms(1)]
  obtain y where y: "y \<in> set seen" "fst y = f" "fst (snd y) = s"
      "obj_end (last seen) - obj_start y < max_range"
    using inv(5) by blast
  have uniq: "z = y" if "z \<in> set seen" "fst z = f" for z
    using that y(1,2) assms(2) by (simp add: objects_ok_def distinct_map inj_on_def)
  have close: "near max_range limit y z" if "z \<in> set seen" "unat s \<le> obj_start z" for z
  proof -
    have "y = z \<or> obj_end y \<le> obj_start z"
      using objects_ok_ordered [OF assms(2) y(1) that(1)] that(2) y(3) by simp
    moreover have "obj_start z < obj_end z" "obj_start y < obj_end y"
      using that(1) y(1) assms(2) by (simp_all add: objects_ok_def)
    moreover have "obj_end z \<le> obj_end (last seen)"
      using objects_ok_last [OF assms(2) that(1)] .
    ultimately show ?thesis
      using y(4) by (auto simp: near_def)
  qed
  have "served max_range limit seen (asg(f \<mapsto> (p, True))) p"
  proof (rule served_placed [OF assms(1,2)])
    show "fst y \<notin> fst ` (set seen - {y})"
      using uniq y(2) by (auto simp: image_iff)
  qed (use y close in auto)
  moreover have "served max_range limit seen (asg(f \<mapsto> (p, True))) b" if "b < p" for b
  proof -
    have "asg f = None"
      using inv(3) by (metis DiffD2 domIff singletonI)
    then show ?thesis
      using inv(8) [OF that] that by (intro served_other) simp_all
  qed
  ultimately show ?thesis
    unfolding all_served_def
  proof (intro conjI allI impI)
    show "dom (asg(f \<mapsto> (p, True))) = fst ` set seen"
      using inv(3) y(1,2) by auto
    show "b < num" if "(asg(f \<mapsto> (p, True))) g = Some (b, own)" for g b own
      using inv(2) inv(4) [of g b own] that by (auto split: if_splits)
  qed (use inv(2) in \<open>auto simp: less_Suc_eq\<close>)
qed

section \<open>The loop\<close>

abbreviation loop_inv :: "u64 \<Rightarrow> nat \<Rightarrow> ('f \<times> u64 \<times> u64) list \<Rightarrow> 'f thunk_state \<Rightarrow> bool" where
  "loop_inv max_range limit seen st \<equiv> assign_inv (unat max_range) limit seen (num_blocks st)
     (prev_block_id st) (unat (prev_block_pos st)) (pending_next st) (assigned (calls st))"

lemma sub_ge_iff: "b \<le> a \<Longrightarrow> (a - b \<ge> (m :: u64)) \<longleftrightarrow> unat m \<le> unat a - unat b"
  by (simp add: word_le_nat_alt unat_sub)

lemma loop_inv_step:
  assumes "loop_inv max_range limit seen st" "objects_ok limit (seen @ [x])" "seen \<noteq> []"
    and "limit < unat max_range"
  shows "loop_inv max_range limit (seen @ [x]) (assign_step max_range x st)"
proof -
  obtain file_id start stop where x: "x = (file_id, start, stop)"
    by (cases x)
  note ok = objects_ok_snoc [OF assms(2,3)]
  show ?thesis
  proof (cases "pending_next st")
    case None
    note inv = assms(1) [unfolded None]
    obtain w where "w \<in> set seen" "unat (prev_block_pos st) = obj_end w"
      using assign_inv_NoneD(5) [OF inv] by blast
    then have "prev_block_pos st \<le> stop"
      using objects_ok_last [OF ok(1), of w] ok(2,4) x by (simp add: word_le_nat_alt)
    note ge = sub_ge_iff [OF this, of max_range]
    have "num_blocks st < 2 ^ 32"
      using assign_inv_NoneD(1) [OF inv] ok(6) by simp
    then have "block_id_from_usize (num_blocks st) = num_blocks st"
      by (simp add: block_id_from_usize_def)
    then show ?thesis
      using None ge assign_inv_open [OF inv assms(2-4)] assign_inv_behind [OF inv assms(2,3)] x
      by (simp add: assign_step_def assigned_snoc)
  next
    case (Some pend)
    obtain p f s where pend: "pend = (p, f, s)"
      by (cases pend)
    note inv = assms(1) [unfolded Some pend]
    obtain y where y: "y \<in> set seen" "fst (snd y) = s"
      using assign_inv_SomeD(5) [OF inv] by blast
    have "obj_start y < obj_end y"
      using ok(1) y(1) unfolding objects_ok_def by blast
    then have "s \<le> stop"
      using y objects_ok_last [OF ok(1) y(1)] ok(2,4) x by (simp add: word_le_nat_alt)
    note ge = sub_ge_iff [OF this, of max_range]
    have two: "assigned (calls st @ [(f, p, False), (file_id, p, True)])
        = (assigned (calls st))(f \<mapsto> (p, False), file_id \<mapsto> (p, True))"
      by (simp add: assigned_def)
    show ?thesis
      using Some pend ge assign_inv_ahead [OF inv assms(2,3)] assign_inv_place [OF inv assms(2,3)] x
      by (simp add: assign_step_def assigned_snoc two)
  qed
qed

lemma loop_inv_first:
  assumes "objects_ok limit [x]" "limit < unat max_range"
  shows "loop_inv max_range limit [x] (assign_first x)"
  using assms
  by (cases x) (auto simp: assign_first_def assign_inv.simps assigned_def served_def near_def)

lemma loop_inv_fold:
  assumes "objects_ok limit (x # xs)" "limit < unat max_range"
  shows "loop_inv max_range limit (x # xs) (fold (assign_step max_range) xs (assign_first x))"
  using assms(1)
proof (induction xs rule: rev_induct)
  case Nil
  then show ?case
    using loop_inv_first assms(2) by simp
next
  case (snoc y xs)
  have ok: "objects_ok limit ((x # xs) @ [y])"
    using snoc.prems by simp
  show ?case
    using loop_inv_step [OF snoc.IH [OF objects_ok_snoc(1) [OF ok]] ok _ assms(2)] by simp
qed

lemma assign_thunk_blocks_served:
  assumes "objects_ok limit objs" "limit < unat max_range"
    and "assign_thunk_blocks objs max_range = (num, cs)"
  shows "all_served (unat max_range) limit objs num (assigned cs)"
proof (cases objs)
  case Nil
  then show ?thesis
    using assms(3) by (simp add: assign_thunk_blocks_def all_served_def assigned_def)
next
  case (Cons x xs)
  let ?st = "fold (assign_step max_range) xs (assign_first x)"
  have inv: "loop_inv max_range limit objs ?st"
    using loop_inv_fold [of limit x xs max_range] assms(1,2) Cons by simp
  have res: "num = num_blocks (assign_last ?st)" "cs = calls (assign_last ?st)"
    using assms(3) Cons by (simp_all add: assign_thunk_blocks_def Let_def)
  show ?thesis
  proof (cases "pending_next ?st")
    case None
    note D = assign_inv_NoneD [OF inv [unfolded None]]
    show ?thesis
      unfolding all_served_def using D(3,4,6) res None by (simp add: assign_last_def)
  next
    case (Some pend)
    obtain p f s where "pend = (p, f, s)"
      by (cases pend)
    then show ?thesis
      using assign_inv_finish [of "unat max_range" limit objs] inv Some assms(1) res
      by (simp add: assign_last_def assigned_snoc)
  qed
qed

section \<open>Properties\<close>

lemma near_distance:
  assumes "near max_range limit w x" "objects_ok limit objs" "x \<in> set objs" "w \<in> set objs"
    and "obj_start x \<le> a" "a \<le> obj_end x"
  shows "\<bar>int a - int (obj_end w)\<bar> < int (max_range + limit)"
proof -
  have sizes: "obj_start x < obj_end x" "obj_end x \<le> obj_start x + limit" "obj_start w < obj_end w"
    using assms(2-4) by (auto simp: objects_ok_def)
  from assms(1) consider "obj_end w \<le> obj_end x" "obj_end x - obj_end w < max_range"
    | "obj_start x \<le> obj_start w" "obj_end w - obj_start x < max_range + limit"
    by (auto simp: near_def)
  then show ?thesis
  proof cases
    case 1
    then show ?thesis
      using sizes assms(5,6) by linarith
  next
    case 2
    then have "obj_end x \<le> obj_end w"
      using objects_ok_ordered [OF assms(2,3,4)] sizes(3) by auto
    then show ?thesis
      using 2(2) assms(5,6) by linarith
  qed
qed

lemmas thunk_loop = assign_thunk_blocks_def assign_first_def assign_step_def assign_last_def
  block_id_from_usize_def

text \<open>C34: \<open>assign_thunk_blocks\<close> gives every object a block and every block it counts exactly one owner.\<close>

theorem thunk_blocks_have_one_owner:
  assumes "objects_ok limit objs" "limit < unat max_branch_range"
    and "assign_thunk_blocks objs max_branch_range = (num, cs)"
  shows "(\<forall>x \<in> set objs. \<exists>b own. assigned cs (fst x) = Some (b, own) \<and> b < num)
    \<and> (\<forall>b < num. \<exists>!f. assigned cs f = Some (b, True))"
proof -
  have all: "dom (assigned cs) = fst ` set objs" "\<And>f b own. assigned cs f = Some (b, own) \<Longrightarrow> b < num"
      "\<And>b. b < num \<Longrightarrow> \<exists>!f. assigned cs f = Some (b, True)"
    using assign_thunk_blocks_served [OF assms] unfolding all_served_def served_def by blast+
  have "\<exists>b own. assigned cs (fst x) = Some (b, own) \<and> b < num" if "x \<in> set objs" for x
  proof -
    have "fst x \<in> dom (assigned cs)"
      using all(1) that by blast
    then show ?thesis
      using all(2) by (metis domD surj_pair)
  qed
  with all(3) show ?thesis
    by blast
qed

lemma three_objects:
  "objects_ok 100 [(0 :: nat, 0, 100), (1, 100, 200), (2, 200, 300)]"
  "assign_thunk_blocks [(0 :: nat, 0, 100), (1, 100, 200), (2, 200, 300)] 150
    = (2, [(0, 0, True), (1, 0, False), (2, 1, True)])"
  by (auto simp: objects_ok_def thunk_loop)

theorem thunk_blocks_have_one_owner_witness:
  "\<exists>!f. assigned [(0 :: nat, 0, True), (1, 0, False), (2, 1, True)] f = Some (1, True)"
  using thunk_blocks_have_one_owner [OF three_objects(1) _ three_objects(2)] by simp

text \<open>The thunks of a block stand behind its owner; every position of an object is closer to them than
  the branch range plus the size of the largest object.\<close>

theorem thunk_block_distance:
  assumes "objects_ok limit objs" "limit < unat max_branch_range"
    and "assign_thunk_blocks objs max_branch_range = (num, cs)"
    and "x \<in> set objs" "assigned cs (fst x) = Some (b, own)"
  shows "\<exists>w \<in> set objs. assigned cs (fst w) = Some (b, True)
    \<and> (\<forall>a. obj_start x \<le> a \<and> a \<le> obj_end x \<longrightarrow>
        \<bar>int a - int (obj_end w)\<bar> < int (unat max_branch_range + limit))"
proof -
  have "b < num" and "served (unat max_branch_range) limit objs (assigned cs) b"
    using assign_thunk_blocks_served [OF assms(1-3)] assms(5) unfolding all_served_def by blast+
  then obtain w where "w \<in> set objs" "assigned cs (fst w) = Some (b, True)"
      "near (unat max_branch_range) limit w x"
    using assms(4,5) unfolding served_def by blast
  then show ?thesis
    using near_distance [OF _ assms(1,4)] by blast
qed

theorem thunk_block_distance_witness:
  "\<exists>w \<in> set [(0 :: nat, 0, 100), (1, 100, 200), (2, 200, 300)].
    \<bar>int 150 - int (obj_end w)\<bar> < int (unat (150 :: u64) + 100)"
proof -
  have x: "(1, 100, 200) \<in> set [(0 :: nat, 0, 100), (1, 100, 200), (2, 200, 300)]"
    by simp
  have b: "assigned [(0 :: nat, 0, True), (1, 0, False), (2, 1, True)] (fst (1, 100, 200)) = Some (0, False)"
    by (simp add: assigned_def)
  have "100 < unat (150 :: u64)"
    by simp
  from thunk_block_distance [OF three_objects(1) this three_objects(2) x b]
  obtain w where "w \<in> set [(0 :: nat, 0, 100), (1, 100, 200), (2, 200, 300)]"
      "\<forall>a. obj_start (1 :: nat, 100, 200) \<le> a \<and> a \<le> obj_end (1 :: nat, 100, 200) \<longrightarrow>
        \<bar>int a - int (obj_end w)\<bar> < int (unat (150 :: u64) + 100)"
    by blast
  then show ?thesis
    by (intro bexI [of _ w]) (auto dest: spec [of _ 150])
qed

text \<open>The allowance of one object is real: with the branch range of AArch64 less the allowance for
  thunks, an object of ten MiB that becomes the owner of a block leaves the first object of the block
  135 MiB away from its thunks, farther than the 128 MiB a branch reaches.\<close>

theorem thunk_block_out_of_reach:
  "let objs = [(0 :: nat, 0, 0x100000), (1, 0x100000, 0x6500000), (2, 0x6500000, 0x8300000),
               (3, 0x8300000, 0xe200000), (4, 0xe200000, 0xec00000)];
       (num, cs) = assign_thunk_blocks objs (128 * 1024 * 1024 - 2 * 1024 * 1024)
   in assigned cs 2 = Some (1, False) \<and> assigned cs 4 = Some (1, True)
      \<and> (0xec00000 - 0x6500000 :: u64) > 128 * 1024 * 1024"
  by (simp add: thunk_loop assigned_def)

text \<open>Where the linker decides that no thunk is needed, every branch from the source range to a target
  in the range of the definition is shorter than the branch range.\<close>

theorem no_thunk_means_in_range:
  assumes "\<not> needs_thunk branch_range (Some (s0, s1)) (target_range_for_symbol layouts plt primary ranges def)"
    and "target_range_for_symbol layouts plt primary ranges def = Some (t0, t1)"
    and "s0 \<le> a" "a \<le> s1" "t0 \<le> t" "t \<le> t1"
  shows "\<bar>uint a - uint t\<bar> < uint branch_range"
proof -
  let ?lo = "min s0 t0" and ?hi = "max s1 t1"
  have "?lo \<le> a" "?lo \<le> t" "a \<le> ?hi" "t \<le> ?hi"
    using assms(3-6) by (auto simp: min_def max_def)
  moreover have "?lo \<le> ?hi"
    using calculation by order
  moreover from this have "uint (?hi - ?lo) = uint ?hi - uint ?lo"
    by (simp only: uint_minus_simple_alt)
  moreover have "saturating_sub ?hi ?lo < branch_range"
    using assms(1,2) by (simp add: needs_thunk_def span_fits_def Let_def)
  ultimately have "uint ?lo \<le> uint a" "uint ?lo \<le> uint t" "uint a \<le> uint ?hi" "uint t \<le> uint ?hi"
      "uint ?hi - uint ?lo < uint branch_range"
    by (simp_all add: word_le_def word_less_def saturating_sub_def)
  then show ?thesis
    by linarith
qed

theorem no_thunk_means_in_range_witness:
  "\<bar>uint (0x1004 :: u64) - uint (0x3000 :: u64)\<bar> < uint (0x10000 :: u64)"
proof -
  let ?layouts = "\<lambda>_ :: nat. default_record\<lparr>mem_offset := 0x2000, mem_size := 0x2000\<rparr>"
  let ?def = "\<lparr>needs_plt = False, is_ifunc = False, is_dynamic = False, definition_part = 3 :: nat,
    definition_file = 0 :: nat\<rparr>"
  show ?thesis
    by (rule no_thunk_means_in_range [of _ "0x1000" "0x1800" ?layouts 1 2 "\<lambda>_. None" ?def "0x2000" "0x4000"])
      (simp_all add: needs_thunk_def target_range_for_symbol_def part_range_def span_fits_def
        saturating_sub_def)
qed

lemma place_thunks_end:
  "snd (place_thunks n symbols (m, addr)) = addr + of_nat (length symbols) * n"
  by (induction symbols arbitrary: m addr) (simp_all add: algebra_simps)

lemma place_thunks_other:
  "sid \<notin> set symbols \<Longrightarrow> fst (place_thunks n symbols (m, addr)) sid = m sid"
  by (induction symbols arbitrary: m addr) auto

lemma place_thunks_nth:
  "distinct symbols \<Longrightarrow> i < length symbols \<Longrightarrow>
    fst (place_thunks n symbols (m, addr)) (symbols ! i) = Some (addr + of_nat i * n)"
proof (induction symbols arbitrary: m addr i)
  case (Cons sid symbols)
  show ?case
  proof (cases i)
    case 0
    then show ?thesis
      using Cons.prems place_thunks_other [of sid symbols] by simp
  next
    case (Suc j)
    then show ?thesis
      using Cons.prems Cons.IH [of j] by (simp add: algebra_simps)
  qed
qed simp

lemma build_symbols_distinct: "distinct (build_symbols symbols)"
proof -
  have "sorted xs \<Longrightarrow> distinct (remdups_adj xs)" for xs :: "nat list"
    by (induction xs rule: remdups_adj.induct) (auto simp: less_le)
  then show ?thesis
    by (simp add: build_symbols_def)
qed

text \<open>For a block that is not empty, space is reserved exactly when addresses can be assigned: the thunks
  lie one behind the other from the next free address of the part, one per symbol, and the part advances by
  exactly the size that was reserved for the block.\<close>

theorem thunk_block_space:
  assumes "block_id < length blocks" "block_symbols (blocks ! block_id) = build_symbols symbols" "symbols \<noteq> []"
    and "block_part (blocks ! block_id) = p" "p < length sizes" "p < length offsets" "block_id < length addresses"
    and "allocate_thunk_block_size os thunk_size name_len False blocks block_id sizes = Some sizes'"
  shows "\<exists>addresses' offsets'.
    assign_thunk_block_addresses os thunk_size blocks block_id (addresses, offsets) = Some (addresses', offsets')
    \<and> offsets' ! p - offsets ! p = sizes' ! p - sizes ! p
    \<and> (\<forall>i < length (build_symbols symbols).
         (addresses' ! block_id) (build_symbols symbols ! i) = Some (offsets ! p + of_nat i * thunk_size))"
proof -
  let ?symbols = "build_symbols symbols"
  obtain al sz where al: "part_alignment os p = Some al"
      "align_up al (of_nat (length ?symbols) * thunk_size) = Some sz" "sizes' = sizes[p := sizes ! p + sz]"
    using assms(1,2,4,5,8)
    by (auto simp: allocate_thunk_block_size_def increment_def nth_opt_def update_opt_def split: bind_splits)
  have ne: "?symbols \<noteq> []"
    using assms(3) by (metis build_symbols_def remdups_adj_Nil_iff set_empty set_sort)
  define m where "m = fst (place_thunks thunk_size ?symbols (addresses ! block_id, offsets ! p))"
  have "place_thunks thunk_size ?symbols (addresses ! block_id, offsets ! p)
      = (m, offsets ! p + of_nat (length ?symbols) * thunk_size)"
    using place_thunks_end [of thunk_size ?symbols "addresses ! block_id" "offsets ! p"]
    by (simp add: m_def prod_eq_iff)
  then have "assign_thunk_block_addresses os thunk_size blocks block_id (addresses, offsets)
      = Some (addresses[block_id := m], offsets[p := offsets ! p + sz])"
    using assms(1,2,4,6,7) ne al(1,2) by (simp add: assign_thunk_block_addresses_def nth_opt_def update_opt_def)
  moreover have "m (?symbols ! i) = Some (offsets ! p + of_nat i * thunk_size)" if "i < length ?symbols" for i
    using place_thunks_nth [OF build_symbols_distinct that] by (simp add: m_def)
  ultimately show ?thesis
    using al(3) assms(5,6,7) by simp
qed

theorem thunk_block_space_witness:
  "\<exists>addresses' offsets'.
    assign_thunk_block_addresses \<lparr>base_address = 0, section_infos = [], output_section_indexes = []\<rparr> 12
      [\<lparr>block_part = 61, block_symbols = [3, 8]\<rparr>] 0 ([\<lambda>_. None], replicate 64 0x1000) = Some (addresses', offsets')
    \<and> offsets' ! 61 - replicate 64 0x1000 ! 61 = (replicate 64 0)[61 := 24] ! 61 - replicate 64 0 ! 61
    \<and> (addresses' ! 0) (build_symbols [8, 3, 8] ! 1) = Some (replicate 64 0x1000 ! 61 + of_nat 1 * 12)"
proof -
  have b: "build_symbols [8, 3, 8] = [3, 8]"
    by code_simp
  have up: "align_up (Alignment 2) 24 = Some 24"
    by code_simp
  have "allocate_thunk_block_size \<lparr>base_address = 0, section_infos = [], output_section_indexes = []\<rparr> 12 (\<lambda>_. 0) False
      [\<lparr>block_part = 61, block_symbols = [3, 8]\<rparr>] 0 (replicate 64 0) = Some ((replicate 64 0)[61 := 24])"
    using up by (simp add: allocate_thunk_block_size_def part_alignment_def regular_alignment_def increment_def
        NUM_SINGLE_PART_SECTIONS_def nth_opt_def update_opt_def)
  moreover have "(0 :: nat) < length [\<lparr>block_part = 61, block_symbols = [3, 8]\<rparr>]"
      "block_symbols ([\<lparr>block_part = 61, block_symbols = [3, 8]\<rparr>] ! 0) = build_symbols [8, 3, 8]"
      "block_part ([\<lparr>block_part = 61, block_symbols = [3, 8]\<rparr>] ! 0) = 61"
      "[8, 3, 8] \<noteq> ([] :: nat list)" "(1 :: nat) < length (build_symbols [8, 3, 8])"
      "(0 :: nat) < length [\<lambda>_ :: nat. None :: u64 option]"
    by (simp_all add: b)
  ultimately show ?thesis
    using thunk_block_space [where blocks = "[\<lparr>block_part = 61, block_symbols = [3, 8]\<rparr>]" and block_id = 0
        and symbols = "[8, 3, 8]" and p = 61 and sizes = "replicate 64 0" and offsets = "replicate 64 0x1000"
        and addresses = "[\<lambda>_. None]" and thunk_size = 12 and name_len = "\<lambda>_. 0"
        and os = "\<lparr>base_address = 0, section_infos = [], output_section_indexes = []\<rparr>" and sizes' = "(replicate 64 0)[61 := 24]"]
    by (metis (no_types, lifting) length_replicate numeral_less_iff semiring_norm(76,78,81))
qed

end
