(* ===== verification/Output_Order.thy ===== *)
theory Output_Order
  imports Elf_Sections Part_Layout Output_Kind
begin

text \<open>
  The order of the output: \<open>OutputOrderBuilder\<close> of \<open>output_section_id.rs\<close> turns a sequence of sections into
  the events that start and end program segments around them, with the segment definitions and the
  sequence of sections of the ELF platform (\<open>elf.rs\<close>) and the classification of custom sections. An
  identifier out of range panics, as does a 257th segment.
\<close>

section \<open>Segment definitions\<close>

record program_segment_def =
  segment_type_of :: segment_type
  seg_writable :: bool
  seg_executable :: bool

definition readable :: "segment_type \<Rightarrow> program_segment_def" where
  "readable t = \<lparr>segment_type_of = t, seg_writable = False, seg_executable = False\<rparr>"

definition PROGRAM_SEGMENT_DEFS :: "program_segment_def list" where
  "PROGRAM_SEGMENT_DEFS = [
     readable PT_PHDR,
     readable PT_INTERP,
     readable PT_NOTE,
     readable PT_GNU_PROPERTY,
     readable PT_LOAD,
     (readable PT_LOAD)\<lparr>seg_executable := True\<rparr>,
     (readable PT_LOAD)\<lparr>seg_writable := True\<rparr>,
     readable PT_TLS,
     readable PT_GNU_EH_FRAME,
     readable PT_GNU_SFRAME,
     (readable PT_DYNAMIC)\<lparr>seg_writable := True\<rparr>,
     readable PT_GNU_RELRO,
     readable PT_RISCV_ATTRIBUTES]"

definition STACK_SEGMENT_DEF :: program_segment_def where
  "STACK_SEGMENT_DEF = (readable PT_GNU_STACK)\<lparr>seg_writable := True\<rparr>"

definition unconditional_segment_defs :: "program_segment_def list" where
  "unconditional_segment_defs = [STACK_SEGMENT_DEF]"

text \<open>\<open>raw\<close> gives the numbers of the segment types, which come from the \<open>object\<close> crate.\<close>

definition order_key :: "(segment_type \<Rightarrow> nat) \<Rightarrow> program_segment_def \<Rightarrow> nat" where
  "order_key raw d =
     (case position (\<lambda>t. t = segment_type_of d) [PT_PHDR, PT_INTERP, PT_LOAD, PT_DYNAMIC] of
        Some i \<Rightarrow> i
      | None \<Rightarrow> 4 + raw (segment_type_of d))"

definition should_cut_rw_segment_when_ending :: "program_segment_def \<Rightarrow> bool" where
  "should_cut_rw_segment_when_ending d \<longleftrightarrow> segment_type_of d = PT_GNU_RELRO"

definition should_include_section :: "program_segment_def \<Rightarrow> section_output_info \<Rightarrow> output_section_id \<Rightarrow> bool" where
  "should_include_section d info s =
     (case segment_type_of d of
        PT_NOTE \<Rightarrow> is_note info
      | PT_TLS \<Rightarrow> is_tls info
      | PT_LOAD \<Rightarrow> is_alloc info \<and> is_write info = seg_writable d \<and> is_exec info = seg_executable d
      | PT_GNU_RELRO \<Rightarrow> is_tls info
          \<or> (case opt_built_in_details s of None \<Rightarrow> False | Some details \<Rightarrow> bi_is_relro details)
      | other \<Rightarrow> (case opt_built_in_details s of
                    None \<Rightarrow> False
                  | Some details \<Rightarrow> bi_target_segment_type details = Some other))"

text \<open>What the layout reads of a segment definition.\<close>

definition layout_segment :: "(segment_type \<Rightarrow> nat) \<Rightarrow> program_segment_def \<Rightarrow> segment_def" where
  "layout_segment raw d =
     \<lparr>is_loadable = (segment_type_of d = PT_LOAD), is_stack = (segment_type_of d = PT_GNU_STACK),
      is_tls_segment = (segment_type_of d = PT_TLS), segment_order = order_key raw d\<rparr>"

section \<open>The builder\<close>

record order_builder =
  order_events :: "order_event list"
  order_segments :: "program_segment_def list"
  active_segment_kinds :: "segment_id option list"

definition builder_new :: order_builder where
  "builder_new = \<lparr>order_events = [], order_segments = [],
     active_segment_kinds = replicate (length PROGRAM_SEGMENT_DEFS) None\<rparr>"

text \<open>\<open>ProgramSegments::add_segment\<close>; an identifier is a byte.\<close>

definition add_segment :: "program_segment_def \<Rightarrow> program_segment_def list
    \<Rightarrow> (segment_id \<times> program_segment_def list) option" where
  "add_segment d segs = (if length segs < 256 then Some (length segs, segs @ [d]) else None)"

definition push_events :: "order_event list \<Rightarrow> order_builder \<Rightarrow> order_builder" where
  "push_events es b = b\<lparr>order_events := order_events b @ es\<rparr>"

definition should_end_current_rw_segment :: "section_output_info \<Rightarrow> output_section_id \<Rightarrow> order_builder \<Rightarrow> bool" where
  "should_end_current_rw_segment info s b =
     list_ex (\<lambda>(i, d). i \<noteq> None \<and> should_cut_rw_segment_when_ending d \<and> \<not> should_include_section d info s)
       (zip (active_segment_kinds b) PROGRAM_SEGMENT_DEFS)"

definition end_rw_load_segment :: "order_builder \<Rightarrow> order_builder" where
  "end_rw_load_segment b =
     (case position (\<lambda>d. segment_type_of d = PT_LOAD \<and> seg_writable d \<and> \<not> seg_executable d) PROGRAM_SEGMENT_DEFS of
        None \<Rightarrow> b
      | Some k \<Rightarrow>
          (case active_segment_kinds b ! k of
             None \<Rightarrow> b
           | Some i \<Rightarrow> push_events [SegmentEnd i] (b\<lparr>active_segment_kinds := (active_segment_kinds b)[k := None]\<rparr>)))"

text \<open>
  One pass over the segment definitions: the segments to stop and to start, the segments that are active
  afterwards, and all segments.
\<close>

fun start_stop :: "section_output_info \<Rightarrow> output_section_id \<Rightarrow> (program_segment_def \<times> segment_id option) list
    \<Rightarrow> program_segment_def list
    \<Rightarrow> (segment_id list \<times> segment_id list \<times> segment_id option list \<times> program_segment_def list) option" where
  "start_stop info s [] segs = Some ([], [], [], segs)"
| "start_stop info s ((d, active) # rest) segs =
     (case (active, should_include_section d info s) of
        (None, False) \<Rightarrow> do {
          (stop, start, active', segs) \<leftarrow> start_stop info s rest segs;
          Some (stop, start, None # active', segs)
        }
      | (Some i, True) \<Rightarrow> do {
          (stop, start, active', segs) \<leftarrow> start_stop info s rest segs;
          Some (stop, start, Some i # active', segs)
        }
      | (None, True) \<Rightarrow> do {
          (i, segs) \<leftarrow> add_segment d segs;
          (stop, start, active', segs) \<leftarrow> start_stop info s rest segs;
          Some (stop, i # start, Some i # active', segs)
        }
      | (Some i, False) \<Rightarrow> do {
          (stop, start, active', segs) \<leftarrow> start_stop info s rest segs;
          Some (i # stop, start, None # active', segs)
        })"

definition present :: "'a option list \<Rightarrow> 'a list" where
  "present xs = map the (filter (\<lambda>x. x \<noteq> None) xs)"

definition start_stop_segments_for_section :: "output_kind \<Rightarrow> output_sections \<Rightarrow> output_section_id \<Rightarrow> order_builder
    \<Rightarrow> (segment_id list \<times> segment_id list \<times> order_builder) option" where
  "start_stop_segments_for_section k os s b =
     (if is_partial_object k then Some ([], [], b)
      else do {
        target \<leftarrow> merge_target os s;
        if target \<noteq> None then Some ([], [], b)
        else do {
          info \<leftarrow> output_info os s;
          let active = active_segment_kinds b;
          let (stop0, active) = (if location info \<noteq> None then (present active, map (\<lambda>_. None) active) else ([], active));
          (stop, start, active, segs) \<leftarrow> start_stop info s (zip PROGRAM_SEGMENT_DEFS active) (order_segments b);
          Some (stop0 @ stop, start, b\<lparr>active_segment_kinds := active, order_segments := segs\<rparr>)
        }
      })"

text \<open>Secondary sections follow their primary one by priority, those without one last.\<close>

definition secondary_key :: "output_sections \<Rightarrow> output_section_id \<Rightarrow> (u16 \<times> output_section_id) option" where
  "secondary_key os s = do {
     info \<leftarrow> output_info os s;
     Some (case secondary_order info of None \<Rightarrow> - 1 | Some priority \<Rightarrow> priority, s)
   }"

definition add_section :: "output_kind \<Rightarrow> output_sections \<Rightarrow> output_section_id list list \<Rightarrow> output_section_id
    \<Rightarrow> order_builder \<Rightarrow> order_builder option" where
  "add_section k os secondary s b = do {
     info \<leftarrow> output_info os s;
     let b = (if should_end_current_rw_segment info s b then end_rw_load_segment b else b);
     (stop, start, b) \<leftarrow> start_stop_segments_for_section k os s b;
     secondaries \<leftarrow> nth_opt secondary s;
     keyed \<leftarrow> those (map (secondary_key os) secondaries);
     Some (push_events (map SegmentEnd stop
       @ (case location info of Some a \<Rightarrow> if is_alloc info then [SetLocation a] else [] | None \<Rightarrow> [])
       @ map SegmentStart start @ [Section s] @ map (\<lambda>(_, sid). Section sid) (sort_key fst keyed)) b)
   }"

definition add_unconditional :: "program_segment_def \<Rightarrow> order_builder \<Rightarrow> order_builder option" where
  "add_unconditional d b = do {
     (i, segs) \<leftarrow> add_segment d (order_segments b);
     Some (push_events [SegmentStart i, SegmentEnd i] (b\<lparr>order_segments := segs\<rparr>))
   }"

definition build_order :: "output_kind \<Rightarrow> order_builder \<Rightarrow> (order_event list \<times> program_segment_def list) option" where
  "build_order k b = do {
     let b = push_events (map SegmentEnd (present (active_segment_kinds b))) b;
     b \<leftarrow> (if is_partial_object k then Some b else try_fold add_unconditional unconditional_segment_defs b);
     Some (order_events b, order_segments b)
   }"

section \<open>The order of an ELF output\<close>

record custom_section_ids =
  custom_ro :: "output_section_id list"
  custom_exec :: "output_section_id list"
  custom_data :: "output_section_id list"
  custom_bss :: "output_section_id list"
  custom_nonalloc :: "output_section_id list"
  custom_tdata :: "output_section_id list"
  custom_tbss :: "output_section_id list"

definition no_customs :: custom_section_ids where
  "no_customs = \<lparr>custom_ro = [], custom_exec = [], custom_data = [], custom_bss = [], custom_nonalloc = [],
     custom_tdata = [], custom_tbss = []\<rparr>"

definition classify_section :: "output_section_id \<times> section_output_info
    \<Rightarrow> custom_section_ids \<times> output_section_id list list
    \<Rightarrow> (custom_section_ids \<times> output_section_id list list) option" where
  "classify_section si st =
     (let (s, info) = si; (custom, secondary) = st
      in case kind info of
           Secondary primary \<Rightarrow> do {
             ss \<leftarrow> nth_opt secondary primary;
             secondary \<leftarrow> update_opt secondary primary (ss @ [s]);
             Some (custom, secondary)
           }
         | Primary _ \<Rightarrow> Some
             (if s < NUM_BUILT_IN_SECTIONS then custom
              else if is_exec info then custom\<lparr>custom_exec := custom_exec custom @ [s]\<rparr>
              else if is_tls info then
                (if is_no_bits info then custom\<lparr>custom_tbss := custom_tbss custom @ [s]\<rparr>
                 else custom\<lparr>custom_tdata := custom_tdata custom @ [s]\<rparr>)
              else if \<not> is_write info then
                (if is_alloc info then custom\<lparr>custom_ro := custom_ro custom @ [s]\<rparr>
                 else custom\<lparr>custom_nonalloc := custom_nonalloc custom @ [s]\<rparr>)
              else if is_no_bits info then custom\<lparr>custom_bss := custom_bss custom @ [s]\<rparr>
              else custom\<lparr>custom_data := custom_data custom @ [s]\<rparr>, secondary))"

definition elf_section_order :: "custom_section_ids \<Rightarrow> output_section_id list" where
  "elf_section_order custom =
     [FILE_HEADER_ID, PROGRAM_HEADERS_ID, SECTION_HEADERS_ID, NOTE_GNU_PROPERTY_ID, NOTE_GNU_BUILD_ID_ID,
       INTERP_ID, NOTE_ABI_TAG_ID, HASH_ID, GNU_HASH_ID, DYNSYM_ID,
       DYNSTR_ID, GNU_VERSION_ID, GNU_VERSION_D_ID, GNU_VERSION_R_ID, RELA_DYN_RELATIVE_ID,
       RELR_DYN_ID, RELA_PLT_ID, RODATA_ID, EH_FRAME_HDR_ID, EH_FRAME_ID,
       SFRAME_ID, GCC_EXCEPT_TABLE_ID]
     @ custom_ro custom
     @ [PLT_GOT_ID, INIT_ID, FINI_ID, TEXT_ID]
     @ custom_exec custom
     @ [TDATA_ID]
     @ custom_tdata custom
     @ [TBSS_ID]
     @ custom_tbss custom
     @ [INIT_ARRAY_ID, FINI_ARRAY_ID, PREINIT_ARRAY_ID, DATA_REL_RO_ID, DYNAMIC_ID,
       GOT_ID, RELRO_PADDING_ID, DATA_ID]
     @ custom_data custom
     @ [BSS_ID]
     @ custom_bss custom
     @ custom_nonalloc custom
     @ [COMMENT_ID, RISCV_ATTRIBUTES_ID, SHSTRTAB_ID, SYMTAB_LOCAL_ID, SYMTAB_SHNDX_LOCAL_ID,
       STRTAB_ID]"

definition build_output_order_and_program_segments :: "custom_section_ids \<Rightarrow> output_kind \<Rightarrow> output_sections
    \<Rightarrow> output_section_id list list \<Rightarrow> (order_event list \<times> program_segment_def list) option" where
  "build_output_order_and_program_segments custom k os secondary = do {
     b \<leftarrow> try_fold (add_section k os secondary) (elf_section_order custom) builder_new;
     build_order k b
   }"

definition output_order :: "output_kind \<Rightarrow> output_sections \<Rightarrow> (order_event list \<times> program_segment_def list) option" where
  "output_order k os = do {
     (custom, secondary) \<leftarrow> try_fold classify_section (zip [0..<num_sections os] (section_infos os))
       (no_customs, replicate (num_sections os) []);
     build_output_order_and_program_segments custom k os secondary
   }"

end
