(* ===== verification/Output_Order_Spec.thy ===== *)
theory Output_Order_Spec
  imports Output_Order Section_Layout "HOL-Library.Multiset"
begin

text \<open>
  The order of the output is well formed: every segment is started and ended once, a section stands
  between the start and the end of exactly the segments that include it, and the computation of the
  segment layout accepts the order.
\<close>

section \<open>Replaying the events\<close>

text \<open>The segments that are open after some events; \<open>None\<close> where one is started twice or ended unopened.\<close>

fun replay_event :: "order_event \<Rightarrow> segment_id set \<Rightarrow> segment_id set option" where
  "replay_event (SegmentStart i) S = (if i \<in> S then None else Some (insert i S))"
| "replay_event (SegmentEnd i) S = (if i \<in> S then Some (S - {i}) else None)"
| "replay_event _ S = Some S"

definition replay :: "order_event list \<Rightarrow> segment_id set \<Rightarrow> segment_id set option" where
  "replay = try_fold replay_event"

fun starts :: "order_event list \<Rightarrow> segment_id list" where
  "starts [] = []"
| "starts (SegmentStart i # es) = i # starts es"
| "starts (_ # es) = starts es"

lemma replay_simps [simp]:
  "replay [] S = Some S"
  "replay (e # es) S = Option.bind (replay_event e S) (replay es)"
  "replay (es @ fs) S = Option.bind (replay es S) (replay fs)"
  by (simp_all add: replay_def)

lemma starts_append [simp]: "starts (es @ fs) = starts es @ starts fs"
  by (induction es rule: starts.induct) simp_all

lemma replay_ends: "distinct is \<Longrightarrow> set is \<subseteq> S \<Longrightarrow> replay (map SegmentEnd is) S = Some (S - set is)"
  by (induction "is" arbitrary: S) (auto simp: insert_Diff_if Diff_insert2 [symmetric] subset_Diff_insert)

lemma replay_starts: "distinct is \<Longrightarrow> set is \<inter> S = {} \<Longrightarrow> replay (map SegmentStart is) S = Some (S \<union> set is)"
  by (induction "is" arbitrary: S) auto

lemma replay_sections: "replay (map (\<lambda>(_, s). Section s) xs) S = Some S"
  by (induction xs) auto

lemma starts_others [simp]:
  "starts (map SegmentEnd is) = []" "starts (map SegmentStart is) = is" "starts (map (\<lambda>(_, s). Section s) xs) = []"
proof -
  show "starts (map SegmentEnd is) = []" "starts (map SegmentStart is) = is"
    by (induction "is") simp_all
  show "starts (map (\<lambda>(_, s). Section s) xs) = []"
    by (induction xs) auto
qed

section \<open>One pass over the segment definitions\<close>

lemma present_simps [simp]: "present [] = []" "present (None # xs) = present xs" "present (Some x # xs) = x # present xs"
  by (simp_all add: present_def)

lemma in_present: "x \<in> set (present xs) \<longleftrightarrow> Some x \<in> set xs"
  by (force simp: present_def)

lemma start_stop_ok:
  assumes "start_stop info s xs segs = Some (stop, start, active, segs')"
  shows "length active = length xs \<and> segs' = segs @ drop (length segs) segs' \<and> length segs \<le> length segs'
    \<and> start = [length segs..<length segs'] \<and> set stop \<subseteq> set (present (map snd xs))
    \<and> mset (present active) + mset stop = mset (present (map snd xs)) + mset start
    \<and> (\<forall>k < length xs. (active ! k \<noteq> None) = should_include_section (fst (xs ! k)) info s
        \<and> (\<forall>i. active ! k = Some i \<longrightarrow> snd (xs ! k) = Some i \<or> i \<in> set start \<and> segs' ! i = fst (xs ! k)))"
  using assms
proof (induction xs arbitrary: segs stop start active)
  case (Cons x xs)
  obtain d a where x: "x = (d, a)"
    by (cases x)
  show ?case
  proof (cases a)
    case None
    show ?thesis
    proof (cases "should_include_section d info s")
      case True
      then obtain stop1 start1 active1 where run: "start_stop info s xs (segs @ [d]) = Some (stop1, start1, active1, segs')"
          "stop = stop1" "start = length segs # start1" "active = Some (length segs) # active1" "length segs < 256"
        using Cons.prems x None by (auto simp: add_segment_def split: bind_splits if_splits)
      note IH = Cons.IH [OF run(1)]
      have "segs' ! length segs = d" "segs' = segs @ drop (length segs) segs'"
        using IH by (metis (no_types, lifting) append_assoc nth_append_length append_Cons append_Nil append_eq_conv_conj)+
      moreover have up: "[length segs..<length segs'] = length segs # [Suc (length segs)..<length segs']"
        using IH by (intro upt_conv_Cons) simp
      moreover have "mset (present active) + mset stop = mset (present (map snd (x # xs))) + mset start"
        using IH run x None by simp
      moreover have "start = [length segs..<length segs']"
        using IH run(3) up by simp
      ultimately show ?thesis
        using IH run x None True by (auto simp: nth_Cons split: nat.splits)
    next
      case False
      then show ?thesis
        using Cons x None by (fastforce simp: nth_Cons less_Suc_eq_0_disj split: bind_splits nat.splits)
    qed
  next
    case (Some i)
    show ?thesis
    proof (cases "should_include_section d info s")
      case True
      then show ?thesis
        using Cons x Some by (fastforce simp: nth_Cons less_Suc_eq_0_disj split: bind_splits nat.splits)
    next
      case False
      then show ?thesis
        using Cons x Some by (fastforce simp: nth_Cons less_Suc_eq_0_disj split: bind_splits nat.splits)
    qed
  qed
qed simp

section \<open>Sections between starts and ends\<close>

definition in_its_segments :: "output_sections \<Rightarrow> program_segment_def list \<Rightarrow> segment_id set \<Rightarrow> output_section_id \<Rightarrow> bool" where
  "in_its_segments os segs S s \<longleftrightarrow> (\<exists>p info. primary_output_section os s = Some p \<and> output_info os p = Some info
     \<and> (\<forall>d. d \<in> (!) segs ` S \<longleftrightarrow> d \<in> set PROGRAM_SEGMENT_DEFS \<and> should_include_section d info p))"

fun stands :: "output_sections \<Rightarrow> program_segment_def list \<Rightarrow> segment_id set \<Rightarrow> order_event list \<Rightarrow> bool" where
  "stands os segs S [] \<longleftrightarrow> True"
| "stands os segs S (e # es) \<longleftrightarrow> (\<forall>s. e = Section s \<longrightarrow> in_its_segments os segs S s)
     \<and> (\<forall>T. replay_event e S = Some T \<longrightarrow> stands os segs T es)"

lemma stands_append:
  "stands os segs S (es @ fs) \<longleftrightarrow> stands os segs S es \<and> (\<forall>T. replay es S = Some T \<longrightarrow> stands os segs T fs)"
proof (induction es arbitrary: S)
  case (Cons e es)
  then show ?case
    by (cases "replay_event e S") auto
qed simp

lemma stands_at:
  assumes "stands os segs {} (es @ Section s # fs)" "replay es {} = Some S"
  shows "in_its_segments os segs S s"
  using assms by (simp add: stands_append)

lemma replay_subset: "replay es S = Some T \<Longrightarrow> T \<subseteq> S \<union> set (starts es)"
proof (induction es arbitrary: S)
  case (Cons e es)
  then obtain U where U: "replay_event e S = Some U" "T \<subseteq> U \<union> set (starts es)"
    by (auto split: bind_splits)
  then show ?case
    by (cases e) (auto split: if_splits)
qed simp

lemma stands_more_segments:
  assumes "stands os segs S es" "S \<union> set (starts es) \<subseteq> {..<length segs}"
  shows "stands os (segs @ others) S es"
  using assms
proof (induction es arbitrary: S)
  case (Cons e es)
  have "(!) (segs @ others) ` S = (!) segs ` S"
    using Cons.prems(2) by (auto simp: nth_append image_iff)
  then have "in_its_segments os (segs @ others) S s" if "e = Section s" for s
    using Cons.prems(1) that by (simp add: in_its_segments_def)
  moreover have "stands os (segs @ others) T es" if "replay_event e S = Some T" for T
    using Cons that replay_subset [of "[e]" S T] by (cases e) (auto split: if_splits)
  ultimately show ?case
    by simp
qed simp

lemma stands_ends: "stands os segs S (map SegmentEnd is)" "stands os segs S (map SegmentStart is)"
proof -
  show "stands os segs S (map SegmentEnd is)"
    by (induction "is" arbitrary: S) auto
  show "stands os segs S (map SegmentStart is)"
    by (induction "is" arbitrary: S) auto
qed

lemma stands_sections:
  assumes "\<forall>s \<in> snd ` set xs. in_its_segments os segs S s"
  shows "stands os segs S (map (\<lambda>(_, s). Section s) xs)"
  using assms by (induction xs) auto

section \<open>The state of the builder\<close>

definition active_ok :: "program_segment_def list \<Rightarrow> segment_id option list \<Rightarrow> bool" where
  "active_ok segs active \<longleftrightarrow> length active = length PROGRAM_SEGMENT_DEFS \<and> distinct (present active)
     \<and> (\<forall>k i. k < length active \<longrightarrow> active ! k = Some i \<longrightarrow> i < length segs \<and> segs ! i = PROGRAM_SEGMENT_DEFS ! k)"

lemma active_below: "active_ok segs active \<Longrightarrow> i \<in> set (present active) \<Longrightarrow> i < length segs"
  by (auto simp: active_ok_def in_present in_set_conv_nth [of "Some i"])

definition builder_ok :: "output_kind \<Rightarrow> output_sections \<Rightarrow> order_builder \<Rightarrow> bool" where
  "builder_ok k os b \<longleftrightarrow> active_ok (order_segments b) (active_segment_kinds b)
     \<and> replay (order_events b) {} = Some (set (present (active_segment_kinds b)))
     \<and> starts (order_events b) = [0..<length (order_segments b)]
     \<and> (\<not> is_partial_object k \<longrightarrow> stands os (order_segments b) {} (order_events b))"

lemma present_None [simp]: "present (replicate n None) = []" "present (map (\<lambda>_. None) xs) = []"
  by (simp_all add: present_def)

lemma builder_new_ok: "builder_ok k os builder_new"
  by (simp add: builder_ok_def builder_new_def active_ok_def)

lemma present_clear:
  assumes "k < length xs" "xs ! k = Some i"
  shows "mset (present xs) = add_mset i (mset (present (xs[k := None])))"
proof -
  have "xs = take k xs @ Some i # drop (Suc k) xs"
    using assms by (metis id_take_nth_drop)
  moreover have "xs[k := None] = take k xs @ None # drop (Suc k) xs"
    using assms(1) by (simp add: upd_conv_take_nth_drop)
  moreover have "present (ys @ zs) = present ys @ present zs" for ys zs :: "'a option list"
    by (simp add: present_def)
  ultimately show ?thesis
    by (metis add.commute add_mset_add_single mset.simps(2) mset_append present_simps(2,3) union_mset_add_mset_right)
qed

lemma position_Some: "position P xs = Some k \<Longrightarrow> k < length xs \<and> P (xs ! k)"
  by (induction xs arbitrary: k) (auto split: if_splits)

lemma end_rw_load_segment_ok:
  assumes "builder_ok k os b"
  shows "builder_ok k os (end_rw_load_segment b)"
proof -
  have "builder_ok k os (push_events [SegmentEnd i] (b\<lparr>active_segment_kinds := (active_segment_kinds b)[n := None]\<rparr>))"
    if n: "n < length PROGRAM_SEGMENT_DEFS" "active_segment_kinds b ! n = Some i" for n i
  proof -
    let ?a = "active_segment_kinds b" and ?c = "(active_segment_kinds b)[n := None]"
    have a: "active_ok (order_segments b) ?a"
      using assms by (simp add: builder_ok_def)
    then have m: "mset (present ?a) = add_mset i (mset (present ?c))"
      using present_clear [of n ?a i] n by (simp add: active_ok_def)
    then have d: "distinct (i # present ?c)"
      using a by (metis active_ok_def mset.simps(2) mset_eq_imp_distinct_iff)
    then have s: "set (present ?c) = set (present ?a) - {i}" "i \<in> set (present ?a)"
      using m by (auto simp flip: set_mset_mset)
    have "active_ok (order_segments b) ?c"
      using a d n by (auto simp: active_ok_def nth_list_update)
    then show ?thesis
      using assms s by (simp add: builder_ok_def push_events_def stands_append)
  qed
  then show ?thesis
    using assms by (auto simp: end_rw_load_segment_def split: option.splits dest!: position_Some)
qed

lemma start_stop_segments_cases:
  assumes "start_stop_segments_for_section k os s b = Some (stop, start, b')"
  shows "b' = b \<and> stop = [] \<and> start = [] \<and> (is_partial_object k \<or> merge_target os s \<noteq> Some None)
    \<or> (\<exists>info stop0 active stop1. output_info os s = Some info
        \<and> (stop0, active) = (if location info \<noteq> None then (present (active_segment_kinds b),
            map (\<lambda>_. None) (active_segment_kinds b)) else ([], active_segment_kinds b))
        \<and> start_stop info s (zip PROGRAM_SEGMENT_DEFS active) (order_segments b)
           = Some (stop1, start, active_segment_kinds b', order_segments b')
        \<and> stop = stop0 @ stop1 \<and> order_events b' = order_events b)"
proof (cases "is_partial_object k \<or> merge_target os s \<noteq> Some None")
  case True
  then have "(stop, start, b') = ([], [], b)"
    using assms by (cases "merge_target os s") (auto simp: start_stop_segments_for_section_def split: if_splits)
  then show ?thesis
    using True by simp
next
  case False
  then obtain info where info: "output_info os s = Some info"
    using assms by (auto simp: start_stop_segments_for_section_def split: bind_splits)
  let ?st = "if location info \<noteq> None then (present (active_segment_kinds b),
            map (\<lambda>_. None) (active_segment_kinds b)) else ([], active_segment_kinds b)"
  obtain stop0 active where st: "(stop0, active) = ?st"
    by (metis surj_pair)
  have "Option.bind (start_stop info s (zip PROGRAM_SEGMENT_DEFS active) (order_segments b))
      (\<lambda>(stop, start, active, segs). Some (stop0 @ stop, start, b\<lparr>active_segment_kinds := active, order_segments := segs\<rparr>))
      = Some (stop, start, b')"
    using assms False info st by (simp add: start_stop_segments_for_section_def Let_def split: if_splits)
  then show ?thesis
    using info st by (auto split: bind_splits)
qed

lemma start_stop_segments_ok:
  assumes "start_stop_segments_for_section k os s b = Some (stop, start, b')" "builder_ok k os b"
  shows "order_events b' = order_events b \<and> active_ok (order_segments b') (active_segment_kinds b')
    \<and> (\<exists>others. order_segments b' = order_segments b @ others)
    \<and> start = [length (order_segments b)..<length (order_segments b')]
    \<and> distinct stop \<and> set stop \<subseteq> set (present (active_segment_kinds b))
    \<and> set (present (active_segment_kinds b')) = set (present (active_segment_kinds b)) - set stop \<union> set start
    \<and> (\<not> is_partial_object k \<longrightarrow> merge_target os s = Some None \<longrightarrow>
        (\<forall>info n. output_info os s = Some info \<longrightarrow> n < length PROGRAM_SEGMENT_DEFS \<longrightarrow>
          (active_segment_kinds b' ! n \<noteq> None) = should_include_section (PROGRAM_SEGMENT_DEFS ! n) info s))"
proof -
  let ?a = "active_segment_kinds b" and ?segs = "order_segments b"
  have a: "active_ok ?segs ?a"
    using assms(2) by (simp add: builder_ok_def)
  consider (same) "b' = b" "stop = []" "start = []" "is_partial_object k \<or> merge_target os s \<noteq> Some None"
    | (pass) info stop0 active stop1 where "output_info os s = Some info"
        "(stop0, active) = (if location info \<noteq> None then (present ?a, map (\<lambda>_. None) ?a) else ([], ?a))"
        "start_stop info s (zip PROGRAM_SEGMENT_DEFS active) ?segs
           = Some (stop1, start, active_segment_kinds b', order_segments b')"
        "stop = stop0 @ stop1" "order_events b' = order_events b"
    using start_stop_segments_cases [OF assms(1)] by blast
  then show ?thesis
  proof cases
    case same
    then show ?thesis
      using a by auto
  next
    case pass
    have len: "length ?a = length PROGRAM_SEGMENT_DEFS" "length active = length PROGRAM_SEGMENT_DEFS"
      using a pass(2) by (auto simp: active_ok_def split: if_splits)
    then have snd: "map snd (zip PROGRAM_SEGMENT_DEFS active) = active"
      by simp
    note ss = start_stop_ok [OF pass(3), unfolded snd]
    let ?a' = "active_segment_kinds b'"
    have dis: "distinct (stop0 @ present active)" "set (stop0 @ present active) = set (present ?a)"
      using a pass(2) by (auto simp: active_ok_def split: if_splits)
    have fresh: "set start \<inter> set (present ?a) = {}"
      using active_below [OF a] ss by fastforce
    have "mset (stop0 @ present active @ start) = mset stop0 + (mset (present ?a') + mset stop1)"
      using ss by simp
    then have m: "mset (stop0 @ present active @ start) = mset (stop @ present ?a')"
      using pass(4) by simp
    moreover have "distinct (stop0 @ present active @ start)"
      using dis fresh ss by auto
    ultimately have d': "distinct (stop @ present ?a')"
      by (metis mset_eq_imp_distinct_iff)
    have "set (stop0 @ present active @ start) = set (stop @ present ?a')"
      using m by (metis set_mset_mset)
    then have un: "set stop \<union> set (present ?a') = set (present ?a) \<union> set start"
      using dis(2) by auto
    moreover have sub: "set stop \<subseteq> set (present ?a)"
      using ss pass(4) dis(2) by auto
    ultimately have "set (present ?a') = set (present ?a) - set stop \<union> set start"
      using d' fresh by auto
    moreover have "active_ok (order_segments b') ?a'"
      unfolding active_ok_def
    proof (intro conjI allI impI)
      fix n i
      assume n: "n < length ?a'" "?a' ! n = Some i"
      then have "active ! n = Some i \<or> i \<in> set start \<and> order_segments b' ! i = PROGRAM_SEGMENT_DEFS ! n"
        using ss len by auto
      moreover have "?a ! n = Some i" if "active ! n = Some i"
        using that pass(2) n ss len by (auto split: if_splits)
      moreover have "order_segments b' ! i = ?segs ! i" if "i < length ?segs"
        using that ss by (metis nth_append)
      ultimately show "i < length (order_segments b')" "order_segments b' ! i = PROGRAM_SEGMENT_DEFS ! n"
        using a n ss len by (auto simp: active_ok_def)
    qed (use d' ss len in auto)
    ultimately show ?thesis
      using ss pass sub d' len by (auto intro: exI [of _ "drop (length ?segs) (order_segments b')"])
  qed
qed

section \<open>Adding sections\<close>

lemma active_image:
  assumes "active_ok segs active"
  shows "(!) segs ` set (present active)
    = {PROGRAM_SEGMENT_DEFS ! n | n. n < length PROGRAM_SEGMENT_DEFS \<and> active ! n \<noteq> None}"
proof (intro equalityI subsetI)
  fix d
  assume "d \<in> (!) segs ` set (present active)"
  then obtain n i where "n < length active" "active ! n = Some i" "d = segs ! i"
    by (auto simp: in_present in_set_conv_nth [of "Some _"])
  then show "d \<in> {PROGRAM_SEGMENT_DEFS ! n | n. n < length PROGRAM_SEGMENT_DEFS \<and> active ! n \<noteq> None}"
    using assms by (auto simp: active_ok_def)
next
  fix d
  assume "d \<in> {PROGRAM_SEGMENT_DEFS ! n | n. n < length PROGRAM_SEGMENT_DEFS \<and> active ! n \<noteq> None}"
  then obtain n i where n: "n < length active" "active ! n = Some i" "d = PROGRAM_SEGMENT_DEFS ! n"
    using assms by (auto simp: active_ok_def)
  then have "i \<in> set (present active)"
    by (metis in_present nth_mem)
  moreover have "segs ! i = d"
    using assms n by (auto simp: active_ok_def)
  ultimately show "d \<in> (!) segs ` set (present active)"
    by blast
qed

lemma in_its_segments_active:
  assumes "active_ok segs active" "primary_output_section os s = Some p" "output_info os p = Some info"
    "\<And>n. n < length PROGRAM_SEGMENT_DEFS \<Longrightarrow>
      (active ! n \<noteq> None) = should_include_section (PROGRAM_SEGMENT_DEFS ! n) info p"
  shows "in_its_segments os segs (set (present active)) s"
proof -
  have "d \<in> (!) segs ` set (present active) \<longleftrightarrow> d \<in> set PROGRAM_SEGMENT_DEFS \<and> should_include_section d info p" for d
    unfolding active_image [OF assms(1)] using assms(4) by (auto simp: in_set_conv_nth)
  then show ?thesis
    using assms(2,3) by (auto simp: in_its_segments_def)
qed

definition location_event :: "section_output_info \<Rightarrow> order_event list" where
  "location_event info =
     (case location info of Some a \<Rightarrow> if is_alloc info then [SetLocation a] else [] | None \<Rightarrow> [])"

lemma location_event_silent [simp]:
  "replay (location_event info) S = Some S" "starts (location_event info) = []"
  "stands os segs S (location_event info)"
  by (simp_all add: location_event_def split: option.splits)

lemma add_section_cases:
  assumes "add_section k os secondary s b = Some b'"
  obtains info b0 stop start b1 secondaries keyed where
    "output_info os s = Some info"
    "b0 = (if should_end_current_rw_segment info s b then end_rw_load_segment b else b)"
    "start_stop_segments_for_section k os s b0 = Some (stop, start, b1)"
    "nth_opt secondary s = Some secondaries"
    "those (map (secondary_key os) secondaries) = Some keyed"
    "b' = push_events (map SegmentEnd stop @ location_event info @ map SegmentStart start @ [Section s]
       @ map (\<lambda>(_, sid). Section sid) (sort_key fst keyed)) b1"
  using assms that by (auto simp: add_section_def location_event_def Let_def split: bind_splits)

lemma those_secondary_key:
  assumes "those (map (secondary_key os) ss) = Some keyed"
  shows "map snd keyed = ss"
  using assms
proof (induction ss arbitrary: keyed)
  case (Cons s ss)
  then show ?case
    by (auto simp: secondary_key_def split: option.splits bind_splits)
qed simp

text \<open>What the order relies on: a section that is emitted directly is primary, its secondaries are its own.\<close>

definition emits_primary :: "output_sections \<Rightarrow> output_section_id list list \<Rightarrow> output_section_id \<Rightarrow> bool" where
  "emits_primary os secondary s \<longleftrightarrow> merge_target os s = Some None
     \<and> (\<forall>ss. nth_opt secondary s = Some ss \<longrightarrow> (\<forall>t \<in> set ss. primary_output_section os t = Some s))"

lemma add_section_ok:
  assumes "add_section k os secondary s b = Some b'" "builder_ok k os b" "emits_primary os secondary s"
  shows "builder_ok k os b'"
proof -
  obtain info b0 stop start b1 secondaries keyed where run:
    "output_info os s = Some info"
    "b0 = (if should_end_current_rw_segment info s b then end_rw_load_segment b else b)"
    "start_stop_segments_for_section k os s b0 = Some (stop, start, b1)"
    "nth_opt secondary s = Some secondaries"
    "those (map (secondary_key os) secondaries) = Some keyed"
    "b' = push_events (map SegmentEnd stop @ location_event info @ map SegmentStart start @ [Section s]
       @ map (\<lambda>(_, sid). Section sid) (sort_key fst keyed)) b1"
    using add_section_cases [OF assms(1)] by metis
  let ?A0 = "set (present (active_segment_kinds b0))" and ?A1 = "set (present (active_segment_kinds b1))"
  have ok0: "builder_ok k os b0"
    using assms(2) run(2) end_rw_load_segment_ok by simp
  note ss = start_stop_segments_ok [OF run(3) ok0]
  obtain others where others: "order_segments b1 = order_segments b0 @ others"
    using ss by blast
  have below: "i < length (order_segments b0)" if "i \<in> ?A0" for i
    using ok0 active_below that by (metis builder_ok_def)
  have rep: "replay (map SegmentEnd stop) ?A0 = Some (?A0 - set stop)"
    using ss by (intro replay_ends) auto
  have "set start \<inter> ?A0 = {}"
    using ss below by fastforce
  then have "replay (map SegmentStart start) (?A0 - set stop) = Some ?A1"
    using ss by (subst replay_starts) auto
  note reps = rep this
  have "replay (order_events b') {} = Some ?A1"
    using ok0 ss reps run(6) by (simp add: builder_ok_def push_events_def replay_sections)
  moreover have "starts (order_events b') = [0..<length (order_segments b1)]"
    using ok0 ss others run(6) upt_add_eq_append [of 0 "length (order_segments b0)" "length others"]
    by (simp add: builder_ok_def push_events_def)
  moreover have "stands os (order_segments b1) {} (order_events b')" if np: "\<not> is_partial_object k"
  proof -
    have inc: "(active_segment_kinds b1 ! n \<noteq> None) = should_include_section (PROGRAM_SEGMENT_DEFS ! n) info s"
      if "n < length PROGRAM_SEGMENT_DEFS" for n
      using ss np run(1) assms(3) that by (auto simp: emits_primary_def)
    have "in_its_segments os (order_segments b1) ?A1 t" if "primary_output_section os t = Some s" for t
      using in_its_segments_active [OF _ that run(1) inc] ss by blast
    moreover have "primary_output_section os s = Some s"
      using assms(3) by (simp add: emits_primary_def primary_output_section_def)
    moreover have "set secondaries = snd ` set keyed"
      using those_secondary_key [OF run(5)] by (metis list.set_map)
    ultimately have "stands os (order_segments b1) ?A1 (Section s # map (\<lambda>(_, sid). Section sid) (sort_key fst keyed))"
      using assms(3) run(4) by (fastforce simp: emits_primary_def intro!: stands_sections)
    moreover have "stands os (order_segments b1) {} (order_events b0)"
      unfolding others using ok0 np by (intro stands_more_segments) (auto simp: builder_ok_def)
    ultimately show ?thesis
      using ok0 ss reps run(6) by (simp add: builder_ok_def push_events_def stands_append stands_ends)
  qed
  ultimately show ?thesis
    using ss run(6) by (simp add: builder_ok_def push_events_def)
qed

section \<open>Which sections are emitted\<close>

lemma laid_sections_simps [simp]:
  "laid_sections [] = []"
  "laid_sections (es @ fs) = laid_sections es @ laid_sections fs"
  "laid_sections (Section s # es) = s # laid_sections es"
  "laid_sections (map SegmentEnd is) = []" "laid_sections (map SegmentStart is) = []"
  "laid_sections (location_event info) = []"
  "laid_sections (map (\<lambda>(_, sid). Section sid) keyed) = map snd keyed"
proof -
  show "laid_sections (map SegmentEnd is) = []" "laid_sections (map SegmentStart is) = []"
    by (induction "is") (simp_all add: laid_sections_def map_filter_simps)
  show "laid_sections (map (\<lambda>(_, sid). Section sid) keyed) = map snd keyed"
    by (induction keyed) (auto simp: laid_sections_def map_filter_simps)
qed (simp_all add: laid_sections_def map_filter_simps map_filter_def location_event_def split: option.splits)

lemma end_rw_load_segment_sections [simp]: "laid_sections (order_events (end_rw_load_segment b)) = laid_sections (order_events b)"
  using laid_sections_simps(4) [of "[_]"] by (simp add: end_rw_load_segment_def push_events_def split: option.splits)

definition with_secondaries :: "output_section_id list list \<Rightarrow> output_section_id \<Rightarrow> output_section_id list" where
  "with_secondaries secondary s = s # secondary ! s"

lemma add_section_sections:
  assumes "add_section k os secondary s b = Some b'"
  shows "mset (laid_sections (order_events b'))
      = mset (laid_sections (order_events b)) + mset (with_secondaries secondary s)
    \<and> s < length secondary"
proof -
  obtain info b0 stop start b1 secondaries keyed where run:
    "output_info os s = Some info"
    "b0 = (if should_end_current_rw_segment info s b then end_rw_load_segment b else b)"
    "start_stop_segments_for_section k os s b0 = Some (stop, start, b1)"
    "nth_opt secondary s = Some secondaries"
    "those (map (secondary_key os) secondaries) = Some keyed"
    "b' = push_events (map SegmentEnd stop @ location_event info @ map SegmentStart start @ [Section s]
       @ map (\<lambda>(_, sid). Section sid) (sort_key fst keyed)) b1"
    using add_section_cases [OF assms] by metis
  have "order_events b1 = order_events b0"
    using start_stop_segments_cases [OF run(3)] by auto
  moreover have "laid_sections (order_events b0) = laid_sections (order_events b)"
    using run(2) by simp
  moreover have "mset (map snd (sort_key fst keyed)) = mset (secondary ! s)"
    using those_secondary_key [OF run(5)] run(4) by (metis mset_map mset_sort nth_opt_eq_Some)
  ultimately show ?thesis
    using run(4,6) by (simp add: push_events_def with_secondaries_def)
qed

lemma add_sections_ok:
  assumes "try_fold (add_section k os secondary) ss builder_new = Some b"
    and "list_all (emits_primary os secondary) ss"
  shows "builder_ok k os b \<and> mset (laid_sections (order_events b)) = mset (concat (map (with_secondaries secondary) ss))"
proof (rule try_fold_partial [OF assms(1), where I = "\<lambda>ys b. builder_ok k os b
    \<and> mset (laid_sections (order_events b)) = mset (concat (map (with_secondaries secondary) ys))"])
  show "builder_ok k os builder_new \<and> mset (laid_sections (order_events builder_new)) = mset (concat (map (with_secondaries secondary) []))"
    using builder_new_ok by (simp add: builder_new_def)
next
  fix ys x zs b b'
  assume ss: "ss = ys @ x # zs" and run: "add_section k os secondary x b = Some b'"
    and I: "builder_ok k os b \<and> mset (laid_sections (order_events b)) = mset (concat (map (with_secondaries secondary) ys))"
  show "builder_ok k os b' \<and> mset (laid_sections (order_events b')) = mset (concat (map (with_secondaries secondary) (ys @ [x])))"
    using add_section_ok [OF run] add_section_sections [OF run] I assms(2) ss by simp
qed

section \<open>Classifying the sections\<close>

definition all_customs :: "custom_section_ids \<Rightarrow> output_section_id list" where
  "all_customs c = custom_ro c @ custom_exec c @ custom_tdata c @ custom_tbss c @ custom_data c @ custom_bss c @ custom_nonalloc c"

definition secondary_to :: "output_section_id \<Rightarrow> output_section_id \<times> section_output_info \<Rightarrow> bool" where
  "secondary_to p si \<longleftrightarrow> kind (snd si) = Secondary p"

definition is_custom_primary :: "output_section_id \<times> section_output_info \<Rightarrow> bool" where
  "is_custom_primary si \<longleftrightarrow> NUM_BUILT_IN_SECTIONS \<le> fst si \<and> (case kind (snd si) of Primary _ \<Rightarrow> True | Secondary _ \<Rightarrow> False)"

lemma classify_sections:
  assumes "try_fold classify_section sis (no_customs, replicate n []) = Some (custom, secondary)"
  shows "length secondary = n \<and> (\<forall>p < n. secondary ! p = map fst (filter (secondary_to p) sis))
    \<and> mset (all_customs custom) = mset (map fst (filter is_custom_primary sis))"
proof -
  let ?I = "\<lambda>ys (custom, secondary). length secondary = n \<and> (\<forall>p < n. secondary ! p = map fst (filter (secondary_to p) ys))
    \<and> mset (all_customs custom) = mset (map fst (filter is_custom_primary ys))"
  have "?I sis (custom, secondary)"
  proof (rule try_fold_partial [OF assms, where I = ?I])
    show "?I [] (no_customs, replicate n [])"
      by (simp add: all_customs_def no_customs_def)
  next
    fix ys x zs st st'
    assume I: "?I ys st" and run: "classify_section x st = Some st'"
    obtain s info custom secondary where x: "x = (s, info)" "st = (custom, secondary)"
      by (metis surj_pair)
    show "?I (ys @ [x]) st'"
    proof (cases "kind info")
      case (Primary nm)
      then show ?thesis
        using I run x by (auto simp: classify_section_def secondary_to_def is_custom_primary_def all_customs_def)
    next
      case (Secondary p)
      then show ?thesis
        using I run x
        by (auto simp: classify_section_def secondary_to_def is_custom_primary_def nth_list_update split: bind_splits)
    qed
  qed
  then show ?thesis
    by simp
qed

section \<open>The order as a whole\<close>

text \<open>The built-in sections that the platform emits by name are primary.\<close>

definition built_ins_primary :: "output_sections \<Rightarrow> bool" where
  "built_ins_primary os \<longleftrightarrow> list_all (\<lambda>s. merge_target os s = Some None) (elf_section_order no_customs)"

lemma elf_section_order_mset:
  "mset (elf_section_order custom) = mset (elf_section_order no_customs) + mset (all_customs custom)"
  by (simp add: elf_section_order_def no_customs_def all_customs_def)

lemma elf_section_order_built_ins:
  "distinct (elf_section_order no_customs)" "s \<in> set (elf_section_order no_customs) \<Longrightarrow> s < NUM_BUILT_IN_SECTIONS"
  by (auto simp: elf_section_order_def no_customs_def section_ids NUM_BUILT_IN_SECTIONS_def
      NUM_BUILT_IN_REGULAR_SECTIONS_def)

lemma in_ids_with_info:
  "(s, info) \<in> set (zip [0..<num_sections os] (section_infos os)) \<longleftrightarrow> output_info os s = Some info"
  by (auto simp: set_zip output_info_def num_sections_def intro: exI [of _ s])

lemma distinct_concat_by:
  assumes "distinct xs" "\<And>x. x \<in> set xs \<Longrightarrow> distinct (f x)" "\<And>x y. x \<in> set xs \<Longrightarrow> y \<in> set (f x) \<Longrightarrow> g y = x"
  shows "distinct (concat (map f xs))"
  using assms
proof (induction xs)
  case (Cons x xs)
  have "set (f x) \<inter> set (f y) = {}" if "y \<in> set xs" for y
    using Cons.prems(1) Cons.prems(3) [of x] Cons.prems(3) [of y] that by auto
  then show ?case
    using Cons by auto
qed simp

lemma merge_target_kind:
  "output_info os s = Some info \<Longrightarrow> merge_target os s = Some None \<longleftrightarrow> (case kind info of Primary _ \<Rightarrow> True | Secondary _ \<Rightarrow> False)"
  "output_info os s = Some info \<Longrightarrow> merge_target os s = Some (Some p) \<longleftrightarrow> kind info = Secondary p"
  by (auto simp: merge_target_def split: section_kind.splits)

text \<open>The classification in terms of the description of the sections.\<close>

lemma classified:
  assumes "try_fold classify_section (zip [0..<num_sections os] (section_infos os))
      (no_customs, replicate (num_sections os) []) = Some (custom, secondary)"
  shows "length secondary = num_sections os"
    and "p < num_sections os \<Longrightarrow> distinct (secondary ! p)"
    and "p < num_sections os \<Longrightarrow> t \<in> set (secondary ! p) \<longleftrightarrow> merge_target os t = Some (Some p)"
    and "distinct (all_customs custom)"
    and "s \<in> set (all_customs custom) \<longleftrightarrow> NUM_BUILT_IN_SECTIONS \<le> s \<and> merge_target os s = Some None"
proof -
  let ?z = "zip [0..<num_sections os] (section_infos os)"
  have dis: "distinct (map fst (filter P ?z))" for P
    by (intro distinct_map_filter) (simp add: num_sections_def)
  note cl = classify_sections [OF assms]
  show "length secondary = num_sections os" "p < num_sections os \<Longrightarrow> distinct (secondary ! p)"
    using cl dis by simp_all
  show "distinct (all_customs custom)"
    using cl dis by (metis mset_eq_imp_distinct_iff)
  have filt: "t \<in> set (map fst (filter P ?z)) \<longleftrightarrow> (\<exists>info. output_info os t = Some info \<and> P (t, info))" for t P
    using in_ids_with_info [of t _ os] by (auto simp: image_iff)
  have info: "merge_target os t = Some x \<Longrightarrow> \<exists>info. output_info os t = Some info" for t x
    by (auto simp: merge_target_def split: bind_splits)
  show "t \<in> set (secondary ! p) \<longleftrightarrow> merge_target os t = Some (Some p)" if "p < num_sections os"
  proof -
    have "t \<in> set (secondary ! p) \<longleftrightarrow> (\<exists>info. output_info os t = Some info \<and> kind info = Secondary p)"
      using cl that filt [of t "secondary_to p"] by (simp add: secondary_to_def)
    then show ?thesis
      using info [of t "Some p"] merge_target_kind(2) [of os t _ p] by auto
  qed
  have "set (all_customs custom) = set (map fst (filter is_custom_primary ?z))"
    using cl by (metis set_mset_mset)
  then show "s \<in> set (all_customs custom) \<longleftrightarrow> NUM_BUILT_IN_SECTIONS \<le> s \<and> merge_target os s = Some None"
    using filt [of s is_custom_primary] info [of s None] merge_target_kind(1) [of os s]
    by (auto simp: is_custom_primary_def)
qed

lemma output_order_runs:
  assumes "output_order k os = Some (events, segs)" "built_ins_primary os"
  obtains custom secondary b where
    "build_order k b = Some (events, segs)" "builder_ok k os b"
    "mset (laid_sections (order_events b)) = mset (concat (map (with_secondaries secondary) (elf_section_order custom)))"
    "distinct (laid_sections (order_events b))"
    "set (elf_section_order custom) = set (elf_section_order no_customs) \<union>
       {s. NUM_BUILT_IN_SECTIONS \<le> s \<and> merge_target os s = Some None}"
    "\<forall>s \<in> set (elf_section_order custom). merge_target os s = Some None
       \<and> (\<forall>t. t \<in> set (with_secondaries secondary s) \<longleftrightarrow> primary_output_section os t = Some s)"
proof -
  obtain custom secondary b where cl: "try_fold classify_section (zip [0..<num_sections os] (section_infos os))
      (no_customs, replicate (num_sections os) []) = Some (custom, secondary)"
      and run: "try_fold (add_section k os secondary) (elf_section_order custom) builder_new = Some b"
      and build: "build_order k b = Some (events, segs)"
    using assms(1) by (auto simp: output_order_def build_output_order_and_program_segments_def split: bind_splits)
  note cs = classified [OF cl]
  have "set (elf_section_order custom) = set (elf_section_order no_customs) \<union> set (all_customs custom)"
    using elf_section_order_mset [of custom] by (metis set_mset_mset set_mset_union)
  then have members: "set (elf_section_order custom) = set (elf_section_order no_customs) \<union>
       {s. NUM_BUILT_IN_SECTIONS \<le> s \<and> merge_target os s = Some None}"
    using cs(5) by auto
  have prim: "merge_target os s = Some None" "s < num_sections os" if "s \<in> set (elf_section_order custom)" for s
  proof -
    show "merge_target os s = Some None"
      using that members assms(2) by (auto simp: built_ins_primary_def list_all_iff)
    then show "s < num_sections os"
      by (auto simp: merge_target_def output_info_def num_sections_def split: bind_splits)
  qed
  have group: "t \<in> set (with_secondaries secondary s) \<longleftrightarrow> primary_output_section os t = Some s"
    if s: "s \<in> set (elf_section_order custom)" for s t
    using prim [OF s] cs(3) [of s t]
    by (auto simp: with_secondaries_def primary_output_section_def split: bind_splits option.splits)
  have "list_all (emits_primary os secondary) (elf_section_order custom)"
    using prim group by (fastforce simp: list_all_iff emits_primary_def with_secondaries_def)
  note ok = add_sections_ok [OF run this]
  have "distinct (elf_section_order custom)"
  proof -
    have "distinct (elf_section_order no_customs @ all_customs custom)"
      using elf_section_order_built_ins cs(4,5) by fastforce
    then show ?thesis
      using elf_section_order_mset [of custom] by (metis mset_append mset_eq_imp_distinct_iff)
  qed
  moreover have "distinct (with_secondaries secondary s)" if "s \<in> set (elf_section_order custom)" for s
    using prim [OF that] cs(2,3) by (auto simp: with_secondaries_def)
  ultimately have "distinct (concat (map (with_secondaries secondary) (elf_section_order custom)))"
    using group by (intro distinct_concat_by [where g = "\<lambda>t. the (primary_output_section os t)"]) auto
  then have "distinct (laid_sections (order_events b))"
    using ok by (metis mset_eq_imp_distinct_iff)
  with that [OF build] ok members prim group show thesis
    by blast
qed

lemma add_unconditional_ok:
  assumes "add_unconditional d b = Some b'" "replay (order_events b) {} = Some {}"
    "starts (order_events b) = [0..<length (order_segments b)]" "P \<longrightarrow> stands os (order_segments b) {} (order_events b)"
  shows "replay (order_events b') {} = Some {}" "starts (order_events b') = [0..<length (order_segments b')]"
    "P \<longrightarrow> stands os (order_segments b') {} (order_events b')"
    "laid_sections (order_events b') = laid_sections (order_events b)"
proof -
  let ?n = "length (order_segments b)"
  have b': "order_segments b' = order_segments b @ [d]" "order_events b' = order_events b @ [SegmentStart ?n, SegmentEnd ?n]"
    using assms(1) by (auto simp: add_unconditional_def add_segment_def push_events_def split: if_splits)
  have "stands os (order_segments b @ [d]) {} (order_events b)" if P
    using assms(3,4) that by (intro stands_more_segments) auto
  then show "replay (order_events b') {} = Some {}" "starts (order_events b') = [0..<length (order_segments b')]"
    "P \<longrightarrow> stands os (order_segments b') {} (order_events b')"
    "laid_sections (order_events b') = laid_sections (order_events b)"
    using assms(2,3) b' by (auto simp: stands_append laid_sections_def map_filter_def)
qed

lemma build_order_ok:
  assumes "build_order k b = Some (events, segs)" "builder_ok k os b"
  shows "replay events {} = Some {}" "starts events = [0..<length segs]"
    "\<not> is_partial_object k \<longrightarrow> stands os segs {} events" "laid_sections events = laid_sections (order_events b)"
proof -
  let ?c = "push_events (map SegmentEnd (present (active_segment_kinds b))) b"
  have c: "replay (order_events ?c) {} = Some {}" "starts (order_events ?c) = [0..<length (order_segments ?c)]"
    "\<not> is_partial_object k \<longrightarrow> stands os (order_segments ?c) {} (order_events ?c)"
    "laid_sections (order_events ?c) = laid_sections (order_events b)"
    using assms(2) by (auto simp: builder_ok_def push_events_def active_ok_def replay_ends stands_append stands_ends)
  consider "is_partial_object k" "events = order_events ?c" "segs = order_segments ?c"
    | e where "add_unconditional STACK_SEGMENT_DEF ?c = Some e" "events = order_events e" "segs = order_segments e"
    using assms(1) by (auto simp: build_order_def Let_def unconditional_segment_defs_def split: bind_splits if_splits)
  then show "replay events {} = Some {}" "starts events = [0..<length segs]"
    "\<not> is_partial_object k \<longrightarrow> stands os segs {} events" "laid_sections events = laid_sections (order_events b)"
    using c add_unconditional_ok [OF _ c(1-3)] by (cases; simp)+
qed

section \<open>The segment layout accepts the order\<close>

definition open_segments :: "segment_record option list \<Rightarrow> segment_id set" where
  "open_segments active = {i. i < length active \<and> active ! i \<noteq> None}"

lemma open_segments_update [simp]:
  "i < length active \<Longrightarrow> open_segments (active[i := Some r]) = insert i (open_segments active)"
  "open_segments (active[i := None]) = open_segments active - {i}"
  "open_segments (map (map_option f) active) = open_segments active"
  by (auto simp: open_segments_def nth_list_update split: if_splits) (metis nth_list_update_neq nth_list_update option.distinct(1))+

lemma finite_open [simp]: "finite (open_segments active)"
  by (simp add: open_segments_def)

definition in_bounds :: "output_sections \<Rightarrow> output_record_layout list \<Rightarrow> bool" where
  "in_bounds os layouts \<longleftrightarrow> sections_ok os \<and> length layouts = num_sections os
     \<and> length (output_section_indexes os) = num_sections os"

lemma segment_section_total:
  assumes "in_bounds os layouts" "s < num_sections os"
  shows "\<exists>r. segment_section os layouts s st = Some r
    \<and> (case r of Inl e \<Rightarrow> \<forall>i. e \<noteq> SegmentEndWithoutStart i
       | Inr st' \<Rightarrow> fst st' = fst st \<and> (snd st' = snd st \<or> (\<exists>f. snd st' = map (map_option f) (snd st))))"
proof -
  obtain info where info: "output_info os s = Some info"
    using assms output_info_total by (metis in_bounds_def)
  obtain p pinfo where p: "primary_output_section os s = Some p" "output_info os p = Some pinfo"
    using assms primary_output_section_total by (metis in_bounds_def)
  have "p < length (output_section_indexes os)"
    using p(2) assms(1) by (simp add: in_bounds_def output_info_def num_sections_def)
  then obtain ign where ign: "is_ignored os (layouts ! s) p = Some ign"
    by (cases "file_size (layouts ! s) = 0 \<and> mem_size (layouts ! s) = 0") (auto simp: is_ignored_def nth_opt_def)
  show ?thesis
    using assms info p ign
    by (auto simp: segment_section_def in_bounds_def nth_opt_def validate_section_def split: option.splits)
qed

lemma segment_events_total:
  assumes "replay es S = Some T" "in_bounds os layouts" "set (laid_sections es) \<subseteq> {..<num_sections os}"
    "set (starts es) \<subseteq> {..<length ps}" "length (snd st) = length ps" "open_segments (snd st) = S"
  shows "\<exists>r. segment_events args os ps layouts es st = Some r
    \<and> (case r of Inl e \<Rightarrow> \<forall>i. e \<noteq> SegmentEndWithoutStart i
       | Inr st' \<Rightarrow> length (snd st') = length ps \<and> open_segments (snd st') = T
           \<and> length (fst st') + card T = length (fst st) + card S + length (starts es))"
  using assms
proof (induction es arbitrary: S st)
  case (Cons e es)
  obtain U where U: "replay_event e S = Some U" "replay es U = Some T"
    using Cons.prems(1) by (auto split: bind_splits)
  have rest: "set (laid_sections es) \<subseteq> {..<num_sections os}" "set (starts es) \<subseteq> {..<length ps}"
    using Cons.prems(3,4) by (cases e; auto simp: laid_sections_def map_filter_simps)+
  note IH = Cons.IH [OF U(2) Cons.prems(2) rest]
  show ?case
  proof (cases e)
    case (SegmentStart i)
    then have i: "i < length ps" "i \<notin> S" "U = insert i S" "finite S"
      using Cons.prems U(1) by (auto split: if_splits)
    let ?st = "(fst st, (snd st)[i := Some (segment_start args i (is_stack (ps ! i)))])"
    have "segment_event args os ps layouts e st = Some (Inr ?st)"
      using SegmentStart i Cons.prems(5) by (simp add: nth_opt_def update_opt_def)
    then show ?thesis
      using IH [of ?st] Cons.prems(5,6) SegmentStart i by (auto split: sum.splits)
  next
    case (SegmentEnd i)
    then have i: "i \<in> S" "U = S - {i}" "i < length ps" "finite S"
      using Cons.prems U(1) by (auto simp: open_segments_def split: if_splits)
    then have card: "card S = Suc (card (S - {i}))"
      by (metis card_Suc_Diff1)
    obtain r where r: "snd st ! i = Some r"
      using i(1) Cons.prems(6) by (auto simp: open_segments_def)
    let ?st = "(fst st @ [r], (snd st)[i := None])"
    have "segment_event args os ps layouts e st = Some (Inr ?st)"
      using SegmentEnd i r Cons.prems(5) by (simp add: nth_opt_def)
    then show ?thesis
      using IH [of ?st] Cons.prems(5,6) SegmentEnd i card by (auto split: sum.splits)
  next
    case (Section s)
    have "s < num_sections os"
      using Cons.prems(3) Section by simp
    then obtain r where r: "segment_section os layouts s st = Some r" "case r of Inl e \<Rightarrow> \<forall>i. e \<noteq> SegmentEndWithoutStart i
       | Inr st' \<Rightarrow> fst st' = fst st \<and> (snd st' = snd st \<or> (\<exists>f. snd st' = map (map_option f) (snd st)))"
      using segment_section_total [OF Cons.prems(2), of s st] by blast
    show ?thesis
    proof (cases r)
      case (Inr st')
      then have "length (snd st') = length ps" "open_segments (snd st') = U" "fst st' = fst st" "U = S"
        using r(2) Cons.prems(5,6) U(1) Section by auto
      then show ?thesis
        using IH [of st'] r(1) Inr Section by (auto split: sum.splits)
    qed (use r Section in simp)
  next
    case (SetLocation a)
    then show ?thesis
      using IH [of st] Cons.prems(5,6) U(1) by (auto split: sum.splits)
  qed
qed simp

section \<open>The layout accepts the order\<close>

lemma distinct_laid_out:
  assumes "distinct (laid_sections events)"
  shows "distinct (laid_out events)"
  unfolding laid_out_sections
proof (rule distinct_concat_by [where g = part_output_section_id, OF assms])
  fix s p
  assume "p \<in> set (event_parts (Section s))"
  then show "part_output_section_id p = s"
    using part_in_range_iff [of s p] by simp
qed simp

lemma output_order_facts:
  assumes "output_order k os = Some (events, segs)" "built_ins_primary os"
  shows "replay events {} = Some {}" "starts events = [0..<length segs]"
    "\<not> is_partial_object k \<longrightarrow> stands os segs {} events" "distinct (laid_sections events)"
    "s \<in> set (laid_sections events) \<longleftrightarrow> (\<exists>p. primary_output_section os s = Some p \<and> merge_target os p = Some None
       \<and> (p \<in> set (elf_section_order no_customs) \<or> NUM_BUILT_IN_SECTIONS \<le> p))"
proof -
  obtain custom secondary b where run: "build_order k b = Some (events, segs)" "builder_ok k os b"
    "mset (laid_sections (order_events b)) = mset (concat (map (with_secondaries secondary) (elf_section_order custom)))"
    "distinct (laid_sections (order_events b))"
    "set (elf_section_order custom) = set (elf_section_order no_customs) \<union>
       {s. NUM_BUILT_IN_SECTIONS \<le> s \<and> merge_target os s = Some None}"
    "\<forall>s \<in> set (elf_section_order custom). merge_target os s = Some None
       \<and> (\<forall>t. t \<in> set (with_secondaries secondary s) \<longleftrightarrow> primary_output_section os t = Some s)"
    by (rule output_order_runs [OF assms]) (rule that)
  note ok = build_order_ok [OF run(1,2)]
  show "replay events {} = Some {}" "starts events = [0..<length segs]"
    "\<not> is_partial_object k \<longrightarrow> stands os segs {} events" "distinct (laid_sections events)"
    using ok run(4) by simp_all
  have emitted: "p \<in> set (elf_section_order custom) \<longleftrightarrow> merge_target os p = Some None
      \<and> (p \<in> set (elf_section_order no_customs) \<or> NUM_BUILT_IN_SECTIONS \<le> p)" for p
    unfolding run(5) using assms(2) by (auto simp: built_ins_primary_def list_all_iff)
  have "set (laid_sections events) = (\<Union>s \<in> set (elf_section_order custom). set (with_secondaries secondary s))"
  proof -
    have "set (laid_sections events) = set (concat (map (with_secondaries secondary) (elf_section_order custom)))"
      unfolding ok(4) using run(3) by (metis set_mset_mset)
    then show ?thesis
      by simp
  qed
  then have "s \<in> set (laid_sections events) \<longleftrightarrow> (\<exists>p \<in> set (elf_section_order custom). primary_output_section os s = Some p)"
    using run(6) by auto
  then show "s \<in> set (laid_sections events) \<longleftrightarrow> (\<exists>p. primary_output_section os s = Some p \<and> merge_target os p = Some None
       \<and> (p \<in> set (elf_section_order no_customs) \<or> NUM_BUILT_IN_SECTIONS \<le> p))"
    using emitted by blast
qed

end
