(* ===== verification/Output_Order_Total.thy ===== *)
theory Output_Order_Total
  imports Output_Order_Spec
begin

text \<open>
  The computation of the output order returns: a section is included by at most five segment definitions,
  so a table that emits at most fifty-one sections needs no more than the 256 segments that an identifier
  can name.
\<close>

lemma included_at_most_five: "length (filter (\<lambda>d. should_include_section d info s) PROGRAM_SEGMENT_DEFS) \<le> 5"
proof (cases "opt_built_in_details s")
  case None
  then show ?thesis
    by (simp add: PROGRAM_SEGMENT_DEFS_def should_include_section_def readable_def)
next
  case (Some d)
  then show ?thesis
    by (cases "bi_target_segment_type d"; cases "the (bi_target_segment_type d)")
      (auto simp: PROGRAM_SEGMENT_DEFS_def should_include_section_def readable_def)
qed

lemma start_stop_total:
  assumes "length segs + length (filter (\<lambda>x. should_include_section (fst x) info s) xs) \<le> 256"
  shows "\<exists>stop start active segs'. start_stop info s xs segs = Some (stop, start, active, segs')
    \<and> length segs' \<le> length segs + length (filter (\<lambda>x. should_include_section (fst x) info s) xs)"
  using assms
proof (induction xs arbitrary: segs)
  case (Cons x xs)
  obtain d a where x: "x = (d, a)"
    by (cases x)
  show ?case
  proof (cases "a = None \<and> should_include_section d info s")
    case True
    then obtain stop start active segs' where "start_stop info s xs (segs @ [d]) = Some (stop, start, active, segs')"
        "length segs' \<le> length (segs @ [d]) + length (filter (\<lambda>x. should_include_section (fst x) info s) xs)"
      using Cons.IH [of "segs @ [d]"] Cons.prems x by auto
    then show ?thesis
      using True Cons.prems x by (simp add: add_segment_def)
  next
    case False
    then obtain stop start active segs' where "start_stop info s xs segs = Some (stop, start, active, segs')"
        "length segs' \<le> length segs + length (filter (\<lambda>x. should_include_section (fst x) info s) xs)"
      using Cons.IH [of segs] Cons.prems x by (auto split: if_splits)
    then show ?thesis
      using False x by (cases a; cases "should_include_section d info s") auto
  qed
qed simp

lemma filter_zip_fst: "length ys = length xs \<Longrightarrow> length (filter (\<lambda>x. P (fst x)) (zip xs ys)) = length (filter P xs)"
proof (induction xs arbitrary: ys)
  case (Cons x xs)
  then show ?case
    by (cases ys) auto
qed simp

lemma start_stop_segments_total:
  assumes "active_ok (order_segments b) (active_segment_kinds b)" "length (order_segments b) + 5 \<le> 256"
    and "merge_target os s = Some target" "output_info os s = Some info"
  shows "\<exists>stop start b'. start_stop_segments_for_section k os s b = Some (stop, start, b')
    \<and> length (order_segments b') \<le> length (order_segments b) + 5"
proof -
  have "\<exists>stop start active' segs'. start_stop info s (zip PROGRAM_SEGMENT_DEFS active) (order_segments b)
        = Some (stop, start, active', segs') \<and> length segs' \<le> length (order_segments b) + 5"
    if "length active = length PROGRAM_SEGMENT_DEFS" for active
  proof -
    have "length (filter (\<lambda>x. should_include_section (fst x) info s) (zip PROGRAM_SEGMENT_DEFS active)) \<le> 5"
      using filter_zip_fst [OF that, of "\<lambda>d. should_include_section d info s"] included_at_most_five by simp
    then show ?thesis
      using start_stop_total [of "order_segments b" info s "zip PROGRAM_SEGMENT_DEFS active"] assms(2) by fastforce
  qed
  from this [of "active_segment_kinds b"] this [of "map (\<lambda>_. None) (active_segment_kinds b)"] show ?thesis
    using assms(1,3,4) by (auto simp: start_stop_segments_for_section_def active_ok_def Let_def)
qed

lemma end_rw_load_segment_segments [simp]: "order_segments (end_rw_load_segment b) = order_segments b"
  by (simp add: end_rw_load_segment_def push_events_def split: option.splits)

lemma those_total: "(\<And>x. x \<in> set xs \<Longrightarrow> f x \<noteq> None) \<Longrightarrow> \<exists>ys. those (map f xs) = Some ys"
proof (induction xs)
  case (Cons x xs)
  then obtain y ys where "f x = Some y" "those (map f xs) = Some ys"
    by fastforce
  then show ?case
    by simp
qed simp

lemma add_section_total:
  assumes "builder_ok k os b" "length (order_segments b) + 5 \<le> 256" "merge_target os s = Some target"
    and "s < length secondary" "\<And>t. t \<in> set (secondary ! s) \<Longrightarrow> t < num_sections os"
  shows "\<exists>b'. add_section k os secondary s b = Some b' \<and> length (order_segments b') \<le> length (order_segments b) + 5"
proof -
  obtain info where info: "output_info os s = Some info"
    using assms(3) by (auto simp: merge_target_def split: bind_splits)
  let ?b = "if should_end_current_rw_segment info s b then end_rw_load_segment b else b"
  have "active_ok (order_segments ?b) (active_segment_kinds ?b)"
    using assms(1) end_rw_load_segment_ok [OF assms(1)] by (auto simp: builder_ok_def)
  then obtain stop start b1 where b1: "start_stop_segments_for_section k os s ?b = Some (stop, start, b1)"
      "length (order_segments b1) \<le> length (order_segments b) + 5"
    using start_stop_segments_total [of ?b os s target info k] assms(2,3) info by (auto split: if_splits)
  have "secondary_key os t \<noteq> None" if "t \<in> set (secondary ! s)" for t
    using assms(5) [OF that] by (auto simp: secondary_key_def output_info_def nth_opt_def num_sections_def)
  then obtain keyed where "those (map (secondary_key os) (secondary ! s)) = Some keyed"
    using those_total by blast
  then show ?thesis
    using info b1 assms(4) by (simp add: add_section_def Let_def nth_opt_def push_events_def)
qed

lemma add_sections_total:
  assumes "list_all (emits_primary os secondary) ss" "length secondary = num_sections os" "5 * length ss \<le> 256"
    and "\<And>s t. s \<in> set ss \<Longrightarrow> t \<in> set (secondary ! s) \<Longrightarrow> t < num_sections os"
  shows "\<exists>b. try_fold (add_section k os secondary) ss builder_new = Some b \<and> length (order_segments b) \<le> 5 * length ss"
proof -
  let ?I = "\<lambda>ys b. builder_ok k os b \<and> length (order_segments b) \<le> 5 * length ys"
  have "\<exists>b. try_fold (add_section k os secondary) ss builder_new = Some b \<and> ?I ss b"
  proof (rule try_fold_total)
    show "?I [] builder_new"
      using builder_new_ok by (simp add: builder_new_def)
  next
    fix ys s zs b
    assume ss: "ss = ys @ s # zs" and I: "?I ys b"
    have prim: "emits_primary os secondary s"
      using assms(1) ss by simp
    then have "merge_target os s = Some None" "s < length secondary"
      using assms(2) by (auto simp: emits_primary_def merge_target_def output_info_def num_sections_def split: bind_splits)
    then obtain b' where b': "add_section k os secondary s b = Some b'"
        "length (order_segments b') \<le> length (order_segments b) + 5"
      using add_section_total [of k os b s None secondary] I assms(3,4) ss by auto
    then show "\<exists>b'. add_section k os secondary s b = Some b' \<and> ?I (ys @ [s]) b'"
      using add_section_ok [OF b'(1) _ prim] I by auto
  qed
  then show ?thesis
    by blast
qed

lemma classify_total:
  assumes "sections_ok os"
  shows "\<exists>r. try_fold classify_section (zip [0..<num_sections os] (section_infos os))
    (no_customs, replicate (num_sections os) []) = Some r"
proof -
  let ?z = "zip [0..<num_sections os] (section_infos os)"
  have "\<exists>r. try_fold classify_section ?z (no_customs, replicate (num_sections os) []) = Some r
      \<and> length (snd r) = num_sections os"
  proof (rule try_fold_total)
    fix ys x zs and st :: "custom_section_ids \<times> output_section_id list list"
    assume z: "?z = ys @ x # zs" and I: "length (snd st) = num_sections os"
    have "x \<in> set ?z"
      unfolding z by simp
    then have "snd x \<in> set (section_infos os)"
      by (metis prod.collapse set_zip_rightD)
    then have "section_info_ok os (snd x)"
      using assms by (simp add: sections_ok_def list_all_iff)
    then show "\<exists>st'. classify_section x st = Some st' \<and> length (snd st') = num_sections os"
      using I by (cases x; cases st) (auto simp: classify_section_def section_info_ok_def nth_opt_def update_opt_def
          split: section_kind.splits)
  qed simp
  then show ?thesis
    by blast
qed

text \<open>The primary sections beyond the built-in ones.\<close>

definition custom_primaries :: "output_sections \<Rightarrow> output_section_id list" where
  "custom_primaries os = filter (\<lambda>s. NUM_BUILT_IN_SECTIONS \<le> s \<and> merge_target os s = Some None) [0..<num_sections os]"

lemma length_all_customs:
  assumes "try_fold classify_section (zip [0..<num_sections os] (section_infos os))
      (no_customs, replicate (num_sections os) []) = Some (custom, secondary)"
  shows "length (all_customs custom) = length (custom_primaries os)"
proof -
  note cs = classified [OF assms]
  have "merge_target os s = Some None \<Longrightarrow> s < num_sections os" for s
    by (auto simp: merge_target_def output_info_def num_sections_def split: bind_splits)
  then have "set (all_customs custom) = set (custom_primaries os)"
    using cs(5) by (auto simp: custom_primaries_def)
  moreover have "distinct (custom_primaries os)"
    by (simp add: custom_primaries_def)
  ultimately show ?thesis
    using cs(4) by (metis distinct_card)
qed

lemma length_elf_section_order: "length (elf_section_order custom) = 43 + length (all_customs custom)"
  by (simp add: elf_section_order_def all_customs_def)

lemma output_order_total:
  assumes "sections_ok os" "built_ins_primary os" "5 * (43 + length (custom_primaries os)) \<le> 255"
  shows "\<exists>events segs. output_order k os = Some (events, segs) \<and> length segs \<le> 256"
proof -
  obtain custom secondary where cl: "try_fold classify_section (zip [0..<num_sections os] (section_infos os))
      (no_customs, replicate (num_sections os) []) = Some (custom, secondary)"
    using classify_total [OF assms(1)] by auto
  note cs = classified [OF cl]
  have "set (elf_section_order custom) = set (elf_section_order no_customs) \<union> set (all_customs custom)"
    using elf_section_order_mset [of custom] by (metis set_mset_mset set_mset_union)
  then have prim: "merge_target os s = Some None" if "s \<in> set (elf_section_order custom)" for s
    using that cs(5) assms(2) by (auto simp: built_ins_primary_def list_all_iff)
  have bound: "merge_target os s = Some x \<Longrightarrow> s < num_sections os" for s x
    by (auto simp: merge_target_def output_info_def num_sections_def split: bind_splits)
  have sec: "t < num_sections os" "primary_output_section os t = Some s"
    if "s \<in> set (elf_section_order custom)" "t \<in> set (secondary ! s)" for s t
    using cs(3) [OF bound [OF prim [OF that(1)]], of t] that(2) bound by (auto simp: primary_output_section_def)
  have "list_all (emits_primary os secondary) (elf_section_order custom)"
    using prim sec by (auto simp: list_all_iff emits_primary_def)
  moreover have len: "5 * length (elf_section_order custom) \<le> 255"
    using assms(3) length_all_customs [OF cl] by (simp add: length_elf_section_order)
  ultimately obtain b where b: "try_fold (add_section k os secondary) (elf_section_order custom) builder_new = Some b"
      "length (order_segments b) \<le> 5 * length (elf_section_order custom)"
    using add_sections_total [of os secondary "elf_section_order custom" k] cs(1) sec(1) by auto
  have "\<exists>events segs. build_order k b = Some (events, segs) \<and> length segs \<le> 256"
    using b(2) len by (auto simp: build_order_def Let_def unconditional_segment_defs_def add_unconditional_def
        add_segment_def push_events_def)
  then show ?thesis
    using cl b(1) by (simp add: output_order_def build_output_order_and_program_segments_def)
qed

section \<open>The number of segments\<close>

lemma start_stop_bound:
  "start_stop info s xs segs = Some (stop, start, active, segs') \<Longrightarrow> length segs \<le> 256 \<Longrightarrow> length segs' \<le> 256"
proof (induction xs arbitrary: segs stop start active)
  case (Cons x xs)
  obtain d a where x: "x = (d, a)"
    by (cases x)
  show ?case
    using Cons.prems x Cons.IH [of "segs @ [d]"] by (cases a; cases "should_include_section d info s")
      (auto simp: add_segment_def dest: Cons.IH split: bind_splits if_splits)
qed simp

lemma add_section_bound:
  assumes "add_section k os secondary s b = Some b'" "length (order_segments b) \<le> 256"
  shows "length (order_segments b') \<le> 256"
proof -
  obtain info b0 stop start b1 secondaries keyed where run:
    "output_info os s = Some info"
    "b0 = (if should_end_current_rw_segment info s b then end_rw_load_segment b else b)"
    "start_stop_segments_for_section k os s b0 = Some (stop, start, b1)"
    "nth_opt secondary s = Some secondaries"
    "those (map (secondary_key os) secondaries) = Some keyed"
    "b' = push_events (map SegmentEnd stop @ location_event info @ map SegmentStart start @ [Section s]
       @ map (\<lambda>(_, sid). Section sid) (sort_key fst keyed)) b1"
    by (rule add_section_cases [OF assms(1)]) (rule that)
  have "length (order_segments b0) \<le> 256"
    using run(2) assms(2) by simp
  then have "length (order_segments b1) \<le> 256"
    using start_stop_segments_cases [OF run(3)] start_stop_bound by auto
  then show ?thesis
    using run(6) by (simp add: push_events_def)
qed

lemma output_order_bound:
  assumes "output_order k os = Some (events, segs)"
  shows "length segs \<le> 256"
proof -
  obtain secondary xs b where run: "try_fold (add_section k os secondary) xs builder_new = Some b"
      "build_order k b = Some (events, segs)"
    using assms by (auto simp: output_order_def build_output_order_and_program_segments_def split: bind_splits)
  have "length (order_segments b) \<le> 256"
    by (rule try_fold_partial [OF run(1), where I = "\<lambda>_ b. length (order_segments b) \<le> 256"])
      (auto simp: builder_new_def intro: add_section_bound)
  then show ?thesis
    using run(2) by (auto simp: build_order_def Let_def unconditional_segment_defs_def add_unconditional_def
        add_segment_def push_events_def split: bind_splits if_splits)
qed

end
