(* ===== verification/Section_Table.thy ===== *)
theory Section_Table
  imports Output_Order
begin

text \<open>
  The table of output sections while it grows: \<open>OutputSections\<close> of \<open>output_section_id.rs\<close> with the two hash
  maps that find a custom section by its name and an initialiser section by its priority, and every
  operation that changes the table. The steps of a link are a relation on tables, and the well-formedness
  that the output order and the layout rely on is an invariant of all reachable tables.
\<close>

section \<open>State and operations\<close>

record section_table =
  described :: output_sections
  custom_by_name :: "string \<rightharpoonup> output_section_id"
  init_fini_by_priority :: "output_section_id \<times> u16 \<rightharpoonup> output_section_id"

definition with_base_address :: "u64 \<Rightarrow> section_table" where
  "with_base_address base =
     \<lparr>described = \<lparr>base_address = base, section_infos = built_in_section_infos, output_section_indexes = []\<rparr>,
      custom_by_name = Map.empty, init_fini_by_priority = Map.empty\<rparr>"

definition put_infos :: "section_output_info list \<Rightarrow> section_table \<Rightarrow> section_table" where
  "put_infos infos t = t\<lparr>described := (described t)\<lparr>section_infos := infos\<rparr>\<rparr>"

text \<open>\<open>OutputSectionMap::add_new\<close>; an identifier is the index of the section, cut to 32 bits.\<close>

definition add_new :: "section_output_info \<Rightarrow> section_table \<Rightarrow> output_section_id \<times> section_table" where
  "add_new info t =
     (let infos = section_infos (described t) in (length infos mod 2 ^ 32, put_infos (infos @ [info]) t))"

text \<open>The default attributes have no flags and the type NULL.\<close>

definition named_info :: "string \<Rightarrow> alignment \<Rightarrow> u64 option \<Rightarrow> section_output_info" where
  "named_info nm a loc =
     \<lparr>kind = Primary nm, is_alloc = False, is_no_bits = False, is_tls = False, is_note = False,
      is_riscv_attributes = False, is_write = False, is_exec = False, min_alignment = a, location = loc,
      secondary_order = None\<rparr>"

definition add_named_section :: "string \<Rightarrow> alignment \<Rightarrow> u64 option \<Rightarrow> section_table
    \<Rightarrow> output_section_id \<times> section_table" where
  "add_named_section nm a loc t =
     (case custom_by_name t nm of
        Some s \<Rightarrow> (s, t)
      | None \<Rightarrow>
          (let (s, t) = add_new (named_info nm a loc) t
           in (s, t\<lparr>custom_by_name := (custom_by_name t)(nm \<mapsto> s)\<rparr>)))"

definition add_secondary_section :: "output_section_id \<Rightarrow> alignment \<Rightarrow> u16 option \<Rightarrow> section_table
    \<Rightarrow> (output_section_id \<times> section_table) option" where
  "add_secondary_section primary a ord t = do {
     info \<leftarrow> output_info (described t) primary;
     Some (add_new (info\<lparr>kind := Secondary primary, min_alignment := a, location := None, secondary_order := ord\<rparr>) t)
   }"

definition bump_min_alignment :: "output_section_id \<Rightarrow> alignment \<Rightarrow> section_table \<Rightarrow> section_table option" where
  "bump_min_alignment s a t = do {
     info \<leftarrow> output_info (described t) s;
     Some (put_infos ((section_infos (described t))[s := info\<lparr>min_alignment := max (min_alignment info) a\<rparr>]) t)
   }"

definition get_or_create_init_fini_secondary :: "output_section_id \<Rightarrow> u16 \<Rightarrow> alignment \<Rightarrow> section_table
    \<Rightarrow> (output_section_id \<times> section_table) option" where
  "get_or_create_init_fini_secondary primary priority a t =
     (case init_fini_by_priority t (primary, priority) of
        Some s \<Rightarrow> map_option (Pair s) (bump_min_alignment s a t)
      | None \<Rightarrow> do {
          (s, t) \<leftarrow> add_secondary_section primary a (Some priority) t;
          Some (s, t\<lparr>init_fini_by_priority := (init_fini_by_priority t)((primary, priority) \<mapsto> s)\<rparr>)
        })"

text \<open>\<open>starts\<close> are the addresses that the command line gives to sections by name.\<close>

definition override_start :: "(string \<Rightarrow> u64 option) \<Rightarrow> output_section_id \<times> string \<Rightarrow> section_table \<Rightarrow> section_table option" where
  "override_start starts sn t =
     (case starts (snd sn) of
        None \<Rightarrow> Some t
      | Some address \<Rightarrow> do {
          info \<leftarrow> output_info (described t) (fst sn);
          Some (put_infos ((section_infos (described t))[fst sn := info\<lparr>location := Some address\<rparr>]) t)
        })"

definition apply_section_start_overrides :: "(string \<Rightarrow> u64 option) \<Rightarrow> section_table \<Rightarrow> section_table option" where
  "apply_section_start_overrides starts t =
     try_fold (override_start starts) [(TEXT_ID, ''.text''), (DATA_ID, ''.data''), (BSS_ID, ''.bss'')] t"

record custom_section_details =
  custom_name :: string
  custom_index :: nat
  custom_alignment :: alignment

definition add_custom_section :: "(string \<Rightarrow> u64 option) \<Rightarrow> custom_section_details
    \<Rightarrow> section_table \<times> part_id list \<Rightarrow> (section_table \<times> part_id list) option" where
  "add_custom_section starts c st = do {
     let (s, t) = add_named_section (custom_name c) (custom_alignment c) (starts (custom_name c)) (fst st);
     p \<leftarrow> part_id_with_alignment s (custom_alignment c);
     ids \<leftarrow> update_opt (snd st) (custom_index c) p;
     Some (t, ids)
   }"

definition add_sections :: "(string \<Rightarrow> u64 option) \<Rightarrow> custom_section_details list
    \<Rightarrow> section_table \<times> part_id list \<Rightarrow> (section_table \<times> part_id list) option" where
  "add_sections starts = try_fold (add_custom_section starts)"

text \<open>
  \<open>SectionAttributes::apply\<close>: the flags accumulate, the greater type wins. Types are compared by their
  numbers, which the \<open>object\<close> crate defines: \<open>newer\<close> says that the type of the inputs is the greater one.
\<close>

definition merge_attributes :: "section_output_info \<Rightarrow> bool \<Rightarrow> section_output_info \<Rightarrow> section_output_info" where
  "merge_attributes attrs newer info =
     info\<lparr>is_alloc := is_alloc info \<or> is_alloc attrs, is_write := is_write info \<or> is_write attrs,
       is_exec := is_exec info \<or> is_exec attrs, is_tls := is_tls info \<or> is_tls attrs,
       is_no_bits := is_no_bits (if newer then attrs else info), is_note := is_note (if newer then attrs else info),
       is_riscv_attributes := is_riscv_attributes (if newer then attrs else info)\<rparr>"

definition apply_attributes :: "section_output_info \<Rightarrow> bool \<Rightarrow> output_section_id \<Rightarrow> section_table \<Rightarrow> section_table option" where
  "apply_attributes attrs newer s t = do {
     info \<leftarrow> output_info (described t) s;
     Some (put_infos ((section_infos (described t))[s := merge_attributes attrs newer info]) t)
   }"

definition section_name :: "output_sections \<Rightarrow> output_section_id \<Rightarrow> string option option" where
  "section_name os s = do {
     info \<leftarrow> output_info os s;
     Some (case kind info of Primary nm \<Rightarrow> Some nm | Secondary _ \<Rightarrow> None)
   }"

definition section_id_by_name :: "string \<Rightarrow> section_table \<Rightarrow> output_section_id option" where
  "section_id_by_name nm t =
     (case custom_by_name t nm of
        Some s \<Rightarrow> Some s
      | None \<Rightarrow> List.find (\<lambda>s. section_name (described t) s = Some (Some nm)) [0..<num_sections (described t)])"

section \<open>Steps of a link\<close>

inductive table_step :: "section_table \<Rightarrow> section_table \<Rightarrow> bool" where
  named: "alignment_ok a \<Longrightarrow> add_named_section nm a loc t = (s, t') \<Longrightarrow> table_step t t'"
| secondary: "alignment_ok a \<Longrightarrow> add_secondary_section p a ord t = Some (s, t') \<Longrightarrow> table_step t t'"
| init_fini: "alignment_ok a \<Longrightarrow> get_or_create_init_fini_secondary p priority a t = Some (s, t') \<Longrightarrow> table_step t t'"
| overrides: "apply_section_start_overrides starts t = Some t' \<Longrightarrow> table_step t t'"
| custom: "list_all (\<lambda>c. alignment_ok (custom_alignment c)) cs
    \<Longrightarrow> add_sections starts cs (t, ids) = Some (t', ids') \<Longrightarrow> table_step t t'"
| attributes: "apply_attributes attrs newer s t = Some t' \<Longrightarrow> table_step t t'"

inductive table_reachable :: "u64 \<Rightarrow> section_table \<Rightarrow> bool" for base where
  start: "table_reachable base (with_base_address base)"
| step: "table_reachable base t \<Longrightarrow> table_step t t' \<Longrightarrow> table_reachable base t'"

section \<open>The invariant\<close>

text \<open>
  The built-in sections keep their kind; a custom section is found by its name and only by it, and an
  initialiser section by its primary section and priority.
\<close>

definition table_ok :: "u64 \<Rightarrow> section_table \<Rightarrow> bool" where
  "table_ok base t \<longleftrightarrow> base_address (described t) = base
     \<and> NUM_BUILT_IN_SECTIONS \<le> num_sections (described t)
     \<and> list_all (section_info_ok (described t)) (section_infos (described t))
     \<and> (\<forall>s < NUM_BUILT_IN_SECTIONS. kind (section_infos (described t) ! s) = bi_kind (SECTION_DEFINITIONS ! s))
     \<and> (\<forall>nm s. custom_by_name t nm = Some s \<longleftrightarrow> NUM_BUILT_IN_SECTIONS \<le> s
          \<and> s < num_sections (described t) \<and> kind (section_infos (described t) ! s) = Primary nm)
     \<and> (\<forall>p priority s. init_fini_by_priority t (p, priority) = Some s \<longrightarrow> s < num_sections (described t)
          \<and> kind (section_infos (described t) ! s) = Secondary p
          \<and> secondary_order (section_infos (described t) ! s) = Some priority)"

lemma num_sections_put [simp]: "num_sections (described (put_infos infos t)) = length infos"
  by (simp add: put_infos_def num_sections_def)

lemma put_infos_simps [simp]:
  "section_infos (described (put_infos infos t)) = infos"
  "base_address (described (put_infos infos t)) = base_address (described t)"
  "custom_by_name (put_infos infos t) = custom_by_name t"
  "init_fini_by_priority (put_infos infos t) = init_fini_by_priority t"
  by (simp_all add: put_infos_def)

lemma section_info_ok_mono:
  "section_info_ok os info \<Longrightarrow> num_sections os \<le> num_sections os' \<Longrightarrow> section_info_ok os' info"
  by (auto simp: section_info_ok_def split: section_kind.splits)

text \<open>Identifiers are indexes as long as there are at most \<open>2\<^sup>3\<^sup>2\<close> sections.\<close>

definition bounded_ok :: "u64 \<Rightarrow> section_table \<Rightarrow> bool" where
  "bounded_ok base t \<longleftrightarrow> (num_sections (described t) \<le> 2 ^ 32 \<longrightarrow> table_ok base t)"

lemma bounded_okI: "(num_sections (described t) \<le> 2 ^ 32 \<Longrightarrow> table_ok base t) \<Longrightarrow> bounded_ok base t"
  by (simp add: bounded_ok_def)

lemma table_ok_alignment: "table_ok base t \<Longrightarrow> output_info (described t) s = Some info \<Longrightarrow> alignment_ok (min_alignment info)"
  by (auto simp: table_ok_def list_all_length section_info_ok_def output_info_def)

text \<open>Changing a section without changing what it is.\<close>

lemma table_ok_update:
  assumes "table_ok base t" "output_info (described t) s = Some info" "kind info' = kind info"
    "secondary_order info' = secondary_order info" "alignment_ok (min_alignment info')"
  shows "table_ok base (put_infos ((section_infos (described t))[s := info']) t)"
proof -
  let ?infos = "section_infos (described t)" and ?infos' = "(section_infos (described t))[s := info']"
  let ?os' = "described (put_infos ?infos' t)"
  have s: "s < length ?infos" "?infos ! s = info"
    using assms(2) by (simp_all add: output_info_def)
  have same: "kind (?infos' ! i) = kind (?infos ! i)" "secondary_order (?infos' ! i) = secondary_order (?infos ! i)" for i
    using s assms(3,4) by (cases "i = s"; simp)+
  have "section_info_ok ?os' x" if "x \<in> set ?infos'" for x
  proof -
    have ok: "section_info_ok (described t) y" if "y \<in> set ?infos" for y
      using assms(1) that by (simp add: table_ok_def list_all_iff)
    have "section_info_ok (described t) info'"
      using ok [of info] s assms(3,5) by (auto simp: section_info_ok_def)
    then have "section_info_ok (described t) x"
      using that ok set_update_subset_insert [of ?infos s info'] by auto
    then show ?thesis
      by (rule section_info_ok_mono) (simp add: num_sections_def put_infos_def)
  qed
  then show ?thesis
    using assms(1) same by (simp add: table_ok_def list_all_iff num_sections_def)
qed

text \<open>Adding a section, and finding it.\<close>

lemma table_ok_secondary:
  assumes "table_ok base t" "section_info_ok (described t) info" "kind info = Secondary p"
  shows "table_ok base (put_infos (section_infos (described t) @ [info]) t)"
proof -
  let ?infos = "section_infos (described t)"
  have "section_info_ok (described (put_infos (?infos @ [info]) t)) x" if "section_info_ok (described t) x" for x
    using that by (rule section_info_ok_mono) (simp add: num_sections_def put_infos_def)
  then show ?thesis
    using assms by (auto simp: table_ok_def list_all_iff num_sections_def nth_append less_Suc_eq)
qed

lemma table_ok_named:
  assumes "table_ok base t" "section_info_ok (described t) info" "kind info = Primary nm" "custom_by_name t nm = None"
  shows "table_ok base ((put_infos (section_infos (described t) @ [info]) t)
    \<lparr>custom_by_name := (custom_by_name t)(nm \<mapsto> num_sections (described t))\<rparr>)"
proof -
  let ?infos = "section_infos (described t)"
  have "section_info_ok (described (put_infos (?infos @ [info]) t)) x" if "section_info_ok (described t) x" for x
    using that by (rule section_info_ok_mono) (simp add: num_sections_def put_infos_def)
  then show ?thesis
    using assms by (auto simp: table_ok_def list_all_iff num_sections_def nth_append less_Suc_eq)
      (metis option.distinct(1))
qed

section \<open>Every step keeps it\<close>

lemma add_named_section_grows:
  "add_named_section nm a loc t = (s, t') \<Longrightarrow> num_sections (described t) \<le> num_sections (described t')"
  by (auto simp: add_named_section_def add_new_def Let_def num_sections_def split: option.splits)

lemma add_named_section_ok:
  assumes "add_named_section nm a loc t = (s, t')" "bounded_ok base t" "alignment_ok a"
  shows "bounded_ok base t'"
proof (rule bounded_okI)
  assume le: "num_sections (described t') \<le> 2 ^ 32"
  then have ok: "table_ok base t"
    using add_named_section_grows [OF assms(1)] assms(2) by (simp add: bounded_ok_def)
  show "table_ok base t'"
  proof (cases "custom_by_name t nm")
    case None
    let ?infos = "section_infos (described t)"
    have t': "t' = (put_infos (?infos @ [named_info nm a loc]) t)
        \<lparr>custom_by_name := (custom_by_name t)(nm \<mapsto> length ?infos mod 2 ^ 32)\<rparr>"
      using assms(1) None by (auto simp: add_named_section_def add_new_def Let_def)
    then have "length ?infos mod 2 ^ 32 = num_sections (described t)"
      using le by (simp add: num_sections_def)
    moreover have "section_info_ok (described t) (named_info nm a loc)" "kind (named_info nm a loc) = Primary nm"
      using assms(3) by (simp_all add: section_info_ok_def named_info_def)
    ultimately show ?thesis
      using t' table_ok_named [OF ok _ _ None] by simp
  qed (use ok assms(1) in \<open>simp add: add_named_section_def\<close>)
qed

lemma add_secondary_section_ok:
  assumes "add_secondary_section p a ord t = Some (s, t')" "bounded_ok base t" "alignment_ok a"
  shows "bounded_ok base t' \<and> init_fini_by_priority t' = init_fini_by_priority t \<and> custom_by_name t' = custom_by_name t
    \<and> (num_sections (described t') \<le> 2 ^ 32 \<longrightarrow> s < num_sections (described t')
      \<and> kind (section_infos (described t') ! s) = Secondary p \<and> secondary_order (section_infos (described t') ! s) = ord)"
proof -
  obtain info where info: "output_info (described t) p = Some info"
    using assms(1) by (auto simp: add_secondary_section_def split: bind_splits)
  let ?infos = "section_infos (described t)"
  let ?info = "info\<lparr>kind := Secondary p, min_alignment := a, location := None, secondary_order := ord\<rparr>"
  have t': "t' = put_infos (?infos @ [?info]) t" "s = length ?infos mod 2 ^ 32"
    using assms(1) info by (auto simp: add_secondary_section_def add_new_def Let_def)
  have "section_info_ok (described t) ?info"
    using info assms(3) by (simp add: section_info_ok_def output_info_def num_sections_def)
  then have "bounded_ok base t'"
    using assms(2) t'(1) by (auto intro!: bounded_okI table_ok_secondary simp: bounded_ok_def num_sections_def)
  then show ?thesis
    using t' by (simp add: num_sections_def nth_append)
qed

lemma bump_min_alignment_ok:
  assumes "bump_min_alignment s a t = Some t'" "bounded_ok base t" "alignment_ok a"
  shows "bounded_ok base t'"
proof -
  obtain info where info: "output_info (described t) s = Some info"
      "t' = put_infos ((section_infos (described t))[s := info\<lparr>min_alignment := max (min_alignment info) a\<rparr>]) t"
    using assms(1) by (auto simp: bump_min_alignment_def split: bind_splits)
  then show ?thesis
    using assms(2,3) info
    by (auto intro!: bounded_okI table_ok_update max_alignment_ok intro: table_ok_alignment simp: bounded_ok_def num_sections_def)
qed

lemma get_or_create_init_fini_secondary_ok:
  assumes "get_or_create_init_fini_secondary p priority a t = Some (s, t')" "bounded_ok base t" "alignment_ok a"
  shows "bounded_ok base t'"
proof (cases "init_fini_by_priority t (p, priority)")
  case None
  then obtain t1 where t1: "add_secondary_section p a (Some priority) t = Some (s, t1)"
      "t' = t1\<lparr>init_fini_by_priority := (init_fini_by_priority t1)((p, priority) \<mapsto> s)\<rparr>"
    using assms(1) by (auto simp: get_or_create_init_fini_secondary_def split: bind_splits)
  then show ?thesis
    using add_secondary_section_ok [OF t1(1) assms(2,3)] by (auto simp: bounded_ok_def table_ok_def list_all_iff)
next
  case (Some s')
  then show ?thesis
    using assms bump_min_alignment_ok by (auto simp: get_or_create_init_fini_secondary_def)
qed

lemma override_start_ok:
  assumes "override_start starts sn t = Some t'" "bounded_ok base t"
  shows "bounded_ok base t'"
proof (cases "starts (snd sn)")
  case (Some address)
  then obtain info where info: "output_info (described t) (fst sn) = Some info"
      "t' = put_infos ((section_infos (described t))[fst sn := info\<lparr>location := Some address\<rparr>]) t"
    using assms(1) by (auto simp: override_start_def split: bind_splits)
  then show ?thesis
    using assms(2) info by (auto intro!: bounded_okI table_ok_update intro: table_ok_alignment simp: bounded_ok_def num_sections_def)
qed (use assms in \<open>simp add: override_start_def\<close>)

lemma apply_attributes_ok:
  assumes "apply_attributes attrs newer s t = Some t'" "bounded_ok base t"
  shows "bounded_ok base t'"
proof -
  obtain info where info: "output_info (described t) s = Some info"
      "t' = put_infos ((section_infos (described t))[s := merge_attributes attrs newer info]) t"
    using assms(1) by (auto simp: apply_attributes_def split: bind_splits)
  then show ?thesis
    using assms(2) by (auto intro!: bounded_okI table_ok_update intro: table_ok_alignment
        simp: bounded_ok_def num_sections_def merge_attributes_def)
qed

lemma apply_section_start_overrides_ok:
  assumes "apply_section_start_overrides starts t = Some t'" "bounded_ok base t"
  shows "bounded_ok base t'"
  by (rule try_fold_partial [OF assms(1) [unfolded apply_section_start_overrides_def], where I = "\<lambda>_. bounded_ok base"])
    (use assms(2) override_start_ok in auto)

lemma table_add_sections_ok:
  assumes "add_sections starts cs (t, ids) = Some (t', ids')" "bounded_ok base t"
    "list_all (\<lambda>c. alignment_ok (custom_alignment c)) cs"
  shows "bounded_ok base t'"
proof -
  have "bounded_ok base (fst (t', ids'))"
  proof (rule try_fold_partial [OF assms(1) [unfolded add_sections_def], where I = "\<lambda>_ st. bounded_ok base (fst st)"])
    fix ys c zs st st'
    assume "cs = ys @ c # zs" "bounded_ok base (fst st)" "add_custom_section starts c st = Some st'"
    then show "bounded_ok base (fst st')"
      using assms(3) add_named_section_ok
      by (auto simp: add_custom_section_def Let_def split: prod.splits bind_splits)
  qed (use assms(2) in simp)
  then show ?thesis
    by simp
qed

lemma table_step_ok: "table_step t t' \<Longrightarrow> bounded_ok base t \<Longrightarrow> bounded_ok base t'"
  by (induction rule: table_step.induct)
    (auto intro: add_named_section_ok get_or_create_init_fini_secondary_ok apply_attributes_ok
      apply_section_start_overrides_ok table_add_sections_ok dest: add_secondary_section_ok)

text \<open>The built-in table.\<close>

lemma built_in_details_ok:
  "list_all (\<lambda>d. alignment_ok (bi_min_alignment d)
     \<and> (case bi_kind d of Primary _ \<Rightarrow> True | Secondary s \<Rightarrow> s < 67)) SECTION_DEFINITIONS"
  by code_simp

lemma built_in_order_primary:
  "list_all (\<lambda>s. case bi_kind (SECTION_DEFINITIONS ! s) of Primary _ \<Rightarrow> True | Secondary _ \<Rightarrow> False)
     (elf_section_order no_customs)"
  by code_simp

lemma NUM_BUILT_IN_SECTIONS_eq: "NUM_BUILT_IN_SECTIONS = 67"
  by (simp add: NUM_BUILT_IN_SECTIONS_def NUM_BUILT_IN_REGULAR_SECTIONS_def NUM_SINGLE_PART_SECTIONS_def)

lemma with_base_address_ok: "table_ok base (with_base_address base)"
proof -
  have "section_info_ok os (info_of_details d)" if "d \<in> set SECTION_DEFINITIONS" "num_sections os = 67" for d os
    using built_in_details_ok that
    by (auto simp: list_all_iff section_info_ok_def info_of_details_def split: section_kind.splits)
  then show ?thesis
    by (simp add: table_ok_def with_base_address_def num_sections_def built_in_section_infos_def
        NUM_BUILT_IN_SECTIONS_eq list_all_iff info_of_details_def)
qed

lemma reachable_table_ok:
  assumes "table_reachable base t" "num_sections (described t) \<le> 2 ^ 32"
  shows "table_ok base t"
proof -
  from assms(1) have "bounded_ok base t"
  proof induction
    case start
    then show ?case
      by (simp add: bounded_ok_def with_base_address_ok)
  next
    case (step t t')
    then show ?case
      by (blast intro: table_step_ok)
  qed
  then show ?thesis
    using assms(2) by (simp add: bounded_ok_def)
qed

lemma reachable_sections_ok:
  assumes "table_reachable base t" "num_sections (described t) \<le> 2 ^ 32"
  shows "sections_ok (described t)" and "base_address (described t) = base"
    and "s \<in> set (elf_section_order no_customs) \<Longrightarrow> merge_target (described t) s = Some None"
proof -
  note ok = reachable_table_ok [OF assms]
  show "sections_ok (described t)" "base_address (described t) = base"
    using ok by (simp_all add: table_ok_def sections_ok_def NUM_BUILT_IN_SECTIONS_def)
  show "merge_target (described t) s = Some None" if s: "s \<in> set (elf_section_order no_customs)"
  proof -
    have "s < NUM_BUILT_IN_SECTIONS"
      using s by (auto simp: elf_section_order_def no_customs_def section_ids NUM_BUILT_IN_SECTIONS_def
          NUM_BUILT_IN_REGULAR_SECTIONS_def)
    then have "kind (section_infos (described t) ! s) = bi_kind (SECTION_DEFINITIONS ! s)"
        "s < length (section_infos (described t))"
      using ok by (auto simp: table_ok_def num_sections_def)
    then show ?thesis
      using built_in_order_primary s
      by (auto simp: list_all_iff merge_target_def output_info_def nth_opt_def split: section_kind.splits)
  qed
qed

section \<open>Properties\<close>

lemma lookup_ok:
  assumes "table_ok base t" "section_id_by_name nm t = Some s"
  shows "section_name (described t) s = Some (Some nm)"
proof (cases "custom_by_name t nm")
  case None
  then show ?thesis
    using assms(2) by (auto simp: section_id_by_name_def find_Some_iff)
next
  case (Some s')
  then show ?thesis
    using assms by (simp add: section_id_by_name_def table_ok_def section_name_def output_info_def
        nth_opt_def num_sections_def)
qed

lemma find_snoc_not: "\<not> P x \<Longrightarrow> List.find P (xs @ [x]) = List.find P xs"
  by (induction xs) simp_all

text \<open>C14: in every table that a link can reach, adding a named section gives a section of that name, which the
  look-up by name finds from then on; adding it again changes nothing, and no other name is looked up
  differently.\<close>

theorem named_section_is_found:
  assumes "table_reachable base t" "alignment_ok a" "add_named_section nm a loc t = (s, t')"
    "num_sections (described t') \<le> 2 ^ 32"
  shows "section_id_by_name nm t' = Some s \<and> section_name (described t') s = Some (Some nm)
    \<and> add_named_section nm a' loc' t' = (s, t')
    \<and> (\<forall>nm'. nm' \<noteq> nm \<longrightarrow> section_id_by_name nm' t' = section_id_by_name nm' t)"
proof -
  have r': "table_reachable base t'"
    using assms(1) table_step.named [OF assms(2,3)] by (rule table_reachable.step)
  have found: "custom_by_name t' nm = Some s"
    using assms(3) by (auto simp: add_named_section_def Let_def split: option.splits prod.splits)
  then have "section_name (described t') s = Some (Some nm)" "section_id_by_name nm t' = Some s"
    using lookup_ok [OF reachable_table_ok [OF r' assms(4)]] by (simp_all add: section_id_by_name_def)
  moreover have "add_named_section nm a' loc' t' = (s, t')"
    using found by (simp add: add_named_section_def)
  moreover have "section_id_by_name nm' t' = section_id_by_name nm' t" if "nm' \<noteq> nm" for nm'
  proof (cases "custom_by_name t nm")
    case None
    let ?infos = "section_infos (described t)"
    have t': "custom_by_name t' = (custom_by_name t)(nm \<mapsto> s)" "section_infos (described t') = ?infos @ [named_info nm a loc]"
      using assms(3) None by (auto simp: add_named_section_def add_new_def Let_def)
    have "section_name (described t') i = section_name (described t) i" if "i < length ?infos" for i
      using t'(2) that by (simp add: section_name_def output_info_def nth_opt_def nth_append)
    moreover have "section_name (described t') (length ?infos) \<noteq> Some (Some nm')"
      using t'(2) \<open>nm' \<noteq> nm\<close> by (simp add: section_name_def output_info_def nth_opt_def named_info_def)
    ultimately have "List.find (\<lambda>s. section_name (described t') s = Some (Some nm')) [0..<Suc (length ?infos)]
        = List.find (\<lambda>s. section_name (described t) s = Some (Some nm')) [0..<length ?infos]"
      by (auto simp: find_snoc_not intro!: find_cong)
    then show ?thesis
      using t' that by (simp add: section_id_by_name_def num_sections_def split: option.splits)
  qed (use assms(3) in \<open>simp add: add_named_section_def\<close>)
  ultimately show ?thesis
    by blast
qed

theorem named_section_is_found_witness:
  "section_id_by_name ''.mine'' (snd (add_named_section ''.mine'' (Alignment 3) None (with_base_address 0x400000))) = Some 67"
proof -
  let ?t = "with_base_address 0x400000"
  let ?r = "add_named_section ''.mine'' (Alignment 3) None ?t"
  have "fst ?r = 67" "num_sections (described (snd ?r)) = 68"
    by (simp_all add: add_named_section_def add_new_def with_base_address_def built_in_section_infos_def Let_def
        num_sections_def)
  moreover have "alignment_ok (Alignment 3)"
    by (simp add: alignment_ok_exponent)
  moreover have "add_named_section ''.mine'' (Alignment 3) None ?t = (fst ?r, snd ?r)"
    by simp
  ultimately show ?thesis
    using named_section_is_found [OF table_reachable.start, of "Alignment 3"] by fastforce
qed

end
