(* ===== verification/Linked_Output.thy ===== *)
theory Linked_Output
  imports Output_Order_Total Section_Table
begin

text \<open>
  The components together: whatever table of output sections a link builds, the order computed from it is
  accepted by the layout of the parts and of the segments.
\<close>

section \<open>Orders of reachable tables\<close>

lemma reachable_built_ins_primary:
  assumes "table_reachable base t" "num_sections (described t) \<le> 2 ^ 32"
  shows "built_ins_primary (described t)"
  using reachable_sections_ok(3) [OF assms] by (simp add: built_ins_primary_def list_all_iff)

lemmas reachable_order = output_order_facts [OF _ reachable_built_ins_primary]

lemma merge_target_bound: "merge_target os s = Some x \<Longrightarrow> s < num_sections os"
  by (auto simp: merge_target_def output_info_def num_sections_def split: bind_splits)

lemma primary_bound: "primary_output_section os s = Some p \<Longrightarrow> s < num_sections os"
  by (auto simp: primary_output_section_def dest: merge_target_bound split: bind_splits)

lemma in_starts: "SegmentStart i \<in> set events \<Longrightarrow> i \<in> set (starts events)"
  by (induction events rule: starts.induct) auto

lemma in_laid_sections: "Section s \<in> set events \<longleftrightarrow> s \<in> set (laid_sections events)"
proof (induction events)
  case (Cons e events)
  then show ?case
    by (cases e) (simp_all add: laid_sections_def map_filter_simps)
qed simp

section \<open>Locations\<close>

text \<open>The order sets no location but those of the sections.\<close>

lemma add_section_locations:
  assumes "add_section k os secondary s b = Some b'" "SetLocation a \<in> set (order_events b')"
  shows "SetLocation a \<in> set (order_events b) \<or> (\<exists>info \<in> set (section_infos os). location info = Some a)"
proof -
  obtain info b0 stop start b1 secondaries keyed where run:
    "output_info os s = Some info"
    "b0 = (if should_end_current_rw_segment info s b then end_rw_load_segment b else b)"
    "start_stop_segments_for_section k os s b0 = Some (stop, start, b1)"
    "nth_opt secondary s = Some secondaries"
    "those (map (secondary_key os) secondaries) = Some keyed"
    "b' = push_events (map SegmentEnd stop @ location_event info @ map SegmentStart start @ [Section s]
       @ map (\<lambda>(_, sid). Section sid) (sort_key fst keyed)) b1"
    by (rule add_section_cases [OF assms(1)]) (rule that)
  have "order_events b1 = order_events b0"
    using start_stop_segments_cases [OF run(3)] by auto
  moreover have "SetLocation a \<in> set (order_events b)" if "SetLocation a \<in> set (order_events b0)"
    using that run(2) by (auto simp: end_rw_load_segment_def push_events_def split: if_splits option.splits)
  moreover have "info \<in> set (section_infos os)"
    using run(1) by (auto simp: output_info_def)
  ultimately show ?thesis
    using assms(2) run(6) by (auto simp: push_events_def location_event_def split: option.splits if_splits)
qed

lemma output_order_locations:
  assumes "output_order k os = Some (events, segs)" "SetLocation a \<in> set events"
  shows "\<exists>info \<in> set (section_infos os). location info = Some a"
proof -
  obtain secondary xs b where run: "try_fold (add_section k os secondary) xs builder_new = Some b"
      "build_order k b = Some (events, segs)"
    using assms(1) by (auto simp: output_order_def build_output_order_and_program_segments_def split: bind_splits)
  have "SetLocation a \<in> set (order_events b) \<longrightarrow> (\<exists>info \<in> set (section_infos os). location info = Some a)"
    by (rule try_fold_partial [OF run(1), where I = "\<lambda>_ b. SetLocation a \<in> set (order_events b)
        \<longrightarrow> (\<exists>info \<in> set (section_infos os). location info = Some a)"])
      (auto simp: builder_new_def dest: add_section_locations)
  moreover have "SetLocation a \<in> set (order_events b)"
    using run(2) assms(2) by (auto simp: build_order_def Let_def unconditional_segment_defs_def add_unconditional_def
        push_events_def split: bind_splits if_splits)
  ultimately show ?thesis
    by blast
qed

section \<open>The layout accepts the order\<close>

text \<open>
  The room that the layout needs: the addresses that the script asks for, the sizes of the parts, and for
  each part and each segment at most one alignment gap.
\<close>

definition layout_fits :: "layout_args \<Rightarrow> output_sections \<Rightarrow> u64 part_map \<Rightarrow> nat \<Rightarrow> bool" where
  "layout_fits args os sizes M \<longleftrightarrow> length sizes = num_parts os
     \<and> alignment_ok (loadable_segment_alignment args) \<and> unat (base_address os) \<le> M
     \<and> list_all (\<lambda>info. case location info of None \<Rightarrow> True | Some a \<Rightarrow> unat a \<le> M) (section_infos os)
     \<and> M + sum_list (map unat sizes) + (num_parts os + 256) * 2 ^ 17 + 2 ^ 18 \<le> 2 ^ 63"

lemma layout_cost_split:
  "layout_cost sizes events = parts_cost sizes (laid_out events) + length (starts events) * 2 ^ 17"
proof (induction events)
  case (Cons e events)
  then show ?case
    by (cases e) (simp_all add: layout_cost_def parts_cost_def laid_out_def)
qed (simp add: layout_cost_def parts_cost_def laid_out_def)

lemma parts_cost_bound:
  assumes "distinct ps" "set ps \<subseteq> {..<length sizes}"
  shows "parts_cost sizes ps \<le> sum_list (map unat sizes) + length sizes * 2 ^ 17"
proof -
  have "parts_cost sizes ps = (\<Sum>p \<in> set ps. unat (sizes ! p) + 2 ^ 17)"
    by (simp add: parts_cost_def sum_list_distinct_conv_sum_set assms(1))
  also have "\<dots> \<le> (\<Sum>p < length sizes. unat (sizes ! p) + 2 ^ 17)"
    using assms(2) by (intro sum_mono2) auto
  also have "\<dots> = sum_list (map unat sizes) + length sizes * 2 ^ 17"
    by (simp add: sum.distrib sum_list_sum_nth atLeast0LessThan)
  finally show ?thesis .
qed

lemma order_cost:
  assumes "distinct (laid_sections events)" "set (laid_sections events) \<subseteq> {..<num_sections os}"
    and "starts events = [0..<length segs]" "length segs \<le> 256" "length sizes = num_parts os"
  shows "layout_cost sizes events \<le> sum_list (map unat sizes) + (num_parts os + 256) * 2 ^ 17"
proof -
  have "set (laid_out events) \<subseteq> {..<length sizes}"
    using assms(2,5) part_range_in_bounds [of _ os] unfolding laid_out_sections by fastforce
  then have "parts_cost sizes (laid_out events) \<le> sum_list (map unat sizes) + num_parts os * 2 ^ 17"
    using parts_cost_bound [OF distinct_laid_out [OF assms(1)], of sizes] assms(5) by simp
  moreover have "length (starts events) * 2 ^ 17 \<le> 256 * 2 ^ (17 :: nat)"
    using assms(3,4) by simp
  ultimately show ?thesis
    unfolding layout_cost_split by (simp add: algebra_simps)
qed

lemma order_gives_layout_input:
  assumes "table_reachable base t" "num_sections (described t) \<le> 2 ^ 32"
    and "output_order k (described t) = Some (events, segs)" "layout_fits args (described t) sizes M"
  shows "layout_input_ok args (described t) (map (layout_segment raw) segs) sizes events M"
proof -
  let ?os = "described t" and ?ps = "map (layout_segment raw) segs"
  note order = reachable_order [OF assms(3,1,2)]
  have "event_ok ?os ?ps M e" if e: "e \<in> set events" for e
  proof (cases e)
    case (SetLocation a)
    then show ?thesis
      using output_order_locations [OF assms(3)] e assms(4) by (fastforce simp: layout_fits_def list_all_iff)
  next
    case (Section s)
    then have "s \<in> set (laid_sections events)"
      using e by (simp add: in_laid_sections)
    then show ?thesis
      using Section order(5) [of s] by (auto dest: primary_bound)
  next
    case (SegmentStart i)
    then show ?thesis
      using in_starts [of i events] e order(2) by simp
  qed simp
  moreover have "set (laid_sections events) \<subseteq> {..<num_sections ?os}"
    using order(5) by (auto dest: primary_bound)
  then have "layout_cost sizes events \<le> sum_list (map unat sizes) + (num_parts ?os + 256) * 2 ^ 17"
    using order(2,4) output_order_bound [OF assms(3)] assms(4) by (intro order_cost) (auto simp: layout_fits_def)
  ultimately show ?thesis
    using assms(4) reachable_sections_ok(1) [OF assms(1,2)] distinct_laid_out [OF order(4)]
    by (auto simp: layout_input_ok_def layout_fits_def list_all_iff)
qed

section \<open>A small link\<close>

text \<open>A custom section beside the built-in ones, linked into a static executable.\<close>

definition demo_table :: section_table where
  "demo_table = snd (add_named_section ''.mine'' (Alignment 3) None (with_base_address 0x400000))"

definition demo_kind :: output_kind where
  "demo_kind = StaticExecutable NonRelocatable"

lemma demo_table_infos:
  "section_infos (described demo_table) = built_in_section_infos @ [named_info ''.mine'' (Alignment 3) None]"
  "base_address (described demo_table) = 0x400000"
  by (simp_all add: demo_table_def add_named_section_def add_new_def with_base_address_def Let_def)

lemma demo_table_counts:
  "num_sections (described demo_table) = 68" "num_parts (described demo_table) = 404"
  by (simp_all add: num_parts_def num_sections_def demo_table_infos built_in_section_infos_def NUM_SINGLE_PART_SECTIONS_def)

lemma demo_table_size: "num_sections (described demo_table) \<le> 2 ^ 32"
  by (simp add: demo_table_counts)

lemma demo_table_reachable: "table_reachable 0x400000 demo_table"
  unfolding demo_table_def
proof (rule table_reachable.step [OF table_reachable.start table_step.named])
  show "alignment_ok (Alignment 3)"
    by (simp add: alignment_ok_exponent)
qed (rule prod.collapse [symmetric])

lemma demo_table_customs: "length (custom_primaries (described demo_table)) \<le> 1"
proof -
  have "[0..<68] = [0..<67] @ [67]"
    by (simp add: upt_Suc_append [of 0 67, simplified])
  then have "custom_primaries (described demo_table) = filter (\<lambda>s. 67 \<le> s \<and> merge_target (described demo_table) s = Some None) [67]"
    by (simp add: custom_primaries_def demo_table_counts NUM_BUILT_IN_SECTIONS_eq filter_empty_conv)
  then show ?thesis
    by simp
qed

lemma demo_runs: obtains events segs where "output_order demo_kind (described demo_table) = Some (events, segs)"
  using output_order_total [OF reachable_sections_ok(1) [OF demo_table_reachable demo_table_size]
      reachable_built_ins_primary [OF demo_table_reachable demo_table_size]] demo_table_customs by fastforce

lemma demo_table_fits: "layout_fits \<lparr>loadable_segment_alignment = Alignment 12, should_output_partial_object = False,
    stack_size_override = None\<rparr> (described demo_table) (replicate 404 8) 0x400000"
proof -
  have "list_all (\<lambda>info. location info = None) (section_infos (described demo_table))"
    by (simp add: demo_table_infos built_in_section_infos_def list_all_iff info_of_details_def named_info_def)
  then show ?thesis
    by (simp add: layout_fits_def demo_table_counts demo_table_infos alignment_ok_exponent sum_list_replicate list_all_iff)
qed

section \<open>Properties\<close>

text \<open>C11: every program segment is started once and ended once, and in an output that is not partial a
  section lies between the start and the end of exactly the segments whose definition includes its
  primary section.\<close>

theorem segments_bracket_their_sections:
  assumes "table_reachable base t" "num_sections (described t) \<le> 2 ^ 32"
    and "output_order k (described t) = Some (events, segs)"
  shows "replay events {} = Some {} \<and> starts events = [0..<length segs]
    \<and> (\<not> is_partial_object k \<longrightarrow> (\<forall>es s fs S. events = es @ Section s # fs \<longrightarrow> replay es {} = Some S
        \<longrightarrow> in_its_segments (described t) segs S s))"
  using reachable_order [OF assms(3,1,2)] stands_at by blast

theorem segments_bracket_their_sections_witness:
  "\<exists>events segs. output_order demo_kind (described demo_table) = Some (events, segs)
    \<and> replay events {} = Some {} \<and> starts events = [0..<length segs]"
proof -
  obtain events segs where run: "output_order demo_kind (described demo_table) = Some (events, segs)"
    by (rule demo_runs)
  then show ?thesis
    using segments_bracket_their_sections [OF demo_table_reachable demo_table_size run] by blast
qed

text \<open>C12: the order contains no section twice; it contains every custom section, every built-in section that
  the platform emits, and the secondary sections of these, and no others.\<close>

theorem every_section_ordered_once:
  assumes "table_reachable base t" "num_sections (described t) \<le> 2 ^ 32"
    and "output_order k (described t) = Some (events, segs)"
  shows "distinct (laid_sections events)
    \<and> (\<forall>s. s \<in> set (laid_sections events) \<longleftrightarrow> (\<exists>p. primary_output_section (described t) s = Some p
        \<and> merge_target (described t) p = Some None
        \<and> (p \<in> set (elf_section_order no_customs) \<or> NUM_BUILT_IN_SECTIONS \<le> p)))"
  using reachable_order(4,5) [OF assms(3,1,2)] by blast

theorem every_section_ordered_once_witness:
  "\<exists>events segs. output_order demo_kind (described demo_table) = Some (events, segs)
    \<and> distinct (laid_sections events) \<and> 67 \<in> set (laid_sections events)"
proof -
  obtain events segs where run: "output_order demo_kind (described demo_table) = Some (events, segs)"
    by (rule demo_runs)
  have "output_info (described demo_table) 67 = Some (named_info ''.mine'' (Alignment 3) None)"
    by (simp add: output_info_def demo_table_infos built_in_section_infos_def nth_append)
  then have "merge_target (described demo_table) 67 = Some None" "primary_output_section (described demo_table) 67 = Some 67"
    by (simp_all add: merge_target_def primary_output_section_def named_info_def)
  then have "67 \<in> set (laid_sections events)" "distinct (laid_sections events)"
    using every_section_ordered_once [OF demo_table_reachable demo_table_size run] by (auto simp: NUM_BUILT_IN_SECTIONS_eq)
  with run show ?thesis
    by blast
qed

text \<open>The segment layout runs to its end on the computed order: it does not panic, its assertion that all
  segments are complete holds, and it never reports a segment that ends before it starts.\<close>

theorem segment_layout_accepts_order:
  assumes "table_reachable base t" "num_sections (described t) \<le> 2 ^ 32"
    and "output_order k (described t) = Some (events, segs)"
    and "length layouts = num_sections (described t)" "length indexes = num_sections (described t)"
    and "set active \<subseteq> {..<length segs}"
  defines "os \<equiv> (described t)\<lparr>output_section_indexes := indexes\<rparr>"
  shows "\<exists>r. compute_segment_layout args os (map (layout_segment raw) segs) layouts events active = Some r
    \<and> (\<forall>i. r \<noteq> Inl (SegmentEndWithoutStart i))"
proof (cases "should_output_partial_object args")
  case False
  let ?ps = "map (layout_segment raw) segs"
  note order = reachable_order [OF assms(3,1,2)]
  have n: "num_sections os = num_sections (described t)"
    by (simp add: os_def num_sections_def)
  have info: "section_info_ok os = section_info_ok (described t)"
    by (intro ext) (simp add: section_info_ok_def n split: section_kind.split)
  have bounds: "in_bounds os layouts"
    using reachable_sections_ok(1) [OF assms(1,2)] assms(4,5) n info
    by (simp add: in_bounds_def sections_ok_def os_def)
  let ?st = "([], replicate (length ?ps) None) :: segment_state"
  have "set (laid_sections events) \<subseteq> {..<num_sections os}" "set (starts events) \<subseteq> {..<length ?ps}"
      "length (snd ?st) = length ?ps" "open_segments (snd ?st) = {}"
    using order(2,5) n by (auto simp: open_segments_def dest: primary_bound)
  then obtain r where r: "segment_events args os ?ps layouts events ?st = Some r"
      "case r of Inl e \<Rightarrow> \<forall>i. e \<noteq> SegmentEndWithoutStart i
       | Inr st' \<Rightarrow> length (snd st') = length ?ps \<and> open_segments (snd st') = {}
           \<and> length (fst st') + card ({} :: segment_id set) = length (fst ?st) + card ({} :: segment_id set)
               + length (starts events)"
    using segment_events_total [OF order(1) bounds, of ?ps ?st args] by blast
  show ?thesis
  proof (cases r)
    case (Inr st)
    then obtain complete open' where st: "r = Inr (complete, open')" "length complete = length segs"
      using r(2) order(2) by (cases st) auto
    let ?f = "\<lambda>i. map_option (\<lambda>r. (i, segment_sizes r)) (nth_opt (sort_key seg_id complete) i)"
    have "those (map ?f active) \<noteq> None" if "set active \<subseteq> {..<length segs}" for active
      using that st(2) by (induction active) (auto simp: nth_opt_def)
    then obtain segments where "those (map ?f active) = Some segments"
      using assms(6) by blast
    then show ?thesis
      using False r(1) st by (simp add: compute_segment_layout_def Let_def)
  qed (use False r in \<open>auto simp: compute_segment_layout_def\<close>)
qed (simp add: compute_segment_layout_def)

theorem segment_layout_accepts_order_witness:
  "\<exists>events segs r. output_order demo_kind (described demo_table) = Some (events, segs)
    \<and> compute_segment_layout demo_args ((described demo_table)\<lparr>output_section_indexes := replicate 68 (Some 0)\<rparr>)
        (map (layout_segment (\<lambda>_. 0)) segs) (replicate 68 default_record) events [] = Some r"
proof -
  obtain events segs where run: "output_order demo_kind (described demo_table) = Some (events, segs)"
    by (rule demo_runs)
  then show ?thesis
    using segment_layout_accepts_order [OF demo_table_reachable demo_table_size run,
        of "replicate 68 default_record" "replicate 68 (Some 0)" "[]" demo_args "\<lambda>_. 0"]
    by (auto simp: demo_table_counts)
qed

text \<open>C10: the sections of the output do not overlap in the file. For the order computed from any reachable
  table, if the sizes leave room, the parts are laid out, every section is the hull of its parts, and the
  sections follow each other in the order without overlap.\<close>

theorem linked_sections_disjoint:
  assumes "table_reachable base t" "num_sections (described t) \<le> 2 ^ 32"
    and "output_order k (described t) = Some (events, segs)" "layout_fits args (described t) sizes M"
  shows "\<exists>rs ss. layout_section_parts args (described t) (map (layout_segment raw) segs) sizes events = Some rs
    \<and> layout_sections (described t) rs = Some ss
    \<and> sorted_wrt (\<lambda>s t. snd (in_file (ss ! s)) \<le> fst (in_file (ss ! t))) (laid_sections events)
    \<and> list_all (\<lambda>s. hull_of (in_file (ss ! s)) ((\<lambda>p. in_file (rs ! p)) ` set (event_parts (Section s))))
        (laid_sections events)"
  by (rule sections_disjoint_in_file [OF order_gives_layout_input [OF assms]])

theorem linked_sections_disjoint_witness:
  "\<exists>events segs rs ss. output_order demo_kind (described demo_table) = Some (events, segs)
    \<and> layout_section_parts demo_args (described demo_table) (map (layout_segment (\<lambda>_. 0)) segs) (replicate 404 8) events
        = Some rs
    \<and> layout_sections (described demo_table) rs = Some ss
    \<and> sorted_wrt (\<lambda>s t. snd (in_file (ss ! s)) \<le> fst (in_file (ss ! t))) (laid_sections events)"
proof -
  obtain events segs where run: "output_order demo_kind (described demo_table) = Some (events, segs)"
    by (rule demo_runs)
  then show ?thesis
    using linked_sections_disjoint [OF demo_table_reachable demo_table_size run demo_table_fits [folded demo_args_def], of "\<lambda>_. 0"] by blast
qed

text \<open>C13: the computation of the order returns, with at most 256 segments, whenever the table has no more than
  eight custom sections beside the built-in ones.\<close>

theorem output_order_returns:
  assumes "table_reachable base t" "num_sections (described t) \<le> 2 ^ 32" "length (custom_primaries (described t)) \<le> 8"
  shows "\<exists>events segs. output_order k (described t) = Some (events, segs) \<and> length segs \<le> 256"
  using output_order_total [OF reachable_sections_ok(1) [OF assms(1,2)] reachable_built_ins_primary [OF assms(1,2)]]
    assms(3) by simp

theorem output_order_returns_witness:
  "\<exists>events segs. output_order SharedObject (described demo_table) = Some (events, segs) \<and> length segs \<le> 256"
  using output_order_returns [OF demo_table_reachable demo_table_size] demo_table_customs by simp

end
