(* ===== verification/Script_Expr.thy ===== *)
theory Script_Expr
  imports Section_Table Part_Layout
begin

text \<open>
  Expressions of linker scripts: the two evaluators of \<open>expression_eval.rs\<close>, the one for constants and the
  one that runs after the layout and reads the output sections and the memory regions of the script, and
  the evaluation of all ASSERT commands. Evaluating a symbol emits a warning, so an evaluation carries the
  list of warnings. The bounds of a memory region are expressions that may refer to other regions, or to
  themselves, so that the recursion of the source need not end: the model has fuel for the references that
  are followed, and \<open>OutOfFuel\<close> is no result of the program.
\<close>

section \<open>Expressions\<close>

datatype segment_name = TextSegment | RodataSegment | DataSegment | BssSegment | OtherSegment

datatype expression =
  Number u64
| Symbol string
| LocationCounter
| Add expression expression
| Subtract expression expression
| Multiply expression expression
| Divide expression expression
| LessThan expression expression
| GreaterThan expression expression
| LessEqual expression expression
| GreaterEqual expression expression
| Equal expression expression
| NotEqual expression expression
| Sizeof string
| Alignof string
| Origin string
| Length string
| Addr string
| Loadaddr string
| Align expression
| MinOf expression expression
| MaxOf expression expression
| SegmentStartOf segment_name expression
| BitwiseAnd expression expression
| BitwiseOr expression expression
| BitwiseXor expression expression
| LeftShift expression expression
| RightShift expression expression
| LogicalAnd expression expression
| LogicalOr expression expression
| LogicalNot expression
| BitwiseNot expression
| Negate expression

record memory_region =
  region_name :: string
  region_origin :: expression
  region_length :: expression

section \<open>Constants\<close>

datatype eval_error =
  DivisionByZero
| NotConstant
| AlignZero
| RegionNotFound string
| SectionNotFound string

definition both :: "eval_error + u64 \<Rightarrow> eval_error + u64 \<Rightarrow> (u64 \<Rightarrow> u64 \<Rightarrow> u64) \<Rightarrow> eval_error + u64" where
  "both l r f = (case l of Inl e \<Rightarrow> Inl e | Inr a \<Rightarrow> (case r of Inl e \<Rightarrow> Inl e | Inr b \<Rightarrow> Inr (f a b)))"

fun eval_constant_expr :: "expression \<Rightarrow> eval_error + u64" where
  "eval_constant_expr (Number n) = Inr n"
| "eval_constant_expr (Add l r) = both (eval_constant_expr l) (eval_constant_expr r) (+)"
| "eval_constant_expr (Subtract l r) = both (eval_constant_expr l) (eval_constant_expr r) (-)"
| "eval_constant_expr (Multiply l r) = both (eval_constant_expr l) (eval_constant_expr r) (*)"
| "eval_constant_expr (Divide l r) =
     (case eval_constant_expr r of
        Inl e \<Rightarrow> Inl e
      | Inr d \<Rightarrow> if d = 0 then Inl DivisionByZero
          else (case eval_constant_expr l of Inl e \<Rightarrow> Inl e | Inr n \<Rightarrow> Inr (n div d)))"
| "eval_constant_expr (Negate x) = (case eval_constant_expr x of Inl e \<Rightarrow> Inl e | Inr n \<Rightarrow> Inr (- n))"
| "eval_constant_expr _ = Inl NotConstant"

section \<open>Evaluation after the layout\<close>

text \<open>The result of an evaluation, which is run on the list of the symbols warned about so far.\<close>

datatype outcome = Value u64 | Failed eval_error | Panicked | OutOfFuel

type_synonym eval = "string list \<Rightarrow> outcome \<times> string list"

definition give :: "u64 \<Rightarrow> eval" where
  "give v ws = (Value v, ws)"

definition fail :: "eval_error \<Rightarrow> eval" where
  "fail e ws = (Failed e, ws)"

definition and_then :: "eval \<Rightarrow> (u64 \<Rightarrow> eval) \<Rightarrow> eval" where
  "and_then m f ws = (case m ws of (Value v, ws) \<Rightarrow> f v ws | stopped \<Rightarrow> stopped)"

definition operands :: "eval \<Rightarrow> eval \<Rightarrow> (u64 \<Rightarrow> u64 \<Rightarrow> u64) \<Rightarrow> eval" where
  "operands l r f = and_then l (\<lambda>a. and_then r (\<lambda>b. give (f a b)))"

definition truth :: "bool \<Rightarrow> u64" where
  "truth b = (if b then 1 else 0)"

record script_env =
  env_table :: section_table
  env_layouts :: "output_record_layout list"
  env_regions :: "memory_region list"

definition layout_of :: "script_env \<Rightarrow> output_section_id \<Rightarrow> (output_record_layout \<Rightarrow> u64) \<Rightarrow> eval" where
  "layout_of env s f ws = (case nth_opt (env_layouts env) s of None \<Rightarrow> (Panicked, ws) | Some l \<Rightarrow> give (f l) ws)"

definition section_size :: "script_env \<Rightarrow> string \<Rightarrow> eval" where
  "section_size env nm =
     (case section_id_by_name nm (env_table env) of None \<Rightarrow> give 0 | Some s \<Rightarrow> layout_of env s mem_size)"

definition section_align :: "script_env \<Rightarrow> string \<Rightarrow> eval" where
  "section_align env nm =
     (case section_id_by_name nm (env_table env) of
        None \<Rightarrow> give 0
      | Some s \<Rightarrow> layout_of env s (\<lambda>l. alignment_value (rec_alignment l)))"

definition section_address :: "script_env \<Rightarrow> string \<Rightarrow> eval" where
  "section_address env nm =
     (case section_id_by_name nm (env_table env) of
        None \<Rightarrow> fail (SectionNotFound nm)
      | Some s \<Rightarrow> layout_of env s mem_offset)"

definition find_region :: "script_env \<Rightarrow> string \<Rightarrow> memory_region option" where
  "find_region env nm = List.find (\<lambda>r. region_name r = nm) (env_regions env)"

fun evaluate_expression :: "nat \<Rightarrow> script_env \<Rightarrow> expression \<Rightarrow> eval" where
  "evaluate_expression n env (Number v) = give v"
| "evaluate_expression n env LocationCounter = give 0"
| "evaluate_expression n env (Symbol nm) = (\<lambda>ws. (Value 1, ws @ [nm]))"
| "evaluate_expression n env (Add l r) = operands (evaluate_expression n env l) (evaluate_expression n env r) (+)"
| "evaluate_expression n env (Subtract l r) = operands (evaluate_expression n env l) (evaluate_expression n env r) (-)"
| "evaluate_expression n env (Multiply l r) = operands (evaluate_expression n env l) (evaluate_expression n env r) (*)"
| "evaluate_expression n env (Divide l r) =
     and_then (evaluate_expression n env r) (\<lambda>d.
       if d = 0 then fail DivisionByZero else and_then (evaluate_expression n env l) (\<lambda>v. give (v div d)))"
| "evaluate_expression n env (LessThan l r) =
     operands (evaluate_expression n env l) (evaluate_expression n env r) (\<lambda>a b. truth (a < b))"
| "evaluate_expression n env (GreaterThan l r) =
     operands (evaluate_expression n env l) (evaluate_expression n env r) (\<lambda>a b. truth (a > b))"
| "evaluate_expression n env (LessEqual l r) =
     operands (evaluate_expression n env l) (evaluate_expression n env r) (\<lambda>a b. truth (a \<le> b))"
| "evaluate_expression n env (GreaterEqual l r) =
     operands (evaluate_expression n env l) (evaluate_expression n env r) (\<lambda>a b. truth (a \<ge> b))"
| "evaluate_expression n env (Equal l r) =
     operands (evaluate_expression n env l) (evaluate_expression n env r) (\<lambda>a b. truth (a = b))"
| "evaluate_expression n env (NotEqual l r) =
     operands (evaluate_expression n env l) (evaluate_expression n env r) (\<lambda>a b. truth (a \<noteq> b))"
| "evaluate_expression n env (Sizeof nm) = section_size env nm"
| "evaluate_expression n env (Alignof nm) = section_align env nm"
| "evaluate_expression n env (Addr nm) = section_address env nm"
| "evaluate_expression n env (Loadaddr nm) = section_address env nm"
| "evaluate_expression n env (Align e) =
     and_then (evaluate_expression n env e) (\<lambda>a.
       if a = 0 then fail AlignZero else give ((0 + (a - 1)) AND NOT (a - 1)))"
| "evaluate_expression n env (MinOf l r) = operands (evaluate_expression n env l) (evaluate_expression n env r) min"
| "evaluate_expression n env (MaxOf l r) = operands (evaluate_expression n env l) (evaluate_expression n env r) max"
| "evaluate_expression n env (BitwiseAnd l r) = operands (evaluate_expression n env l) (evaluate_expression n env r) (AND)"
| "evaluate_expression n env (BitwiseOr l r) = operands (evaluate_expression n env l) (evaluate_expression n env r) (OR)"
| "evaluate_expression n env (BitwiseXor l r) = operands (evaluate_expression n env l) (evaluate_expression n env r) (XOR)"
| "evaluate_expression n env (LeftShift l r) =
     operands (evaluate_expression n env l) (evaluate_expression n env r) (\<lambda>a b. shl a (unat (ucast b :: u32)))"
| "evaluate_expression n env (RightShift l r) =
     operands (evaluate_expression n env l) (evaluate_expression n env r) (\<lambda>a b. shr a (unat (ucast b :: u32)))"
| "evaluate_expression n env (LogicalAnd l r) =
     and_then (evaluate_expression n env l) (\<lambda>a.
       if a \<noteq> 0 then and_then (evaluate_expression n env r) (\<lambda>b. give (truth (b \<noteq> 0))) else give 0)"
| "evaluate_expression n env (LogicalOr l r) =
     and_then (evaluate_expression n env l) (\<lambda>a.
       if a \<noteq> 0 then give 1 else and_then (evaluate_expression n env r) (\<lambda>b. give (truth (b \<noteq> 0))))"
| "evaluate_expression n env (LogicalNot e) = and_then (evaluate_expression n env e) (\<lambda>a. give (truth (a = 0)))"
| "evaluate_expression n env (BitwiseNot e) = and_then (evaluate_expression n env e) (\<lambda>a. give (NOT a))"
| "evaluate_expression n env (Negate e) = and_then (evaluate_expression n env e) (\<lambda>a. give (- a))"
| "evaluate_expression n env (Origin nm) =
     (case find_region env nm of
        None \<Rightarrow> fail (RegionNotFound nm)
      | Some region \<Rightarrow> (case n of 0 \<Rightarrow> Pair OutOfFuel | Suc m \<Rightarrow> evaluate_expression m env (region_origin region)))"
| "evaluate_expression n env (Length nm) =
     (case find_region env nm of
        None \<Rightarrow> fail (RegionNotFound nm)
      | Some region \<Rightarrow> (case n of 0 \<Rightarrow> Pair OutOfFuel | Suc m \<Rightarrow> evaluate_expression m env (region_length region)))"
| "evaluate_expression n env (SegmentStartOf nm e) = evaluate_expression n env e"

section \<open>Assertions\<close>

record assert_command =
  assert_expression :: expression
  assert_message :: string
  assert_remainder :: string

record parsed_script =
  file_bytes :: string
  assertions :: "assert_command list"
  memory_regions :: "memory_region list"

datatype input_group = LinkerScripts "parsed_script list" | OtherGroup

definition line_number :: "string \<Rightarrow> string \<Rightarrow> u32" where
  "line_number bytes remainder =
     of_nat (length (filter (\<lambda>c. c = CHR 0x0A) (take (length bytes - length remainder) bytes))) + 1"

datatype assert_outcome =
  Passed
| AssertFailed u32 string
| EvaluationFailed u32 eval_error
| AssertPanicked
| AssertOutOfFuel

definition check_assertion :: "nat \<Rightarrow> section_table \<Rightarrow> output_record_layout list \<Rightarrow> parsed_script
    \<Rightarrow> assert_command \<Rightarrow> string list \<Rightarrow> assert_outcome \<times> string list" where
  "check_assertion n table layouts script a ws =
     (let line = line_number (file_bytes script) (assert_remainder a);
          env = \<lparr>env_table = table, env_layouts = layouts, env_regions = memory_regions script\<rparr>
      in case evaluate_expression n env (assert_expression a) ws of
           (Value v, ws) \<Rightarrow> (if v = 0 then AssertFailed line (assert_message a) else Passed, ws)
         | (Failed e, ws) \<Rightarrow> (EvaluationFailed line e, ws)
         | (Panicked, ws) \<Rightarrow> (AssertPanicked, ws)
         | (OutOfFuel, ws) \<Rightarrow> (AssertOutOfFuel, ws))"

fun check_assertions :: "nat \<Rightarrow> section_table \<Rightarrow> output_record_layout list \<Rightarrow> (parsed_script \<times> assert_command) list
    \<Rightarrow> string list \<Rightarrow> assert_outcome \<times> string list" where
  "check_assertions n table layouts [] ws = (Passed, ws)"
| "check_assertions n table layouts ((script, a) # rest) ws =
     (case check_assertion n table layouts script a ws of
        (Passed, ws) \<Rightarrow> check_assertions n table layouts rest ws
      | stopped \<Rightarrow> stopped)"

definition all_assertions :: "input_group list \<Rightarrow> (parsed_script \<times> assert_command) list" where
  "all_assertions groups =
     concat (map (\<lambda>g. case g of
         LinkerScripts scripts \<Rightarrow> concat (map (\<lambda>script. map (Pair script) (assertions script)) scripts)
       | OtherGroup \<Rightarrow> []) groups)"

definition evaluate_assertions :: "nat \<Rightarrow> section_table \<Rightarrow> output_record_layout list \<Rightarrow> input_group list
    \<Rightarrow> string list \<Rightarrow> assert_outcome \<times> string list" where
  "evaluate_assertions n table layouts groups = check_assertions n table layouts (all_assertions groups)"

end
