(* ===== verification/Script_Expr_Spec.thy ===== *)
theory Script_Expr_Spec
  imports Script_Expr
begin

text \<open>
  What the evaluation of linker scripts promises: the two evaluators agree on constants, an evaluation
  whose region references do not go round in circles ends, warnings never change a value, and the
  assertions of all scripts pass exactly when each of them is non-zero. Properties of an evaluation that
  are closed under its combinators are proved once, in the locale \<open>closed_property\<close>.
\<close>

section \<open>Properties closed under evaluation\<close>

text \<open>The regions an expression refers to, and enough fuel for references that do not go round in circles.\<close>

fun regions_of :: "expression \<Rightarrow> string set" where
  "regions_of (Origin nm) = {nm}"
| "regions_of (Length nm) = {nm}"
| "regions_of (Align e) = regions_of e"
| "regions_of (SegmentStartOf s e) = regions_of e"
| "regions_of (LogicalNot e) = regions_of e"
| "regions_of (BitwiseNot e) = regions_of e"
| "regions_of (Negate e) = regions_of e"
| "regions_of (Add l r) = regions_of l \<union> regions_of r"
| "regions_of (Subtract l r) = regions_of l \<union> regions_of r"
| "regions_of (Multiply l r) = regions_of l \<union> regions_of r"
| "regions_of (Divide l r) = regions_of l \<union> regions_of r"
| "regions_of (LessThan l r) = regions_of l \<union> regions_of r"
| "regions_of (GreaterThan l r) = regions_of l \<union> regions_of r"
| "regions_of (LessEqual l r) = regions_of l \<union> regions_of r"
| "regions_of (GreaterEqual l r) = regions_of l \<union> regions_of r"
| "regions_of (Equal l r) = regions_of l \<union> regions_of r"
| "regions_of (NotEqual l r) = regions_of l \<union> regions_of r"
| "regions_of (MinOf l r) = regions_of l \<union> regions_of r"
| "regions_of (MaxOf l r) = regions_of l \<union> regions_of r"
| "regions_of (BitwiseAnd l r) = regions_of l \<union> regions_of r"
| "regions_of (BitwiseOr l r) = regions_of l \<union> regions_of r"
| "regions_of (BitwiseXor l r) = regions_of l \<union> regions_of r"
| "regions_of (LeftShift l r) = regions_of l \<union> regions_of r"
| "regions_of (RightShift l r) = regions_of l \<union> regions_of r"
| "regions_of (LogicalAnd l r) = regions_of l \<union> regions_of r"
| "regions_of (LogicalOr l r) = regions_of l \<union> regions_of r"
| "regions_of _ = {}"

definition below :: "script_env \<Rightarrow> (string \<Rightarrow> nat) \<Rightarrow> nat \<Rightarrow> expression \<Rightarrow> bool" where
  "below env rank n e \<longleftrightarrow> (\<forall>nm \<in> regions_of e. find_region env nm \<noteq> None \<longrightarrow> rank nm < n)"

definition ranked :: "script_env \<Rightarrow> (string \<Rightarrow> nat) \<Rightarrow> bool" where
  "ranked env rank \<longleftrightarrow> (\<forall>r \<in> set (env_regions env).
     below env rank (rank (region_name r)) (region_origin r) \<and> below env rank (rank (region_name r)) (region_length r))"

locale closed_property =
  fixes P :: "eval \<Rightarrow> bool"
  assumes give: "P (give v)"
    and fail: "P (fail e)"
    and warn: "P (\<lambda>ws. (Value v, ws @ [nm]))"
    and panic: "P (Pair Panicked)"
    and and_then: "P m \<Longrightarrow> (\<And>v. P (f v)) \<Longrightarrow> P (and_then m f)"
begin

lemma operands: "P l \<Longrightarrow> P r \<Longrightarrow> P (operands l r f)"
  by (simp add: operands_def and_then give)

lemma layout_of: "P (layout_of env s f)"
proof (cases "nth_opt (env_layouts env) s")
  case None
  then have "layout_of env s f = Pair Panicked"
    by (intro ext) (simp add: layout_of_def)
  then show ?thesis
    using panic by simp
next
  case (Some l)
  then have "layout_of env s f = give (f l)"
    by (intro ext) (simp add: layout_of_def nth_opt_def)
  then show ?thesis
    using give by simp
qed

lemma section_values: "P (section_size env nm)" "P (section_align env nm)" "P (section_address env nm)"
  using layout_of give fail
  by (auto simp: section_size_def section_align_def section_address_def split: option.splits)

text \<open>A closed property holds of every evaluation that does not run out of fuel, or of all if it allows that.\<close>

lemma evaluation:
  assumes "P (Pair OutOfFuel) \<or> ranked env rank \<and> below env rank n e"
  shows "P (evaluate_expression n env e)"
  using assms
proof (induction n env e rule: evaluate_expression.induct)
  case (31 n env nm)
  show ?case
  proof (cases "find_region env nm")
    case (Some r)
    then have r: "r \<in> set (env_regions env)" "region_name r = nm"
      by (auto simp: find_region_def find_Some_iff)
    show ?thesis
    proof (cases n)
      case (Suc m)
      then have "P (Pair OutOfFuel) \<or> ranked env rank \<and> below env rank m (region_origin r)"
        using "31.prems" Some r by (force simp: below_def ranked_def)
      then show ?thesis
        using "31.IH" [OF Some Suc] Some Suc by simp
    qed (use "31.prems" Some in \<open>auto simp: below_def\<close>)
  qed (simp add: fail)
next
  case (32 n env nm)
  show ?case
  proof (cases "find_region env nm")
    case (Some r)
    then have r: "r \<in> set (env_regions env)" "region_name r = nm"
      by (auto simp: find_region_def find_Some_iff)
    show ?thesis
    proof (cases n)
      case (Suc m)
      then have "P (Pair OutOfFuel) \<or> ranked env rank \<and> below env rank m (region_length r)"
        using "32.prems" Some r by (force simp: below_def ranked_def)
      then show ?thesis
        using "32.IH" [OF Some Suc] Some Suc by simp
    qed (use "32.prems" Some in \<open>auto simp: below_def\<close>)
  qed (simp add: fail)
qed (auto simp: below_def section_values warn intro!: operands and_then give fail)

end

interpretation ending: closed_property "\<lambda>m. \<forall>ws. fst (m ws) \<noteq> OutOfFuel"
proof
  fix m :: eval and f :: "u64 \<Rightarrow> eval"
  assume "\<forall>ws. fst (m ws) \<noteq> OutOfFuel" "\<And>v. \<forall>ws. fst (f v ws) \<noteq> OutOfFuel"
  then show "\<forall>ws. fst (and_then m f ws) \<noteq> OutOfFuel"
    by (auto simp: and_then_def split: prod.splits outcome.splits) (metis fst_conv)+
qed (simp_all add: give_def fail_def)

interpretation warning: closed_property "\<lambda>m. \<forall>ws. m ws = (fst (m []), ws @ snd (m []))"
proof
  fix m :: eval and f :: "u64 \<Rightarrow> eval"
  assume m: "\<forall>ws. m ws = (fst (m []), ws @ snd (m []))" and f: "\<And>v. \<forall>ws. f v ws = (fst (f v []), ws @ snd (f v []))"
  show "\<forall>ws. and_then m f ws = (fst (and_then m f []), ws @ snd (and_then m f []))"
  proof
    fix ws
    obtain a us where a: "m [] = (a, us)"
      by fastforce
    then have "m ws = (a, ws @ us)"
      using m by (metis fst_conv snd_conv)
    then show "and_then m f ws = (fst (and_then m f []), ws @ snd (and_then m f []))"
      using a f [rule_format, of _ "ws @ us"] f [rule_format, of _ us]
      by (cases a) (simp_all add: and_then_def)
  qed
qed (simp_all add: give_def fail_def)

lemma warnings_append: "evaluate_expression n env e ws
    = (fst (evaluate_expression n env e []), ws @ snd (evaluate_expression n env e []))"
  by (rule warning.evaluation [rule_format]) simp

section \<open>More fuel changes nothing\<close>

definition refines_eval :: "eval \<Rightarrow> eval \<Rightarrow> bool" where
  "refines_eval m m' \<longleftrightarrow> (\<forall>ws. fst (m ws) \<noteq> OutOfFuel \<longrightarrow> m' ws = m ws)"

lemma refines_and_then:
  "refines_eval m m' \<Longrightarrow> (\<And>v. refines_eval (f v) (f' v)) \<Longrightarrow> refines_eval (and_then m f) (and_then m' f')"
  by (fastforce simp: refines_eval_def and_then_def split: prod.splits outcome.splits)

lemma refines_same: "refines_eval m m"
  by (simp add: refines_eval_def)

lemma refines_operands: "refines_eval l l' \<Longrightarrow> refines_eval r r' \<Longrightarrow> refines_eval (operands l r f) (operands l' r' f)"
  by (simp add: operands_def refines_and_then refines_same)

lemma refines_stop: "refines_eval (Pair OutOfFuel) m"
  by (simp add: refines_eval_def)

lemma evaluate_more_fuel: "refines_eval (evaluate_expression n env e) (evaluate_expression (n + k) env e)"
  by (induction n env e rule: evaluate_expression.induct)
    (auto intro!: refines_operands refines_and_then refines_same simp: refines_stop split: option.splits nat.splits)

section \<open>Assertions in order\<close>

definition assertion_holds :: "nat \<Rightarrow> section_table \<Rightarrow> output_record_layout list \<Rightarrow> parsed_script \<times> assert_command \<Rightarrow> bool" where
  "assertion_holds n table layouts sa =
     (case fst (evaluate_expression n
         \<lparr>env_table = table, env_layouts = layouts, env_regions = memory_regions (fst sa)\<rparr> (assert_expression (snd sa)) []) of
        Value v \<Rightarrow> v \<noteq> 0
      | _ \<Rightarrow> False)"

lemma assertion_holds_iff:
  "assertion_holds n table layouts (script, a) \<longleftrightarrow> fst (check_assertion n table layouts script a []) = Passed"
  by (simp add: assertion_holds_def check_assertion_def Let_def split: prod.splits outcome.splits)

lemma check_assertion_warnings:
  "check_assertion n table layouts script a ws = (fst (check_assertion n table layouts script a []),
     ws @ snd (check_assertion n table layouts script a []))"
  by (simp add: check_assertion_def Let_def warnings_append [where ws = ws] split: prod.split outcome.split)

lemma check_assertions_split:
  "list_all (assertion_holds n table layouts) pre \<Longrightarrow>
   fst (check_assertions n table layouts (pre @ rest) ws) = fst (check_assertions n table layouts rest (ws @
     concat (map (\<lambda>(script, a). snd (check_assertion n table layouts script a [])) pre)))"
proof (induction pre arbitrary: ws)
  case (Cons sa pre)
  obtain script a where sa: "sa = (script, a)"
    by (cases sa)
  then have "check_assertion n table layouts script a ws
      = (Passed, ws @ snd (check_assertion n table layouts script a []))"
    using Cons.prems check_assertion_warnings [of n table layouts script a ws] by (simp add: assertion_holds_iff)
  then show ?case
    using Cons sa by simp
qed simp

lemma check_assertions_stop:
  assumes "\<not> assertion_holds n table layouts (script, a)"
  shows "fst (check_assertions n table layouts ((script, a) # rest) ws) = fst (check_assertion n table layouts script a [])"
proof -
  have "fst (check_assertion n table layouts script a []) \<noteq> Passed"
    using assms by (simp add: assertion_holds_iff)
  then show ?thesis
    using check_assertion_warnings [of n table layouts script a ws]
    by (cases "fst (check_assertion n table layouts script a [])") simp_all
qed

section \<open>Properties\<close>

text \<open>C36: on every expression that the evaluator for constants accepts, the evaluation after the layout gives
  the same value, and the same error for a division by zero, whatever the sections and regions are, and
  warns about nothing.\<close>

theorem constant_evaluators_agree:
  assumes "eval_constant_expr e \<noteq> Inl NotConstant"
  shows "evaluate_expression n env e ws = (case eval_constant_expr e of Inr v \<Rightarrow> Value v | Inl x \<Rightarrow> Failed x, ws)"
  using assms
proof (induction e rule: eval_constant_expr.induct)
  case (5 l r)
  then show ?case
    by (cases "eval_constant_expr r"; cases "eval_constant_expr l")
      (auto simp: and_then_def give_def fail_def split: if_splits)
qed (auto simp: both_def operands_def and_then_def give_def split: sum.splits)

theorem constant_evaluators_agree_witness:
  "evaluate_expression 0 \<lparr>env_table = with_base_address 0, env_layouts = [], env_regions = []\<rparr>
     (Divide (Subtract (Number 0) (Number 1)) (Number 2)) [] = (Value 0x7FFFFFFFFFFFFFFF, [])"
proof -
  have "eval_constant_expr (Divide (Subtract (Number 0) (Number 1)) (Number 2)) = Inr 0x7FFFFFFFFFFFFFFF"
    by (simp add: both_def)
  then show ?thesis
    using constant_evaluators_agree [of "Divide (Subtract (Number 0) (Number 1)) (Number 2)"] by simp
qed

text \<open>C37: if the memory regions can be ranked so that the bounds of each refer only to regions of lower rank,
  then fuel above the ranks of the regions in an expression is enough: the evaluation ends, and more fuel
  does not change its result.\<close>

theorem ranked_evaluation_ends:
  assumes "ranked env rank" "below env rank n e"
  shows "fst (evaluate_expression n env e ws) \<noteq> OutOfFuel
    \<and> evaluate_expression (n + k) env e ws = evaluate_expression n env e ws"
proof -
  have "fst (evaluate_expression n env e ws) \<noteq> OutOfFuel"
    using ending.evaluation [rule_format] assms by blast
  then show ?thesis
    using evaluate_more_fuel by (simp add: refines_eval_def)
qed

definition demo_env :: script_env where
  "demo_env = \<lparr>env_table = with_base_address 0, env_layouts = [], env_regions =
      [\<lparr>region_name = ''ROM'', region_origin = Number 0x1000, region_length = Number 0x100\<rparr>,
       \<lparr>region_name = ''RAM'', region_origin = Add (Origin ''ROM'') (Length ''ROM''), region_length = Number 1\<rparr>]\<rparr>"

theorem ranked_evaluation_ends_witness:
  "fst (evaluate_expression 2 demo_env (Origin ''RAM'') []) = Value 0x1100
    \<and> evaluate_expression 40 demo_env (Origin ''RAM'') [] = evaluate_expression 2 demo_env (Origin ''RAM'') []"
proof -
  let ?rank = "\<lambda>nm. if nm = ''RAM'' then 1 else (0 :: nat)"
  have "ranked demo_env ?rank" "below demo_env ?rank 2 (Origin ''RAM'')"
    by (simp_all add: ranked_def below_def demo_env_def)
  from ranked_evaluation_ends [OF this, of "[]" 38] show ?thesis
    by (simp add: demo_env_def find_region_def operands_def and_then_def give_def numeral_2_eq_2)
qed



section \<open>Where the evaluation departs from its documentation\<close>

text \<open>
  A symbol is documented to skip its assertion: a warning is emitted and the value 1 returned for it. The
  value is that of the symbol only, so an assertion that compares the symbol fails the link.
\<close>

theorem symbol_does_not_skip_assertion:
  "check_assertion n table layouts script
     \<lparr>assert_expression = Equal (Symbol nm) (Number 0), assert_message = msg, assert_remainder = file_bytes script\<rparr> ws
   = (AssertFailed 1 msg, ws @ [nm])"
  by (simp add: check_assertion_def line_number_def operands_def and_then_def give_def truth_def)

text \<open>A region whose origin refers to itself is followed for ever, until the stack of the process overflows.\<close>

theorem region_cycle_never_ends:
  assumes "find_region env nm = Some r" "region_origin r = Origin nm"
  shows "evaluate_expression n env (Origin nm) ws = (OutOfFuel, ws)"
  using assms by (induction n) simp_all

end
