(* ===== verification/Spec2Isabelle.thy ===== *)
theory Spec2Isabelle
  imports Reloc_Spec Riscv_Relax Aarch64_Relax X86_Choice_Spec Got_Entries_Spec Symbol_Address_Spec Thunks Linked_Output Script_Expr_Spec
begin

text \<open>
  SLD is the linker of the SRS toolchain (\<open>src/sld\<close>). It loads object files, resolves their symbols,
  lays the output out, relaxes code, and writes every section with its relocations applied. This
  development verifies the computing core of that pipeline for ELF: the relocation engine of the crate
  \<open>linker-utils\<close> and, of the crate \<open>libsld\<close>, everything between the table of output sections and the
  addresses that relocations use. Names follow the source; a definition of the same name as a function under
  \<open>src/\<close> translates that function.

  \<^bold>\<open>The program.\<close> A link first builds the table of output sections (\<open>output_section_id.rs\<close>): the built-in
  ELF sections, custom sections named by inputs or scripts, and secondary sections that are merged into
  primary ones. The table is turned into an order, a list of events that start and end program segments
  around sections (\<open>OutputOrderBuilder\<close>, \<open>elf.rs\<close>). Sections are divided into parts by alignment
  (\<open>part_id.rs\<close>, \<open>output_section_part_map.rs\<close>). The layout (\<open>layout.rs\<close>) walks the events and gives
  every part an offset in the file and an address in memory, from which sections, segments and the shares of
  the groups of input files follow. On RISC-V the layout alternates with relaxation passes that delete bytes
  from input sections (\<open>elf_riscv64.rs\<close>, \<open>relaxation.rs\<close>); elsewhere thunks extend the range of branches
  (\<open>thunks.rs\<close>). Threads mark what symbols need with atomic flags (\<open>value_flags.rs\<close>). Finally every
  relocation is looked up in the table of its architecture, perhaps replaced by a relaxed form, checked
  against the range of its field and written into the instruction (\<open>elf.rs\<close>, \<open>aarch64.rs\<close>,
  \<open>riscv64.rs\<close>, \<open>loongarch64.rs\<close>, \<open>x86_64.rs\<close> of \<open>linker-utils\<close>).

  \<^bold>\<open>Conventions.\<close> The build profile (\<open>opt\<close>, which inherits \<open>release\<close>) wraps arithmetic and drops
  \<open>debug_assert!\<close>; integers are words of their width. A result \<open>None\<close> is a panic; an error that the source
  reports is a value of an error type. Identifiers of sections, parts and symbols, and lengths, are natural
  numbers; where the source cuts one to 32 bits the cut is written out. Loops are structural recursions or
  \<open>try_fold\<close>, a fold that stops at a panic (\<open>Rust_Prelude\<close>).

  \<^bold>\<open>Theories.\<close>
  \<^item> \<open>Rust_Prelude\<close>: machine integers, casts, bytes and slices, checked folds, and the shared lemmas and
    collections. \<open>Bit_Utils\<close>: \<open>bit_misc.rs\<close> and \<open>utils.rs\<close>.
  \<^item> \<open>Elf_Types\<close>: the vocabulary of \<open>linker-utils/src/elf.rs\<close>. \<open>Aarch64_Insn\<close>, \<open>Riscv_Insn\<close>,
    \<open>Loongarch_Insn\<close>: the instruction encoders and decoders. \<open>Reloc_Tables\<close>: the four relocation tables.
    \<open>Reloc_Apply\<close>: \<open>write_to_buffer\<close>, through the locale \<open>insn_encoder\<close> that each architecture implements.
    \<open>Reloc_Spec\<close>: the relocated instruction or field holds the computed value, which bytes change, when the
    writer fails and when it panics.
  \<^item> \<open>Relax_Types\<close>, \<open>Aarch64_Relax\<close>, \<open>Riscv_Relax\<close>, \<open>X86_Relax\<close>: the in-place relaxations, under the
    locale \<open>in_place_relaxation\<close>; registers, operand sizes and values are kept.
  \<^item> \<open>Output_Kind\<close>: what is linked (\<open>output_kind.rs\<close>). \<open>Relax_Choice\<close>: \<open>new_relaxation\<close> of the four back
    ends (\<open>elf_x86_64.rs\<close>, \<open>elf_aarch64.rs\<close>, \<open>elf_riscv64.rs\<close>, \<open>elf_loongarch64.rs\<close>) and its two callers, the
    layout and the writer. \<open>Relax_Choice_Spec\<close>: what the writer needs was reserved, and symbols of shared
    objects stay behind the GOT (locale \<open>relaxing_arch\<close>). \<open>X86_Choice_Spec\<close>: a chosen x86-64 relaxation can be
    applied and computes the same. \<open>Plt_Stubs\<close>: the PLT entries of the four architectures (locale
    \<open>plt_writer\<close>) and the thunks, decoded again.
  \<^item> \<open>Got_Tables\<close>: the GOT, the PLT and the dynamic relocations of symbols, from \<open>allocate_resolution\<close> and
    \<open>create_resolution\<close> (\<open>elf.rs\<close>) to \<open>process_resolution\<close> and \<open>validate_empty\<close> of the table writer
    (\<open>elf_writer.rs\<close>). \<open>Got_Tables_Spec\<close>: what a symbol costs, in the layout and in the writer.
    \<open>Got_Entries_Spec\<close>: over the symbols of a group the tables come out even and the entries are at the
    addresses of the layout.
  \<^item> \<open>Slice_Search\<close>: the binary searches of the standard library, total and correct. \<open>Relax_Deltas\<close>: deletion
    lists, their translations of offsets and the compacting copy of \<open>elf_writer.rs\<close>. \<open>Relax_Table\<close>: the sparse
    table of deletion lists, a refinement of a finite map (locale \<open>delta_table\<close>).
  \<^item> \<open>Alignment\<close>, \<open>Output_Parts\<close>, \<open>Elf_Sections\<close>: alignments, the numbering of sections and parts and the
    maps over them, the table of built-in ELF sections. \<open>Section_Table\<close>: the operations that grow the table of
    output sections as a step relation, with the invariant of all reachable tables.
  \<^item> \<open>Output_Order\<close>: the order of sections and segments. \<open>Output_Order_Spec\<close>: its events replayed against the
    segments that are open. \<open>Output_Order_Total\<close>: it returns.
  \<^item> \<open>Part_Layout\<close>, \<open>Part_Layout_Spec\<close>: the placement of parts; they are disjoint, aligned, and congruent
    modulo the page in load segments. \<open>Section_Layout\<close>: sections as hulls of parts, shares of groups, segments
    that cover their sections. \<open>Linked_Output\<close>: table, order and layout together.
  \<^item> \<open>Riscv_Scan\<close>, \<open>Riscv_Scan_Spec\<close>: \<open>collect_relaxation_deltas\<close>. \<open>Relax_Pass\<close>, \<open>Relax_Pass_Spec\<close>: the
    iterated relaxation, its bookkeeping and the consistency of what is written. \<open>Symbol_Address_Spec\<close>: the
    addresses that references resolve to. \<open>Thunks\<close>: thunk blocks, their owners, and branches without a thunk.
  \<^item> \<open>Value_Flags\<close>: the flags of symbols and the interleaved atomic updates.
  \<^item> \<open>Script_Expr\<close>, \<open>Script_Expr_Spec\<close>: linker script expressions and assertions (\<open>expression_eval.rs\<close>),
    with fuel for the references between memory regions; the evaluation ends when these have no cycle.

  \<^bold>\<open>Parameters.\<close> The numbers of relocation types, section types and segment types come from the \<open>object\<close>
  crate: functions from names (\<open>elf_constants\<close>, \<open>raw\<close>). The lengths of names in the symbol table and the
  LEB128 reader are arguments as well, as are the parsed contents of input objects.

  \<^bold>\<open>Bounds.\<close> The layout theorems assume that addresses and sizes, with one alignment gap for each part and
  segment, stay below \<open>2\<^sup>6\<^sup>3\<close>; beyond that the source wraps. The relaxation loop runs at most five times
  (\<open>MAX_RELAXATION_ITERATIONS\<close>), as in the source. A segment identifier is a byte: a 257th segment panics,
  and the order is shown to return for up to eight custom sections, each section needing at most five
  segments. Section identifiers are 32 bits wide, so the theorems on tables assume at most \<open>2\<^sup>3\<^sup>2\<close> sections.
  A group has fewer than \<open>2\<^sup>5\<^sup>6\<close> symbols, so that the sizes of its tables do not wrap.

  \<^bold>\<open>Not modelled.\<close> Loading and parsing of inputs, archives, scripts and arguments, and the writing of mapped
  buffers, which are I/O and formats of other crates; the parallel resolution of symbols and the graph
  traversal that decides which entries a symbol needs, whose shared queues and sharded maps have no sequential
  counterpart in the source (their atomic flag updates are modelled); incremental linking, a protocol on files;
  the Mach-O and WebAssembly back ends; string merging, whose hash is a third-party function; \<open>linker-diff\<close>;
  and the vendored compiler, standard library (but for the slice searches and integer operations used here)
  and code generator.
\<close>

section \<open>Relaxations of the fixed-width architectures\<close>

text \<open>C40: whatever AArch64, RISC-V or LoongArch relaxation is applied to a relocation inside its section,
  at most the four bytes at the relocation change; the offset of the relocation and its addend stay.\<close>

theorem fixed_width_relaxations_stay_in_place:
  assumes "aarch64_relax_apply ka s = Some t \<or> riscv_relax_apply kr s = Some t
      \<or> loongarch64_relax_apply kl s = Some t" "in_section s"
  shows "same_outside {unat (offset_in_section s) ..< unat (offset_in_section s) + 4}
      (section_bytes s) (section_bytes t)
    \<and> offset_in_section t = offset_in_section s \<and> addend t = addend s"
  using assms a64_relax.relax_local a64_relax.relax_stays rv_relax.relax_local rv_relax.relax_stays
    la_relax.relax_local la_relax.relax_stays by metis

theorem fixed_width_relaxations_stay_in_place_witness:
  "\<exists>t. riscv_relax_apply RVR_ReplaceWithNop
      \<lparr>section_bytes = [1, 2, 3, 4, 5], offset_in_section = 1, addend = 7\<rparr> = Some t
    \<and> same_outside {1 ..< 5} [1, 2, 3, 4, 5] (section_bytes t)
    \<and> offset_in_section t = 1 \<and> addend t = 7"
proof -
  let ?s = "\<lparr>section_bytes = [1, 2, 3, 4, 5], offset_in_section = 1, addend = 7\<rparr>"
  obtain t where "riscv_relax_apply RVR_ReplaceWithNop ?s = Some t"
    by (simp add: site_copy_def copy_from_slice_def)
  with fixed_width_relaxations_stay_in_place [of AR_NoOp ?s t RVR_ReplaceWithNop LAR_NoOp] show ?thesis
    by (simp add: in_section_def)
qed

end
